(* ===== verification/Prelude.thy ===== *)
theory Prelude
  imports Complex_Main "HOL-Library.Multiset" "HOL-Library.List_Lexorder" "HOL-Library.Char_ord"
    "HOL-Library.AList"
begin

text \<open>
  Shared vocabulary of the development: what the TypeScript sources use of the language and of
  its standard library.  Thrown errors are values of a sum type that carry the message of the
  source; \<open>Array.prototype.sort\<close> is a stable sort by a three-way comparator, whose laws are the
  locale \<open>js_comparator\<close>; a \<open>Set\<close> built from an array keeps the first occurrences in
  order; a \<open>Map\<close> is an association list in insertion order (\<open>AList.update\<close> overwrites in
  place and appends a new key).  Strings are lists of code units below 256, so \<open>length\<close> and
  \<open><\<close> count and compare code units as JavaScript does on that range; a \<open>number\<close> that the source
  validates as an integer is an \<open>int\<close>, with the safe-integer bound written out.
\<close>

named_theorems res_simps \<open>unfolding of the result-type combinators\<close>
named_theorems js_string_simps \<open>evaluation of the character and pattern tests\<close>

section \<open>Errors as values\<close>

datatype js_error = JsError string

type_synonym 'a res = "js_error + 'a"

text \<open>\<open>throws e k\<close>: a validation that threw \<open>Some e\<close> ends the function, \<open>None\<close> goes on with
  \<open>k\<close>.\<close>

definition throws :: "js_error option \<Rightarrow> 'a res \<Rightarrow> 'a res" where
  "throws e k = (case e of None \<Rightarrow> k | Some x \<Rightarrow> Inl x)"

definition throw_if :: "bool \<Rightarrow> string \<Rightarrow> 'a res \<Rightarrow> 'a res" where
  "throw_if b msg k = (if b then Inl (JsError msg) else k)"

definition rbind :: "'a res \<Rightarrow> ('a \<Rightarrow> 'b res) \<Rightarrow> 'b res" where
  "rbind r f = (case r of Inl e \<Rightarrow> Inl e | Inr x \<Rightarrow> f x)"

definition check :: "bool \<Rightarrow> string \<Rightarrow> js_error option" where
  "check ok msg = (if ok then None else Some (JsError msg))"

text \<open>A loop of validations throws at the first element that fails.\<close>

fun first_error :: "('a \<Rightarrow> js_error option) \<Rightarrow> 'a list \<Rightarrow> js_error option" where
  "first_error f [] = None"
| "first_error f (x # xs) = (case f x of Some e \<Rightarrow> Some e | None \<Rightarrow> first_error f xs)"

text \<open>\<open>xs.map(f)\<close> with an \<open>f\<close> that may throw.\<close>

fun res_map :: "('a \<Rightarrow> 'b res) \<Rightarrow> 'a list \<Rightarrow> 'b list res" where
  "res_map f [] = Inr []"
| "res_map f (x # xs) = rbind (f x) (\<lambda>y. rbind (res_map f xs) (\<lambda>ys. Inr (y # ys)))"

lemma throws_Inr [res_simps]: "throws e k = Inr x \<longleftrightarrow> e = None \<and> k = Inr x"
  by (simp add: throws_def split: option.split)

lemma throw_if_Inr [res_simps]: "throw_if b m k = Inr x \<longleftrightarrow> \<not> b \<and> k = Inr x"
  by (simp add: throw_if_def)

lemma rbind_Inr [res_simps]: "rbind r f = Inr y \<longleftrightarrow> (\<exists>x. r = Inr x \<and> f x = Inr y)"
  by (cases r) (auto simp: rbind_def)

lemma check_None [res_simps]: "check ok m = None \<longleftrightarrow> ok"
  by (simp add: check_def)

lemma throws_simps [simp]: "throws None k = k" "throws (Some e) k = Inl e"
  by (simp_all add: throws_def)

lemma rbind_simps [simp]: "rbind (Inl e) f = Inl e" "rbind (Inr x) f = f x"
  by (simp_all add: rbind_def)

lemma first_error_None [res_simps]: "first_error f xs = None \<longleftrightarrow> (\<forall>x \<in> set xs. f x = None)"
  by (induction xs) (auto split: option.splits)

lemma res_map_Inr: "res_map f xs = Inr ys \<Longrightarrow> length ys = length xs \<and> list_all2 (\<lambda>x y. f x = Inr y) xs ys"
  by (induction xs arbitrary: ys) (auto simp: res_simps)

lemma res_map_iff: "(\<And>x y. x \<in> set xs \<Longrightarrow> f x = Inr y \<longleftrightarrow> P x \<and> y = g x) \<Longrightarrow>
    res_map f xs = Inr ys \<longleftrightarrow> (\<forall>x \<in> set xs. P x) \<and> ys = map g xs"
  by (induction xs arbitrary: ys) (auto simp: res_simps)

lemma res_map_Inr_all2: "res_map f xs = Inr ys \<longleftrightarrow> list_all2 (\<lambda>x y. f x = Inr y) xs ys"
  by (induction xs arbitrary: ys) (auto simp: res_simps list_all2_Cons1)

lemma res_map_pure: "(\<And>x. x \<in> set xs \<Longrightarrow> f x = Inr (g x)) \<Longrightarrow> res_map f xs = Inr (map g xs)"
  by (induction xs) auto

section \<open>Numbers\<close>

definition max_safe_integer :: int where
  "max_safe_integer = 9007199254740991"

definition is_safe_integer :: "int \<Rightarrow> bool" where
  "is_safe_integer n \<longleftrightarrow> \<bar>n\<bar> \<le> max_safe_integer"

section \<open>Sorting by a comparator\<close>

fun js_insert :: "('a \<Rightarrow> 'a \<Rightarrow> int) \<Rightarrow> 'a \<Rightarrow> 'a list \<Rightarrow> 'a list" where
  "js_insert cmp x [] = [x]"
| "js_insert cmp x (y # ys) = (if cmp x y \<le> 0 then x # y # ys else y # js_insert cmp x ys)"

definition js_sort :: "('a \<Rightarrow> 'a \<Rightarrow> int) \<Rightarrow> 'a list \<Rightarrow> 'a list" where
  "js_sort cmp xs = foldr (js_insert cmp) xs []"

lemma js_sort_simps [simp]:
  "js_sort cmp [] = []"
  "js_sort cmp (x # xs) = js_insert cmp x (js_sort cmp xs)"
  by (simp_all add: js_sort_def)

lemma mset_js_insert [simp]: "mset (js_insert cmp x xs) = add_mset x (mset xs)"
  by (induction xs) auto

lemma mset_js_sort [simp]: "mset (js_sort cmp xs) = mset xs"
  by (induction xs) auto

lemma set_js_insert [simp]: "set (js_insert cmp x xs) = insert x (set xs)"
  by (metis mset_js_insert set_mset_add_mset_insert set_mset_mset)

lemma set_js_sort [simp]: "set (js_sort cmp xs) = set xs"
  by (metis mset_js_sort set_mset_mset)

lemma length_js_sort [simp]: "length (js_sort cmp xs) = length xs"
  by (metis mset_js_sort size_mset)

lemma js_sort_eq_Nil [simp]: "js_sort cmp xs = [] \<longleftrightarrow> xs = []"
  by (metis length_0_conv length_js_sort)

lemma distinct_js_sort [simp]: "distinct (js_sort cmp xs) = distinct xs"
  by (metis mset_js_sort mset_eq_imp_distinct_iff)

lemma distinct_map_js_sort [simp]: "distinct (map f (js_sort cmp xs)) = distinct (map f xs)"
  by (metis mset_js_sort mset_map mset_eq_imp_distinct_iff)

lemma distinct_map_perm: "mset xs = mset ys \<Longrightarrow> distinct (map f xs) \<longleftrightarrow> distinct (map f ys)"
  by (metis mset_eq_imp_distinct_iff mset_map)

lemma length_filter_perm: "mset xs = mset ys \<Longrightarrow> length (filter P xs) = length (filter P ys)"
  by (metis mset_filter size_mset)

lemma sum_list_perm: "mset xs = mset ys \<Longrightarrow> sum_list (map f xs) = sum_list (map (f :: 'a \<Rightarrow> 'b::comm_monoid_add) ys)"
  by (metis mset_map sum_mset_sum_list)

lemma mset_concat_perm: "mset xs = mset ys \<Longrightarrow> mset (concat (map f xs)) = mset (concat (map f ys))"
  unfolding mset_concat using sum_list_perm [of xs ys "\<lambda>x. mset (f x)"] by (simp add: comp_def)

lemma mset_filter_perm: "mset xs = mset ys \<Longrightarrow> mset (filter P xs) = mset (filter P ys)"
  by (simp add: mset_filter)

text \<open>
  The contract a comparator has to keep for \<open>sort\<close> to be meaningful: total, transitive, and zero
  on equal arguments.  Under it the result is sorted and stable.
\<close>

locale js_comparator =
  fixes cmp :: "'a \<Rightarrow> 'a \<Rightarrow> int"
  assumes cmp_total: "cmp x y \<le> 0 \<or> cmp y x \<le> 0"
    and cmp_trans: "cmp x y \<le> 0 \<Longrightarrow> cmp y z \<le> 0 \<Longrightarrow> cmp x z \<le> 0"
begin

lemma sorted_insert: "sorted_wrt (\<lambda>x y. cmp x y \<le> 0) xs \<Longrightarrow>
    sorted_wrt (\<lambda>x y. cmp x y \<le> 0) (js_insert cmp x xs)"
proof (induction xs)
  case (Cons y ys)
  show ?case
  proof (cases "cmp x y \<le> 0")
    case True
    then show ?thesis using Cons.prems by (auto intro: cmp_trans)
  next
    case False
    with cmp_total [of x y] have "cmp y x \<le> 0" by simp
    then show ?thesis using False Cons by auto
  qed
qed simp

lemma sorted_sort: "sorted_wrt (\<lambda>x y. cmp x y \<le> 0) (js_sort cmp xs)"
  by (induction xs) (auto intro: sorted_insert)

lemma insert_front: "\<forall>y \<in> set ys. cmp x y \<le> 0 \<Longrightarrow> js_insert cmp x ys = x # ys"
  by (cases ys) auto

lemma sort_sorted: "sorted_wrt (\<lambda>x y. cmp x y \<le> 0) xs \<Longrightarrow> js_sort cmp xs = xs"
  by (induction xs) (auto simp: insert_front)

lemma sort_unique_on:
  assumes "mset xs = mset ys" "sorted_wrt (\<lambda>x y. cmp x y \<le> 0) xs"
    and "sorted_wrt (\<lambda>x y. cmp x y \<le> 0) ys"
    and "\<And>x y. x \<in> set xs \<Longrightarrow> y \<in> set xs \<Longrightarrow> cmp x y \<le> 0 \<Longrightarrow> cmp y x \<le> 0 \<Longrightarrow> x = y"
  shows "xs = ys"
  using assms
proof (induction xs arbitrary: ys)
  case (Cons x xs)
  then obtain y zs where ys: "ys = y # zs" by (cases ys) auto
  have "x \<in> set ys" "y \<in> set (x # xs)"
    using Cons.prems(1) ys by (metis list.set_intros(1) set_mset_mset)+
  with Cons.prems ys have "x = y" by auto
  with Cons ys show ?case by auto
qed simp

lemma sort_perm_on:
  assumes "mset xs = mset ys"
    and "\<And>x y. x \<in> set xs \<Longrightarrow> y \<in> set xs \<Longrightarrow> cmp x y \<le> 0 \<Longrightarrow> cmp y x \<le> 0 \<Longrightarrow> x = y"
  shows "js_sort cmp xs = js_sort cmp ys"
  using assms by (intro sort_unique_on) (auto simp: sorted_sort)

lemma filter_insert_in:
  assumes "sorted_wrt (\<lambda>x y. cmp x y \<le> 0) xs" and "P x"
  shows "filter P (js_insert cmp x xs) = js_insert cmp x (filter P xs)"
  using assms
proof (induction xs)
  case (Cons y ys)
  show ?case
  proof (cases "cmp x y \<le> 0")
    case True
    with Cons.prems have "\<forall>z \<in> set (filter P (y # ys)). cmp x z \<le> 0"
      by (auto intro: cmp_trans)
    then show ?thesis using True Cons.prems by (simp add: insert_front)
  next
    case False
    then show ?thesis using Cons by auto
  qed
qed simp

lemma filter_insert_out: "\<not> P x \<Longrightarrow> filter P (js_insert cmp x xs) = filter P xs"
  by (induction xs) auto

lemma stable_sort: "filter (\<lambda>y. cmp k y = 0 \<and> cmp y k = 0) (js_sort cmp xs) =
    filter (\<lambda>y. cmp k y = 0 \<and> cmp y k = 0) xs"
proof (induction xs)
  case (Cons x xs)
  let ?P = "\<lambda>y. cmp k y = 0 \<and> cmp y k = 0"
  show ?case
  proof (cases "?P x")
    case True
    have "filter ?P (js_sort cmp (x # xs)) = js_insert cmp x (filter ?P xs)"
      using True Cons.IH filter_insert_in [OF sorted_sort, of ?P x] by simp
    also have "\<dots> = x # filter ?P xs"
      using True by (intro insert_front) (auto intro: cmp_trans [of x k])
    finally show ?thesis using True by simp
  next
    case False
    then show ?thesis using Cons.IH by (simp add: filter_insert_out)
  qed
qed simp

end

text \<open>A comparator that tells any two elements apart makes the sorted array a function of the
  multiset of its elements.\<close>

locale js_strict_comparator = js_comparator +
  assumes cmp_antisym: "cmp x y \<le> 0 \<Longrightarrow> cmp y x \<le> 0 \<Longrightarrow> x = y"
begin

lemma sort_unique:
  assumes "mset xs = mset ys" "sorted_wrt (\<lambda>x y. cmp x y \<le> 0) xs"
    and "sorted_wrt (\<lambda>x y. cmp x y \<le> 0) ys"
  shows "xs = ys"
  using assms cmp_antisym by (rule sort_unique_on)

lemma sort_perm: "mset xs = mset ys \<Longrightarrow> js_sort cmp xs = js_sort cmp ys"
  by (rule sort_perm_on) (auto intro: cmp_antisym)

end

text \<open>\<open>compareCodePoints\<close>, the comparator the domain modules share.\<close>

definition compareCodePoints :: "string \<Rightarrow> string \<Rightarrow> int" where
  "compareCodePoints l r = (if l < r then -1 else if l > r then 1 else 0)"

lemma compareCodePoints_le: "compareCodePoints l r \<le> 0 \<longleftrightarrow> l \<le> r"
  by (auto simp: compareCodePoints_def)

lemma compareCodePoints_eq0: "compareCodePoints l r = 0 \<longleftrightarrow> l = r"
  by (auto simp: compareCodePoints_def)

interpretation code_points: js_strict_comparator compareCodePoints
  by unfold_locales (auto simp: compareCodePoints_le)

interpretation by_code_points: js_comparator "\<lambda>l r. compareCodePoints (f l) (f r)"
  for f :: "'a \<Rightarrow> string"
  by unfold_locales (auto simp: compareCodePoints_le)

interpretation by_index: js_comparator "\<lambda>l r. int (f l) - int (f r)"
  for f :: "'a \<Rightarrow> nat"
  by unfold_locales auto

text \<open>When the keys are distinct the order of the input does not matter, even for a comparator
  that only looks at the key.\<close>

lemma sorted_key_unique:
  fixes f :: "'a \<Rightarrow> 'k::linorder"
  assumes "mset xs = mset ys" "inj_on f (set xs)"
    and "sorted (map f xs)" "sorted (map f ys)"
  shows "xs = ys"
proof -
  have s: "set xs = set ys" using assms(1) by (metis set_mset_mset)
  have "mset (map f xs) = mset (map f ys)" using assms(1) by simp
  then have "map f xs = map f ys" using assms(3,4) by (metis properties_for_sort)
  with assms(2) s show ?thesis by (intro map_inj_on [of f xs ys]) auto
qed

lemma sorted_by_code_points: "sorted (map f (js_sort (\<lambda>l r. compareCodePoints (f l) (f r)) xs))"
  using by_code_points.sorted_sort [of f xs]
  by (simp add: sorted_map compareCodePoints_le)

lemma sort_by_code_points_perm:
  assumes "mset xs = mset ys" "distinct (map f xs)"
  shows "js_sort (\<lambda>l r. compareCodePoints (f l) (f r)) xs =
    js_sort (\<lambda>l r. compareCodePoints (f l) (f r)) ys"
  using assms sorted_by_code_points [of f xs] sorted_by_code_points [of f ys]
  by (intro sorted_key_unique [where f = f]) (auto simp: distinct_map)

section \<open>Sets and maps of the standard library\<close>

text \<open>\<open>[...new Set(xs)]\<close>: the first occurrences, in order.\<close>

fun js_set :: "'a list \<Rightarrow> 'a list" where
  "js_set [] = []"
| "js_set (x # xs) = x # filter (\<lambda>y. y \<noteq> x) (js_set xs)"

lemma set_js_set [simp]: "set (js_set xs) = set xs"
  by (induction xs) auto

lemma distinct_js_set [simp]: "distinct (js_set xs)"
  by (induction xs) auto

lemma length_js_set: "length (js_set xs) = card (set xs)"
  by (metis distinct_card distinct_js_set set_js_set)

lemma js_set_distinct: "distinct xs \<Longrightarrow> js_set xs = xs"
  by (induction xs) (auto intro: filter_True)

lemma length_js_set_eq [simp]: "length (js_set xs) = length xs \<longleftrightarrow> distinct xs"
  by (simp add: length_js_set card_distinct distinct_card) (metis card_distinct distinct_card)

lemma length_js_set_le: "length (js_set xs) \<le> length xs"
  by (simp add: length_js_set card_length)

lemma mset_js_set: "mset (js_set xs) = mset_set (set xs)"
  by (metis distinct_js_set mset_set_set set_js_set)

section \<open>Splitting a string\<close>

text \<open>\<open>s.split(sep)\<close> with a separator of one character.\<close>

fun js_split :: "char \<Rightarrow> string \<Rightarrow> string list" where
  "js_split sep [] = [[]]"
| "js_split sep (c # cs) =
     (if c = sep then [] # js_split sep cs
      else case js_split sep cs of [] \<Rightarrow> [[c]] | seg # segs \<Rightarrow> (c # seg) # segs)"

lemma js_split_nonempty: "js_split sep s \<noteq> []"
  by (induction s) (auto split: list.split)

section \<open>Characters and patterns\<close>

abbreviation code :: "char \<Rightarrow> nat" where
  "code c \<equiv> of_char c"

definition is_digit :: "char \<Rightarrow> bool" where
  "is_digit c \<longleftrightarrow> 48 \<le> code c \<and> code c \<le> 57"

definition is_lower :: "char \<Rightarrow> bool" where
  "is_lower c \<longleftrightarrow> 97 \<le> code c \<and> code c \<le> 122"

definition is_upper :: "char \<Rightarrow> bool" where
  "is_upper c \<longleftrightarrow> 65 \<le> code c \<and> code c \<le> 90"

text \<open>\<open>[a-f0-9]\<close> and its case-insensitive form.\<close>

definition is_hex :: "char \<Rightarrow> bool" where
  "is_hex c \<longleftrightarrow> is_digit c \<or> (97 \<le> code c \<and> code c \<le> 102)"

definition is_hex_ci :: "char \<Rightarrow> bool" where
  "is_hex_ci c \<longleftrightarrow> is_hex c \<or> (65 \<le> code c \<and> code c \<le> 70)"

text \<open>\<open>String.prototype.toLowerCase\<close> on code units below 256.\<close>

definition lower_char :: "char \<Rightarrow> char" where
  "lower_char c = (if is_upper c \<or> (192 \<le> code c \<and> code c \<le> 222 \<and> code c \<noteq> 215)
     then char_of (code c + 32) else c)"

definition js_lower :: "string \<Rightarrow> string" where
  "js_lower s = map lower_char s"

text \<open>The patterns \<open>/^[a-f0-9]{n}$/\<close>.\<close>

definition is_digest :: "nat \<Rightarrow> string \<Rightarrow> bool" where
  "is_digest n s \<longleftrightarrow> length s = n \<and> list_all is_hex s"

definition is_digest_ci :: "nat \<Rightarrow> string \<Rightarrow> bool" where
  "is_digest_ci n s \<longleftrightarrow> length s = n \<and> list_all is_hex_ci s"

text \<open>The identity patterns \<open>/^[A-Za-z0-9][A-Za-z0-9X]{0,255}$/\<close>, with the extra characters \<open>X\<close>
  of the module that uses one.\<close>

definition is_alnum :: "char \<Rightarrow> bool" where
  "is_alnum c \<longleftrightarrow> is_digit c \<or> is_lower c \<or> is_upper c"

fun matches_identity :: "string \<Rightarrow> string \<Rightarrow> bool" where
  "matches_identity extra [] = False"
| "matches_identity extra (c # cs) \<longleftrightarrow> is_alnum c \<and> length cs \<le> 255 \<and>
     list_all (\<lambda>d. is_alnum d \<or> d \<in> set extra) cs"

lemmas char_class_defs [js_string_simps] =
  is_digit_def is_lower_def is_upper_def is_hex_def is_hex_ci_def is_alnum_def lower_char_def
  js_lower_def is_digest_def is_digest_ci_def

lemma length_js_lower [simp]: "length (js_lower s) = length s"
  by (simp add: js_lower_def)

lemma code_lower_char: "code (lower_char c) =
    (if is_upper c \<or> (192 \<le> code c \<and> code c \<le> 222 \<and> code c \<noteq> 215) then code c + 32 else code c)"
  by (auto simp: lower_char_def is_upper_def)

lemma lower_char_idem [simp]: "lower_char (lower_char c) = lower_char c"
proof -
  have "\<not> (is_upper (lower_char c) \<or> (192 \<le> code (lower_char c) \<and> code (lower_char c) \<le> 222
      \<and> code (lower_char c) \<noteq> 215))"
    by (auto simp: code_lower_char is_upper_def)
  then show ?thesis by (simp only: lower_char_def [of "lower_char c"] if_False)
qed

lemma js_lower_idem [simp]: "js_lower (js_lower s) = js_lower s"
  by (simp add: js_lower_def)

lemma is_hex_lower: "is_hex_ci c \<Longrightarrow> is_hex (lower_char c)"
  by (auto simp: is_hex_def is_hex_ci_def is_digit_def code_lower_char is_upper_def)

lemma is_digest_lower: "is_digest_ci n s \<Longrightarrow> is_digest n (js_lower s)"
  by (auto simp: is_digest_def is_digest_ci_def list_all_iff js_lower_def is_hex_lower)

lemma lower_hex [simp]: "is_hex c \<Longrightarrow> lower_char c = c"
  by (auto simp: lower_char_def is_hex_def is_digit_def is_upper_def)

lemma lower_digest [simp]: "is_digest n s \<Longrightarrow> js_lower s = s"
  by (auto simp: is_digest_def list_all_iff js_lower_def intro: map_idI)

section \<open>Blanks\<close>

text \<open>\<open>String.prototype.trim\<close> on code units below 256.\<close>

definition is_space :: "char \<Rightarrow> bool" where
  "is_space c \<longleftrightarrow> (9 \<le> code c \<and> code c \<le> 13) \<or> code c = 32 \<or> code c = 160"

definition js_trim :: "string \<Rightarrow> string" where
  "js_trim s = rev (dropWhile is_space (rev (dropWhile is_space s)))"

lemma js_trim_Nil: "js_trim s = [] \<longleftrightarrow> (\<forall>c \<in> set s. is_space c)"
proof -
  have "(\<forall>c \<in> set (dropWhile is_space s). is_space c) \<longleftrightarrow> (\<forall>c \<in> set s. is_space c)"
    by (induction s) auto
  then show ?thesis by (simp add: js_trim_def dropWhile_eq_Nil_conv)
qed

section \<open>Bytes\<close>

text \<open>\<open>Buffer.byteLength(s, 'utf8')\<close> of code units below 256.\<close>

definition byte_length :: "string \<Rightarrow> nat" where
  "byte_length s = sum_list (map (\<lambda>c. if code c < 128 then 1 else 2) s)"

end
