(* ===== verification/Orchestration_State.thy ===== *)
theory Orchestration_State
  imports Prelude
begin

text \<open>
  \<open>src/review-orchestration/domain/review-orchestration-state.ts\<close>: the state machine of one review
  run.  The state is the phase of the run and the progress of each work slot; an event either
  yields the next state or throws.  The slots object is an association list: the code reads it by
  key and by an order-independent \<open>some\<close>.  A key that is not an own property is still found when
  it names a property of \<open>Object.prototype\<close>, whose value is truthy.
\<close>

section \<open>State and events\<close>

datatype ReviewOrchestrationPhase =
  AwaitingAuthorization | Authorized | RevisionConfirmed | ExecutionStarted | RunningWork
| Finalizing | AwaitingPublication | Completed | PartialCompleted | Superseded | Failed

datatype ReviewWorkSlotProgress = Pending | LookingUp | Leased | Satisfied | Exhausted

record ReviewOrchestrationState =
  phase :: ReviewOrchestrationPhase
  slots :: "(string \<times> ReviewWorkSlotProgress) list"

datatype ReviewOrchestrationEvent =
  Ev_Authorized
| Ev_RevisionConfirmed
| Ev_ExecutionStarted
| Ev_SlotLookupStarted string
| Ev_SlotLeaseAcquired string
| Ev_SlotSatisfied string
| Ev_SlotExhausted string
| Ev_FinalizationStarted
| Ev_PublicationRequested bool
| Ev_PublicationCompleted bool
| Ev_Superseded
| Ev_Failed

section \<open>Operations\<close>

definition requireIdentity :: "string \<Rightarrow> js_error option" where
  "requireIdentity value = check (matches_identity ''._:-'' value) ''review_orchestration_identity_invalid''"

definition createReviewOrchestrationState :: "string list \<Rightarrow> ReviewOrchestrationState res" where
  "createReviewOrchestrationState workSlotIds =
     throw_if (length (js_set workSlotIds) \<noteq> length workSlotIds) ''review_orchestration_work_slot_duplicate''
     (throws (first_error requireIdentity workSlotIds)
     (Inr \<lparr>phase = AwaitingAuthorization, slots = map (\<lambda>i. (i, Pending)) workSlotIds\<rparr>))"

definition withPhase :: "ReviewOrchestrationState \<Rightarrow> ReviewOrchestrationPhase \<Rightarrow> ReviewOrchestrationState" where
  "withPhase st p = st\<lparr>phase := p\<rparr>"

text \<open>The property names \<open>state.slots[workSlotId]\<close> inherits from \<open>Object.prototype\<close>.\<close>

definition object_prototype_names :: "string list" where
  "object_prototype_names = [''constructor'', ''__defineGetter__'', ''__defineSetter__'',
     ''hasOwnProperty'', ''__lookupGetter__'', ''__lookupSetter__'', ''isPrototypeOf'',
     ''propertyIsEnumerable'', ''toString'', ''valueOf'', ''__proto__'', ''toLocaleString'']"

definition withSlot :: "ReviewOrchestrationState \<Rightarrow> string \<Rightarrow> ReviewWorkSlotProgress list \<Rightarrow>
    ReviewWorkSlotProgress \<Rightarrow> ReviewOrchestrationPhase \<Rightarrow> ReviewOrchestrationState res" where
  "withSlot st workSlotId expected next p =
     (case map_of (slots st) workSlotId of
        None \<Rightarrow> Inl (JsError (if workSlotId \<in> set object_prototype_names
                  then ''review_orchestration_work_slot_transition_invalid''
                  else ''review_orchestration_work_slot_unknown''))
      | Some current \<Rightarrow>
          throw_if (current \<notin> set expected) ''review_orchestration_work_slot_transition_invalid''
          (Inr \<lparr>phase = p, slots = AList.update workSlotId next (slots st)\<rparr>))"

definition requireWorkPhase :: "ReviewOrchestrationState \<Rightarrow> js_error option" where
  "requireWorkPhase st = check (phase st = ExecutionStarted \<or> phase st = RunningWork)
     ''review_orchestration_phase_invalid''"

definition requirePhase :: "ReviewOrchestrationState \<Rightarrow> ReviewOrchestrationPhase \<Rightarrow> js_error option" where
  "requirePhase st expected = check (phase st = expected) ''review_orchestration_phase_invalid''"

definition isTerminal :: "ReviewOrchestrationPhase \<Rightarrow> bool" where
  "isTerminal p \<longleftrightarrow> p = Completed \<or> p = PartialCompleted \<or> p = Superseded \<or> p = Failed"

fun orchestration_event :: "ReviewOrchestrationState \<Rightarrow> ReviewOrchestrationEvent \<Rightarrow> ReviewOrchestrationState res" where
  "orchestration_event st Ev_Authorized =
     throws (requirePhase st AwaitingAuthorization) (Inr (withPhase st Authorized))"
| "orchestration_event st Ev_RevisionConfirmed =
     throws (requirePhase st Authorized) (Inr (withPhase st RevisionConfirmed))"
| "orchestration_event st Ev_ExecutionStarted =
     throws (requirePhase st RevisionConfirmed) (Inr (withPhase st ExecutionStarted))"
| "orchestration_event st (Ev_SlotLookupStarted i) =
     throws (requireWorkPhase st)
       (withSlot st i [Pending, LookingUp, Leased] LookingUp RunningWork)"
| "orchestration_event st (Ev_SlotLeaseAcquired i) = withSlot st i [LookingUp] Leased RunningWork"
| "orchestration_event st (Ev_SlotSatisfied i) =
     withSlot st i [LookingUp, Leased] Satisfied RunningWork"
| "orchestration_event st (Ev_SlotExhausted i) =
     withSlot st i [Pending, LookingUp, Leased] Exhausted RunningWork"
| "orchestration_event st Ev_FinalizationStarted =
     throw_if (phase st \<noteq> ExecutionStarted \<and> phase st \<noteq> RunningWork) ''review_orchestration_phase_invalid''
     (throw_if (\<exists>slot \<in> set (map snd (slots st)). slot \<noteq> Satisfied \<and> slot \<noteq> Exhausted)
        ''review_orchestration_work_incomplete''
     (Inr (withPhase st Finalizing)))"
| "orchestration_event st (Ev_PublicationRequested partial) =
     throws (requirePhase st Finalizing) (Inr (withPhase st AwaitingPublication))"
| "orchestration_event st (Ev_PublicationCompleted partial) =
     throws (requirePhase st AwaitingPublication)
       (Inr (withPhase st (if partial then PartialCompleted else Completed)))"
| "orchestration_event st Ev_Superseded = Inr (withPhase st Superseded)"
| "orchestration_event st Ev_Failed = Inr (withPhase st Failed)"

definition evolveReviewOrchestration ::
    "ReviewOrchestrationState \<Rightarrow> ReviewOrchestrationEvent \<Rightarrow> ReviewOrchestrationState res" where
  "evolveReviewOrchestration st ev =
     throw_if (isTerminal (phase st)) ''review_orchestration_terminal_transition_forbidden''
       (orchestration_event st ev)"

text \<open>A run feeds events one by one and stops at the first that throws.\<close>

fun orchestration_run :: "ReviewOrchestrationState \<Rightarrow> ReviewOrchestrationEvent list \<Rightarrow> ReviewOrchestrationState res" where
  "orchestration_run st [] = Inr st"
| "orchestration_run st (ev # evs) =
     rbind (evolveReviewOrchestration st ev) (\<lambda>st'. orchestration_run st' evs)"

inductive orchestration_reachable :: "string list \<Rightarrow> ReviewOrchestrationState \<Rightarrow> bool" for ids where
  start: "createReviewOrchestrationState ids = Inr st \<Longrightarrow> orchestration_reachable ids st"
| step: "orchestration_reachable ids st \<Longrightarrow> evolveReviewOrchestration st ev = Inr st' \<Longrightarrow>
    orchestration_reachable ids st'"

section \<open>Shared facts\<close>

abbreviation settled :: "ReviewWorkSlotProgress \<Rightarrow> bool" where
  "settled p \<equiv> p = Satisfied \<or> p = Exhausted"

definition all_settled :: "ReviewOrchestrationState \<Rightarrow> bool" where
  "all_settled st \<longleftrightarrow> (\<forall>i p. map_of (slots st) i = Some p \<longrightarrow> settled p)"

lemmas orchestration_defs = evolveReviewOrchestration_def withPhase_def requirePhase_def
  requireWorkPhase_def throw_if_def throws_def check_def

lemma withSlot_Inr: "withSlot st i expected next p = Inr st' \<longleftrightarrow>
    (\<exists>c. map_of (slots st) i = Some c \<and> c \<in> set expected) \<and>
    st' = \<lparr>phase = p, slots = AList.update i next (slots st)\<rparr>"
  by (auto simp: withSlot_def throw_if_def split: option.splits)

lemma evolve_Inr: "evolveReviewOrchestration st ev = Inr st' \<longleftrightarrow>
    \<not> isTerminal (phase st) \<and> orchestration_event st ev = Inr st'"
  by (simp add: evolveReviewOrchestration_def res_simps)

text \<open>
  The life cycle of one slot, labelled with the events: pending, looking up, leased, then satisfied or exhausted.
  \<open>addressee\<close> is the slot an event names.
\<close>

fun addressee :: "ReviewOrchestrationEvent \<Rightarrow> string option" where
  "addressee (Ev_SlotLookupStarted i) = Some i"
| "addressee (Ev_SlotLeaseAcquired i) = Some i"
| "addressee (Ev_SlotSatisfied i) = Some i"
| "addressee (Ev_SlotExhausted i) = Some i"
| "addressee _ = None"

inductive slot_move :: "ReviewOrchestrationEvent \<Rightarrow> ReviewWorkSlotProgress \<Rightarrow> ReviewWorkSlotProgress \<Rightarrow> bool" where
  lookup: "slot_move (Ev_SlotLookupStarted i) Pending LookingUp"
| lookup_again: "slot_move (Ev_SlotLookupStarted i) LookingUp LookingUp"
| lookup_lost: "slot_move (Ev_SlotLookupStarted i) Leased LookingUp"
| lease: "slot_move (Ev_SlotLeaseAcquired i) LookingUp Leased"
| reused: "slot_move (Ev_SlotSatisfied i) LookingUp Satisfied"
| worked: "slot_move (Ev_SlotSatisfied i) Leased Satisfied"
| exhaust: "\<not> settled p \<Longrightarrow> slot_move (Ev_SlotExhausted i) p Exhausted"

inductive_simps slot_move_simps: "slot_move ev p q"
inductive_simps slot_move_from_settled [simp]: "slot_move ev Satisfied q" "slot_move ev Exhausted q"

text \<open>What a slot goes through in a sequence of events: its own events move it, the others pass it by.\<close>

inductive slot_history :: "string \<Rightarrow> ReviewOrchestrationEvent list \<Rightarrow> ReviewWorkSlotProgress \<Rightarrow>
    ReviewWorkSlotProgress \<Rightarrow> bool" for i where
  begun: "slot_history i [] p p"
| elsewhere: "addressee ev \<noteq> Some i \<Longrightarrow> slot_history i evs p q \<Longrightarrow> slot_history i (ev # evs) p q"
| moved: "addressee ev = Some i \<Longrightarrow> slot_move ev p q \<Longrightarrow> slot_history i evs q r \<Longrightarrow> slot_history i (ev # evs) p r"

lemma slot_history_Cons: "slot_history i (ev # evs) p r \<longleftrightarrow>
    (if addressee ev = Some i then \<exists>q. slot_move ev p q \<and> slot_history i evs q r else slot_history i evs p r)"
  by (auto intro: slot_history.intros elim: slot_history.cases)

lemma settled_history: "slot_history i evs p q \<Longrightarrow> settled p \<Longrightarrow>
    q = p \<and> list_all (\<lambda>ev. addressee ev \<noteq> Some i) evs"
  by (induction rule: slot_history.induct) auto

lemma evolve_slot:
  assumes "evolveReviewOrchestration st ev = Inr st'"
  shows "case addressee ev of None \<Rightarrow> slots st' = slots st
    | Some i \<Rightarrow> \<exists>p q. map_of (slots st) i = Some p \<and> slot_move ev p q \<and> slots st' = AList.update i q (slots st)"
  using assms
  by (cases ev) (auto simp: evolve_Inr withSlot_Inr res_simps withPhase_def slot_move_simps)

lemma evolve_dom:
  assumes "evolveReviewOrchestration st ev = Inr st'"
  shows "map fst (slots st') = map fst (slots st)"
proof (cases "addressee ev")
  case (Some i)
  with evolve_slot [OF assms] obtain p q where
    "map_of (slots st) i = Some p" "slots st' = AList.update i q (slots st)" by auto
  moreover from this(1) have "i \<in> set (map fst (slots st))" by (force dest: map_of_SomeD)
  ultimately show ?thesis by (simp add: update_keys)
qed (use evolve_slot [OF assms] in simp)

text \<open>Which phase an event needs and which one it leads to.\<close>

lemma evolve_phase:
  assumes "evolveReviewOrchestration st ev = Inr st'"
  shows "case ev of
      Ev_Authorized \<Rightarrow> phase st = AwaitingAuthorization \<and> st' = withPhase st Authorized
    | Ev_RevisionConfirmed \<Rightarrow> phase st = Authorized \<and> st' = withPhase st RevisionConfirmed
    | Ev_ExecutionStarted \<Rightarrow> phase st = RevisionConfirmed \<and> st' = withPhase st ExecutionStarted
    | Ev_FinalizationStarted \<Rightarrow> (phase st = ExecutionStarted \<or> phase st = RunningWork) \<and>
        (\<forall>p \<in> set (map snd (slots st)). settled p) \<and> st' = withPhase st Finalizing
    | Ev_PublicationRequested b \<Rightarrow> phase st = Finalizing \<and> st' = withPhase st AwaitingPublication
    | Ev_PublicationCompleted b \<Rightarrow> phase st = AwaitingPublication \<and>
        st' = withPhase st (if b then PartialCompleted else Completed)
    | Ev_Superseded \<Rightarrow> st' = withPhase st Superseded
    | Ev_Failed \<Rightarrow> st' = withPhase st Failed
    | _ \<Rightarrow> phase st' = RunningWork"
  using assms
  by (cases ev) (auto simp: evolve_Inr withSlot_Inr requirePhase_def res_simps)

lemma phase_withPhase [simp]: "phase (withPhase st p) = p" "slots (withPhase st p) = slots st"
  by (simp_all add: withPhase_def)

lemma evolve_to_Finalizing: "evolveReviewOrchestration st ev = Inr st' \<Longrightarrow> phase st' = Finalizing \<Longrightarrow>
    ev = Ev_FinalizationStarted"
  by (drule evolve_phase) (cases ev; simp split: if_splits)

lemma evolve_to_AwaitingPublication: "evolveReviewOrchestration st ev = Inr st' \<Longrightarrow>
    phase st' = AwaitingPublication \<Longrightarrow> (\<exists>b. ev = Ev_PublicationRequested b) \<and> phase st = Finalizing"
  by (drule evolve_phase) (cases ev; simp split: if_splits)

lemma evolve_to_completed: "evolveReviewOrchestration st ev = Inr st' \<Longrightarrow>
    phase st' = Completed \<or> phase st' = PartialCompleted \<Longrightarrow>
    ev = Ev_PublicationCompleted (phase st' = PartialCompleted) \<and> phase st = AwaitingPublication"
  by (drule evolve_phase) (cases ev; auto split: if_splits)

lemma create_Inr: "createReviewOrchestrationState ids = Inr st \<longleftrightarrow>
    distinct ids \<and> (\<forall>i \<in> set ids. matches_identity ''._:-'' i) \<and>
    st = \<lparr>phase = AwaitingAuthorization, slots = map (\<lambda>i. (i, Pending)) ids\<rparr>"
  by (auto simp: createReviewOrchestrationState_def res_simps requireIdentity_def)

lemma reachable_slot_ids: "orchestration_reachable ids st \<Longrightarrow>
    map fst (slots st) = ids \<and> distinct ids"
  by (induction rule: orchestration_reachable.induct) (auto simp: create_Inr evolve_dom comp_def)

lemma run_append: "orchestration_run st (xs @ ys) =
    rbind (orchestration_run st xs) (\<lambda>st'. orchestration_run st' ys)"
proof (induction xs arbitrary: st)
  case (Cons x xs)
  then show ?case by (cases "evolveReviewOrchestration st x") auto
qed simp

lemma run_snoc: "orchestration_run st (evs @ [ev]) = Inr st' \<longleftrightarrow>
    (\<exists>u. orchestration_run st evs = Inr u \<and> evolveReviewOrchestration u ev = Inr st')"
  by (auto simp: run_append res_simps)

lemma run_reachable: "orchestration_reachable ids st \<Longrightarrow> orchestration_run st evs = Inr st' \<Longrightarrow>
    orchestration_reachable ids st'"
  by (induction evs arbitrary: st) (auto simp: res_simps intro: orchestration_reachable.step)

lemma history_step:
  assumes "evolveReviewOrchestration st ev = Inr u"
    and "rel_option (slot_history i evs) (map_of (slots u) i) (map_of (slots st') i)"
  shows "rel_option (slot_history i (ev # evs)) (map_of (slots st) i) (map_of (slots st') i) \<and>
    (map_of (slots st) i = None \<longrightarrow> addressee ev \<noteq> Some i \<and> map_of (slots u) i = None)"
  using evolve_slot [OF assms(1)] assms(2)
  by (cases "map_of (slots st) i"; cases "addressee ev"; cases "map_of (slots st') i")
    (auto simp: slot_history_Cons update_conv' option_rel_Some1 option_rel_Some2 split: if_splits)

section \<open>Invariants of reachable states\<close>

definition publication_inv :: "ReviewOrchestrationState \<Rightarrow> bool" where
  "publication_inv st \<longleftrightarrow>
     (phase st \<in> {Finalizing, AwaitingPublication, Completed, PartialCompleted} \<longrightarrow> all_settled st)"

lemma evolve_publication_inv:
  assumes "evolveReviewOrchestration st ev = Inr st'" and "publication_inv st"
    and "distinct (map fst (slots st))"
  shows "publication_inv st'"
  using evolve_phase [OF assms(1)] assms(2,3)
  by (cases ev) (auto simp: publication_inv_def all_settled_def dest: map_of_SomeD split: if_splits)

lemma reachable_publication_inv: "orchestration_reachable ids st \<Longrightarrow> publication_inv st"
proof (induction rule: orchestration_reachable.induct)
  case (step st ev st')
  then show ?case
    using evolve_publication_inv reachable_slot_ids [OF step(1)] by blast
qed (simp add: create_Inr publication_inv_def)

text \<open>Before the execution has started no slot has moved, unless a slot was exhausted.\<close>

definition early :: "ReviewOrchestrationPhase \<Rightarrow> bool" where
  "early p \<longleftrightarrow> p \<in> {AwaitingAuthorization, Authorized, RevisionConfirmed}"

definition is_exhausted :: "ReviewOrchestrationEvent \<Rightarrow> bool" where
  "is_exhausted ev \<longleftrightarrow> (\<exists>i. ev = Ev_SlotExhausted i)"

fun startup :: "ReviewOrchestrationPhase \<Rightarrow> ReviewOrchestrationEvent list option" where
  "startup AwaitingAuthorization = Some []"
| "startup Authorized = Some [Ev_Authorized]"
| "startup RevisionConfirmed = Some [Ev_Authorized, Ev_RevisionConfirmed]"
| "startup ExecutionStarted = Some [Ev_Authorized, Ev_RevisionConfirmed, Ev_ExecutionStarted]"
| "startup _ = None"

lemma evolve_early:
  assumes "evolveReviewOrchestration st ev = Inr st'" and "early (phase st)"
    and "\<forall>p \<in> set (map snd (slots st)). p = Pending" and "\<not> is_exhausted ev"
  shows "phase st' \<in> {Superseded, Failed} \<or>
    (slots st' = slots st \<and> startup (phase st') = map_option (\<lambda>h. h @ [ev]) (startup (phase st)))"
proof -
  have pend: "map_of (slots st) i = Some p \<Longrightarrow> p = Pending" for i p
    using assms(3) by (auto dest!: map_of_SomeD)
  show ?thesis
    using assms evolve_phase [OF assms(1)]
    by (cases ev)
      (auto simp: early_def is_exhausted_def evolve_Inr withSlot_Inr requireWorkPhase_def
        res_simps dest!: pend)
qed

text \<open>A run without an exhausted slot either is still in its start-up sequence, has stopped, or
  went through the whole sequence.\<close>

lemma run_startup:
  assumes "createReviewOrchestrationState ids = Inr st0"
    and "orchestration_run st0 evs = Inr st" and "\<not> (\<exists>ev \<in> set evs. is_exhausted ev)"
  shows "(early (phase st) \<and> startup (phase st) = Some evs \<and> (\<forall>p \<in> set (map snd (slots st)). p = Pending))
    \<or> phase st \<in> {Superseded, Failed}
    \<or> (\<exists>rest. evs = [Ev_Authorized, Ev_RevisionConfirmed, Ev_ExecutionStarted] @ rest)"
  using assms(2,3)
proof (induction evs arbitrary: st rule: rev_induct)
  case Nil
  then show ?case using assms(1) by (auto simp: create_Inr early_def)
next
  case (snoc ev evs)
  then obtain u where u: "orchestration_run st0 evs = Inr u"
    and e: "evolveReviewOrchestration u ev = Inr st" by (auto simp: run_snoc)
  have "\<not> (\<exists>ev \<in> set evs. is_exhausted ev)" and nex: "\<not> is_exhausted ev"
    using snoc.prems(2) by auto
  from snoc.IH [OF u this(1)] consider
      (early) "early (phase u)" "startup (phase u) = Some evs" "\<forall>p \<in> set (map snd (slots u)). p = Pending"
    | (stop) "phase u \<in> {Superseded, Failed}"
    | (through) rest where "evs = [Ev_Authorized, Ev_RevisionConfirmed, Ev_ExecutionStarted] @ rest"
    by blast
  then show ?case
  proof cases
    case early
    from evolve_early [OF e early(1,3) nex] early(2,3) show ?thesis
      by (cases "phase st") (auto simp: early_def)
  next
    case stop
    with e show ?thesis by (auto simp: evolve_Inr isTerminal_def)
  next
    case through
    then show ?thesis by simp
  qed
qed

section \<open>Properties\<close>

text \<open>
  C1: a run reaches finalization, publication or completion only when every planned work slot has
  been satisfied or exhausted.
\<close>

theorem publication_only_after_work_settled:
  assumes "orchestration_reachable ids st"
    and "phase st \<in> {Finalizing, AwaitingPublication, Completed, PartialCompleted}"
    and "i \<in> set ids"
  shows "\<exists>p. map_of (slots st) i = Some p \<and> settled p"
proof -
  have "i \<in> fst ` set (slots st)"
    using reachable_slot_ids [OF assms(1)] assms(3) by (metis list.set_map)
  then obtain p where "map_of (slots st) i = Some p"
    by (metis map_of_eq_None_iff not_None_eq)
  with reachable_publication_inv [OF assms(1)] assms(2) show ?thesis
    by (auto simp: publication_inv_def all_settled_def)
qed

definition demo_events :: "ReviewOrchestrationEvent list" where
  "demo_events = [Ev_Authorized, Ev_RevisionConfirmed, Ev_ExecutionStarted,
     Ev_SlotLookupStarted ''a'', Ev_SlotLeaseAcquired ''a'', Ev_SlotSatisfied ''a'',
     Ev_SlotExhausted ''b'', Ev_FinalizationStarted]"

definition demo_start :: ReviewOrchestrationState where
  "demo_start = \<lparr>phase = AwaitingAuthorization, slots = [(''a'', Pending), (''b'', Pending)]\<rparr>"

lemma demo_create: "createReviewOrchestrationState [''a'', ''b''] = Inr demo_start"
  by (simp add: create_Inr demo_start_def js_string_simps)

lemma demo_run: "orchestration_run demo_start demo_events =
    Inr \<lparr>phase = Finalizing, slots = [(''a'', Satisfied), (''b'', Exhausted)]\<rparr>"
  by (simp add: demo_events_def demo_start_def orchestration_defs isTerminal_def withSlot_def)

theorem publication_only_after_work_settled_witness:
  "\<exists>p. map_of (slots \<lparr>phase = Finalizing, slots = [(''a'', Satisfied), (''b'', Exhausted)]\<rparr>) ''b'' = Some p
     \<and> settled p"
  by (rule publication_only_after_work_settled
        [OF run_reachable [OF orchestration_reachable.start [OF demo_create] demo_run]]) simp_all

text \<open>
  A run that completes, fully or partially, ends with finalization, the publication request and
  the matching publication acknowledgement, in this order and with nothing in between.
\<close>

theorem completed_run_ends_with_publication:
  assumes "createReviewOrchestrationState ids = Inr st0" and "orchestration_run st0 evs = Inr st"
    and "phase st = Completed \<or> phase st = PartialCompleted"
  shows "\<exists>pre requested. evs = pre @ [Ev_FinalizationStarted, Ev_PublicationRequested requested,
    Ev_PublicationCompleted (phase st = PartialCompleted)]"
proof -
  have start: "phase st0 = AwaitingAuthorization" using assms(1) by (simp add: create_Inr)
  obtain evs1 e1 where 1: "evs = evs1 @ [e1]"
    using assms(2,3) start by (cases evs rule: rev_cases) auto
  obtain u1 where u1: "orchestration_run st0 evs1 = Inr u1" "evolveReviewOrchestration u1 e1 = Inr st"
    using assms(2) 1 by (auto simp: run_snoc)
  note last = evolve_to_completed [OF u1(2) assms(3)]
  obtain evs2 e2 where 2: "evs1 = evs2 @ [e2]"
    using u1(1) last start by (cases evs1 rule: rev_cases) auto
  obtain u2 where u2: "orchestration_run st0 evs2 = Inr u2" "evolveReviewOrchestration u2 e2 = Inr u1"
    using u1(1) 2 by (auto simp: run_snoc)
  note middle = evolve_to_AwaitingPublication [OF u2(2) conjunct2 [OF last]]
  obtain evs3 e3 where 3: "evs2 = evs3 @ [e3]"
    using u2(1) middle start by (cases evs2 rule: rev_cases) auto
  obtain u3 where u3: "evolveReviewOrchestration u3 e3 = Inr u2"
    using u2(1) 3 by (auto simp: run_snoc)
  note first = evolve_to_Finalizing [OF u3 conjunct2 [OF middle]]
  show ?thesis using 1 2 3 first middle last by auto
qed

lemma demo_run_completed: "orchestration_run demo_start
      (demo_events @ [Ev_PublicationRequested True, Ev_PublicationCompleted True]) =
    Inr \<lparr>phase = PartialCompleted, slots = [(''a'', Satisfied), (''b'', Exhausted)]\<rparr>"
  by (simp add: run_append demo_run orchestration_defs isTerminal_def)

theorem completed_run_ends_with_publication_witness:
  "\<exists>pre requested. demo_events @ [Ev_PublicationRequested True, Ev_PublicationCompleted True] =
     pre @ [Ev_FinalizationStarted, Ev_PublicationRequested requested, Ev_PublicationCompleted True]"
  using completed_run_ends_with_publication [OF demo_create demo_run_completed] by simp

text \<open>
  C2: seen from one work slot, the events of a run that name it are moves of the slot's own life cycle (pending,
  looking up, leased, then satisfied or exhausted), each from the progress its event requires, and all other
  events leave it alone; an event never names a slot that does not exist, and a slot that is satisfied or exhausted
  is never named again.  No slot appears or disappears.
\<close>

theorem slot_lifecycle_refinement:
  assumes "orchestration_run st evs = Inr st'"
  shows "rel_option (slot_history i evs) (map_of (slots st) i) (map_of (slots st') i) \<and>
    (map_of (slots st) i = None \<longrightarrow> list_all (\<lambda>ev. addressee ev \<noteq> Some i) evs) \<and>
    (\<forall>p. map_of (slots st) i = Some p \<and> settled p \<longrightarrow>
       map_of (slots st') i = Some p \<and> list_all (\<lambda>ev. addressee ev \<noteq> Some i) evs) \<and>
    map fst (slots st') = map fst (slots st)"
proof -
  have history: "rel_option (slot_history i evs) (map_of (slots st) i) (map_of (slots st') i) \<and>
      (map_of (slots st) i = None \<longrightarrow> list_all (\<lambda>ev. addressee ev \<noteq> Some i) evs) \<and>
      map fst (slots st') = map fst (slots st)"
    using assms
  proof (induction evs arbitrary: st)
    case Nil
    then show ?case by (cases "map_of (slots st) i") (auto intro: slot_history.begun)
  next
    case (Cons ev evs)
    then obtain u where u: "evolveReviewOrchestration st ev = Inr u" "orchestration_run u evs = Inr st'"
      by (auto simp: res_simps)
    from Cons.IH [OF u(2)] evolve_dom [OF u(1)] history_step [OF u(1), of i evs st'] show ?case by auto
  qed
  then show ?thesis
    by (auto simp: option_rel_Some1 dest: settled_history)
qed

theorem slot_lifecycle_refinement_witness:
  "slot_history ''a'' demo_events Pending Satisfied \<and> slot_history ''b'' demo_events Pending Exhausted"
  using slot_lifecycle_refinement [OF demo_run, of "''a''"] slot_lifecycle_refinement [OF demo_run, of "''b''"]
  by (simp add: demo_start_def)

text \<open>
  C6: a run in which no slot is exhausted does work or publishes only after it was authorized, its
  revision confirmed and its execution started: these are its first three events.
\<close>

theorem authorization_precedes_work:
  assumes "createReviewOrchestrationState ids = Inr st0" and "orchestration_run st0 evs = Inr st"
    and "\<forall>i. Ev_SlotExhausted i \<notin> set evs"
    and "phase st \<in> {RunningWork, Finalizing, AwaitingPublication, Completed, PartialCompleted}"
  shows "\<exists>rest. evs = [Ev_Authorized, Ev_RevisionConfirmed, Ev_ExecutionStarted] @ rest"
proof -
  have "\<not> (\<exists>ev \<in> set evs. is_exhausted ev)" using assms(3) by (auto simp: is_exhausted_def)
  from run_startup [OF assms(1,2) this] assms(4) show ?thesis by (auto simp: early_def)
qed

lemma demo_run_lookup: "orchestration_run demo_start
      [Ev_Authorized, Ev_RevisionConfirmed, Ev_ExecutionStarted, Ev_SlotLookupStarted ''a''] =
    Inr \<lparr>phase = RunningWork, slots = [(''a'', LookingUp), (''b'', Pending)]\<rparr>"
  by (simp add: demo_start_def orchestration_defs isTerminal_def withSlot_def)

theorem authorization_precedes_work_witness:
  "\<exists>rest. [Ev_Authorized, Ev_RevisionConfirmed, Ev_ExecutionStarted, Ev_SlotLookupStarted ''a''] =
     [Ev_Authorized, Ev_RevisionConfirmed, Ev_ExecutionStarted] @ rest"
  by (rule authorization_precedes_work [OF demo_create demo_run_lookup]) simp_all

text \<open>
  The exhausted event has no phase guard.  A run whose only slot is exhausted right after
  creation goes on to publish and complete although it was never authorized and no revision was
  confirmed.
\<close>

theorem exhausted_slot_skips_authorization:
  assumes "matches_identity ''._:-'' i"
  shows "rbind (createReviewOrchestrationState [i]) (\<lambda>st0. orchestration_run st0
      [Ev_SlotExhausted i, Ev_FinalizationStarted, Ev_PublicationRequested partial,
       Ev_PublicationCompleted False]) =
    Inr \<lparr>phase = Completed, slots = [(i, Exhausted)]\<rparr>"
proof -
  have "createReviewOrchestrationState [i] = Inr \<lparr>phase = AwaitingAuthorization, slots = [(i, Pending)]\<rparr>"
    using assms by (simp add: create_Inr)
  then show ?thesis by (simp add: orchestration_defs isTerminal_def withSlot_def)
qed

theorem exhausted_slot_skips_authorization_witness:
  "rbind (createReviewOrchestrationState [''slot-1'']) (\<lambda>st0. orchestration_run st0
      [Ev_SlotExhausted ''slot-1'', Ev_FinalizationStarted, Ev_PublicationRequested False,
       Ev_PublicationCompleted False]) =
    Inr \<lparr>phase = Completed, slots = [(''slot-1'', Exhausted)]\<rparr>"
  by (rule exhausted_slot_skips_authorization) (simp add: js_string_simps)

end
