(* ===== verification/Content_Batches.thy ===== *)
theory Content_Batches
  imports Prelude
begin

text \<open>
  \<open>src/review-orchestration/domain/content-defined-review-batches.ts\<close>: review units are put into
  batches by the bits of a stable hash of their route key.  A bucket that exceeds the limits is
  split by the next bit.  The SHA-256 of Node's \<open>crypto\<close> is the parameter \<open>sha\<close> (from the
  hashed text to the hex digest).  Costs, priorities and limits are integers, the only numbers the
  validation lets through.
\<close>

section \<open>Data\<close>

record 'v ReviewUnit =
  unit_value :: 'v
  routeKey :: string
  canonicalIdentity :: string
  tokenCost :: int
  schedulingPriority :: int

record ReviewBatchLimits =
  maxFilesPerBatch :: int
  maxTokensPerBatch :: int

text \<open>A routed unit is the unit with its \<open>routeHash\<close>.\<close>

type_synonym 'v RoutedUnit = "'v ReviewUnit \<times> string"

record 'v UnscheduledBatch =
  batch_units :: "'v ReviewUnit list"
  routePrefix :: string
  splitDepth :: nat
  batchTokenCost :: int
  oversizedSingleUnit :: bool

text \<open>A scheduled batch carries its \<open>schedulingOrdinal\<close>.\<close>

type_synonym 'v ReviewBatch = "'v UnscheduledBatch \<times> nat"

section \<open>Operations\<close>

definition requirePositiveInteger :: "int \<Rightarrow> string \<Rightarrow> js_error option" where
  "requirePositiveInteger n field = check (\<not> (\<not> is_safe_integer n \<or> n < 1)) (field @ ''_invalid'')"

definition requireNonNegativeInteger :: "int \<Rightarrow> string \<Rightarrow> js_error option" where
  "requireNonNegativeInteger n field = check (\<not> (\<not> is_safe_integer n \<or> n < 0)) (field @ ''_invalid'')"

definition requireNonEmpty :: "string \<Rightarrow> string \<Rightarrow> js_error option" where
  "requireNonEmpty s field = check (length s \<noteq> 0) (field @ ''_invalid'')"

text \<open>\<open>Number.parseInt(c, 16)\<close> of one character; \<open>NaN\<close> acts as 0 under \<open>>>\<close>.\<close>

definition hex_value :: "char \<Rightarrow> nat" where
  "hex_value c =
     (if is_digit c then code c - 48
      else if 97 \<le> code c \<and> code c \<le> 102 then code c - 87
      else if 65 \<le> code c \<and> code c \<le> 70 then code c - 55
      else 0)"

definition routeBit :: "string \<Rightarrow> nat \<Rightarrow> nat" where
  "routeBit hash bitIndex =
     (let nibble = (if bitIndex div 4 < length hash then hex_value (hash ! (bitIndex div 4)) else 0);
          shift = 3 - bitIndex mod 4
      in nibble div 2 ^ shift mod 2)"

fun totalTokenCost_loop :: "int \<Rightarrow> 'v RoutedUnit list \<Rightarrow> int res" where
  "totalTokenCost_loop t [] = Inr t"
| "totalTokenCost_loop t (u # us) =
     throw_if (\<not> is_safe_integer (t + tokenCost (fst u))) ''content_defined_batch_token_cost_overflow''
       (totalTokenCost_loop (t + tokenCost (fst u)) us)"

definition totalTokenCost :: "'v RoutedUnit list \<Rightarrow> int res" where
  "totalTokenCost us = totalTokenCost_loop 0 us"

definition createBatch :: "'v RoutedUnit list \<Rightarrow> string \<Rightarrow> int \<Rightarrow> bool \<Rightarrow> 'v UnscheduledBatch" where
  "createBatch us prefix cost oversized =
     \<lparr>batch_units = map fst (js_sort (\<lambda>l r. compareCodePoints (canonicalIdentity (fst l)) (canonicalIdentity (fst r))) us),
      routePrefix = prefix, splitDepth = length prefix, batchTokenCost = cost,
      oversizedSingleUnit = oversized\<rparr>"

definition route_hash_bits :: nat where
  "route_hash_bits = 256"

function splitBucket :: "ReviewBatchLimits \<Rightarrow> 'v RoutedUnit list \<Rightarrow> string \<Rightarrow> 'v UnscheduledBatch list res" where
  "splitBucket limits us prefix =
     rbind (totalTokenCost us) (\<lambda>cost.
       if int (length us) \<le> maxFilesPerBatch limits \<and> cost \<le> maxTokensPerBatch limits
       then Inr [createBatch us prefix cost False]
       else if length us = 1 then Inr [createBatch us prefix cost True]
       else if length prefix \<ge> route_hash_bits
       then Inl (JsError ''content_defined_batch_hash_space_exhausted'')
       else
         let zero = filter (\<lambda>u. routeBit (snd u) (length prefix) = 0) us;
             one = filter (\<lambda>u. routeBit (snd u) (length prefix) \<noteq> 0) us
         in rbind (if length zero > 0 then splitBucket limits zero (prefix @ ''0'') else Inr [])
              (\<lambda>zs. rbind (if length one > 0 then splitBucket limits one (prefix @ ''1'') else Inr [])
              (\<lambda>os. Inr (zs @ os))))"
  by pat_completeness auto
termination
  by (relation "measure (\<lambda>(limits, us, prefix). route_hash_bits - length prefix)") auto

declare splitBucket.simps [simp del]

definition minimumSchedulingPriority :: "'v ReviewUnit list \<Rightarrow> int" where
  "minimumSchedulingPriority us = foldl (\<lambda>m u. min m (schedulingPriority u)) max_safe_integer us"

definition compareBatchSchedulingPriority :: "'v UnscheduledBatch \<Rightarrow> 'v UnscheduledBatch \<Rightarrow> int" where
  "compareBatchSchedulingPriority l r =
     (let d = minimumSchedulingPriority (batch_units l) - minimumSchedulingPriority (batch_units r)
      in if d \<noteq> 0 then d else compareCodePoints (routePrefix l) (routePrefix r))"

text \<open>The text whose digest routes a unit.\<close>

definition route_text :: "'v ReviewUnit \<Rightarrow> string" where
  "route_text u = ''rr.review-unit-route.v1'' @ [CHR 0x00] @ routeKey u"

text \<open>The validation and routing of the units: the loop body with the three sets it has filled.\<close>

fun route_units :: "(string \<Rightarrow> string) \<Rightarrow> string list \<Rightarrow> string list \<Rightarrow> int list \<Rightarrow>
    'v ReviewUnit list \<Rightarrow> 'v RoutedUnit list res" where
  "route_units sha routeKeys ids priorities [] = Inr []"
| "route_units sha routeKeys ids priorities (u # us) =
     throws (requireNonEmpty (routeKey u) ''route_key'')
     (throws (requireNonEmpty (canonicalIdentity u) ''canonical_identity'')
     (throws (requireNonNegativeInteger (tokenCost u) ''token_cost'')
     (throws (requireNonNegativeInteger (schedulingPriority u) ''scheduling_priority'')
     (throw_if (routeKey u \<in> set routeKeys) ''content_defined_batch_route_key_duplicate''
     (throw_if (canonicalIdentity u \<in> set ids) ''content_defined_batch_identity_duplicate''
     (throw_if (schedulingPriority u \<in> set priorities) ''content_defined_batch_scheduling_priority_duplicate''
     (rbind (route_units sha (routeKey u # routeKeys) (canonicalIdentity u # ids)
              (schedulingPriority u # priorities) us)
       (\<lambda>rs. Inr ((u, sha (route_text u)) # rs)))))))))"

definition createContentDefinedReviewBatches ::
    "(string \<Rightarrow> string) \<Rightarrow> 'v ReviewUnit list \<Rightarrow> ReviewBatchLimits \<Rightarrow> 'v ReviewBatch list res" where
  "createContentDefinedReviewBatches sha us limits =
     throws (requirePositiveInteger (maxFilesPerBatch limits) ''max_files_per_batch'')
     (throws (requirePositiveInteger (maxTokensPerBatch limits) ''max_tokens_per_batch'')
     (if us = [] then Inr []
      else rbind (route_units sha [] [] [] us) (\<lambda>routed.
           rbind (splitBucket limits routed '''') (\<lambda>bs.
           Inr (zip (js_sort compareBatchSchedulingPriority bs) [0..<length bs])))))"

section \<open>Costs, limits and the validated input\<close>

definition cost_of :: "'v RoutedUnit list \<Rightarrow> int" where
  "cost_of us = sum_list (map (tokenCost \<circ> fst) us)"

definition nonneg_costs :: "'v RoutedUnit list \<Rightarrow> bool" where
  "nonneg_costs us \<longleftrightarrow> (\<forall>u \<in> set us. 0 \<le> tokenCost (fst u))"

lemma cost_of_nonneg: "nonneg_costs us \<Longrightarrow> 0 \<le> cost_of us"
  by (induction us) (auto simp: cost_of_def nonneg_costs_def)

lemma totalTokenCost_loop_Inr:
  assumes "nonneg_costs us" "0 \<le> t" "t \<le> max_safe_integer"
  shows "totalTokenCost_loop t us = Inr c \<longleftrightarrow> t + cost_of us \<le> max_safe_integer \<and> c = t + cost_of us"
  using assms
proof (induction us arbitrary: t)
  case (Cons u us)
  have nn: "nonneg_costs us" "0 \<le> tokenCost (fst u)" "0 \<le> cost_of us"
    using Cons.prems(1) cost_of_nonneg [of us] by (auto simp: nonneg_costs_def)
  have split: "cost_of (u # us) = tokenCost (fst u) + cost_of us" by (simp add: cost_of_def)
  show ?case
  proof (cases "t + tokenCost (fst u) \<le> max_safe_integer")
    case True
    then show ?thesis
      using Cons.IH [OF nn(1), of "t + tokenCost (fst u)"] Cons.prems(2) nn split
      by (simp add: throw_if_def is_safe_integer_def algebra_simps)
  next
    case False
    then show ?thesis using Cons.prems(2) nn split
      by (simp add: throw_if_def is_safe_integer_def)
  qed
qed (auto simp: cost_of_def)

lemma totalTokenCost_Inr: "nonneg_costs us \<Longrightarrow>
    totalTokenCost us = Inr c \<longleftrightarrow> cost_of us \<le> max_safe_integer \<and> c = cost_of us"
  using totalTokenCost_loop_Inr [of us 0 c] by (simp add: totalTokenCost_def max_safe_integer_def)

lemma cost_of_perm: "mset us = mset vs \<Longrightarrow> cost_of us = cost_of vs"
  by (simp add: cost_of_def) (metis mset_map sum_mset_sum_list)

lemma cost_of_filter_le: "nonneg_costs us \<Longrightarrow> cost_of (filter P us) \<le> cost_of us"
  by (induction us) (auto simp: cost_of_def nonneg_costs_def)

lemma nonneg_costs_filter: "nonneg_costs us \<Longrightarrow> nonneg_costs (filter P us)"
  by (simp add: nonneg_costs_def)

definition routed_unit :: "(string \<Rightarrow> string) \<Rightarrow> 'v ReviewUnit \<Rightarrow> 'v RoutedUnit" where
  "routed_unit sha u = (u, sha (route_text u))"

definition valid_unit :: "'v ReviewUnit \<Rightarrow> bool" where
  "valid_unit u \<longleftrightarrow> routeKey u \<noteq> '''' \<and> canonicalIdentity u \<noteq> '''' \<and>
     0 \<le> tokenCost u \<and> is_safe_integer (tokenCost u) \<and>
     0 \<le> schedulingPriority u \<and> is_safe_integer (schedulingPriority u)"

definition valid_units :: "'v ReviewUnit list \<Rightarrow> bool" where
  "valid_units us \<longleftrightarrow> (\<forall>u \<in> set us. valid_unit u) \<and> distinct (map routeKey us) \<and>
     distinct (map canonicalIdentity us) \<and> distinct (map schedulingPriority us)"

lemma route_units_Inr: "route_units sha ks ids ps us = Inr rs \<longleftrightarrow>
    valid_units us \<and> set ks \<inter> set (map routeKey us) = {} \<and>
    set ids \<inter> set (map canonicalIdentity us) = {} \<and>
    set ps \<inter> set (map schedulingPriority us) = {} \<and> rs = map (routed_unit sha) us"
  by (induction us arbitrary: ks ids ps rs)
    (auto simp: res_simps valid_units_def valid_unit_def requireNonEmpty_def
      requireNonNegativeInteger_def routed_unit_def)

definition valid_limits :: "ReviewBatchLimits \<Rightarrow> bool" where
  "valid_limits l \<longleftrightarrow> 1 \<le> maxFilesPerBatch l \<and> is_safe_integer (maxFilesPerBatch l) \<and>
     1 \<le> maxTokensPerBatch l \<and> is_safe_integer (maxTokensPerBatch l)"

lemma create_batches_Inr: "createContentDefinedReviewBatches sha us limits = Inr bs \<longleftrightarrow>
    valid_limits limits \<and>
    (us = [] \<and> bs = [] \<or>
     us \<noteq> [] \<and> valid_units us \<and>
     (\<exists>cs. splitBucket limits (map (routed_unit sha) us) '''' = Inr cs \<and>
        bs = zip (js_sort compareBatchSchedulingPriority cs) [0..<length cs]))"
  by (auto simp: createContentDefinedReviewBatches_def res_simps route_units_Inr
      requirePositiveInteger_def valid_limits_def)

section \<open>Buckets: the relation the recursion computes\<close>

definition fits :: "ReviewBatchLimits \<Rightarrow> 'v RoutedUnit list \<Rightarrow> bool" where
  "fits l us \<longleftrightarrow> int (length us) \<le> maxFilesPerBatch l \<and> cost_of us \<le> maxTokensPerBatch l"

definition zero_side :: "nat \<Rightarrow> 'v RoutedUnit list \<Rightarrow> 'v RoutedUnit list" where
  "zero_side n us = filter (\<lambda>u. routeBit (snd u) n = 0) us"

definition one_side :: "nat \<Rightarrow> 'v RoutedUnit list \<Rightarrow> 'v RoutedUnit list" where
  "one_side n us = filter (\<lambda>u. routeBit (snd u) n \<noteq> 0) us"

inductive bucket :: "ReviewBatchLimits \<Rightarrow> 'v RoutedUnit list \<Rightarrow> string \<Rightarrow> 'v UnscheduledBatch list \<Rightarrow> bool"
  for l where
  none: "bucket l [] p []"
| whole: "us \<noteq> [] \<Longrightarrow> fits l us \<Longrightarrow> bucket l us p [createBatch us p (cost_of us) False]"
| single: "\<not> fits l us \<Longrightarrow> length us = 1 \<Longrightarrow> bucket l us p [createBatch us p (cost_of us) True]"
| split: "\<not> fits l us \<Longrightarrow> 1 < length us \<Longrightarrow> length p < route_hash_bits \<Longrightarrow>
    bucket l (zero_side (length p) us) (p @ ''0'') zs \<Longrightarrow>
    bucket l (one_side (length p) us) (p @ ''1'') os \<Longrightarrow> bucket l us p (zs @ os)"

inductive_cases bucket_Nil [elim!]: "bucket l [] p bs"

lemma nonneg_sides:
  "nonneg_costs us \<Longrightarrow> nonneg_costs (zero_side n us)"
  "nonneg_costs us \<Longrightarrow> nonneg_costs (one_side n us)"
  "nonneg_costs us \<Longrightarrow> cost_of (zero_side n us) \<le> cost_of us"
  "nonneg_costs us \<Longrightarrow> cost_of (one_side n us) \<le> cost_of us"
  by (simp_all add: zero_side_def one_side_def nonneg_costs_filter cost_of_filter_le)

lemma mset_sides: "mset (zero_side n us) + mset (one_side n us) = mset us"
  by (simp add: zero_side_def one_side_def)

lemma splitBucket_unfold:
  assumes "nonneg_costs us" "cost_of us \<le> max_safe_integer"
  shows "splitBucket l us p =
    (if fits l us then Inr [createBatch us p (cost_of us) False]
     else if length us = 1 then Inr [createBatch us p (cost_of us) True]
     else if length p \<ge> route_hash_bits then Inl (JsError ''content_defined_batch_hash_space_exhausted'')
     else rbind (if zero_side (length p) us \<noteq> [] then splitBucket l (zero_side (length p) us) (p @ ''0'') else Inr [])
       (\<lambda>zs. rbind (if one_side (length p) us \<noteq> [] then splitBucket l (one_side (length p) us) (p @ ''1'') else Inr [])
       (\<lambda>os. Inr (zs @ os))))"
proof -
  have "totalTokenCost us = Inr (cost_of us)" using assms by (simp add: totalTokenCost_Inr)
  then show ?thesis
    by (simp add: splitBucket.simps [of l us p] fits_def zero_side_def one_side_def Let_def)
qed

lemma splitBucket_overflow: "nonneg_costs us \<Longrightarrow> splitBucket l us p = Inr bs \<Longrightarrow> cost_of us \<le> max_safe_integer"
  by (simp add: splitBucket.simps [of l us p] res_simps totalTokenCost_Inr)

lemma splitBucket_bucket:
  assumes "nonneg_costs us" "splitBucket l us p = Inr bs" "us \<noteq> []"
  shows "bucket l us p bs"
  using assms
proof (induction "route_hash_bits - length p" arbitrary: us p bs rule: less_induct)
  case less
  let ?z = "zero_side (length p) us" and ?o = "one_side (length p) us"
  note unf = splitBucket_unfold [OF less.prems(1) splitBucket_overflow [OF less.prems(1,2)]]
  consider "fits l us" | "\<not> fits l us" "length us = 1" | "\<not> fits l us" "length us \<noteq> 1" by blast
  then show ?case
  proof cases
    case 3
    with less.prems(2) have lp: "length p < route_hash_bits"
      by (auto simp: unf split: if_splits)
    with 3 less.prems(2) obtain zs os where bs: "bs = zs @ os"
      and z: "(if ?z \<noteq> [] then splitBucket l ?z (p @ ''0'') else Inr []) = Inr zs"
      and o: "(if ?o \<noteq> [] then splitBucket l ?o (p @ ''1'') else Inr []) = Inr os"
      by (auto simp: unf res_simps)
    have "bucket l ?z (p @ ''0'') zs"
    proof (cases "?z = []")
      case False
      show ?thesis
        by (rule less.hyps) (use z False lp less.prems(1) in \<open>simp_all add: nonneg_sides\<close>)
    qed (use z in \<open>auto intro: bucket.none\<close>)
    moreover have "bucket l ?o (p @ ''1'') os"
    proof (cases "?o = []")
      case False
      show ?thesis
        by (rule less.hyps) (use o False lp less.prems(1) in \<open>simp_all add: nonneg_sides\<close>)
    qed (use o in \<open>auto intro: bucket.none\<close>)
    moreover have "1 < length us" using 3 less.prems(3) by (cases us) auto
    ultimately show ?thesis unfolding bs using 3 lp by (intro bucket.split)
  qed (use less.prems unf in \<open>auto intro: bucket.whole bucket.single\<close>)
qed

lemma bucket_splitBucket:
  assumes "bucket l us p bs" "nonneg_costs us" "cost_of us \<le> max_safe_integer" "us \<noteq> []"
  shows "splitBucket l us p = Inr bs"
  using assms
proof (induction rule: bucket.induct)
  case (split us p zs os)
  have sub: "(if vs \<noteq> [] then splitBucket l vs q else Inr []) = Inr xs"
    if "bucket l vs q xs" "vs \<noteq> [] \<Longrightarrow> splitBucket l vs q = Inr xs" for vs q xs
    using that by (cases "vs = []") auto
  from split have "splitBucket l us p = Inr (zs @ os)"
    using nonneg_sides [OF split.prems(1), of "length p"]
    by (simp add: splitBucket_unfold sub)
  then show ?case .
qed (simp_all add: splitBucket_unfold)

section \<open>What a bucket contains\<close>

lemma batch_createBatch [simp]:
  "mset (batch_units (createBatch us p c ov)) = mset (map fst us)"
  "set (batch_units (createBatch us p c ov)) = fst ` set us"
  "length (batch_units (createBatch us p c ov)) = length us"
  "routePrefix (createBatch us p c ov) = p" "splitDepth (createBatch us p c ov) = length p"
  "batchTokenCost (createBatch us p c ov) = c" "oversizedSingleUnit (createBatch us p c ov) = ov"
  by (simp_all add: createBatch_def)

lemma bucket_partition: "bucket l us p bs \<Longrightarrow> mset (concat (map batch_units bs)) = mset (map fst us)"
proof (induction rule: bucket.induct)
  case (split us p zs os)
  then have "mset (concat (map batch_units (zs @ os))) =
      image_mset fst (mset (zero_side (length p) us) + mset (one_side (length p) us))" by simp
  then show ?case by (simp add: mset_sides)
qed simp_all

definition within_limits :: "ReviewBatchLimits \<Rightarrow> 'v UnscheduledBatch \<Rightarrow> bool" where
  "within_limits l b \<longleftrightarrow> batch_units b \<noteq> [] \<and>
     batchTokenCost b = sum_list (map tokenCost (batch_units b)) \<and>
     (if oversizedSingleUnit b then length (batch_units b) = 1
      else int (length (batch_units b)) \<le> maxFilesPerBatch l \<and> batchTokenCost b \<le> maxTokensPerBatch l)"

lemma cost_createBatch: "sum_list (map tokenCost (batch_units (createBatch us p c ov))) = cost_of us"
  by (simp add: cost_of_def flip: sum_mset_sum_list) (simp add: multiset.map_comp comp_def)

lemma bucket_limits: "bucket l us p bs \<Longrightarrow> \<forall>b \<in> set bs. within_limits l b"
proof (induction rule: bucket.induct)
  case (whole us p)
  then show ?case
    using batch_createBatch(3) [of us p "cost_of us" False]
    by (auto simp: within_limits_def cost_createBatch fits_def simp flip: length_greater_0_conv)
next
  case (single us p)
  then show ?case
    using batch_createBatch(3) [of us p "cost_of us" True]
    by (auto simp: within_limits_def cost_createBatch simp flip: length_greater_0_conv)
qed auto

text \<open>A prefix covers a hash when the hash starts with its bits.\<close>

definition covers :: "string \<Rightarrow> string \<Rightarrow> bool" where
  "covers p h \<longleftrightarrow> (\<forall>i < length p. p ! i = (if routeBit h i = 0 then CHR ''0'' else CHR ''1''))"

lemma covers_Nil [simp]: "covers '''' h"
  by (simp add: covers_def)

lemma covers_snoc: "covers (p @ [c]) h \<longleftrightarrow>
    covers p h \<and> c = (if routeBit h (length p) = 0 then CHR ''0'' else CHR ''1'')"
  by (auto simp: covers_def nth_append less_Suc_eq)

lemma covers_append:
  assumes "covers (p @ q) h"
  shows "covers p h"
  unfolding covers_def
proof (intro allI impI)
  fix i assume "i < length p"
  then show "p ! i = (if routeBit h i = 0 then CHR ''0'' else CHR ''1'')"
    using assms [unfolded covers_def, rule_format, of i] by (simp add: nth_append)
qed

lemma covers_sides:
  "\<forall>u \<in> set us. covers p (snd u) \<Longrightarrow> \<forall>u \<in> set (zero_side (length p) us). covers (p @ ''0'') (snd u)"
  "\<forall>u \<in> set us. covers p (snd u) \<Longrightarrow> \<forall>u \<in> set (one_side (length p) us). covers (p @ ''1'') (snd u)"
  by (auto simp: covers_snoc zero_side_def one_side_def)

lemma bucket_prefix: "bucket l us p bs \<Longrightarrow> b \<in> set bs \<Longrightarrow> \<exists>q. routePrefix b = p @ q"
proof (induction arbitrary: b rule: bucket.induct)
  case (split us p zs os)
  then show ?case by fastforce
qed auto

lemma filter_covers_sides:
  "(\<And>h. covers r h \<Longrightarrow> routeBit h n = 0) \<Longrightarrow>
    filter (\<lambda>u. covers r (snd u)) (zero_side n us) = filter (\<lambda>u. covers r (snd u)) us"
  "(\<And>h. covers r h \<Longrightarrow> routeBit h n \<noteq> 0) \<Longrightarrow>
    filter (\<lambda>u. covers r (snd u)) (one_side n us) = filter (\<lambda>u. covers r (snd u)) us"
  by (induction us) (auto simp: zero_side_def one_side_def)

lemma bucket_covers:
  "bucket l us p bs \<Longrightarrow> \<forall>u \<in> set us. covers p (snd u) \<Longrightarrow> b \<in> set bs \<Longrightarrow>
    batch_units b = map fst (js_sort (\<lambda>x y. compareCodePoints (canonicalIdentity (fst x)) (canonicalIdentity (fst y)))
      (filter (\<lambda>u. covers (routePrefix b) (snd u)) us))"
proof (induction arbitrary: b rule: bucket.induct)
  case (split us p zs os)
  note sides = covers_sides [OF split.prems(1)]
  show ?case
  proof (cases "b \<in> set zs")
    case True
    from bucket_prefix [OF split.hyps(4) True] obtain q where q: "routePrefix b = (p @ ''0'') @ q" by blast
    have "covers (routePrefix b) h \<Longrightarrow> routeBit h (length p) = 0" for h
      unfolding q by (drule covers_append) (simp add: covers_snoc split: if_splits)
    from filter_covers_sides(1) [of "routePrefix b" "length p" us, OF this] split.IH(1) [OF sides(1) True] show ?thesis by simp
  next
    case False
    with split.prems(2) have os: "b \<in> set os" by simp
    from bucket_prefix [OF split.hyps(5) os] obtain q where q: "routePrefix b = (p @ ''1'') @ q" by blast
    have "covers (routePrefix b) h \<Longrightarrow> routeBit h (length p) \<noteq> 0" for h
      unfolding q by (drule covers_append) (simp add: covers_snoc split: if_splits)
    from filter_covers_sides(2) [of "routePrefix b" "length p" us, OF this] split.IH(2) [OF sides(2) os] show ?thesis by simp
  qed
qed (auto simp: createBatch_def)

section \<open>Independence of the input order and of other units\<close>

abbreviation distinct_ids :: "'v RoutedUnit list \<Rightarrow> bool" where
  "distinct_ids us \<equiv> distinct (map (canonicalIdentity \<circ> fst) us)"

lemma createBatch_perm:
  assumes "mset us = mset vs" "distinct_ids us"
  shows "createBatch us p c ov = createBatch vs p c ov"
  using sort_by_code_points_perm [OF assms(1), of "canonicalIdentity \<circ> fst"] assms(2)
  by (simp add: createBatch_def)

lemma fits_perm: "mset us = mset vs \<Longrightarrow> fits l us = fits l vs"
  by (metis cost_of_perm fits_def size_mset)

lemma sides_perm:
  "mset us = mset vs \<Longrightarrow> mset (zero_side n us) = mset (zero_side n vs)"
  "mset us = mset vs \<Longrightarrow> mset (one_side n us) = mset (one_side n vs)"
  by (simp_all add: zero_side_def one_side_def)

lemma distinct_ids_filter: "distinct_ids us \<Longrightarrow> distinct_ids (filter P us)"
  by (simp add: distinct_map_filter)

lemma distinct_ids_sides:
  "distinct_ids us \<Longrightarrow> distinct_ids (zero_side n us)" "distinct_ids us \<Longrightarrow> distinct_ids (one_side n us)"
  by (simp_all add: zero_side_def one_side_def distinct_ids_filter)

lemma bucket_perm:
  "bucket l us p bs \<Longrightarrow> mset us = mset vs \<Longrightarrow> distinct_ids us \<Longrightarrow> bucket l vs p bs"
proof (induction arbitrary: vs rule: bucket.induct)
  case (none p)
  then show ?case by (simp add: bucket.none)
next
  case (whole us p)
  then have "bucket l vs p [createBatch vs p (cost_of vs) False]"
    by (intro bucket.whole) (auto simp: fits_perm [of us vs])
  with whole.prems show ?case by (metis cost_of_perm createBatch_perm)
next
  case (single us p)
  moreover from single.prems(1) have "length vs = length us" by (metis size_mset)
  ultimately have "bucket l vs p [createBatch vs p (cost_of vs) True]"
    by (intro bucket.single) (simp_all add: fits_perm [of us vs])
  with single.prems show ?case by (metis cost_of_perm createBatch_perm)
next
  case (split us p zs os)
  have "length vs = length us" using split.prems(1) by (metis size_mset)
  then have "\<not> fits l vs" "1 < length vs" using split.hyps(1,2) fits_perm [OF split.prems(1)] by auto
  then show ?case
    using split.IH(1) [OF sides_perm(1) [OF split.prems(1)] distinct_ids_sides(1) [OF split.prems(2)]]
      split.IH(2) [OF sides_perm(2) [OF split.prems(1)] distinct_ids_sides(2) [OF split.prems(2)]]
      split.hyps(3) by (intro bucket.split)
qed

lemma bucket_det: "bucket l us p bs \<Longrightarrow> bucket l us p cs \<Longrightarrow> bs = cs"
proof (induction arbitrary: cs rule: bucket.induct)
  case (whole us p)
  from whole(3,1,2) show ?case by (cases rule: bucket.cases) simp_all
next
  case (single us p)
  from single(3,1,2) show ?case by (cases rule: bucket.cases) simp_all
next
  case (split us p zs os)
  from split.prems show ?case
    using split.hyps(1,2) split.IH by (cases rule: bucket.cases) (fastforce+)
qed auto

lemma no_new_units:
  assumes "mset vs = mset us + mset new" "\<forall>u \<in> set vs. covers p (snd u)"
    and "\<forall>u \<in> set new. \<not> covers p (snd u)"
  shows "new = []"
proof (rule ccontr)
  assume "new \<noteq> []"
  then obtain u where u: "u \<in> set new" by (cases new) auto
  then have "u \<in> set vs" using assms(1) by (metis UnCI set_mset_mset set_mset_union)
  with assms(2,3) u show False by auto
qed

lemma cost_of_append: "mset vs = mset us + mset new \<Longrightarrow> cost_of vs = cost_of us + cost_of new"
  using cost_of_perm [of vs "us @ new"] by (simp add: cost_of_def)

lemma fits_grow:
  assumes "mset vs = mset us + mset new" "nonneg_costs vs" "fits l vs"
  shows "fits l us"
proof -
  have "set new \<subseteq> set vs" using assms(1) by (metis Un_upper2 set_mset_mset set_mset_union)
  then have "0 \<le> cost_of new" using assms(2) by (intro cost_of_nonneg) (auto simp: nonneg_costs_def)
  moreover have "length vs = length us + length new"
    by (metis assms(1) length_append mset_append size_mset)
  ultimately show ?thesis using assms(3) cost_of_append [OF assms(1)] by (auto simp: fits_def)
qed

text \<open>
  A batch whose prefix does not cover any of the new units is a batch of the larger input too:
  growing the input splits more buckets, it never merges two.
\<close>

lemma bucket_grow:
  assumes "bucket l us p bs" "bucket l vs p cs" "mset vs = mset us + mset new"
    and "nonneg_costs vs" "distinct_ids vs" "\<forall>u \<in> set vs. covers p (snd u)"
    and "b \<in> set bs" "\<forall>u \<in> set new. \<not> covers (routePrefix b) (snd u)"
  shows "b \<in> set cs"
  using assms
proof (induction arbitrary: vs cs new b rule: bucket.induct)
  case (none p)
  then show ?case by simp
next
  case (whole us p)
  then have "new = []" by (intro no_new_units [OF whole.prems(2,5)]) simp
  then have "bucket l us p cs"
    using bucket_perm [OF whole.prems(1) _ whole.prems(4)] whole.prems(2) by simp
  with whole show ?case using bucket_det [OF bucket.whole [OF whole(1,2)]] by metis
next
  case (single us p)
  then have "new = []" by (intro no_new_units [OF single.prems(2,5)]) simp
  then have "bucket l us p cs"
    using bucket_perm [OF single.prems(1) _ single.prems(4)] single.prems(2) by simp
  with single show ?case using bucket_det [OF bucket.single [OF single(1,2)]] by metis
next
  case (split us p zs os)
  have len: "length vs = length us + length new" by (metis length_append mset_append size_mset split.prems(2))
  have nfits: "\<not> fits l vs" using fits_grow [OF split.prems(2,3)] split.hyps(1) by blast
  obtain zs' os' where cs: "cs = zs' @ os'" "bucket l (zero_side (length p) vs) (p @ ''0'') zs'"
      "bucket l (one_side (length p) vs) (p @ ''1'') os'"
    using split.prems(1) nfits len split.hyps(2) by (cases rule: bucket.cases) auto
  have parts: "mset (zero_side (length p) vs) = mset (zero_side (length p) us) + mset (zero_side (length p) new)"
    "mset (one_side (length p) vs) = mset (one_side (length p) us) + mset (one_side (length p) new)"
    using split.prems(2) by (simp_all add: zero_side_def one_side_def)
  note side = nonneg_sides(1,2) [OF split.prems(3), of "length p"]
    distinct_ids_sides [OF split.prems(4), of "length p"] covers_sides [OF split.prems(5)]
  have new: "\<forall>u \<in> set (zero_side (length p) new). \<not> covers (routePrefix b) (snd u)"
    "\<forall>u \<in> set (one_side (length p) new). \<not> covers (routePrefix b) (snd u)"
    using split.prems(7) by (auto simp: zero_side_def one_side_def)
  show ?case
  proof (cases "b \<in> set zs")
    case True
    then show ?thesis using split.IH(1) [OF cs(2) parts(1) side(1,3,5) True new(1)] cs(1) by simp
  next
    case False
    with split.prems(6) have "b \<in> set os" by simp
    then show ?thesis using split.IH(2) [OF cs(3) parts(2) side(2,4,6) _ new(2)] cs(1) by simp
  qed
qed

section \<open>Enough hash bits\<close>

lemma nibble_bits:
  assumes "a < (16::nat)"
  shows "a = a mod 2 + 2 * (a div 2 mod 2) + 4 * (a div 4 mod 2) + 8 * (a div 8 mod 2)"
proof -
  have "a div 4 = a div 2 div 2" "a div 8 = a div 2 div 2 div 2"
    by (simp_all add: div_mult2_eq [symmetric])
  moreover have "a div 2 div 2 div 2 mod 2 = a div 2 div 2 div 2" using assms by (intro mod_less) simp
  moreover have "a = m0 + 2 * m1 + 4 * m2 + 8 * m3"
    if "2 * x1 + m0 = a" "2 * x2 + m1 = x1" "2 * x3 + m2 = x2" "m3 = x3"
    for x1 x2 x3 m0 m1 m2 m3 :: nat
    using that by simp
  ultimately show ?thesis
    using mult_div_mod_eq [of 2 a] mult_div_mod_eq [of 2 "a div 2"] mult_div_mod_eq [of 2 "a div 2 div 2"]
    by metis
qed

lemma nibble_differs:
  assumes "a < (16::nat)" "b < 16" "a \<noteq> b"
  shows "\<exists>s < 4. a div 2 ^ s mod 2 \<noteq> b div 2 ^ s mod 2"
proof (rule ccontr)
  assume "\<not> ?thesis"
  then have eq: "a div 2 ^ s mod 2 = b div 2 ^ s mod 2" if "s < 4" for s using that by auto
  have "a mod 2 = b mod 2" "a div 2 mod 2 = b div 2 mod 2" "a div 4 mod 2 = b div 4 mod 2"
    "a div 8 mod 2 = b div 8 mod 2"
    using eq [of 0] eq [of 1] eq [of 2] eq [of 3] by simp_all
  with nibble_bits [OF assms(1)] nibble_bits [OF assms(2)] assms(3) show False by simp
qed

lemma hex_value_less: "is_hex c \<Longrightarrow> hex_value c < 16"
  by (auto simp: hex_value_def is_hex_def is_digit_def)

lemma hex_value_inverse: "is_hex c \<Longrightarrow>
    char_of (if hex_value c < 10 then hex_value c + 48 else hex_value c + 87) = c"
  by (auto simp: hex_value_def is_hex_def is_digit_def)

lemma hex_value_inj: "is_hex c \<Longrightarrow> is_hex d \<Longrightarrow> hex_value c = hex_value d \<Longrightarrow> c = d"
  by (metis hex_value_inverse)

lemma digest_bits:
  assumes "is_digest 64 h" "is_digest 64 h'" "h \<noteq> h'"
  shows "\<exists>k < route_hash_bits. routeBit h k \<noteq> routeBit h' k"
proof -
  from assms obtain i where i: "i < 64" "h ! i \<noteq> h' ! i"
    by (auto simp: is_digest_def list_eq_iff_nth_eq)
  have hex: "is_hex (h ! i)" "is_hex (h' ! i)"
    using assms i(1) by (auto simp: is_digest_def list_all_length)
  then obtain s where s: "s < 4" "hex_value (h ! i) div 2 ^ s mod 2 \<noteq> hex_value (h' ! i) div 2 ^ s mod 2"
    using nibble_differs hex_value_less hex_value_inj i(2) by metis
  obtain m where m: "m < 4" "s = 3 - m" using s(1) by (intro that [of "3 - s"]) auto
  define k where "k = 4 * i + m"
  have "k < route_hash_bits" "k div 4 = i" "3 - k mod 4 = s"
    using i(1) m by (auto simp: k_def route_hash_bits_def)
  moreover have "i < length h" "i < length h'" using assms i(1) by (simp_all add: is_digest_def)
  ultimately show ?thesis using s(2) by (intro exI [of _ k]) (simp add: routeBit_def Let_def)
qed

lemma bucket_total:
  assumes "distinct us" "\<forall>u \<in> set us. covers p (snd u)"
    and "\<forall>u \<in> set us. \<forall>v \<in> set us. u \<noteq> v \<longrightarrow> (\<exists>k < route_hash_bits. routeBit (snd u) k \<noteq> routeBit (snd v) k)"
    and "\<forall>h k. routeBit h k < 2"
  shows "\<exists>bs. bucket l us p bs"
  using assms
proof (induction "route_hash_bits - length p" arbitrary: us p rule: less_induct)
  case less
  consider "us = []" | "us \<noteq> []" "fits l us" | "\<not> fits l us" "length us = 1" | "\<not> fits l us" "1 < length us"
    by (metis One_nat_def Suc_lessI length_greater_0_conv)
  then show ?case
  proof cases
    case 4
    then obtain u v us' where us: "us = u # v # us'" by (cases us; cases "tl us") auto
    with less.prems(1) have "u \<noteq> v" by auto
    with less.prems(3) us obtain k where k: "k < route_hash_bits" "routeBit (snd u) k \<noteq> routeBit (snd v) k" by auto
    have "\<not> k < length p"
    proof
      assume "k < length p"
      with less.prems(2) us have "(if routeBit (snd u) k = 0 then CHR ''0'' else CHR ''1'') =
          (if routeBit (snd v) k = 0 then CHR ''0'' else CHR ''1'')"
        unfolding covers_def by (metis list.set_intros)
      moreover have "routeBit (snd u) k < 2" "routeBit (snd v) k < 2" using less.prems(4) by auto
      ultimately show False using k(2) by (auto split: if_splits)
    qed
    with k have lp: "length p < route_hash_bits" by simp
    have sub: "\<exists>bs. bucket l (filter Q us) (p @ [c]) bs"
      if "\<forall>u \<in> set (filter Q us). covers (p @ [c]) (snd u)" for Q c
      using lp less.prems(1,3,4) that by (intro less.hyps) auto
    obtain zs where "bucket l (zero_side (length p) us) (p @ ''0'') zs"
      using sub covers_sides(1) [OF less.prems(2)] unfolding zero_side_def by blast
    moreover obtain os where "bucket l (one_side (length p) us) (p @ ''1'') os"
      using sub covers_sides(2) [OF less.prems(2)] unfolding one_side_def by blast
    ultimately show ?thesis using bucket.split [OF 4 lp] by blast
  qed (blast intro: bucket.intros)+
qed

section \<open>Scheduling order\<close>

interpretation batch_order: js_comparator compareBatchSchedulingPriority
  by unfold_locales
    (auto simp: compareBatchSchedulingPriority_def Let_def compareCodePoints_le split: if_splits)

lemma batch_order_priority: "compareBatchSchedulingPriority l r \<le> 0 \<Longrightarrow>
    minimumSchedulingPriority (batch_units l) \<le> minimumSchedulingPriority (batch_units r)"
  by (auto simp: compareBatchSchedulingPriority_def Let_def split: if_splits)

lemma sorted_batch_order:
  "sorted (map (minimumSchedulingPriority \<circ> batch_units) (js_sort compareBatchSchedulingPriority bs))"
  using batch_order.sorted_sort [of bs]
  by (auto simp: sorted_map elim: sorted_wrt_mono_rel [rotated] intro: batch_order_priority)

section \<open>Properties\<close>

lemma nonneg_routed: "valid_units us \<Longrightarrow> nonneg_costs (map (routed_unit sha) us)"
  by (auto simp: nonneg_costs_def valid_units_def valid_unit_def routed_unit_def)

lemma distinct_ids_routed: "valid_units us \<Longrightarrow> distinct_ids (map (routed_unit sha) us)"
  by (simp add: valid_units_def routed_unit_def comp_def)

lemma create_batches_bucket:
  assumes "createContentDefinedReviewBatches sha us limits = Inr bs"
  obtains cs where "bucket limits (map (routed_unit sha) us) '''' cs" "valid_units us"
    "bs = zip (js_sort compareBatchSchedulingPriority cs) [0..<length cs]"
proof (cases "us = []")
  case True
  with assms have "bs = []" by (simp add: create_batches_Inr)
  with True show ?thesis by (intro that [of "[]"]) (auto intro: bucket.none simp: valid_units_def)
next
  case False
  with assms obtain cs where cs: "valid_units us" "splitBucket limits (map (routed_unit sha) us) '''' = Inr cs"
    "bs = zip (js_sort compareBatchSchedulingPriority cs) [0..<length cs]"
    by (auto simp: create_batches_Inr)
  then show ?thesis using splitBucket_bucket [OF nonneg_routed [OF cs(1)] cs(2)] False by (intro that) auto
qed

lemma map_fst_schedule [simp]:
  "map fst (zip (js_sort compareBatchSchedulingPriority cs) [0..<length cs]) = js_sort compareBatchSchedulingPriority cs"
  "map snd (zip (js_sort compareBatchSchedulingPriority cs) [0..<length cs]) = [0..<length cs]"
  by simp_all

text \<open>
  C7: the batches partition the review units: every unit is in exactly one batch, every batch is
  within the file and token limits or is one oversized unit, a batch holds exactly the units whose
  route hash starts with its prefix, and the scheduling ordinals count the batches by their most
  urgent unit.
\<close>

theorem batches_partition_units:
  assumes "createContentDefinedReviewBatches sha us limits = Inr bs"
  shows "mset (concat (map (batch_units \<circ> fst) bs)) = mset us
    \<and> (\<forall>b \<in> fst ` set bs. within_limits limits b
        \<and> set (batch_units b) = {u \<in> set us. covers (routePrefix b) (sha (route_text u))})
    \<and> map snd bs = [0..<length bs]
    \<and> sorted (map (minimumSchedulingPriority \<circ> batch_units \<circ> fst) bs)"
proof (intro conjI ballI)
  obtain cs where cs: "bucket limits (map (routed_unit sha) us) '''' cs"
    and bs: "bs = zip (js_sort compareBatchSchedulingPriority cs) [0..<length cs]"
    using create_batches_bucket [OF assms] by blast
  have fst_bs: "map fst bs = js_sort compareBatchSchedulingPriority cs" by (simp add: bs)
  then have set_bs: "fst ` set bs = set cs" by (metis list.set_map set_js_sort)
  have "mset (concat (map (batch_units \<circ> fst) bs)) = mset (concat (map batch_units cs))"
    using fst_bs by (metis list.map_comp mset_concat mset_js_sort mset_map sum_mset_sum_list)
  also have "\<dots> = mset us"
    using bucket_partition [OF cs] by (simp add: routed_unit_def comp_def)
  finally show "mset (concat (map (batch_units \<circ> fst) bs)) = mset us" .
  show "map snd bs = [0..<length bs]" by (simp add: bs)
  show "sorted (map (minimumSchedulingPriority \<circ> batch_units \<circ> fst) bs)"
    using sorted_batch_order [of cs] fst_bs by (metis list.map_comp)
  fix b assume "b \<in> fst ` set bs"
  then have b: "b \<in> set cs" using set_bs by simp
  show "within_limits limits b" using bucket_limits [OF cs] b by simp
  show "set (batch_units b) = {u \<in> set us. covers (routePrefix b) (sha (route_text u))}"
    using bucket_covers [OF cs _ b] by (auto simp: routed_unit_def image_iff)
qed

definition demo_sha :: "string \<Rightarrow> string" where
  "demo_sha s = (if last s = CHR ''a'' then CHR ''0'' else if last s = CHR ''b'' then CHR ''8'' else CHR ''c'')
     # replicate 63 (CHR ''0'')"

definition demo_unit :: "char \<Rightarrow> int \<Rightarrow> nat ReviewUnit" where
  "demo_unit c n = \<lparr>unit_value = 7, routeKey = [c], canonicalIdentity = [c], tokenCost = 10, schedulingPriority = n\<rparr>"

definition demo_limits :: ReviewBatchLimits where
  "demo_limits = \<lparr>maxFilesPerBatch = 2, maxTokensPerBatch = 100\<rparr>"

definition demo_batch :: "nat ReviewUnit list \<Rightarrow> string \<Rightarrow> nat UnscheduledBatch" where
  "demo_batch us p = \<lparr>batch_units = us, routePrefix = p, splitDepth = length p,
     batchTokenCost = 10 * int (length us), oversizedSingleUnit = False\<rparr>"

abbreviation demo_a :: "nat ReviewUnit" where "demo_a \<equiv> demo_unit (CHR ''a'') 2"
abbreviation demo_b :: "nat ReviewUnit" where "demo_b \<equiv> demo_unit (CHR ''b'') 1"
abbreviation demo_c :: "nat ReviewUnit" where "demo_c \<equiv> demo_unit (CHR ''c'') 0"

lemma demo_create2: "createContentDefinedReviewBatches demo_sha [demo_a, demo_b] demo_limits =
    Inr [(demo_batch [demo_a, demo_b] '''', 0)]"
  by code_simp

lemma demo_create3: "createContentDefinedReviewBatches demo_sha [demo_c, demo_a, demo_b] demo_limits =
    Inr [(demo_batch [demo_b, demo_c] ''1'', 0), (demo_batch [demo_a] ''0'', 1)]"
  by code_simp

theorem batches_partition_units_witness:
  "mset (concat (map (batch_units \<circ> fst) [(demo_batch [demo_b, demo_c] ''1'', 0 :: nat), (demo_batch [demo_a] ''0'', 1)]))
     = mset [demo_c, demo_a, demo_b]"
  by (rule batches_partition_units [OF demo_create3, THEN conjunct1])

text \<open>
  The batches do not depend on the order in which the units are listed.
\<close>

theorem batches_ignore_input_order:
  assumes "createContentDefinedReviewBatches sha us limits = Inr bs" and "mset vs = mset us"
  shows "createContentDefinedReviewBatches sha vs limits = Inr bs"
proof (cases "us = []")
  case True
  with assms show ?thesis by simp
next
  case False
  let ?us = "map (routed_unit sha) us" and ?vs = "map (routed_unit sha) vs"
  obtain cs where cs: "valid_units us" "splitBucket limits ?us '''' = Inr cs" "valid_limits limits"
    "bs = zip (js_sort compareBatchSchedulingPriority cs) [0..<length cs]"
    using assms(1) False by (auto simp: create_batches_Inr)
  have perm: "mset ?us = mset ?vs" using assms(2) by simp
  have "mset (map f vs) = mset (map f us)" for f :: "_ \<Rightarrow> 'b" using assms(2) by simp
  moreover have "set vs = set us" using assms(2) by (metis set_mset_mset)
  ultimately have valid: "valid_units vs"
    using cs(1) unfolding valid_units_def by (metis mset_eq_imp_distinct_iff assms(2) mset_map)
  have "bucket limits ?vs '''' cs"
    using splitBucket_bucket [OF nonneg_routed [OF cs(1)] cs(2)] False
      bucket_perm [OF _ perm distinct_ids_routed [OF cs(1)]] by simp
  moreover have "cost_of ?vs \<le> max_safe_integer"
    using splitBucket_overflow [OF nonneg_routed [OF cs(1)] cs(2)] cost_of_perm [OF perm] by simp
  moreover have "vs \<noteq> []" using False assms(2) by auto
  ultimately have "splitBucket limits ?vs '''' = Inr cs"
    by (intro bucket_splitBucket nonneg_routed [OF valid]) auto
  with valid cs(3,4) \<open>vs \<noteq> []\<close> show ?thesis by (simp add: create_batches_Inr)
qed

theorem batches_ignore_input_order_witness:
  "createContentDefinedReviewBatches demo_sha [demo_b, demo_c, demo_a] demo_limits =
    Inr [(demo_batch [demo_b, demo_c] ''1'', 0), (demo_batch [demo_a] ''0'', 1)]"
  by (rule batches_ignore_input_order [OF demo_create3]) simp

text \<open>
  C8: adding units leaves every batch alone whose hash path no new unit falls into: the batch, with
  its units, prefix and cost, is a batch of the larger change too.
\<close>

theorem new_units_keep_other_batches:
  assumes "createContentDefinedReviewBatches sha us limits = Inr bs"
    and "createContentDefinedReviewBatches sha vs limits = Inr cs"
    and "mset vs = mset us + mset new"
    and "b \<in> fst ` set bs" and "\<forall>u \<in> set new. \<not> covers (routePrefix b) (sha (route_text u))"
  shows "b \<in> fst ` set cs"
proof -
  obtain bs' where bs: "bucket limits (map (routed_unit sha) us) '''' bs'"
    "bs = zip (js_sort compareBatchSchedulingPriority bs') [0..<length bs']"
    using create_batches_bucket [OF assms(1)] by blast
  obtain cs' where cs: "bucket limits (map (routed_unit sha) vs) '''' cs'" "valid_units vs"
    "cs = zip (js_sort compareBatchSchedulingPriority cs') [0..<length cs']"
    using create_batches_bucket [OF assms(2)] by blast
  have "fst ` set bs = set bs'" "fst ` set cs = set cs'"
    using map_fst_schedule(1) [of bs'] map_fst_schedule(1) [of cs'] unfolding bs(2) cs(3)
    by (metis list.set_map set_js_sort)+
  then show ?thesis
    using bucket_grow [OF bs(1) cs(1), of "map (routed_unit sha) new" b] assms(3-5)
      nonneg_routed [OF cs(2)] distinct_ids_routed [OF cs(2)]
    by (simp add: routed_unit_def)
qed

lemma demo_create4: "createContentDefinedReviewBatches demo_sha [demo_a, demo_b, demo_c, demo_unit (CHR ''d'') 3] demo_limits =
    Inr [(demo_batch [demo_c, demo_unit (CHR ''d'') 3] ''11'', 0), (demo_batch [demo_b] ''10'', 1),
      (demo_batch [demo_a] ''0'', 2)]"
  by code_simp

theorem new_units_keep_other_batches_witness:
  "demo_batch [demo_a] ''0'' \<in> fst ` set [(demo_batch [demo_c, demo_unit (CHR ''d'') 3] ''11'', 0),
     (demo_batch [demo_b] ''10'', 1), (demo_batch [demo_a] ''0'', 2 :: nat)]"
proof (rule new_units_keep_other_batches [OF demo_create3 demo_create4])
  show "mset [demo_a, demo_b, demo_c, demo_unit (CHR ''d'') 3] =
      mset [demo_c, demo_a, demo_b] + mset [demo_unit (CHR ''d'') 3]" by simp
  show "\<forall>u \<in> set [demo_unit (CHR ''d'') 3].
      \<not> covers (routePrefix (demo_batch [demo_a] ''0'')) (demo_sha (route_text u))"
    by (simp add: covers_def demo_batch_def demo_unit_def route_text_def demo_sha_def routeBit_def hex_value_def
        is_digit_def)
qed simp

text \<open>
  Valid units whose costs sum to a safe integer always get a batch plan: when the digests of
  their route keys are pairwise different 256-bit hex digests, the hash space is never exhausted.
\<close>

theorem batches_exist:
  assumes "valid_limits limits" "valid_units us" "sum_list (map tokenCost us) \<le> max_safe_integer"
    and "\<forall>u \<in> set us. is_digest 64 (sha (route_text u))"
    and "inj_on (\<lambda>u. sha (route_text u)) (set us)"
  shows "\<exists>bs. createContentDefinedReviewBatches sha us limits = Inr bs"
proof (cases "us = []")
  case True
  with assms(1) show ?thesis by (simp add: create_batches_Inr)
next
  case False
  let ?us = "map (routed_unit sha) us"
  have "distinct us" using assms(2) by (simp add: valid_units_def distinct_map)
  then have "distinct ?us" by (auto simp: distinct_map inj_on_def routed_unit_def)
  moreover have "\<exists>k < route_hash_bits. routeBit (snd u) k \<noteq> routeBit (snd v) k"
    if "u \<in> set ?us" "v \<in> set ?us" "u \<noteq> v" for u v
    using that assms(4,5) by (intro digest_bits) (auto simp: routed_unit_def inj_on_def)
  moreover have "\<forall>h k. routeBit h k < 2" by (simp add: routeBit_def Let_def)
  ultimately obtain cs where cs: "bucket limits ?us '''' cs"
    using bucket_total [of ?us "''''" limits] by auto
  have "cost_of ?us \<le> max_safe_integer" using assms(3) by (simp add: cost_of_def routed_unit_def comp_def)
  with cs False have "splitBucket limits ?us '''' = Inr cs"
    by (intro bucket_splitBucket nonneg_routed [OF assms(2)]) auto
  with assms(1,2) False show ?thesis by (auto simp: create_batches_Inr)
qed

theorem batches_exist_witness:
  "\<exists>bs. createContentDefinedReviewBatches demo_sha [demo_a, demo_b, demo_c] demo_limits = Inr bs"
  by (rule batches_exist)
    (simp_all add: valid_limits_def valid_units_def valid_unit_def demo_unit_def demo_limits_def
      is_safe_integer_def max_safe_integer_def route_text_def demo_sha_def is_digest_def is_hex_def is_digit_def list_all_iff)

end
