(* ===== verification/Js_Number.thy ===== *)
theory Js_Number
  imports Prelude
begin

text \<open>
  The \<open>number\<close> values of JavaScript as the sources use them: finite values (rationals, the arithmetic on
  them exact), the infinities and NaN.
\<close>

section \<open>Numbers with infinities\<close>

datatype jsnum = Fin rat | PosInf | NegInf | NaN

fun num_le :: "jsnum \<Rightarrow> jsnum \<Rightarrow> bool" where
  "num_le (Fin a) (Fin b) \<longleftrightarrow> a \<le> b"
| "num_le NaN y \<longleftrightarrow> False"
| "num_le x NaN \<longleftrightarrow> False"
| "num_le NegInf y \<longleftrightarrow> True"
| "num_le x PosInf \<longleftrightarrow> True"
| "num_le x y \<longleftrightarrow> False"

fun num_add :: "jsnum \<Rightarrow> jsnum \<Rightarrow> jsnum" where
  "num_add (Fin a) (Fin b) = Fin (a + b)"
| "num_add NaN y = NaN"
| "num_add x NaN = NaN"
| "num_add PosInf NegInf = NaN"
| "num_add NegInf PosInf = NaN"
| "num_add PosInf y = PosInf"
| "num_add x PosInf = PosInf"
| "num_add NegInf y = NegInf"
| "num_add x NegInf = NegInf"

fun num_neg :: "jsnum \<Rightarrow> jsnum" where
  "num_neg (Fin a) = Fin (- a)"
| "num_neg PosInf = NegInf"
| "num_neg NegInf = PosInf"
| "num_neg NaN = NaN"

definition num_sub :: "jsnum \<Rightarrow> jsnum \<Rightarrow> jsnum" where
  "num_sub x y = num_add x (num_neg y)"

text \<open>\<open>Math.max\<close> and \<open>Math.min\<close> of two numbers.\<close>

definition num_max :: "jsnum \<Rightarrow> jsnum \<Rightarrow> jsnum" where
  "num_max x y = (if x = NaN \<or> y = NaN then NaN else if num_le x y then y else x)"

definition num_min :: "jsnum \<Rightarrow> jsnum \<Rightarrow> jsnum" where
  "num_min x y = (if x = NaN \<or> y = NaN then NaN else if num_le x y then x else y)"

fun is_finite :: "jsnum \<Rightarrow> bool" where
  "is_finite (Fin a) = True"
| "is_finite x = False"

lemma num_Fin [simp]:
  "num_max (Fin a) (Fin b) = Fin (max a b)" "num_min (Fin a) (Fin b) = Fin (min a b)"
  "num_sub (Fin a) (Fin b) = Fin (a - b)"
  by (simp_all add: num_max_def num_min_def num_sub_def max_def min_def)

end
