(* ===== verification/Execution_Deadline.thy ===== *)
theory Execution_Deadline
  imports Js_Number
begin

text \<open>
  \<open>src/review-execution/domain/execution-deadline.ts\<close>: how much of the job's time budget is left
  and whether a batch or an optional retry may still start.  The clock is injected, so a reading of
  \<open>now()\<close> is an argument.
\<close>

section \<open>The deadline\<close>

record ExecutionDeadlineWindows =
  completionReserveMs :: jsnum
  minimumBatchStartWindowMs :: jsnum
  minimumOptionalRetryStartWindowMs :: jsnum

record ExecutionDeadline =
  deadlineEpochMs :: "jsnum option"
  windows :: ExecutionDeadlineWindows

definition requireNonNegativeFinite :: "jsnum \<Rightarrow> string \<Rightarrow> js_error option" where
  "requireNonNegativeFinite v field =
     check (is_finite v \<and> num_le (Fin 0) v) (field @ '' must be a non-negative finite number'')"

definition createExecutionDeadline :: "jsnum option \<Rightarrow> ExecutionDeadlineWindows \<Rightarrow> ExecutionDeadline res" where
  "createExecutionDeadline deadline w =
     throws (case deadline of None \<Rightarrow> None | Some d \<Rightarrow> requireNonNegativeFinite d ''deadlineEpochMs'')
     (throws (requireNonNegativeFinite (completionReserveMs w) ''completionReserveMs'')
     (throws (requireNonNegativeFinite (minimumBatchStartWindowMs w) ''minimumBatchStartWindowMs'')
     (throws (requireNonNegativeFinite (minimumOptionalRetryStartWindowMs w) ''minimumOptionalRetryStartWindowMs'')
     (Inr \<lparr>deadlineEpochMs = deadline, windows = w\<rparr>))))"

definition remainingMs :: "ExecutionDeadline \<Rightarrow> jsnum \<Rightarrow> jsnum" where
  "remainingMs d now = (case deadlineEpochMs d of
     None \<Rightarrow> PosInf
   | Some e \<Rightarrow> num_max (Fin 0) (num_sub e now))"

definition canStartBatch :: "ExecutionDeadline \<Rightarrow> jsnum \<Rightarrow> bool" where
  "canStartBatch d now \<longleftrightarrow>
     num_le (num_add (completionReserveMs (windows d)) (minimumBatchStartWindowMs (windows d)))
       (remainingMs d now)"

definition canStartInitialInvocation :: "ExecutionDeadline \<Rightarrow> jsnum \<Rightarrow> bool" where
  "canStartInitialInvocation d now \<longleftrightarrow> canStartBatch d now"

definition clampProviderTimeout :: "ExecutionDeadline \<Rightarrow> jsnum \<Rightarrow> jsnum \<Rightarrow> jsnum res" where
  "clampProviderTimeout d now requested =
     throws (requireNonNegativeFinite requested ''requestedTimeoutMs'')
     (case deadlineEpochMs d of
        None \<Rightarrow> Inr requested
      | Some e \<Rightarrow>
          let usable = num_max (Fin 0) (num_sub (remainingMs d now) (completionReserveMs (windows d)))
          in Inr (num_min requested usable))"

definition canStartOptionalRetry :: "ExecutionDeadline \<Rightarrow> jsnum \<Rightarrow> bool" where
  "canStartOptionalRetry d now \<longleftrightarrow>
     num_le (num_add (completionReserveMs (windows d)) (minimumOptionalRetryStartWindowMs (windows d)))
       (remainingMs d now)"

lemmas deadline_defs = remainingMs_def canStartBatch_def canStartInitialInvocation_def
  clampProviderTimeout_def canStartOptionalRetry_def num_max_def num_min_def num_sub_def

lemma nonneg_finite: "requireNonNegativeFinite v f = None \<longleftrightarrow> (\<exists>a \<ge> 0. v = Fin a)"
  by (cases v) (auto simp: requireNonNegativeFinite_def res_simps)

lemma create_deadline_Inr: "createExecutionDeadline e w = Inr d \<longleftrightarrow>
    d = \<lparr>deadlineEpochMs = e, windows = w\<rparr> \<and> (\<forall>x. e = Some x \<longrightarrow> (\<exists>a \<ge> 0. x = Fin a)) \<and>
    (\<exists>a \<ge> 0. completionReserveMs w = Fin a) \<and> (\<exists>a \<ge> 0. minimumBatchStartWindowMs w = Fin a) \<and>
    (\<exists>a \<ge> 0. minimumOptionalRetryStartWindowMs w = Fin a)"
  by (auto simp: createExecutionDeadline_def res_simps nonneg_finite split: option.split)

section \<open>The contract of a start policy\<close>

text \<open>
  What a client that polls a start policy relies on: once the policy refuses, it refuses at every
  later moment.
\<close>

locale start_policy =
  fixes can_start :: "'w \<Rightarrow> bool" and later :: "'w \<Rightarrow> 'w \<Rightarrow> bool"
  assumes no_reopening: "later w w' \<Longrightarrow> can_start w' \<Longrightarrow> can_start w"
begin

lemma refused_for_good: "\<not> can_start w \<Longrightarrow> later w w' \<Longrightarrow> \<not> can_start w'"
  using no_reopening by blast

end

text \<open>A reading is later than another when both are finite and it is not smaller.\<close>

definition later_reading :: "jsnum \<Rightarrow> jsnum \<Rightarrow> bool" where
  "later_reading t u \<longleftrightarrow> is_finite t \<and> is_finite u \<and> num_le t u"

lemma remaining_antitone:
  assumes "later_reading t u" "num_le x (remainingMs d u)"
    and "\<And>e. deadlineEpochMs d = Some e \<Longrightarrow> is_finite e"
  shows "num_le x (remainingMs d t)"
proof (cases "deadlineEpochMs d")
  case None
  then show ?thesis using assms(2) by (simp add: remainingMs_def)
next
  case (Some e)
  with assms(3) obtain a where "e = Fin a" by (cases e) auto
  with Some assms(1,2) show ?thesis
    by (cases t; cases u; cases x) (auto simp: later_reading_def deadline_defs split: if_splits)
qed

text \<open>The deadline the constructor accepts keeps the contract.\<close>

typedef checked_deadline = "{d. \<exists>e w. createExecutionDeadline e w = Inr d}"
  morphisms deadline_of checked
proof -
  have "createExecutionDeadline None \<lparr>completionReserveMs = Fin 0, minimumBatchStartWindowMs = Fin 0,
      minimumOptionalRetryStartWindowMs = Fin 0\<rparr> =
    Inr \<lparr>deadlineEpochMs = None, windows = \<lparr>completionReserveMs = Fin 0, minimumBatchStartWindowMs = Fin 0,
      minimumOptionalRetryStartWindowMs = Fin 0\<rparr>\<rparr>"
    by (simp add: create_deadline_Inr)
  then show ?thesis by blast
qed

lemma deadline_of_finite: "deadlineEpochMs (deadline_of d) = Some e \<Longrightarrow> is_finite e"
  using deadline_of [of d] by (auto simp: create_deadline_Inr)

interpretation deadline_policy: start_policy "canStartBatch (deadline_of d)" later_reading
  for d :: checked_deadline
  by unfold_locales (auto simp: canStartBatch_def intro: remaining_antitone deadline_of_finite)

interpretation retry_policy: start_policy "canStartOptionalRetry (deadline_of d)" later_reading
  for d :: checked_deadline
  by unfold_locales (auto simp: canStartOptionalRetry_def intro: remaining_antitone deadline_of_finite)

section \<open>Properties\<close>

text \<open>
  A clamped provider timeout never exceeds the requested one, is not negative, and a call that
  starts now and takes the whole timeout ends before the completion reserve begins (or at once when
  the reserve has already begun).
\<close>

theorem clamped_timeout_keeps_reserve:
  assumes "createExecutionDeadline (Some e) w = Inr d" and "clampProviderTimeout d (Fin now) requested = Inr t"
  shows "num_le (Fin 0) t \<and> num_le t requested \<and>
    num_le (num_add (Fin now) t) (num_max (Fin now) (num_sub e (completionReserveMs w)))"
proof -
  obtain a r where "e = Fin a" "completionReserveMs w = Fin r" "0 \<le> r" "d = \<lparr>deadlineEpochMs = Some e, windows = w\<rparr>"
    using assms(1) by (auto simp: create_deadline_Inr)
  moreover obtain q where "requested = Fin q" "0 \<le> q"
    using assms(2) by (auto simp: clampProviderTimeout_def res_simps nonneg_finite)
  moreover from calculation have "t = Fin (min q (max 0 (max 0 (a - now) - r)))"
    using assms(2) by (simp add: clampProviderTimeout_def remainingMs_def Let_def res_simps)
  ultimately show ?thesis by (simp add: min_def max_def)
qed

definition demo_windows :: ExecutionDeadlineWindows where
  "demo_windows = \<lparr>completionReserveMs = Fin 60, minimumBatchStartWindowMs = Fin 30,
     minimumOptionalRetryStartWindowMs = Fin 45\<rparr>"

theorem clamped_timeout_keeps_reserve_witness:
  "num_le (Fin 0) (Fin 40) \<and> num_le (Fin 40) (Fin 500) \<and>
    num_le (num_add (Fin 900) (Fin 40)) (num_max (Fin 900) (num_sub (Fin 1000) (Fin 60)))"
  using clamped_timeout_keeps_reserve [of "Fin 1000" demo_windows
      "\<lparr>deadlineEpochMs = Some (Fin 1000), windows = demo_windows\<rparr>" 900 "Fin 500" "Fin 40"]
  by (simp add: create_deadline_Inr demo_windows_def deadline_defs Let_def nonneg_finite)

text \<open>
  A batch that may start now gets, from the clamp, at least the minimum start window or all the
  time it asked for; and once a batch may not start it may not start at any later reading either.
\<close>

theorem admitted_batch_has_its_window:
  assumes "createExecutionDeadline e w = Inr d" and "canStartBatch d (Fin now)"
    and "clampProviderTimeout d (Fin now) requested = Inr t"
  shows "num_le (num_min requested (minimumBatchStartWindowMs w)) t \<and>
    (\<forall>before. before \<le> now \<longrightarrow> canStartBatch d (Fin before))"
proof -
  obtain r m where w: "completionReserveMs w = Fin r" "minimumBatchStartWindowMs w = Fin m" "0 \<le> r" "0 \<le> m"
    and d: "d = \<lparr>deadlineEpochMs = e, windows = w\<rparr>"
    using assms(1) by (auto simp: create_deadline_Inr)
  obtain q where q: "requested = Fin q" "0 \<le> q"
    using assms(3) by (auto simp: clampProviderTimeout_def res_simps nonneg_finite)
  have "num_le (num_min requested (minimumBatchStartWindowMs w)) t"
  proof (cases e)
    case None
    with assms(3) d q w show ?thesis by (auto simp: deadline_defs res_simps)
  next
    case (Some x)
    with assms(1) obtain a where "x = Fin a" by (auto simp: create_deadline_Inr)
    with Some assms(2,3) d q w show ?thesis
      by (auto simp: clampProviderTimeout_def canStartBatch_def remainingMs_def Let_def res_simps min_def max_def
          split: if_splits)
  qed
  moreover have "canStartBatch d (Fin before)" if "before \<le> now" for before
  proof -
    have "deadline_of (checked d) = d" using assms(1) by (intro checked_inverse) blast
    with deadline_policy.no_reopening [of "Fin before" "Fin now" "checked d"] assms(2) that
    show ?thesis by (simp add: later_reading_def)
  qed
  ultimately show ?thesis by blast
qed

theorem admitted_batch_has_its_window_witness:
  "num_le (num_min (Fin 500) (Fin 30)) (Fin 40) \<and>
   canStartBatch \<lparr>deadlineEpochMs = Some (Fin 1000), windows = demo_windows\<rparr> (Fin 850)"
proof -
  have "createExecutionDeadline (Some (Fin 1000)) demo_windows =
      Inr \<lparr>deadlineEpochMs = Some (Fin 1000), windows = demo_windows\<rparr>"
    "canStartBatch \<lparr>deadlineEpochMs = Some (Fin 1000), windows = demo_windows\<rparr> (Fin 900)"
    "clampProviderTimeout \<lparr>deadlineEpochMs = Some (Fin 1000), windows = demo_windows\<rparr> (Fin 900) (Fin 500) =
      Inr (Fin 40)"
    by (simp_all add: create_deadline_Inr demo_windows_def deadline_defs Let_def nonneg_finite res_simps)
  from admitted_batch_has_its_window [OF this] show ?thesis by (simp add: demo_windows_def)
qed

end
