(* ===== verification/Batch_Scheduler.thy ===== *)
theory Batch_Scheduler
  imports Execution_Deadline
begin

text \<open>
  \<open>src/review-execution/application/adaptive-batch-scheduler.ts\<close>: the promise body of
  \<open>AdaptiveBatchScheduler.schedule\<close> as a state and its callbacks.  The closure variables are the
  fields of \<open>sched\<close>.  One item goes through two callbacks of its promise chain: \<open>settle\<close> is the
  \<open>then\<close>/\<open>catch\<close> handler that records the outcome and adapts the concurrency, \<open>release\<close> is the
  \<open>finally\<close> handler that frees the place and pumps; callbacks of other items may run in between, so
  the steps are a relation.  The \<open>k\<close>-th call of \<open>startPolicy.canStartBatch()\<close> answers \<open>policy k\<close>.
\<close>

section \<open>State\<close>

datatype CapacitySignal = Healthy | CapacityPressure | Neutral

definition ADAPTIVE_BATCH_HARD_MAX_CONCURRENCY :: nat where
  "ADAPTIVE_BATCH_HARD_MAX_CONCURRENCY = 3"

definition INITIAL_MULTIPLE_ITEM_CONCURRENCY :: nat where
  "INITIAL_MULTIPLE_ITEM_CONCURRENCY = 2"

datatype ('i, 'r) CompletedBatchExecution =
  Fulfilled (c_index: nat) (c_item: 'i) 'r
| Rejected (c_index: nat) (c_item: 'i) js_error

datatype BatchDeferralReason = InsufficientDeadline

record 'i DeferredBatchExecution =
  d_index :: nat
  d_item :: 'i
  d_reason :: BatchDeferralReason

record ('i, 'r) sched =
  completed :: "('i, 'r) CompletedBatchExecution list"
  deferred :: "'i DeferredBatchExecution list"
  nextIndex :: nat
  activeCount :: nat
  concurrency :: nat
  capacityPressureObserved :: bool
  launchClosed :: bool
  resolved :: bool
  running :: "nat list"   \<comment> \<open>launched, outcome not recorded yet\<close>
  settling :: "nat list"  \<comment> \<open>outcome recorded, \<open>finally\<close> not run yet\<close>
  polls :: nat            \<comment> \<open>calls of \<open>canStartBatch\<close> so far\<close>

section \<open>The closures\<close>

definition finishIfDone :: "'i list \<Rightarrow> ('i, 'r) sched \<Rightarrow> ('i, 'r) sched" where
  "finishIfDone items st =
     (if resolved st \<or> nextIndex st < length items \<or> activeCount st > 0 then st
      else st\<lparr>resolved := True,
        completed := js_sort (\<lambda>l r. int (c_index l) - int (c_index r)) (completed st),
        deferred := js_sort (\<lambda>l r. int (d_index l) - int (d_index r)) (deferred st)\<rparr>)"

function deferLoop :: "'i list \<Rightarrow> ('i, 'r) sched \<Rightarrow> ('i, 'r) sched" where
  "deferLoop items st =
     (if nextIndex st < length items
      then deferLoop items
        (st\<lparr>deferred := deferred st @ [\<lparr>d_index = nextIndex st, d_item = items ! nextIndex st,
              d_reason = InsufficientDeadline\<rparr>],
            nextIndex := Suc (nextIndex st)\<rparr>)
      else st)"
  by pat_completeness auto
termination
  by (relation "measure (\<lambda>(items, st). length items - nextIndex st)") auto

declare deferLoop.simps [simp del]

definition deferUnstarted :: "'i list \<Rightarrow> ('i, 'r) sched \<Rightarrow> ('i, 'r) sched" where
  "deferUnstarted items st = deferLoop items (st\<lparr>launchClosed := True\<rparr>)"

definition adaptConcurrency :: "CapacitySignal \<Rightarrow> ('i, 'r) sched \<Rightarrow> ('i, 'r) sched" where
  "adaptConcurrency signal st =
     (if signal = CapacityPressure then st\<lparr>capacityPressureObserved := True, concurrency := 1\<rparr>
      else if signal = Healthy \<and> \<not> capacityPressureObserved st
      then st\<lparr>concurrency := ADAPTIVE_BATCH_HARD_MAX_CONCURRENCY\<rparr>
      else st)"

definition launch :: "('i, 'r) sched \<Rightarrow> ('i, 'r) sched" where
  "launch st = st\<lparr>running := running st @ [nextIndex st], nextIndex := Suc (nextIndex st),
     activeCount := Suc (activeCount st)\<rparr>"

function pumpLoop :: "'i list \<Rightarrow> (nat \<Rightarrow> bool) \<Rightarrow> ('i, 'r) sched \<Rightarrow> ('i, 'r) sched" where
  "pumpLoop items policy st =
     (if \<not> launchClosed st \<and> activeCount st < concurrency st \<and> nextIndex st < length items
      then if \<not> policy (polls st) then deferUnstarted items (st\<lparr>polls := Suc (polls st)\<rparr>)
           else pumpLoop items policy (launch (st\<lparr>polls := Suc (polls st)\<rparr>))
      else st)"
  by pat_completeness auto
termination
  by (relation "measure (\<lambda>(items, policy, st). length items - nextIndex st)") (auto simp: launch_def)

declare pumpLoop.simps [simp del]

definition pump :: "'i list \<Rightarrow> (nat \<Rightarrow> bool) \<Rightarrow> ('i, 'r) sched \<Rightarrow> ('i, 'r) sched" where
  "pump items policy st = finishIfDone items (pumpLoop items policy st)"

text \<open>The handlers of one item's promise: its outcome is the result of \<open>execute\<close> or what it threw,
  and the classifier may itself throw, which the \<open>catch\<close> handler records.\<close>

definition settle :: "'i list \<Rightarrow> ('r \<Rightarrow> CapacitySignal res) \<Rightarrow> nat \<Rightarrow> 'r res \<Rightarrow> ('i, 'r) sched \<Rightarrow> ('i, 'r) sched" where
  "settle items classify i outcome st =
     (let st' = st\<lparr>running := removeAll i (running st), settling := settling st @ [i]\<rparr> in
      case rbind outcome (\<lambda>r. rbind (classify r) (\<lambda>s. Inr (r, s))) of
        Inr (r, s) \<Rightarrow> adaptConcurrency s (st'\<lparr>completed := completed st' @ [Fulfilled i (items ! i) r]\<rparr>)
      | Inl e \<Rightarrow> st'\<lparr>completed := completed st' @ [Rejected i (items ! i) e]\<rparr>)"

definition release :: "'i list \<Rightarrow> (nat \<Rightarrow> bool) \<Rightarrow> nat \<Rightarrow> ('i, 'r) sched \<Rightarrow> ('i, 'r) sched" where
  "release items policy i st =
     finishIfDone items (pump items policy
       (st\<lparr>settling := removeAll i (settling st), activeCount := activeCount st - 1\<rparr>))"

definition schedule_start :: "'i list \<Rightarrow> (nat \<Rightarrow> bool) \<Rightarrow> ('i, 'r) sched" where
  "schedule_start items policy =
     (let init = \<lparr>completed = [], deferred = [], nextIndex = 0, activeCount = 0,
            concurrency = (if length items > 1 then INITIAL_MULTIPLE_ITEM_CONCURRENCY else 1),
            capacityPressureObserved = False, launchClosed = False, resolved = False,
            running = [], settling = [], polls = 0\<rparr>
      in if length items = 0 then init\<lparr>resolved := True\<rparr> else pump items policy init)"

inductive sched_step :: "'i list \<Rightarrow> (nat \<Rightarrow> bool) \<Rightarrow> ('r \<Rightarrow> CapacitySignal res) \<Rightarrow>
    ('i, 'r) sched \<Rightarrow> ('i, 'r) sched \<Rightarrow> bool" for items policy classify where
  settle: "i \<in> set (running st) \<Longrightarrow> sched_step items policy classify st (settle items classify i outcome st)"
| release: "i \<in> set (settling st) \<Longrightarrow> sched_step items policy classify st (release items policy i st)"

inductive sched_reachable :: "'i list \<Rightarrow> (nat \<Rightarrow> bool) \<Rightarrow> ('r \<Rightarrow> CapacitySignal res) \<Rightarrow>
    ('i, 'r) sched \<Rightarrow> bool" for items policy classify where
  start: "sched_reachable items policy classify (schedule_start items policy)"
| step: "sched_reachable items policy classify st \<Longrightarrow> sched_step items policy classify st st' \<Longrightarrow>
    sched_reachable items policy classify st'"

section \<open>The invariant\<close>

text \<open>
  \<open>k\<close> is the number of launched items: they are running or completed, what follows up to
  \<open>nextIndex\<close> is deferred, and each launched item was admitted by its own poll.
\<close>

definition deferral :: "'i list \<Rightarrow> nat \<Rightarrow> 'i DeferredBatchExecution" where
  "deferral items i = \<lparr>d_index = i, d_item = items ! i, d_reason = InsufficientDeadline\<rparr>"

definition launched_upto :: "'i list \<Rightarrow> (nat \<Rightarrow> bool) \<Rightarrow> ('i, 'r) sched \<Rightarrow> nat \<Rightarrow> bool" where
  "launched_upto items policy st k \<longleftrightarrow>
     k \<le> nextIndex st \<and>
     mset (running st @ map c_index (completed st)) = mset [0..<k] \<and>
     deferred st = map (deferral items) [k..<nextIndex st] \<and>
     (\<forall>j < k. policy j) \<and>
     (if launchClosed st then k < nextIndex st \<and> nextIndex st = length items \<and> polls st = Suc k \<and> \<not> policy k
      else k = nextIndex st \<and> polls st = k)"

definition sched_inv :: "'i list \<Rightarrow> (nat \<Rightarrow> bool) \<Rightarrow> ('i, 'r) sched \<Rightarrow> bool" where
  "sched_inv items policy st \<longleftrightarrow>
     activeCount st = length (running st) + length (settling st) \<and>
     distinct (settling st) \<and> set (settling st) \<subseteq> c_index ` set (completed st) \<and>
     (\<forall>c \<in> set (completed st). c_index c < length items \<and> c_item c = items ! c_index c) \<and>
     concurrency st \<in> {1, 2, 3} \<and> activeCount st \<le> 3 \<and>
     (capacityPressureObserved st \<longrightarrow> concurrency st = 1) \<and>
     nextIndex st \<le> length items \<and> (\<exists>k. launched_upto items policy st k)"

text \<open>Between two callbacks the scheduler has either finished or has an item in flight.\<close>

definition sched_live :: "'i list \<Rightarrow> ('i, 'r) sched \<Rightarrow> bool" where
  "sched_live items st \<longleftrightarrow> (resolved st \<longleftrightarrow> activeCount st = 0) \<and> (activeCount st = 0 \<longrightarrow> nextIndex st = length items) \<and>
     (resolved st \<longrightarrow> sorted (map c_index (completed st)))"

lemma deferLoop_eq:
  assumes "nextIndex st \<le> length items"
  shows "deferLoop items st = st\<lparr>deferred := deferred st @ map (deferral items) [nextIndex st..<length items],
    nextIndex := length items\<rparr>"
  using assms
proof (induction items st rule: deferLoop.induct)
  case (1 items st)
  show ?case
  proof (cases "nextIndex st < length items")
    case True
    then show ?thesis
      using 1 by (simp add: deferLoop.simps [of items st] deferral_def upt_conv_Cons)
  next
    case False
    with "1.prems" show ?thesis by (simp add: deferLoop.simps [of items st])
  qed
qed

lemma launched_cong:
  assumes "launched_upto items policy st k"
    and "mset (running st') + mset (map c_index (completed st')) = mset (running st) + mset (map c_index (completed st))"
    and "deferred st' = deferred st" "nextIndex st' = nextIndex st" "launchClosed st' = launchClosed st"
    and "polls st' = polls st"
  shows "launched_upto items policy st' k"
  using assms(1) unfolding launched_upto_def assms(3-6) mset_append assms(2) .

lemma inv_open:
  assumes "sched_inv items policy st" "\<not> launchClosed st"
  shows "launched_upto items policy st (nextIndex st)" "polls st = nextIndex st"
  using assms by (auto simp: sched_inv_def launched_upto_def)

lemma inv_launch:
  assumes "sched_inv items policy st" "\<not> launchClosed st" "activeCount st < concurrency st"
    and "nextIndex st < length items" "policy (polls st)"
  shows "sched_inv items policy (launch (st\<lparr>polls := Suc (polls st)\<rparr>))"
proof -
  note k = inv_open [OF assms(1,2)]
  have "launched_upto items policy (launch (st\<lparr>polls := Suc (polls st)\<rparr>)) (Suc (nextIndex st))"
    using k assms(2,5) by (auto simp: launched_upto_def launch_def less_Suc_eq atLeast0_lessThan_Suc)
  then show ?thesis
    using assms by (auto simp: sched_inv_def launch_def)
qed

lemma inv_defer:
  assumes "sched_inv items policy st" "\<not> launchClosed st" "nextIndex st < length items" "\<not> policy (polls st)"
  shows "sched_inv items policy (deferUnstarted items (st\<lparr>polls := Suc (polls st)\<rparr>))"
proof -
  note k = inv_open [OF assms(1,2)]
  have "launched_upto items policy (deferUnstarted items (st\<lparr>polls := Suc (polls st)\<rparr>)) (nextIndex st)"
    using k assms(2-4) by (auto simp: launched_upto_def deferUnstarted_def deferLoop_eq)
  then show ?thesis
    using assms by (auto simp: sched_inv_def deferUnstarted_def deferLoop_eq)
qed

lemma inv_pumpLoop: "sched_inv items policy st \<Longrightarrow> sched_inv items policy (pumpLoop items policy st)"
proof (induction items policy st rule: pumpLoop.induct)
  case (1 items policy st)
  then show ?case
    by (subst pumpLoop.simps) (auto intro: inv_launch inv_defer)
qed

lemma pumpLoop_frame:
  "resolved (pumpLoop items policy st) = resolved st \<and> settling (pumpLoop items policy st) = settling st
   \<and> completed (pumpLoop items policy st) = completed st
   \<and> concurrency (pumpLoop items policy st) = concurrency st
   \<and> capacityPressureObserved (pumpLoop items policy st) = capacityPressureObserved st"
proof (induction items policy st rule: pumpLoop.induct)
  case (1 items policy st)
  have dl: "resolved (deferLoop items u) = resolved u \<and> settling (deferLoop items u) = settling u
      \<and> completed (deferLoop items u) = completed u \<and> concurrency (deferLoop items u) = concurrency u
      \<and> capacityPressureObserved (deferLoop items u) = capacityPressureObserved u" for u :: "('a, 'b) sched"
  proof (induction items u rule: deferLoop.induct)
    case (1 items u)
    then show ?case by (cases "nextIndex u < length items") (simp_all add: deferLoop.simps [of items u])
  qed
  show ?case
    using 1 by (auto simp: pumpLoop.simps [of items policy st] deferUnstarted_def dl launch_def)
qed

lemma pumpLoop_progress:
  assumes "sched_inv items policy st" "activeCount (pumpLoop items policy st) = 0"
  shows "nextIndex (pumpLoop items policy st) = length items"
  using assms
proof (induction items policy st rule: pumpLoop.induct)
  case (1 items policy st)
  have conc: "0 < concurrency st" "nextIndex st \<le> length items"
    and closed: "launchClosed st \<Longrightarrow> nextIndex st = length items"
    using "1.prems"(1) by (auto simp: sched_inv_def launched_upto_def)
  show ?case
  proof (cases "\<not> launchClosed st \<and> activeCount st < concurrency st \<and> nextIndex st < length items")
    case True
    then show ?thesis
    proof (cases "policy (polls st)")
      case True
      with 1 \<open>\<not> launchClosed st \<and> _\<close> show ?thesis
        by (simp add: pumpLoop.simps [of items policy st] inv_launch)
    next
      case False
      with 1 \<open>\<not> launchClosed st \<and> _\<close> show ?thesis
        by (simp add: pumpLoop.simps [of items policy st] deferUnstarted_def deferLoop_eq)
    qed
  next
    case False
    with "1.prems"(2) conc closed show ?thesis by (auto simp: pumpLoop.simps [of items policy st])
  qed
qed

section \<open>Every callback keeps the invariant\<close>

lemma finish_frame:
  "running (finishIfDone items st) = running st" "settling (finishIfDone items st) = settling st"
  "activeCount (finishIfDone items st) = activeCount st" "nextIndex (finishIfDone items st) = nextIndex st"
  "concurrency (finishIfDone items st) = concurrency st" "polls (finishIfDone items st) = polls st"
  "capacityPressureObserved (finishIfDone items st) = capacityPressureObserved st"
  "launchClosed (finishIfDone items st) = launchClosed st"
  "mset (completed (finishIfDone items st)) = mset (completed st)"
  by (simp_all add: finishIfDone_def)

lemma finish_deferred:
  assumes "launched_upto items policy st k"
  shows "deferred (finishIfDone items st) = deferred st"
proof -
  have "sorted_wrt (\<lambda>l r. int (d_index l) - int (d_index r) \<le> 0) (deferred st)"
    using assms by (simp add: launched_upto_def sorted_wrt_map deferral_def sorted_wrt_iff_nth_less)
  from by_index.sort_sorted [OF this] show ?thesis by (simp add: finishIfDone_def)
qed

lemma inv_finish:
  assumes "sched_inv items policy st"
  shows "sched_inv items policy (finishIfDone items st)"
proof -
  obtain k where k: "launched_upto items policy st k" using assms by (auto simp: sched_inv_def)
  have "set (completed (finishIfDone items st)) = set (completed st)"
    using finish_frame(9) [of items st] by (metis set_mset_mset)
  moreover have "launched_upto items policy (finishIfDone items st) k"
    by (rule launched_cong [OF k]) (simp_all add: finish_frame finish_deferred [OF k])
  ultimately show ?thesis
    using assms by (auto simp: sched_inv_def finish_frame)
qed

lemma live_finish:
  assumes "activeCount st = 0 \<Longrightarrow> nextIndex st = length items"
    and "resolved st \<Longrightarrow> activeCount st = 0 \<and> sorted (map c_index (completed st))"
  shows "sched_live items (finishIfDone items st)"
  using assms by_index.sorted_sort [of c_index "completed st"]
  by (auto simp: sched_live_def finishIfDone_def sorted_map)

lemma inv_pump: "sched_inv items policy st \<Longrightarrow> sched_inv items policy (pump items policy st)"
  by (simp add: pump_def inv_finish inv_pumpLoop)

lemma live_pump: "sched_inv items policy st \<Longrightarrow> \<not> resolved st \<Longrightarrow> sched_live items (pump items policy st)"
  unfolding pump_def
  by (intro live_finish) (auto simp: pumpLoop_progress pumpLoop_frame)

lemma finish_live: "sched_live items st \<Longrightarrow> finishIfDone items st = st"
  by (auto simp: sched_live_def finishIfDone_def)

lemma release_eq: "sched_inv items policy (st\<lparr>settling := removeAll i (settling st), activeCount := activeCount st - 1\<rparr>) \<Longrightarrow>
    \<not> resolved st \<Longrightarrow>
    release items policy i st = pump items policy
      (st\<lparr>settling := removeAll i (settling st), activeCount := activeCount st - 1\<rparr>)"
  unfolding release_def by (rule finish_live) (rule live_pump, simp_all)

lemma inv_flight:
  assumes "sched_inv items policy st"
  shows "distinct (running st)" "set (running st) \<inter> set (settling st) = {}"
    "i \<in> set (running st) \<Longrightarrow> i < length items"
proof -
  obtain k where k: "mset (running st @ map c_index (completed st)) = mset [0..<k]" "k \<le> length items"
    using assms by (auto simp: sched_inv_def launched_upto_def)
  then have d: "distinct (running st @ map c_index (completed st))"
    by (metis distinct_upt mset_eq_imp_distinct_iff)
  then show "distinct (running st)" by simp
  show "set (running st) \<inter> set (settling st) = {}"
    using d assms by (auto simp: sched_inv_def)
  have "set (running st @ map c_index (completed st)) = {0..<k}"
    using k(1) by (metis atLeastLessThan_upt set_mset_mset)
  then have "set (running st) \<subseteq> {0..<k}" by auto
  then show "i \<in> set (running st) \<Longrightarrow> i < length items" using k(2) by auto
qed

lemma length_removeAll_distinct: "distinct xs \<Longrightarrow> x \<in> set xs \<Longrightarrow> Suc (length (removeAll x xs)) = length xs"
  by (induction xs) auto

lemma mset_removeAll_distinct: "distinct xs \<Longrightarrow> x \<in> set xs \<Longrightarrow> add_mset x (mset (removeAll x xs)) = mset xs"
  by (induction xs) auto

text \<open>What recording an outcome changes, whatever the outcome.\<close>

lemma settle_frame:
  "running (settle items classify i outcome st) = removeAll i (running st)"
  "settling (settle items classify i outcome st) = settling st @ [i]"
  "deferred (settle items classify i outcome st) = deferred st"
  "nextIndex (settle items classify i outcome st) = nextIndex st"
  "activeCount (settle items classify i outcome st) = activeCount st"
  "launchClosed (settle items classify i outcome st) = launchClosed st"
  "resolved (settle items classify i outcome st) = resolved st"
  "polls (settle items classify i outcome st) = polls st"
  by (simp_all add: settle_def adaptConcurrency_def Let_def split: sum.split prod.split)

lemma settle_completed:
  "\<exists>c. completed (settle items classify i outcome st) = completed st @ [c] \<and> c_index c = i \<and> c_item c = items ! i"
  by (auto simp: settle_def adaptConcurrency_def Let_def split: sum.split prod.split)

lemma settle_concurrency:
  "concurrency (settle items classify i outcome st) \<in> {concurrency st, 1, 3}"
  "capacityPressureObserved st \<Longrightarrow> capacityPressureObserved (settle items classify i outcome st)"
  "(capacityPressureObserved st \<longrightarrow> concurrency st = 1) \<Longrightarrow>
    capacityPressureObserved (settle items classify i outcome st) \<longrightarrow>
      concurrency (settle items classify i outcome st) = 1"
  by (auto simp: settle_def adaptConcurrency_def Let_def ADAPTIVE_BATCH_HARD_MAX_CONCURRENCY_def
      split: sum.split prod.split)

lemma inv_settle:
  assumes inv: "sched_inv items policy st" and i: "i \<in> set (running st)"
  shows "sched_inv items policy (settle items classify i outcome st)"
proof -
  note fl = inv_flight [OF inv]
  note len = length_removeAll_distinct [OF fl(1) i] and ms = mset_removeAll_distinct [OF fl(1) i]
  have ni: "i \<notin> set (settling st)" using fl(2) i by blast
  obtain c where c: "completed (settle items classify i outcome st) = completed st @ [c]"
    "c_index c = i" "c_item c = items ! i" using settle_completed by blast
  obtain k where k: "launched_upto items policy st k" using inv by (auto simp: sched_inv_def)
  have "mset (removeAll i (running st)) + mset (map c_index (completed st @ [c])) =
      mset (running st) + mset (map c_index (completed st))"
    using ms [symmetric] c(2) by simp
  then have "launched_upto items policy (settle items classify i outcome st) k"
    by (intro launched_cong [OF k]) (simp_all only: settle_frame c(1))
  moreover have "capacityPressureObserved (settle items classify i outcome st) \<longrightarrow>
      concurrency (settle items classify i outcome st) = 1"
    using inv by (intro settle_concurrency) (simp add: sched_inv_def)
  moreover have "concurrency (settle items classify i outcome st) \<in> {1, 2, 3}"
    using settle_concurrency(1) [of items classify i outcome st] inv by (auto simp: sched_inv_def)
  ultimately show ?thesis
    using inv len ni fl(3) [OF i] c(2,3)
    unfolding sched_inv_def settle_frame c(1) by auto
qed

abbreviation freed :: "nat \<Rightarrow> ('i, 'r) sched \<Rightarrow> ('i, 'r) sched" where
  "freed i st \<equiv> st\<lparr>settling := removeAll i (settling st), activeCount := activeCount st - 1\<rparr>"

lemma inv_freed:
  assumes inv: "sched_inv items policy st" and i: "i \<in> set (settling st)"
  shows "sched_inv items policy (freed i st)"
proof -
  have d: "distinct (settling st)" using inv by (simp add: sched_inv_def)
  obtain k where k: "launched_upto items policy st k" using inv by (auto simp: sched_inv_def)
  have "launched_upto items policy (freed i st) k" by (rule launched_cong [OF k]) simp_all
  then show ?thesis
    using inv length_removeAll_distinct [OF d i] by (auto simp: sched_inv_def distinct_removeAll)
qed

lemma flight_unresolved:
  assumes "sched_inv items policy st" "sched_live items st" "i \<in> set (running st) \<union> set (settling st)"
  shows "\<not> resolved st"
  using assms by (auto simp: sched_inv_def sched_live_def)

lemma step_keeps:
  assumes "sched_step items policy classify st st'" "sched_inv items policy st" "sched_live items st"
  shows "sched_inv items policy st' \<and> sched_live items st'"
  using assms(1)
proof cases
  case (settle i outcome)
  then have "\<not> resolved st" using flight_unresolved [OF assms(2,3), of i] by simp
  with settle assms inv_settle show ?thesis by (auto simp: sched_live_def settle_frame)
next
  case (release i)
  then have "\<not> resolved st" using flight_unresolved [OF assms(2,3), of i] by simp
  note f = inv_freed [OF assms(2) release(2)]
  then show ?thesis
    using release(1) release_eq [OF f \<open>\<not> resolved st\<close>] inv_pump [OF f] live_pump [OF f] \<open>\<not> resolved st\<close>
    by simp
qed

lemma start_keeps:
  "sched_inv items policy (schedule_start items policy :: ('i, 'r) sched) \<and>
   sched_live items (schedule_start items policy :: ('i, 'r) sched)"
proof (cases "items = []")
  case True
  then show ?thesis
    by (auto simp: schedule_start_def sched_inv_def sched_live_def launched_upto_def)
next
  case False
  define init :: "('i, 'r) sched" where "init = \<lparr>completed = [], deferred = [], nextIndex = 0, activeCount = 0,
      concurrency = (if length items > 1 then INITIAL_MULTIPLE_ITEM_CONCURRENCY else 1),
      capacityPressureObserved = False, launchClosed = False, resolved = False,
      running = [], settling = [], polls = 0\<rparr>"
  have "sched_inv items policy init"
    by (auto simp: init_def sched_inv_def launched_upto_def INITIAL_MULTIPLE_ITEM_CONCURRENCY_def)
  moreover have "\<not> resolved init" by (simp add: init_def)
  moreover have "schedule_start items policy = pump items policy init"
    using False by (simp add: schedule_start_def Let_def init_def)
  ultimately show ?thesis by (simp add: inv_pump live_pump)
qed

lemma reachable_keeps: "sched_reachable items policy classify st \<Longrightarrow>
    sched_inv items policy st \<and> sched_live items st"
  by (induction rule: sched_reachable.induct) (use start_keeps step_keeps in blast)+

section \<open>The work left\<close>

definition work :: "'i list \<Rightarrow> ('i, 'r) sched \<Rightarrow> nat" where
  "work items st = 3 * (length items - nextIndex st) + 2 * length (running st) + length (settling st)"

lemma work_pumpLoop: "work items (pumpLoop items policy st) \<le> work items st"
proof (induction items policy st rule: pumpLoop.induct)
  case (1 items policy st)
  have dl: "running (deferLoop items u) = running u \<and> settling (deferLoop items u) = settling u
      \<and> nextIndex u \<le> nextIndex (deferLoop items u)" for u :: "('a, 'b) sched"
  proof (induction items u rule: deferLoop.induct)
    case (1 items u)
    then show ?case by (cases "nextIndex u < length items") (simp_all add: deferLoop.simps [of items u])
  qed
  let ?u = "deferUnstarted items (st\<lparr>polls := Suc (polls st)\<rparr>)"
  have "running ?u = running st" "settling ?u = settling st" "nextIndex st \<le> nextIndex ?u"
    using dl [of "st\<lparr>polls := Suc (polls st), launchClosed := True\<rparr>"] by (simp_all add: deferUnstarted_def)
  then have "work items ?u \<le> work items st" by (simp add: work_def)
  moreover have "nextIndex st < length items \<Longrightarrow>
      work items (launch (st\<lparr>polls := Suc (polls st)\<rparr>)) \<le> work items st"
    by (simp add: work_def launch_def)
  ultimately show ?case using "1.IH" by (auto simp: pumpLoop.simps [of items policy st])
qed

lemma work_pump: "work items (pump items policy st) \<le> work items st"
  using work_pumpLoop [of items policy st] by (simp add: pump_def work_def finish_frame)

lemma work_step:
  assumes "sched_step items policy classify st st'" "sched_inv items policy st" "sched_live items st"
  shows "work items st' < work items st"
  using assms(1)
proof cases
  case (settle i outcome)
  then show ?thesis
    using length_removeAll_distinct [OF inv_flight(1) [OF assms(2)], of i]
    by (simp add: work_def settle_frame)
next
  case (release i)
  then have "\<not> resolved st" using flight_unresolved [OF assms(2,3), of i] by simp
  have d: "distinct (settling st)" using assms(2) by (simp add: sched_inv_def)
  have "work items st' \<le> work items (freed i st)"
    using release(1) release_eq [OF inv_freed [OF assms(2) release(2)] \<open>\<not> resolved st\<close>] work_pump by simp
  also have "\<dots> < work items st"
    using length_removeAll_distinct [OF d release(2)] by (simp add: work_def)
  finally show ?thesis .
qed

text \<open>A launch happens only while fewer than \<open>concurrency\<close> items are active.\<close>

lemma pumpLoop_active:
  "activeCount (pumpLoop items policy st) \<le> max (activeCount st) (concurrency st)"
proof (induction items policy st rule: pumpLoop.induct)
  case (1 items policy st)
  have dl: "activeCount (deferLoop items u) = activeCount u" for u :: "('a, 'b) sched"
  proof (induction items u rule: deferLoop.induct)
    case (1 items u)
    then show ?case by (cases "nextIndex u < length items") (simp_all add: deferLoop.simps [of items u])
  qed
  show ?case
    using 1 by (auto simp: pumpLoop.simps [of items policy st] deferUnstarted_def dl launch_def)
qed

section \<open>The policy's contract, used by the scheduler\<close>

context start_policy
begin

lemma deferred_refused:
  assumes "sched_inv items (\<lambda>k. can_start (clock k)) st" "deferred st \<noteq> []"
  shows "\<exists>k < polls st. \<forall>w. later (clock k) w \<longrightarrow> \<not> can_start w"
proof -
  obtain k where k: "launched_upto items (\<lambda>k. can_start (clock k)) st k"
    using assms(1) by (auto simp: sched_inv_def)
  with assms(2) have "k < nextIndex st" by (auto simp: launched_upto_def)
  with k have "polls st = Suc k" "\<not> can_start (clock k)"
    by (auto simp: launched_upto_def split: if_splits)
  then show ?thesis using refused_for_good by (intro exI [of _ k] conjI allI impI) auto
qed

lemma launched_admitted:
  assumes "sched_inv items (\<lambda>k. can_start (clock k)) st"
    and "i \<in> set (running st) \<union> c_index ` set (completed st)"
  shows "can_start (clock i)"
proof -
  obtain k where k: "launched_upto items (\<lambda>k. can_start (clock k)) st k"
    using assms(1) by (auto simp: sched_inv_def)
  then have "set (running st @ map c_index (completed st)) = {0..<k}"
    unfolding launched_upto_def by (metis atLeastLessThan_upt set_mset_mset)
  with assms(2) have "i < k" by auto
  with k show ?thesis by (auto simp: launched_upto_def)
qed

end

section \<open>Properties\<close>

text \<open>
  C15: when the promise of \<open>schedule\<close> resolves, the completed executions are the items
  \<open>0, \<dots>, k - 1\<close> in order, each once and with its own item, and the deferred ones are exactly
  the items from \<open>k\<close> on: no item is lost, run twice, or both run and deferred.
\<close>

theorem schedule_accounts_for_every_item:
  assumes "sched_reachable items policy classify st" and "resolved st"
  shows "\<exists>k \<le> length items. map c_index (completed st) = [0..<k] \<and>
    map c_item (completed st) = take k items \<and>
    deferred st = map (deferral items) [k..<length items]"
proof -
  note keeps = reachable_keeps [OF assms(1)]
  with assms(2) have fin: "running st = []" "nextIndex st = length items" "sorted (map c_index (completed st))"
    by (auto simp: sched_inv_def sched_live_def)
  from keeps obtain k where k: "launched_upto items policy st k" by (auto simp: sched_inv_def)
  with fin have "mset (map c_index (completed st)) = mset [0..<k]" by (simp add: launched_upto_def)
  with fin(3) have idx: "map c_index (completed st) = [0..<k]"
    by (metis properties_for_sort sorted_sort_id sorted_upt)
  have kl: "k \<le> length items" using k fin(2) by (simp add: launched_upto_def)
  have "map c_item (completed st) = map (\<lambda>c. items ! c_index c) (completed st)"
    using keeps by (auto simp: sched_inv_def)
  also have "\<dots> = map ((!) items) [0..<k]" by (simp flip: idx)
  also have "\<dots> = take k items" using kl by (intro nth_equalityI) auto
  finally show ?thesis using idx k fin(2) kl by (auto simp: launched_upto_def)
qed

definition demo_policy :: "nat \<Rightarrow> bool" where
  "demo_policy k \<longleftrightarrow> canStartBatch \<lparr>deadlineEpochMs = Some (Fin 1000), windows = demo_windows\<rparr> (Fin (500 + 300 * of_nat k))"

definition demo_classify :: "nat \<Rightarrow> CapacitySignal res" where
  "demo_classify n = (if n = 0 then Inr CapacityPressure else Inr Healthy)"

text \<open>Three items; the third poll comes after the deadline's start window has closed.\<close>

abbreviation demo_items :: "string list" where
  "demo_items \<equiv> [''a'', ''b'', ''c'']"

definition demo_sched :: "(string, nat) sched" where
  "demo_sched = release demo_items demo_policy 0 (settle demo_items demo_classify 0 (Inr 5)
     (release demo_items demo_policy 1 (settle demo_items demo_classify 1 (Inr 0)
       (schedule_start demo_items demo_policy))))"

definition demo_final :: "(string, nat) sched" where
  "demo_final = \<lparr>completed = [Fulfilled 0 ''a'' 5, Fulfilled 1 ''b'' 0], deferred = [deferral demo_items 2],
     nextIndex = 3, activeCount = 0, concurrency = 1, capacityPressureObserved = True,
     launchClosed = True, resolved = True, running = [], settling = [], polls = 3\<rparr>"

lemma demo_sched_eq: "demo_sched = demo_final"
  by code_simp

lemma demo_flight:
  "running (schedule_start demo_items demo_policy :: (string, nat) sched) = [0, 1]"
  "settling (settle demo_items demo_classify 1 (Inr 0) (schedule_start demo_items demo_policy)) = [1]"
  "running (release demo_items demo_policy 1 (settle demo_items demo_classify 1 (Inr 0)
       (schedule_start demo_items demo_policy))) = [0]"
  "settling (settle demo_items demo_classify 0 (Inr 5) (release demo_items demo_policy 1
       (settle demo_items demo_classify 1 (Inr 0) (schedule_start demo_items demo_policy)))) = [0]"
  by code_simp+

lemma demo_reachable: "sched_reachable demo_items demo_policy demo_classify demo_sched"
  unfolding demo_sched_def
  by (rule sched_reachable.step [OF sched_reachable.step [OF sched_reachable.step
        [OF sched_reachable.step [OF sched_reachable.start sched_step.settle] sched_step.release]
        sched_step.settle] sched_step.release])
    (simp_all only: demo_flight, simp_all)

theorem schedule_accounts_for_every_item_witness:
  "\<exists>k \<le> length demo_items. map c_index (completed demo_sched) = [0..<k] \<and>
    map c_item (completed demo_sched) = take k demo_items \<and>
    deferred demo_sched = map (deferral demo_items) [k..<length demo_items]"
  by (rule schedule_accounts_for_every_item [OF demo_reachable]) (simp add: demo_sched_eq demo_final_def)

text \<open>With room for one item the pump launches nothing beside an active item, and one item when there is none.\<close>

lemma pump_single:
  assumes "concurrency st = 1" "nextIndex st \<le> length items"
  shows "running (pump items policy st) = running st \<or>
    activeCount st = 0 \<and> running (pump items policy st) = running st @ [nextIndex st] \<and>
      activeCount (pump items policy st) = 1"
proof (cases "\<not> launchClosed st \<and> activeCount st < concurrency st \<and> nextIndex st < length items")
  case True
  let ?st = "launch (st\<lparr>polls := Suc (polls st)\<rparr>)"
  have alone: "pumpLoop items policy ?st = ?st"
    using assms(1) by (subst pumpLoop.simps) (simp add: launch_def)
  show ?thesis
  proof (cases "policy (polls st)")
    case True
    with \<open>\<not> launchClosed st \<and> _\<close> alone assms(1) show ?thesis
      by (simp add: pump_def pumpLoop.simps [of _ _ st] finish_frame) (simp add: launch_def)
  next
    case False
    with \<open>\<not> launchClosed st \<and> _\<close> assms show ?thesis
      by (simp add: pump_def pumpLoop.simps [of _ _ st] finish_frame deferUnstarted_def deferLoop_eq)
  qed
next
  case False
  then show ?thesis by (auto simp: pump_def pumpLoop.simps [of _ _ st] finish_frame)
qed

text \<open>
  C16: at most three items are ever in flight, the count the code keeps is the number of items in
  flight, and after capacity pressure was seen no callback launches an item while another is active: whatever it
  launches is then the only item in flight.
\<close>

theorem concurrency_is_bounded:
  assumes "sched_reachable items policy classify st"
  shows "activeCount st \<le> ADAPTIVE_BATCH_HARD_MAX_CONCURRENCY \<and>
    activeCount st = card (set (running st) \<union> set (settling st)) \<and>
    (capacityPressureObserved st \<longrightarrow>
      (\<forall>st'. sched_step items policy classify st st' \<longrightarrow>
        capacityPressureObserved st' \<and> activeCount st' \<le> max 1 (activeCount st) \<and>
        (set (running st') \<subseteq> set (running st) \<or>
         running st' = [nextIndex st] \<and> settling st' = [] \<and> activeCount st' = 1)))"
proof (intro conjI impI allI)
  note inv = conjunct1 [OF reachable_keeps [OF assms]] and live = conjunct2 [OF reachable_keeps [OF assms]]
  show "activeCount st \<le> ADAPTIVE_BATCH_HARD_MAX_CONCURRENCY"
    using inv by (simp add: sched_inv_def ADAPTIVE_BATCH_HARD_MAX_CONCURRENCY_def)
  have "distinct (settling st)" "activeCount st = length (running st) + length (settling st)"
    using inv by (auto simp: sched_inv_def)
  then show "activeCount st = card (set (running st) \<union> set (settling st))"
    using inv_flight(1,2) [OF inv] by (simp add: card_Un_disjoint distinct_card)
  fix st' assume pressure: "capacityPressureObserved st" and step: "sched_step items policy classify st st'"
  then have conc: "concurrency st = 1" using inv by (simp add: sched_inv_def)
  have "activeCount st' \<le> max 1 (activeCount st) \<and> capacityPressureObserved st' \<and>
      (set (running st') \<subseteq> set (running st) \<or>
       running st' = [nextIndex st] \<and> settling st' = [] \<and> activeCount st' = 1)"
    using step
  proof cases
    case (release i)
    note freed = inv_freed [OF inv release(2)]
    have eq: "st' = pump items policy (freed i st)"
      using release release_eq [OF freed] flight_unresolved [OF inv live, of i] by simp
    have "running st' = running st \<or>
        activeCount (freed i st) = 0 \<and> running st' = running st @ [nextIndex st] \<and> activeCount st' = 1"
      using pump_single [of "freed i st" items policy] conc inv by (simp add: eq sched_inv_def)
    moreover have "running st = [] \<and> settling st' = []" if "activeCount (freed i st) = 0"
      using freed that by (simp add: sched_inv_def eq pump_def finish_frame pumpLoop_frame)
    ultimately show ?thesis
      using pumpLoop_active [of items policy "freed i st"] conc pressure
      by (auto simp: eq pump_def finish_frame pumpLoop_frame)
  qed (use pressure settle_concurrency(2) in \<open>auto simp: settle_frame\<close>)
  then show "activeCount st' \<le> max 1 (activeCount st)" "capacityPressureObserved st'"
    "set (running st') \<subseteq> set (running st) \<or>
       running st' = [nextIndex st] \<and> settling st' = [] \<and> activeCount st' = 1" by auto
qed

text \<open>Item 1 reports pressure while item 0 is active: item 2 waits for item 0 to be released.\<close>

definition demo_busy :: "(string, nat) sched" where
  "demo_busy = settle demo_items demo_classify 0 (Inr 5) (release demo_items (\<lambda>k. True) 1
     (settle demo_items demo_classify 1 (Inr 0) (schedule_start demo_items (\<lambda>k. True))))"

lemma demo_busy_flight:
  "running (schedule_start demo_items (\<lambda>k. True) :: (string, nat) sched) = [0, 1]"
  "settling (settle demo_items demo_classify 1 (Inr 0) (schedule_start demo_items (\<lambda>k. True))) = [1]"
  "running (release demo_items (\<lambda>k. True) 1 (settle demo_items demo_classify 1 (Inr 0)
       (schedule_start demo_items (\<lambda>k. True)))) = [0]"
  by code_simp+

lemma demo_busy_shape: "capacityPressureObserved demo_busy" "settling demo_busy = [0]" "running demo_busy = []"
    "running (release demo_items (\<lambda>k. True) 0 demo_busy) = [2]"
  by code_simp+

lemma demo_busy_reachable: "sched_reachable demo_items (\<lambda>k. True) demo_classify demo_busy"
  unfolding demo_busy_def
  by (rule sched_reachable.step [OF sched_reachable.step [OF sched_reachable.step
        [OF sched_reachable.start sched_step.settle] sched_step.release] sched_step.settle])
    (simp_all only: demo_busy_flight, simp_all)

theorem concurrency_is_bounded_witness:
  "capacityPressureObserved demo_busy \<and> running (release demo_items (\<lambda>k. True) 0 demo_busy) = [nextIndex demo_busy] \<and>
   activeCount (release demo_items (\<lambda>k. True) 0 demo_busy) = 1"
proof -
  have "sched_step demo_items (\<lambda>k. True) demo_classify demo_busy (release demo_items (\<lambda>k. True) 0 demo_busy)"
    by (rule sched_step.release) (simp add: demo_busy_shape)
  then show ?thesis
    using concurrency_is_bounded [OF demo_busy_reachable] demo_busy_shape by auto
qed

text \<open>
  C17: the scheduler never gets stuck and never runs forever: every reachable state has resolved or
  has a callback to come, and every callback strictly decreases the work left, whatever the
  executors return, throw, or in which order they finish.
\<close>

theorem schedule_terminates:
  assumes "sched_reachable items policy classify st"
  shows "(resolved st \<or> (\<exists>st'. sched_step items policy classify st st')) \<and>
    (\<forall>st'. sched_step items policy classify st st' \<longrightarrow> work items st' < work items st)"
proof -
  note inv = conjunct1 [OF reachable_keeps [OF assms]] and live = conjunct2 [OF reachable_keeps [OF assms]]
  have "resolved st \<or> (\<exists>i. i \<in> set (running st)) \<or> (\<exists>i. i \<in> set (settling st))"
    using inv live by (cases "running st"; cases "settling st") (auto simp: sched_inv_def sched_live_def)
  then show ?thesis
    using work_step [OF _ inv live] by (meson sched_step.settle sched_step.release)
qed

theorem schedule_terminates_witness:
  "resolved demo_final \<or> (\<exists>st'. sched_step demo_items demo_policy demo_classify demo_final st')"
  using schedule_terminates [OF demo_reachable] by (simp add: demo_sched_eq)

text \<open>
  Run under an execution deadline, the scheduler starts an item only at a reading of the clock
  at which a batch may start, and it defers items only after a refusal that holds for every later
  reading: no deferred item could still have been started.
\<close>

theorem deadline_deferral_is_final:
  assumes "createExecutionDeadline e w = Inr d"
    and "sched_reachable items (\<lambda>k. canStartBatch d (clock k)) classify st"
  shows "(\<forall>i \<in> set (running st) \<union> c_index ` set (completed st). canStartBatch d (clock i)) \<and>
    (deferred st \<noteq> [] \<longrightarrow>
      (\<exists>k < polls st. \<forall>now. later_reading (clock k) now \<longrightarrow> \<not> canStartBatch d now))"
proof -
  have d: "deadline_of (checked d) = d" using assms(1) by (intro checked_inverse) blast
  note inv = conjunct1 [OF reachable_keeps [OF assms(2)]]
  show ?thesis
    using deadline_policy.launched_admitted [where d = "checked d", unfolded d, OF inv]
      deadline_policy.deferred_refused [where d = "checked d", unfolded d, OF inv]
    by blast
qed

theorem deadline_deferral_is_final_witness:
  "\<exists>k < polls demo_final. \<forall>now. later_reading (Fin (500 + 300 * of_nat k)) now \<longrightarrow>
     \<not> canStartBatch \<lparr>deadlineEpochMs = Some (Fin 1000), windows = demo_windows\<rparr> now"
proof -
  have "createExecutionDeadline (Some (Fin 1000)) demo_windows =
      Inr \<lparr>deadlineEpochMs = Some (Fin 1000), windows = demo_windows\<rparr>"
    by (simp add: create_deadline_Inr demo_windows_def)
  from deadline_deferral_is_final [OF this, of demo_items "\<lambda>k. Fin (500 + 300 * of_nat k)" demo_classify demo_sched]
    demo_reachable
  show ?thesis by (simp add: demo_policy_def [abs_def] demo_sched_eq) (simp add: demo_final_def)
qed

end
