(* ===== verification/Call_Limiter.thy ===== *)
theory Call_Limiter
  imports Execution_Deadline
begin

text \<open>
  \<open>src/review-execution/application/provider-call-limiter.ts\<close>: at most \<open>maxParallel\<close> provider
  calls run at a time, the others wait in arrival order.  JavaScript runs one callback at a time, so
  an execution is a sequence of callbacks: a caller enters \<open>run\<close>, or the operation of a running
  call settles (with a value or by throwing) and the \<open>finally\<close> block releases its place.  Calls
  are named by numbers; \<open>started\<close> and \<open>outcomes\<close> record what the callers observe.
\<close>

section \<open>State and operations\<close>

record 'r limiter =
  maxParallel :: nat
  active :: nat
  waiters :: "nat list"
  started :: "nat list"
  outcomes :: "(nat \<times> 'r res) list"

definition num_less :: "jsnum \<Rightarrow> jsnum \<Rightarrow> bool" where
  "num_less x y \<longleftrightarrow> num_le x y \<and> x \<noteq> y"

definition is_integer_number :: "jsnum \<Rightarrow> bool" where
  "is_integer_number x = (case x of Fin r \<Rightarrow> of_int (floor r) = r | _ \<Rightarrow> False)"

definition create_limiter :: "jsnum \<Rightarrow> 'r limiter res" where
  "create_limiter n =
     throw_if (\<not> is_integer_number n \<or> num_less n (Fin 1) \<or> num_less (Fin 3) n)
       ''Provider call parallelism must be an integer from 1 to 3''
       (case n of
          Fin r \<Rightarrow> Inr \<lparr>maxParallel = nat (floor r), active = 0, waiters = [], started = [], outcomes = []\<rparr>
        | _ \<Rightarrow> Inl (JsError ''unreachable''))"

text \<open>\<open>acquire\<close>: a free place is taken at once and the operation of the call starts; otherwise the
  call joins the queue.\<close>

definition acquire :: "nat \<Rightarrow> 'r limiter \<Rightarrow> 'r limiter" where
  "acquire c st =
     (if active st < maxParallel st
      then st\<lparr>active := active st + 1, started := started st @ [c]\<rparr>
      else st\<lparr>waiters := waiters st @ [c]\<rparr>)"

text \<open>\<open>release\<close>: the place is given back, and the callback of the first waiter takes it.\<close>

definition release :: "'r limiter \<Rightarrow> 'r limiter" where
  "release st =
     (let freed = st\<lparr>active := active st - 1\<rparr>
      in case waiters st of
           [] \<Rightarrow> freed
         | w # ws \<Rightarrow> freed\<lparr>waiters := ws, active := active freed + 1, started := started st @ [w]\<rparr>)"

text \<open>The \<open>try\<close>/\<open>finally\<close> of \<open>run\<close>: a returned value and a thrown error both release.\<close>

definition settle_call :: "nat \<Rightarrow> 'r res \<Rightarrow> 'r limiter \<Rightarrow> 'r limiter" where
  "settle_call c r st = release (st\<lparr>outcomes := outcomes st @ [(c, r)]\<rparr>)"

datatype 'r call_event = Enter nat | Settle nat "'r res"

text \<open>What can happen in a state: a new call may enter at any time, a started call may settle once.\<close>

inductive limiter_step :: "'r limiter \<Rightarrow> 'r call_event \<Rightarrow> 'r limiter \<Rightarrow> bool" where
  enter: "c \<notin> set (started st) \<Longrightarrow> c \<notin> set (waiters st) \<Longrightarrow> limiter_step st (Enter c) (acquire c st)"
| settled: "c \<in> set (started st) \<Longrightarrow> c \<notin> fst ` set (outcomes st) \<Longrightarrow>
    limiter_step st (Settle c r) (settle_call c r st)"

inductive limiter_run :: "'r limiter \<Rightarrow> 'r call_event list \<Rightarrow> 'r limiter \<Rightarrow> bool" where
  none: "limiter_run st [] st"
| more: "limiter_run st es st' \<Longrightarrow> limiter_step st' e st'' \<Longrightarrow> limiter_run st (es @ [e]) st''"

inductive_cases limiter_stepE: "limiter_step st e st'"
inductive_simps limiter_step_Enter: "limiter_step st (Enter c) st'"
inductive_simps limiter_step_Settle: "limiter_step st (Settle c r) st'"

definition entered :: "'r call_event list \<Rightarrow> nat list" where
  "entered es = concat (map (\<lambda>e. case e of Enter c \<Rightarrow> [c] | Settle c r \<Rightarrow> []) es)"

definition settlements :: "'r call_event list \<Rightarrow> (nat \<times> 'r res) list" where
  "settlements es = concat (map (\<lambda>e. case e of Enter c \<Rightarrow> [] | Settle c r \<Rightarrow> [(c, r)]) es)"

lemma event_snoc [simp]:
  "entered [] = []" "settlements [] = []"
  "entered (es @ [Enter c]) = entered es @ [c]" "entered (es @ [Settle c r]) = entered es"
  "settlements (es @ [Enter c]) = settlements es"
  "settlements (es @ [Settle c r]) = settlements es @ [(c, r)]"
  by (simp_all add: entered_def settlements_def)

section \<open>Invariant\<close>

definition limiter_inv :: "'r limiter \<Rightarrow> bool" where
  "limiter_inv st \<longleftrightarrow> 1 \<le> maxParallel st \<and> active st \<le> maxParallel st \<and>
     distinct (started st @ waiters st) \<and> distinct (map fst (outcomes st)) \<and>
     fst ` set (outcomes st) \<subseteq> set (started st) \<and>
     active st + length (outcomes st) = length (started st) \<and>
     (waiters st \<noteq> [] \<longrightarrow> active st = maxParallel st)"

lemma create_limiter_inv:
  assumes "create_limiter n = Inr st"
  shows "limiter_inv st \<and> maxParallel st \<le> 3 \<and> started st = [] \<and> waiters st = [] \<and> outcomes st = []"
proof -
  from assms obtain r where "n = Fin r" "1 \<le> r" "r \<le> 3"
      "st = \<lparr>maxParallel = nat (floor r), active = 0, waiters = [], started = [], outcomes = []\<rparr>"
    by (cases n) (auto simp: create_limiter_def res_simps num_less_def)
  moreover from this have "1 \<le> nat (floor r)" "nat (floor r) \<le> 3" by linarith+
  ultimately show ?thesis by (simp add: limiter_inv_def)
qed

lemma acquire_inv: "limiter_inv st \<Longrightarrow> c \<notin> set (started st) \<Longrightarrow> c \<notin> set (waiters st) \<Longrightarrow>
    limiter_inv (acquire c st)"
  by (auto simp: limiter_inv_def acquire_def)

lemma settle_call_inv:
  assumes "limiter_inv st" "c \<in> set (started st)" "c \<notin> fst ` set (outcomes st)"
  shows "limiter_inv (settle_call c r st)"
proof -
  have "length (outcomes st) = card (fst ` set (outcomes st))"
    using assms(1) by (metis distinct_card length_map limiter_inv_def list.set_map)
  also have "\<dots> < card (set (started st))"
    using assms by (intro psubset_card_mono) (auto simp: limiter_inv_def)
  also have "\<dots> \<le> length (started st)" by (rule card_length)
  finally have "0 < active st" using assms(1) by (simp add: limiter_inv_def)
  then show ?thesis
    using assms by (cases "waiters st") (auto simp: limiter_inv_def settle_call_def release_def)
qed

lemma limiter_step_inv: "limiter_step st e st' \<Longrightarrow> limiter_inv st \<Longrightarrow> limiter_inv st'"
  by (elim limiter_stepE) (auto intro: acquire_inv settle_call_inv)

lemma limiter_step_frame: "limiter_step st e st' \<Longrightarrow> limiter_inv st \<Longrightarrow>
    maxParallel st' = maxParallel st \<and> (\<exists>new. started st' = started st @ new) \<and>
    started st' @ waiters st' = started st @ waiters st @ entered [e] \<and>
    outcomes st' = outcomes st @ settlements [e]"
  by (elim limiter_stepE)
    (auto simp: acquire_def settle_call_def release_def entered_def settlements_def limiter_inv_def
      Let_def split: list.splits)

lemma limiter_run_inv:
  assumes "limiter_run st es st'" "limiter_inv st" "started st = []" "waiters st = []" "outcomes st = []"
  shows "limiter_inv st' \<and> maxParallel st' = maxParallel st \<and> started st' @ waiters st' = entered es \<and>
    outcomes st' = settlements es"
  using assms
proof (induction rule: limiter_run.induct)
  case (more st es st' e st'')
  then have ih: "limiter_inv st'" "maxParallel st' = maxParallel st"
    "started st' @ waiters st' = entered es" "outcomes st' = settlements es" by auto
  show ?case
    using limiter_step_inv [OF more.hyps(2) ih(1)] limiter_step_frame [OF more.hyps(2) ih(1)] ih
    by (cases e) (auto simp: entered_def settlements_def)
qed simp

section \<open>Properties\<close>

text \<open>
  C26: whatever the callers and the operations do, at most \<open>maxParallel\<close> (at most three) calls
  are in flight, calls start in the order they entered, and a call waits only while every place is
  taken: no place is lost and no waiter is forgotten.
\<close>

theorem limiter_is_a_bounded_fifo:
  fixes st\<^sub>0 st :: "'r limiter"
  assumes "create_limiter n = Inr st\<^sub>0" and "limiter_run st\<^sub>0 es st"
  shows "active st = length (entered es) - length (waiters st) - length (settlements es) \<and>
    active st \<le> maxParallel st\<^sub>0 \<and> maxParallel st\<^sub>0 \<le> 3 \<and>
    started st @ waiters st = entered es \<and>
    (waiters st \<noteq> [] \<longrightarrow> active st = maxParallel st\<^sub>0)"
proof -
  note st\<^sub>0 = create_limiter_inv [OF assms(1)]
  have "limiter_inv st" "maxParallel st = maxParallel st\<^sub>0" "started st @ waiters st = entered es"
    "outcomes st = settlements es"
    using limiter_run_inv [OF assms(2)] st\<^sub>0 by auto
  moreover from this(3) have "length (entered es) = length (started st) + length (waiters st)"
    by (metis length_append)
  ultimately show ?thesis using st\<^sub>0 by (auto simp: limiter_inv_def)
qed

definition demo_limiter :: "nat \<Rightarrow> nat limiter" where
  "demo_limiter k = \<lparr>maxParallel = k, active = 0, waiters = [], started = [], outcomes = []\<rparr>"

definition demo_events :: "nat call_event list" where
  "demo_events = [Enter 7, Enter 8, Settle 7 (Inl (JsError ''timeout''))]"

definition demo_limiter_end :: "nat limiter" where
  "demo_limiter_end = \<lparr>maxParallel = 1, active = 1, waiters = [], started = [7, 8],
     outcomes = [(7, Inl (JsError ''timeout''))]\<rparr>"

lemma demo_created: "create_limiter (Fin 1) = Inr (demo_limiter 1)"
  by (simp add: create_limiter_def is_integer_number_def num_less_def throw_if_def demo_limiter_def)

lemma demo_limiter_run: "limiter_run (demo_limiter 1) demo_events demo_limiter_end"
proof -
  have "limiter_run (demo_limiter 1) ([] @ [Enter 7]) (acquire 7 (demo_limiter 1))"
    by (rule limiter_run.more [OF limiter_run.none]) (rule limiter_step.intros; simp add: demo_limiter_def)
  then have "limiter_run (demo_limiter 1) (([] @ [Enter 7]) @ [Enter 8])
      (acquire 8 (acquire 7 (demo_limiter 1)))"
    by (rule limiter_run.more) (rule limiter_step.intros; simp add: demo_limiter_def acquire_def)
  then have "limiter_run (demo_limiter 1) ((([] @ [Enter 7]) @ [Enter 8]) @ [Settle 7 (Inl (JsError ''timeout''))])
      (settle_call 7 (Inl (JsError ''timeout'')) (acquire 8 (acquire 7 (demo_limiter 1))))"
    by (rule limiter_run.more) (rule limiter_step.intros; simp add: demo_limiter_def acquire_def)
  moreover have "settle_call 7 (Inl (JsError ''timeout'')) (acquire 8 (acquire 7 (demo_limiter 1))) =
      demo_limiter_end"
    by (simp add: settle_call_def release_def acquire_def demo_limiter_def demo_limiter_end_def)
  ultimately show ?thesis by (simp add: demo_events_def)
qed

theorem limiter_is_a_bounded_fifo_witness:
  "started demo_limiter_end @ waiters demo_limiter_end = entered demo_events \<and>
   active demo_limiter_end \<le> 1"
  using limiter_is_a_bounded_fifo [OF demo_created demo_limiter_run] by (simp add: demo_limiter_def)

text \<open>
  No call is starved: when every started operation has settled, every call that entered has
  run and has the outcome of its own operation, and the limiter is idle again.
\<close>

theorem every_call_gets_its_turn:
  fixes st\<^sub>0 st :: "'r limiter"
  assumes "create_limiter n = Inr st\<^sub>0" and "limiter_run st\<^sub>0 es st"
    and "set (started st) \<subseteq> fst ` set (settlements es)"
  shows "waiters st = [] \<and> active st = 0 \<and> started st = entered es \<and>
    outcomes st = settlements es \<and> fst ` set (outcomes st) = set (entered es)"
proof -
  note st\<^sub>0 = create_limiter_inv [OF assms(1)]
  have st: "limiter_inv st" "started st @ waiters st = entered es" "outcomes st = settlements es"
    using limiter_run_inv [OF assms(2)] st\<^sub>0 by auto
  then have same: "fst ` set (outcomes st) = set (started st)"
    using assms(3) by (auto simp: limiter_inv_def)
  have "length (outcomes st) = card (fst ` set (outcomes st))"
    using st(1) by (metis distinct_card length_map limiter_inv_def list.set_map)
  also have "\<dots> = length (started st)"
    using st(1) by (simp add: same limiter_inv_def distinct_card)
  finally have "active st = 0" using st(1) by (simp add: limiter_inv_def)
  then show ?thesis using st same by (auto simp: limiter_inv_def)
qed

definition demo_events_end :: "nat call_event list" where
  "demo_events_end = demo_events @ [Settle 8 (Inr 5)]"

lemma demo_run_end:
  "limiter_run (demo_limiter 1) demo_events_end (settle_call 8 (Inr 5) demo_limiter_end)"
  unfolding demo_events_end_def
  by (rule limiter_run.more [OF demo_limiter_run]) (rule limiter_step.intros; simp add: demo_limiter_end_def)

theorem every_call_gets_its_turn_witness:
  "active (settle_call 8 (Inr 5) demo_limiter_end) = 0 \<and>
   started (settle_call 8 (Inr 5) demo_limiter_end) = [7, 8]"
  using every_call_gets_its_turn [OF demo_created demo_run_end]
  by (simp add: demo_events_end_def demo_events_def entered_def settlements_def settle_call_def
      release_def demo_limiter_end_def)

end
