(* ===== verification/Canonical_Json.thy ===== *)
theory Canonical_Json
  imports Prelude
begin

text \<open>
  The canonical JSON every identity of the review plan is hashed from: \<open>canonicalJson\<close> of
  \<open>src/review-orchestration/domain/stable-review-work-plan.ts\<close> (the same function stands in
  \<open>review-prompt-coverage.ts\<close> and, with the default sort of the keys, in
  \<open>src/review-investigation/domain/canonical-json.ts\<close>).  Values are the JSON values the plan
  builds: null, booleans, integers (below \<open>10^21\<close>, where \<open>JSON.stringify\<close> writes plain
  digits), strings of code units below 256, arrays, and objects as member lists in creation order.
  The main result is that the text determines the value up to the order of members.
\<close>

section \<open>Values and \<open>JSON.stringify\<close> of the scalars\<close>

datatype json =
    JNull
  | JBool bool
  | JNum int
  | JStr string
  | JArr "json list"
  | JObj "(string \<times> json) list"

text \<open>\<open>value ?? null\<close> of an optional string.\<close>

definition or_null :: "string option \<Rightarrow> json" where
  "or_null x = (case x of None \<Rightarrow> JNull | Some s \<Rightarrow> JStr s)"

definition hex_digit :: "nat \<Rightarrow> char" where
  "hex_digit n = char_of (if n < 10 then 48 + n else 87 + n)"

definition escape_char :: "char \<Rightarrow> string" where
  "escape_char c =
     (if c = CHR 0x22 \<or> c = CHR 0x5C then [CHR 0x5C, c]
      else if c = CHR 0x08 then [CHR 0x5C, CHR ''b'']
      else if c = CHR 0x09 then [CHR 0x5C, CHR ''t'']
      else if c = CHR 0x0A then [CHR 0x5C, CHR ''n'']
      else if c = CHR 0x0C then [CHR 0x5C, CHR ''f'']
      else if c = CHR 0x0D then [CHR 0x5C, CHR ''r'']
      else if code c < 32
      then [CHR 0x5C, CHR ''u'', CHR ''0'', CHR ''0'', hex_digit (code c div 16), hex_digit (code c mod 16)]
      else [c])"

definition quote :: "string \<Rightarrow> string" where
  "quote s = CHR 0x22 # concat (map escape_char s) @ [CHR 0x22]"

fun show_nat :: "nat \<Rightarrow> string" where
  "show_nat n = (if n < 10 then [char_of (48 + n)] else show_nat (n div 10) @ [char_of (48 + n mod 10)])"

declare show_nat.simps [simp del]

definition show_int :: "int \<Rightarrow> string" where
  "show_int i = (if i < 0 then CHR ''-'' # show_nat (nat (- i)) else show_nat (nat i))"

text \<open>\<open>xs.join(',')\<close>.\<close>

fun join_comma :: "string list \<Rightarrow> string" where
  "join_comma [] = []"
| "join_comma (x # xs) = x @ concat (map (\<lambda>y. CHR '','' # y) xs)"

section \<open>\<open>canonicalJson\<close>\<close>

abbreviation compare_keys :: "string \<times> 'a \<Rightarrow> string \<times> 'b \<Rightarrow> int" where
  "compare_keys l r \<equiv> compareCodePoints (fst l) (fst r)"

lemma json_item_size [termination_simp]:
  "v \<in> set vs \<Longrightarrow> size v < Suc (size_list size vs)"
  by (induction vs) auto

lemma json_member_size [termination_simp]:
  "(k, v) \<in> set members \<Longrightarrow> size v < Suc (size_list (size_prod (\<lambda>x. 0) size) members)"
  by (induction members) auto

function canonicalJson :: "json \<Rightarrow> string" where
  "canonicalJson JNull = ''null''"
| "canonicalJson (JBool b) = (if b then ''true'' else ''false'')"
| "canonicalJson (JNum n) = show_int n"
| "canonicalJson (JStr s) = quote s"
| "canonicalJson (JArr vs) = ''['' @ join_comma (map canonicalJson vs) @ '']''"
| "canonicalJson (JObj members) =
     ''{'' @ join_comma (map (\<lambda>(key, v). quote key @ '':'' @ canonicalJson v) (js_sort compare_keys members)) @ ''}''"
  by pat_completeness auto

termination
  by (relation "measure size") (auto simp: termination_simp)

text \<open>The value with the members of every object sorted, and the text of a value as it stands.\<close>

fun sort_members :: "json \<Rightarrow> json" where
  "sort_members (JArr vs) = JArr (map sort_members vs)"
| "sort_members (JObj members) = JObj (js_sort compare_keys (map (\<lambda>(key, v). (key, sort_members v)) members))"
| "sort_members v = v"

fun stringify :: "json \<Rightarrow> string" where
  "stringify JNull = ''null''"
| "stringify (JBool b) = (if b then ''true'' else ''false'')"
| "stringify (JNum n) = show_int n"
| "stringify (JStr s) = quote s"
| "stringify (JArr vs) = ''['' @ join_comma (map stringify vs) @ '']''"
| "stringify (JObj members) =
     ''{'' @ join_comma (map (\<lambda>(key, v). quote key @ '':'' @ stringify v) members) @ ''}''"

lemma js_insert_map: "(\<And>x y. cmp (f x) (f y) = cmp' x y) \<Longrightarrow>
    js_insert cmp (f x) (map f xs) = map f (js_insert cmp' x xs)"
  by (induction xs) auto

lemma js_sort_map: "(\<And>x y. cmp (f x) (f y) = cmp' x y) \<Longrightarrow>
    js_sort cmp (map f xs) = map f (js_sort cmp' xs)"
  by (induction xs) (auto simp: js_insert_map)

lemma canonicalJson_stringify: "canonicalJson v = stringify (sort_members v)"
proof (induction v rule: canonicalJson.induct)
  case (6 members)
  have "js_sort compare_keys (map (\<lambda>(key, v). (key, sort_members v)) members) =
      map (\<lambda>(key, v). (key, sort_members v)) (js_sort compare_keys members)"
    by (intro js_sort_map) auto
  then show ?case using 6 by (auto intro!: arg_cong [of _ _ join_comma])
qed (auto intro!: arg_cong [of _ _ join_comma])

section \<open>The text determines the value\<close>

subsection \<open>Strings\<close>

lemma hex_digit_inj: "m < 16 \<Longrightarrow> n < 16 \<Longrightarrow> hex_digit m = hex_digit n \<longleftrightarrow> m = n"
  by (auto simp: hex_digit_def split: if_splits dest!: arg_cong [where f = "of_char :: char \<Rightarrow> nat"])

lemma char_code_less: "code c < 256"
  by (cases c) (auto simp: of_char_def of_bool_def)

lemma hex_digits_inj:
  assumes "hex_digit (code c div 16) = hex_digit (code d div 16)"
    and "hex_digit (code c mod 16) = hex_digit (code d mod 16)"
  shows "c = d"
proof -
  have "code c div 16 < 16" "code d div 16 < 16"
    using char_code_less [of c] char_code_less [of d] by (simp_all add: less_mult_imp_div_less)
  then have "code c = code d"
    using assms by (metis hex_digit_inj div_mult_mod_eq mod_less_divisor zero_less_numeral)
  then show ?thesis by simp
qed

lemma escape_char_prefix: "escape_char c @ x = escape_char d @ y \<Longrightarrow> c = d \<and> x = y"
  by (auto simp: escape_char_def split: if_splits intro: hex_digits_inj)

lemma escape_char_neq: "\<exists>e es. escape_char c = e # es \<and> e \<noteq> CHR 0x22"
  by (auto simp: escape_char_def)

lemma escape_prefix: "concat (map escape_char s) @ CHR 0x22 # x = concat (map escape_char t) @ CHR 0x22 # y \<Longrightarrow>
    s = t \<and> x = y"
proof (induction s arbitrary: t)
  case Nil
  then show ?case using escape_char_neq by (cases t) (auto, metis append_Cons list.inject)
next
  case (Cons c s)
  show ?case
  proof (cases t)
    case Nil
    with Cons.prems escape_char_neq [of c] show ?thesis by auto
  next
    case (Cons d t')
    with Cons.prems Cons.IH show ?thesis by (auto dest!: escape_char_prefix)
  qed
qed

lemma quote_prefix: "quote s @ x = quote t @ y \<Longrightarrow> s = t \<and> x = y"
  by (auto simp: quote_def dest: escape_prefix)

subsection \<open>Numbers\<close>

definition no_digit :: "string \<Rightarrow> bool" where
  "no_digit r \<longleftrightarrow> r = [] \<or> \<not> is_digit (hd r)"

lemma is_digit_code: "n < 10 \<Longrightarrow> is_digit (char_of (48 + n :: nat))"
  by (simp add: is_digit_def)

lemma show_nat_digits: "list_all is_digit (show_nat n) \<and> show_nat n \<noteq> []"
  by (induction n rule: show_nat.induct) (subst (1 2) show_nat.simps, auto simp: is_digit_code)

definition read_nat :: "string \<Rightarrow> nat" where
  "read_nat s = foldl (\<lambda>a c. a * 10 + (code c - 48)) 0 s"

lemma read_show_nat: "read_nat (show_nat n) = n"
proof (induction n rule: show_nat.induct)
  case (1 n)
  then show ?case by (subst show_nat.simps) (auto simp: read_nat_def)
qed

lemma digits_prefix:
  assumes "a @ x = b @ y" "list_all is_digit a" "list_all is_digit b" "no_digit x" "no_digit y"
  shows "a = b \<and> x = y"
  using assms
proof (induction a arbitrary: b)
  case Nil
  then show ?case by (cases b) (auto simp: no_digit_def)
next
  case (Cons c a)
  then show ?case by (cases b) (auto simp: no_digit_def)
qed

lemma show_nat_prefix: "show_nat m @ x = show_nat n @ y \<Longrightarrow> no_digit x \<Longrightarrow> no_digit y \<Longrightarrow> m = n \<and> x = y"
  using digits_prefix show_nat_digits by (metis read_show_nat)

lemma show_nat_Cons: "\<exists>c cs. show_nat n = c # cs \<and> is_digit c"
  using show_nat_digits [of n] by (cases "show_nat n") auto

lemma show_int_Cons: "\<exists>c cs. show_int n = c # cs \<and> (is_digit c \<or> c = CHR ''-'')"
  using show_nat_Cons [of "nat n"] by (auto simp: show_int_def)

lemma show_int_prefix:
  assumes "show_int i @ x = show_int j @ y" "no_digit x" "no_digit y"
  shows "i = j \<and> x = y"
proof -
  have minus: "\<not> is_digit CHR ''-''" by (simp add: is_digit_def)
  have "i < 0 \<longleftrightarrow> j < 0"
    using assms(1) show_nat_Cons [of "nat i"] show_nat_Cons [of "nat j"] minus
    by (auto simp: show_int_def split: if_splits)
  then consider "i < 0" "j < 0" | "\<not> i < 0" "\<not> j < 0" by blast
  then show ?thesis
  proof cases
    case 1
    with assms(1) have "show_nat (nat (- i)) @ x = show_nat (nat (- j)) @ y" by (simp add: show_int_def)
    from show_nat_prefix [OF this assms(2,3)] 1 show ?thesis by linarith
  next
    case 2
    with assms(1) have "show_nat (nat i) @ x = show_nat (nat j) @ y" by (simp add: show_int_def)
    from show_nat_prefix [OF this assms(2,3)] 2 show ?thesis by linarith
  qed
qed

subsection \<open>Arrays and objects\<close>

lemma comma_list_prefix:
  assumes "concat (map (\<lambda>x. CHR '','' # f x) xs) @ c # r = concat (map (\<lambda>x. CHR '','' # f x) ys) @ c # s"
    and "\<And>x y r s. x \<in> set xs \<Longrightarrow> f x @ r = f y @ s \<Longrightarrow> no_digit r \<Longrightarrow> no_digit s \<Longrightarrow> x = y \<and> r = s"
    and "c \<noteq> CHR '',''" "\<not> is_digit c"
  shows "xs = ys \<and> r = s"
  using assms(1,2)
proof (induction xs arbitrary: ys)
  case Nil
  then show ?case using assms(3) by (cases ys) auto
next
  case (Cons x xs)
  then obtain y ys' where ys: "ys = y # ys'" using assms(3) by (cases ys) auto
  have nd: "no_digit (concat (map (\<lambda>x. CHR '','' # f x) zs) @ c # t)" for zs t
    using assms(4) by (cases zs) (auto simp: no_digit_def is_digit_def)
  have "x = y \<and> concat (map (\<lambda>x. CHR '','' # f x) xs) @ c # r = concat (map (\<lambda>x. CHR '','' # f x) ys') @ c # s"
    using Cons.prems(1) ys by (intro Cons.prems(2) nd) auto
  with Cons.IH [of ys'] Cons.prems(2) ys show ?case by auto
qed

lemma join_prefix:
  assumes "join_comma (map f xs) @ c # r = join_comma (map f ys) @ c # s"
    and "\<And>x y r s. x \<in> set xs \<Longrightarrow> f x @ r = f y @ s \<Longrightarrow> no_digit r \<Longrightarrow> no_digit s \<Longrightarrow> x = y \<and> r = s"
    and "c \<noteq> CHR '',''" "\<not> is_digit c" "\<And>x. f x \<noteq> [] \<and> hd (f x) \<noteq> c"
  shows "xs = ys \<and> r = s"
proof (cases xs; cases ys)
  fix x xs' y ys'
  assume split: "xs = x # xs'" "ys = y # ys'"
  let ?t = "\<lambda>zs. concat (map (\<lambda>x. CHR '','' # f x) zs)"
  have nd: "no_digit (?t zs @ c # t)" for zs t
    using assms(4) by (cases zs) (auto simp: no_digit_def is_digit_def)
  have "x = y \<and> ?t xs' @ c # r = ?t ys' @ c # s"
    using assms(1) split by (intro assms(2) nd) (auto simp: comp_def)
  with comma_list_prefix [of f xs' c r ys' s] assms(2-4) split show ?thesis by auto
next
  fix y ys' assume "xs = []" "ys = y # ys'"
  with assms(1) have "c # r = f y @ concat (map (\<lambda>y. CHR '','' # y) (map f ys')) @ c # s" by simp
  with assms(5) [of y] show ?thesis by (cases "f y") auto
next
  fix x xs' assume "xs = x # xs'" "ys = []"
  with assms(1) have "c # s = f x @ concat (map (\<lambda>y. CHR '','' # y) (map f xs')) @ c # r" by simp
  with assms(5) [of x] show ?thesis by (cases "f x") auto
qed (use assms(1) in auto)

text \<open>The first character tells the kind of a value.\<close>

definition kind_of_char :: "char \<Rightarrow> nat" where
  "kind_of_char c = (if c = CHR ''n'' then 0 else if c = CHR ''t'' \<or> c = CHR ''f'' then 1
     else if is_digit c \<or> c = CHR ''-'' then 2 else if c = CHR 0x22 then 3
     else if c = CHR ''['' then 4 else if c = CHR ''{'' then 5 else 6)"

fun json_kind :: "json \<Rightarrow> nat" where
  "json_kind JNull = 0"
| "json_kind (JBool b) = 1"
| "json_kind (JNum n) = 2"
| "json_kind (JStr t) = 3"
| "json_kind (JArr vs) = 4"
| "json_kind (JObj ms) = 5"

lemma kind_of_digit: "is_digit c \<Longrightarrow> kind_of_char c = 2"
  by (auto simp: kind_of_char_def is_digit_def)

lemma stringify_start: "\<exists>c cs. stringify v = c # cs \<and> kind_of_char c = json_kind v"
proof (cases v)
  case (JNum n)
  obtain c cs where c: "show_int n = c # cs" "is_digit c \<or> c = CHR ''-''" using show_int_Cons by blast
  have "kind_of_char CHR ''-'' = 2" by (simp add: kind_of_char_def)
  with c(2) kind_of_digit have "kind_of_char c = 2" by auto
  with JNum c(1) show ?thesis by auto
qed (auto simp: quote_def kind_of_char_def is_digit_def)

lemma stringify_no_close: "stringify v \<noteq> [] \<and> hd (stringify v) \<noteq> CHR '']''"
  using stringify_start [of v] by (cases v) (auto simp: kind_of_char_def is_digit_def)

lemma stringify_kind:
  assumes "stringify v @ r = stringify w @ s"
  shows "json_kind v = json_kind w"
  using assms stringify_start [of v] stringify_start [of w] by auto

lemma stringify_prefix: "stringify v @ r = stringify w @ s \<Longrightarrow> no_digit r \<Longrightarrow> no_digit s \<Longrightarrow> v = w \<and> r = s"
proof (induction v arbitrary: w r s)
  case JNull
  with stringify_kind [OF JNull.prems(1)] show ?case by (cases w) auto
next
  case (JBool b)
  with stringify_kind [OF JBool.prems(1)] show ?case by (cases w) (auto split: if_splits)
next
  case (JNum n)
  with stringify_kind [OF JNum.prems(1)] show ?case by (cases w) (auto dest: show_int_prefix)
next
  case (JStr t)
  with stringify_kind [OF JStr.prems(1)] show ?case by (cases w) (auto dest: quote_prefix)
next
  case (JArr vs)
  then obtain ws where w: "w = JArr ws" using stringify_kind [OF JArr.prems(1)] by (cases w) auto
  with JArr.prems have "join_comma (map stringify vs) @ CHR '']'' # r = join_comma (map stringify ws) @ CHR '']'' # s"
    by simp
  moreover have "x = y \<and> r = s" if "x \<in> set vs" "stringify x @ r = stringify y @ s" "no_digit r" "no_digit s" for x y r s
    using that by (rule JArr.IH)
  ultimately have "vs = ws \<and> r = s"
    by (intro join_prefix) (use stringify_no_close in \<open>auto simp: is_digit_def\<close>)
  then show ?case using w by simp
next
  case (JObj ms)
  let ?f = "\<lambda>(key, v). quote key @ '':'' @ stringify v"
  obtain ns where w: "w = JObj ns" using stringify_kind [OF JObj.prems(1)] by (cases w) auto
  with JObj.prems have eq: "join_comma (map ?f ms) @ CHR ''}'' # r = join_comma (map ?f ns) @ CHR ''}'' # s"
    by simp
  have inj: "x = y \<and> r = s" if "x \<in> set ms" "?f x @ r = ?f y @ s" "no_digit r" "no_digit s" for x y r s
  proof -
    obtain k v l u where xy: "x = (k, v :: json)" "y = (l, u :: json)" by fastforce
    with that(2) have "quote k @ '':'' @ stringify v @ r = quote l @ '':'' @ stringify u @ s" by simp
    from quote_prefix [OF this] have "k = l" "stringify v @ r = stringify u @ s" by auto
    with JObj.IH [of x v r u s] that xy show ?thesis by auto
  qed
  have start: "?f x \<noteq> [] \<and> hd (?f x) \<noteq> CHR ''}''" for x
    by (cases x) (simp add: quote_def)
  have "ms = ns \<and> r = s"
    by (rule join_prefix [OF eq inj _ _ start]) (simp_all add: is_digit_def)
  then show ?case using w by simp
qed

lemma canonicalJson_inj: "canonicalJson v = canonicalJson w \<longleftrightarrow> sort_members v = sort_members w"
  using stringify_prefix [of "sort_members v" "[]" "sort_members w" "[]"]
  by (auto simp: canonicalJson_stringify no_digit_def)

text \<open>Objects have distinct keys: for these the order of creation of the members is irrelevant.\<close>

lemma sort_members_permute:
  assumes "mset ms = mset ns" "distinct (map fst ms)"
  shows "sort_members (JObj ms) = sort_members (JObj ns)"
  using assms sort_by_code_points_perm [of "map (\<lambda>(key, v). (key, sort_members v)) ms"
      "map (\<lambda>(key, v). (key, sort_members v)) ns" fst]
  by (simp add: comp_def split_beta)


lemma canonicalJson_permute: "mset ms = mset ns \<Longrightarrow> distinct (map fst ms) \<Longrightarrow>
    canonicalJson (JObj ms) = canonicalJson (JObj ns)"
  using sort_members_permute by (simp only: canonicalJson_inj)

lemma sort_members_idem [simp]: "sort_members (sort_members v) = sort_members v"
proof (induction v rule: sort_members.induct)
  case (2 members)
  let ?g = "\<lambda>(key, v). (key, sort_members v)"
  have "map ?g (js_sort compare_keys (map ?g members)) = js_sort compare_keys (map ?g (map ?g members))"
    by (rule js_sort_map [symmetric]) auto
  also have "map ?g (map ?g members) = map ?g members" using 2 by auto
  finally show ?case
    by (simp add: by_code_points.sort_sorted [OF by_code_points.sorted_sort] comp_def)
qed auto

text \<open>Equal objects agree on every member, again up to the order inside.\<close>

lemma map_of_sort_members: "map_of (map (\<lambda>(key, v). (key, sort_members v)) ms) k = map_option sort_members (map_of ms k)"
  by (induction ms) auto

lemma map_of_js_sort: "distinct (map fst ms) \<Longrightarrow> map_of (js_sort cmp ms) = map_of ms"
  by (rule map_of_inject_set [THEN iffD2]) auto

lemma member_of_equal:
  assumes "sort_members (JObj ms) = sort_members (JObj ns)"
    and "distinct (map fst ms)" "distinct (map fst ns)"
  shows "map_option sort_members (map_of ms k) = map_option sort_members (map_of ns k)"
proof -
  let ?g = "map (\<lambda>(key, v). (key, sort_members v))"
  have d: "distinct (map fst (?g xs)) = distinct (map fst xs)" for xs :: "(string \<times> json) list"
    by (simp add: comp_def split_beta)
  have "map_of (js_sort compare_keys (?g ms)) k = map_of (js_sort compare_keys (?g ns)) k"
    using assms(1) by simp
  then show ?thesis using assms(2,3) by (simp only: map_of_js_sort d map_of_sort_members)
qed

section \<open>Properties\<close>

text \<open>
  C27: canonical JSON is a faithful identity: two values have the same canonical text exactly when
  they are the same value up to the order in which the members of their objects were created; no
  choice of strings, quotes, separators or nesting makes two different values collide.
\<close>

theorem canonical_json_identifies_values:
  "(canonicalJson v = canonicalJson w \<longleftrightarrow> sort_members v = sort_members w) \<and>
   (mset ms = mset ns \<and> distinct (map fst ms) \<longrightarrow> canonicalJson (JObj ms) = canonicalJson (JObj ns))"
  using canonicalJson_inj canonicalJson_permute by blast

theorem canonical_json_identifies_values_witness:
  "canonicalJson (JObj [(''b'', JNum (-12)), (''a'', JStr [CHR 0x22])]) =
     canonicalJson (JObj [(''a'', JStr [CHR 0x22]), (''b'', JNum (-12))]) \<and>
   canonicalJson (JObj [(''a'', JStr ''1'')]) \<noteq> canonicalJson (JObj [(''a'', JNum 1)])"
  using canonical_json_identifies_values [of JNull JNull
      "[(''b'', JNum (-12)), (''a'', JStr [CHR 0x22])]" "[(''a'', JStr [CHR 0x22]), (''b'', JNum (-12))]"]
    canonical_json_identifies_values [of "JObj [(''a'', JStr ''1'')]" "JObj [(''a'', JNum 1)]" "[]" "[]"]
  by simp

end
