(* ===== verification/Work_Plan.thy ===== *)
theory Work_Plan
  imports Canonical_Json
begin

text \<open>
  \<open>src/review-orchestration/domain/stable-review-work-plan.ts\<close>: the stable identities of review
  batches and the work plan of a run, one work slot per batch and provider lane, with the manifest
  that accounts for every eligible path.  The SHA-256 of Node's \<open>crypto\<close> is the parameter
  \<open>sha\<close>.  The enumerations are datatypes, so the checks \<open>Object.values(E).includes(x)\<close> on
  them always succeed and are omitted; the numbers of the inputs are integers.
\<close>

section \<open>Data\<close>

datatype ReviewTaskKind = FindingDiscovery | LifecycleRevalidation | PrDescription

datatype ReviewExecutionProviderKind = Codex | ClaudeCode | OpenRouter | Ocr

fun task_kind_value :: "ReviewTaskKind \<Rightarrow> string" where
  "task_kind_value FindingDiscovery = ''finding_discovery''"
| "task_kind_value LifecycleRevalidation = ''lifecycle_revalidation''"
| "task_kind_value PrDescription = ''pr_description''"

fun provider_kind_value :: "ReviewExecutionProviderKind \<Rightarrow> string" where
  "provider_kind_value Codex = ''codex''"
| "provider_kind_value ClaudeCode = ''claude_code''"
| "provider_kind_value OpenRouter = ''openrouter''"
| "provider_kind_value Ocr = ''ocr''"

record StableReviewProviderLane =
  lane_providerName :: string
  lane_providerKind :: ReviewExecutionProviderKind
  lane_voteIdentityHash :: string
  lane_required :: bool
  lane_attemptBudget :: int
  lane_retryPolicyVersion :: string

record StableReviewBatch =
  batchId :: string
  batch_taskKind :: ReviewTaskKind
  batch_required :: bool
  batch_paths :: "string list"
  batch_ordinal :: "int option"

record StableReviewAssignmentManifest =
  assignmentManifestCanonicalJson :: string
  assignmentManifestHash :: string

record StableReviewBatchMember =
  filename :: string
  status :: string
  additions :: int
  deletions :: int
  changes :: int
  patch :: "string option"
  previousFilename :: "string option"
  language :: "string option"

record ReviewWorkSlotPlan =
  workSlotId :: string
  slot_taskKind :: ReviewTaskKind
  slot_providerKind :: ReviewExecutionProviderKind
  slot_voteIdentityHash :: string
  shardKey :: string
  slot_required :: bool
  slot_attemptBudget :: int
  slot_retryPolicyVersion :: string

record StableReviewWorkAssignment =
  workSlot :: ReviewWorkSlotPlan
  assigned_providerName :: string
  assigned_batchId :: string
  schedulingOrdinal :: int

record StableReviewWorkPlan =
  planHash :: string
  workSlotsCanonicalJson :: string
  planManifest :: StableReviewAssignmentManifest
  plan_assignments :: "StableReviewWorkAssignment list"

section \<open>Validation helpers\<close>

definition sha_of :: "(string \<Rightarrow> string) \<Rightarrow> string \<Rightarrow> json \<Rightarrow> string" where
  "sha_of sha tag v = sha (tag @ [CHR 0x00] @ canonicalJson v)"

definition requireDigest :: "string \<Rightarrow> string \<Rightarrow> js_error option" where
  "requireDigest v field = check (is_digest 64 v) (field @ ''_invalid'')"

definition requireIdentity :: "string \<Rightarrow> string \<Rightarrow> js_error option" where
  "requireIdentity v field = check (matches_identity ''._:/-'' v) (field @ ''_invalid'')"

definition requirePositive :: "int \<Rightarrow> string \<Rightarrow> js_error option" where
  "requirePositive n field = check (\<not> (\<not> is_safe_integer n \<or> n < 1)) (field @ ''_invalid'')"

definition requireNonNegative :: "int \<Rightarrow> string \<Rightarrow> js_error option" where
  "requireNonNegative n field = check (\<not> (\<not> is_safe_integer n \<or> n < 0)) (field @ ''_invalid'')"

definition assertUnique :: "string list \<Rightarrow> string \<Rightarrow> js_error option" where
  "assertUnique values errorCode = check (length (js_set values) = length values) errorCode"

lemma assertUnique_None [res_simps]: "assertUnique values e = None \<longleftrightarrow> distinct values"
  by (simp add: assertUnique_def res_simps)

definition path_invalid :: "string \<Rightarrow> bool" where
  "path_invalid path \<longleftrightarrow>
     length path = 0 \<or> length path > 1024 \<or> CHR 0x00 \<in> set path \<or> CHR 0x5C \<in> set path \<or>
     hd path = CHR ''/'' \<or> last path = CHR ''/'' \<or>
     list_ex (\<lambda>seg. seg = '''' \<or> seg = ''.'' \<or> seg = ''..'') (js_split CHR ''/'' path)"

definition requireNormalizedRepoPath :: "string \<Rightarrow> js_error option" where
  "requireNormalizedRepoPath path = check (\<not> path_invalid path) ''review_assignment_manifest_path_invalid''"

definition canonicalPaths :: "string list \<Rightarrow> string list res" where
  "canonicalPaths paths =
     throws (first_error requireNormalizedRepoPath paths)
       (Inr (js_sort compareCodePoints (js_set paths)))"

section \<open>Batch identities\<close>

definition member_json :: "StableReviewBatchMember \<Rightarrow> json" where
  "member_json m = JObj
     [(''additions'', JNum (additions m)), (''changes'', JNum (changes m)),
      (''deletions'', JNum (deletions m)), (''filename'', JStr (filename m)),
      (''language'', or_null (language m)), (''patch'', or_null (patch m)),
      (''previousFilename'', or_null (previousFilename m)), (''status'', JStr (status m))]"

definition compareMembers :: "StableReviewBatchMember \<Rightarrow> StableReviewBatchMember \<Rightarrow> int" where
  "compareMembers l r =
     (let c = compareCodePoints (filename l) (filename r)
      in if c \<noteq> 0 then c
         else compareCodePoints (canonicalJson (member_json l)) (canonicalJson (member_json r)))"

definition batch_id_json :: "ReviewTaskKind \<Rightarrow> StableReviewBatchMember list \<Rightarrow> json" where
  "batch_id_json kind members = JObj
     [(''members'', JArr (map member_json (js_sort compareMembers members))),
      (''taskKind'', JStr (task_kind_value kind))]"

definition createStableReviewBatchId ::
    "(string \<Rightarrow> string) \<Rightarrow> ReviewTaskKind \<Rightarrow> StableReviewBatchMember list \<Rightarrow> string res" where
  "createStableReviewBatchId sha kind members =
     throws (assertUnique (map filename members) ''review_batch_member_duplicate'')
       (Inr (sha_of sha ''rr.review-batch.v2'' (batch_id_json kind members)))"

section \<open>The assignment manifest\<close>

record SlotPaths =
  sp_workSlotId :: string
  sp_paths :: "string list"

record ManifestInput =
  mi_lifecyclePlan :: "json option"
  mi_assignments :: "SlotPaths list"
  mi_eligible :: "string list"
  mi_uncovered :: "string list"
  mi_excluded :: "string list"

definition canonicalSlotPaths :: "string list \<Rightarrow> SlotPaths \<Rightarrow> SlotPaths res" where
  "canonicalSlotPaths eligible a =
     throws (requireIdentity (sp_workSlotId a) ''work_slot_id'')
     (rbind (canonicalPaths (sp_paths a)) (\<lambda>paths.
       throws (first_error (\<lambda>p. check (p \<in> set eligible) ''review_assignment_manifest_assignment_not_eligible'') paths)
         (Inr \<lparr>sp_workSlotId = sp_workSlotId a, sp_paths = paths\<rparr>)))"

definition strings_json :: "string list \<Rightarrow> json" where
  "strings_json xs = JArr (map JStr xs)"

definition slot_paths_json :: "SlotPaths \<Rightarrow> json" where
  "slot_paths_json a = JObj
     [(''paths'', strings_json (sp_paths a)), (''workSlotId'', JStr (sp_workSlotId a))]"

definition manifest_version :: "json option \<Rightarrow> nat" where
  "manifest_version lifecyclePlan = (if lifecyclePlan \<noteq> None then 2 else 1)"

definition manifest_json ::
    "json option \<Rightarrow> SlotPaths list \<Rightarrow> string list \<Rightarrow> string list \<Rightarrow> string list \<Rightarrow> json" where
  "manifest_json lifecyclePlan assignments eligible excluded uncovered = JObj
     ((case lifecyclePlan of None \<Rightarrow> [] | Some v \<Rightarrow> [(''lifecyclePlan'', v)]) @
      [(''assignments'', JArr (map slot_paths_json assignments)),
       (''eligiblePaths'', strings_json eligible), (''excludedPaths'', strings_json excluded),
       (''manifestVersion'', JNum (int (manifest_version lifecyclePlan))),
       (''uncoveredPaths'', strings_json uncovered)])"

definition createStableReviewAssignmentManifest ::
    "(string \<Rightarrow> string) \<Rightarrow> ManifestInput \<Rightarrow> StableReviewAssignmentManifest res" where
  "createStableReviewAssignmentManifest sha input =
     rbind (canonicalPaths (mi_eligible input)) (\<lambda>eligible.
     rbind (canonicalPaths (mi_uncovered input)) (\<lambda>uncovered.
     rbind (canonicalPaths (mi_excluded input)) (\<lambda>excluded.
     throws (first_error (\<lambda>p. check (p \<in> set eligible) ''review_assignment_manifest_uncovered_not_eligible'') uncovered)
     (rbind (res_map (canonicalSlotPaths eligible) (mi_assignments input)) (\<lambda>mapped.
       let assignments = js_sort (\<lambda>l r. compareCodePoints (sp_workSlotId l) (sp_workSlotId r)) mapped;
           assigned = concat (map sp_paths assignments);
           pathCount = sum_list (map (length \<circ> sp_paths) assignments) + length eligible +
             length uncovered + length excluded;
           json = canonicalJson (manifest_json (mi_lifecyclePlan input) assignments eligible excluded uncovered)
       in throws (assertUnique (map sp_workSlotId assignments) ''review_assignment_manifest_slot_duplicate'')
          (throws (first_error (\<lambda>p. check (p \<notin> set assigned) ''review_assignment_manifest_uncovered_assigned_overlap'') uncovered)
          (throws (first_error (\<lambda>p. check (p \<in> set assigned \<or> p \<in> set uncovered) ''review_assignment_manifest_eligible_unaccounted'') eligible)
          (throws (first_error (\<lambda>p. check (p \<notin> set eligible) ''review_assignment_manifest_excluded_eligible_overlap'') excluded)
          (throw_if (pathCount > 4096) ''review_assignment_manifest_path_count_out_of_bounds''
          (throw_if (case mi_lifecyclePlan input of None \<Rightarrow> False
                     | Some plan \<Rightarrow> byte_length (canonicalJson plan) > 64 * 1024)
             ''review_lifecycle_plan_too_large''
          (throw_if (byte_length json > 512 * 1024) ''review_assignment_manifest_too_large''
            (Inr \<lparr>assignmentManifestCanonicalJson = json,
                  assignmentManifestHash =
                    sha (''rr.review-assignment-manifest.v'' @
                      show_nat (manifest_version (mi_lifecyclePlan input)) @ [CHR 0x00] @ json)\<rparr>))))))))))))"

section \<open>The work plan\<close>

record WorkPlanInput =
  reviewRevisionHash :: string
  compatibilityKey :: string
  providers :: "StableReviewProviderLane list"
  batches :: "StableReviewBatch list"
  eligiblePaths :: "string list"
  uncoveredPaths :: "string list"
  excludedPaths :: "string list"
  lifecyclePlan :: "(StableReviewWorkAssignment list \<Rightarrow> json option) option"
  maxWorkSlots :: int
  maxAttemptsPerSlot :: int

text \<open>\<open>batch.schedulingOrdinal ?? inputOrdinal\<close>: a batch with the ordinal it is scheduled at.\<close>

type_synonym OrderedBatch = "StableReviewBatch \<times> int"

definition with_ordinals :: "StableReviewBatch list \<Rightarrow> OrderedBatch list" where
  "with_ordinals bs = map (\<lambda>(i, b). (b, case batch_ordinal b of Some k \<Rightarrow> k | None \<Rightarrow> int i))
     (List.enumerate 0 bs)"

definition compareBatches :: "OrderedBatch \<Rightarrow> OrderedBatch \<Rightarrow> int" where
  "compareBatches l r =
     (if snd l - snd r \<noteq> 0 then snd l - snd r else compareCodePoints (batchId (fst l)) (batchId (fst r)))"

definition compareAssignments :: "StableReviewWorkAssignment \<Rightarrow> StableReviewWorkAssignment \<Rightarrow> int" where
  "compareAssignments l r =
     (let d = schedulingOrdinal l - schedulingOrdinal r;
          c = compareCodePoints (assigned_providerName l) (assigned_providerName r)
      in if d \<noteq> 0 then d else if c \<noteq> 0 then c
         else compareCodePoints (workSlotId (workSlot l)) (workSlotId (workSlot r)))"

definition work_slot_id_json ::
    "WorkPlanInput \<Rightarrow> StableReviewBatch \<Rightarrow> StableReviewProviderLane \<Rightarrow> json" where
  "work_slot_id_json input b p = JObj
     [(''batchId'', JStr (batchId b)), (''compatibilityKey'', JStr (compatibilityKey input)),
      (''providerName'', JStr (lane_providerName p)),
      (''providerKind'', JStr (provider_kind_value (lane_providerKind p))),
      (''providerVoteIdentityHash'', JStr (lane_voteIdentityHash p)),
      (''taskKind'', JStr (task_kind_value (batch_taskKind b))),
      (''reviewRevisionHash'', JStr (reviewRevisionHash input))]"

text \<open>The object that the inner loop pushes: the slot of one batch on one provider lane.\<close>

definition plan_slot ::
    "(string \<Rightarrow> string) \<Rightarrow> WorkPlanInput \<Rightarrow> OrderedBatch \<Rightarrow> StableReviewProviderLane \<Rightarrow>
     StableReviewWorkAssignment" where
  "plan_slot sha input ob p =
     (let b = fst ob;
          description = (batch_taskKind b = PrDescription);
          lifecycle = (batch_taskKind b = LifecycleRevalidation)
      in \<lparr>workSlot =
            \<lparr>workSlotId = sha_of sha ''rr.review-work-slot.v1'' (work_slot_id_json input b p),
             slot_taskKind = batch_taskKind b,
             slot_providerKind = lane_providerKind p,
             slot_voteIdentityHash = lane_voteIdentityHash p,
             shardKey = batchId b,
             slot_required = (batch_required b \<and> lane_required p),
             slot_attemptBudget = (if description \<or> lifecycle then 1 else lane_attemptBudget p),
             slot_retryPolicyVersion =
               (if lifecycle then ''lifecycle-verification-no-replay.v1''
                else if description then ''pr-description-no-replay.v1''
                else lane_retryPolicyVersion p)\<rparr>,
          assigned_providerName = lane_providerName p,
          assigned_batchId = batchId b,
          schedulingOrdinal = snd ob\<rparr>)"

text \<open>The body of the inner loop, with its checks of the lane.\<close>

definition assign_slot ::
    "(string \<Rightarrow> string) \<Rightarrow> WorkPlanInput \<Rightarrow> OrderedBatch \<Rightarrow> StableReviewProviderLane \<Rightarrow>
     StableReviewWorkAssignment res" where
  "assign_slot sha input ob p =
     throws (requireIdentity (lane_providerName p) ''provider_name'')
     (throws (requireIdentity (lane_retryPolicyVersion p) ''retry_policy_version'')
     (throws (requireDigest (lane_voteIdentityHash p) ''provider_vote_identity_hash'')
     (throw_if (\<not> is_safe_integer (lane_attemptBudget p) \<or> lane_attemptBudget p < 1 \<or>
         lane_attemptBudget p > maxAttemptsPerSlot input) ''review_work_plan_attempt_limit_exceeded''
       (Inr (plan_slot sha input ob p)))))"

text \<open>The body of the outer loop: a description or lifecycle batch is run by the first configured
  provider only, any other batch by every provider.\<close>

definition lanes_of :: "WorkPlanInput \<Rightarrow> StableReviewBatch \<Rightarrow> StableReviewProviderLane list \<Rightarrow>
    StableReviewProviderLane list" where
  "lanes_of input b sorted_lanes =
     (if batch_taskKind b = PrDescription \<or> batch_taskKind b = LifecycleRevalidation
      then [hd (providers input)] else sorted_lanes)"

definition assign_batch ::
    "(string \<Rightarrow> string) \<Rightarrow> WorkPlanInput \<Rightarrow> StableReviewProviderLane list \<Rightarrow> OrderedBatch \<Rightarrow>
     StableReviewWorkAssignment list res" where
  "assign_batch sha input sorted_lanes ob =
     (let b = fst ob
      in throws (requireIdentity (batchId b) ''batch_id'')
         (throws (requireNonNegative (snd ob) ''batch_scheduling_ordinal'')
         (throw_if (batch_taskKind b = LifecycleRevalidation \<and> (batch_required b \<or> batch_paths b \<noteq> []))
            ''review_lifecycle_slot_scope_invalid''
         (throw_if (batch_taskKind b = PrDescription \<and> (batch_required b \<or> batch_paths b \<noteq> []))
            ''review_description_slot_scope_invalid''
            (res_map (assign_slot sha input ob) (lanes_of input b sorted_lanes))))))"

definition slot_json :: "ReviewWorkSlotPlan \<Rightarrow> json" where
  "slot_json s = JObj
     [(''workSlotId'', JStr (workSlotId s)), (''taskKind'', JStr (task_kind_value (slot_taskKind s))),
      (''providerKind'', JStr (provider_kind_value (slot_providerKind s))),
      (''providerVoteIdentityHash'', JStr (slot_voteIdentityHash s)), (''shardKey'', JStr (shardKey s)),
      (''required'', JBool (slot_required s)), (''attemptBudget'', JNum (slot_attemptBudget s)),
      (''retryPolicyVersion'', JStr (slot_retryPolicyVersion s))]"

text \<open>The manifest and the hashes of a plan whose assignments are fixed.\<close>

definition plan_json :: "WorkPlanInput \<Rightarrow> string \<Rightarrow> json \<Rightarrow> json" where
  "plan_json input manifest_hash slots = JObj
     [(''assignmentManifestHash'', JStr manifest_hash),
      (''compatibilityKey'', JStr (compatibilityKey input)),
      (''reviewRevisionHash'', JStr (reviewRevisionHash input)), (''workSlots'', slots)]"

definition by_slot_id :: "StableReviewWorkAssignment \<Rightarrow> StableReviewWorkAssignment \<Rightarrow> int" where
  "by_slot_id l r = compareCodePoints (workSlotId (workSlot l)) (workSlotId (workSlot r))"

definition finish_plan ::
    "(string \<Rightarrow> string) \<Rightarrow> WorkPlanInput \<Rightarrow> OrderedBatch list \<Rightarrow> StableReviewWorkAssignment list \<Rightarrow>
     StableReviewWorkPlan res" where
  "finish_plan sha input ordered assigned =
     (let assignments = js_sort compareAssignments assigned;
          canonicalAssignments = js_sort by_slot_id assignments
      in rbind (res_map (\<lambda>ob. rbind (canonicalPaths (batch_paths (fst ob))) (\<lambda>ps. Inr (batchId (fst ob), ps))) ordered)
         (\<lambda>pathsByBatchId.
         rbind (createStableReviewAssignmentManifest sha
             \<lparr>mi_lifecyclePlan = (case lifecyclePlan input of None \<Rightarrow> None | Some f \<Rightarrow> f assignments),
              mi_assignments = map (\<lambda>a.
                \<lparr>sp_workSlotId = workSlotId (workSlot a),
                 sp_paths = (case map_of (rev pathsByBatchId) (assigned_batchId a) of None \<Rightarrow> [] | Some ps \<Rightarrow> ps)\<rparr>)
                canonicalAssignments,
              mi_eligible = eligiblePaths input, mi_uncovered = uncoveredPaths input,
              mi_excluded = excludedPaths input\<rparr>)
         (\<lambda>manifest.
           let slots = JArr (map (slot_json \<circ> workSlot) canonicalAssignments)
           in Inr \<lparr>planHash = sha_of sha ''rr.review-work-plan.v2''
                     (plan_json input (assignmentManifestHash manifest) slots),
                   workSlotsCanonicalJson = canonicalJson slots,
                   planManifest = manifest,
                   plan_assignments = assignments\<rparr>)))"

definition createStableReviewWorkPlan ::
    "(string \<Rightarrow> string) \<Rightarrow> WorkPlanInput \<Rightarrow> StableReviewWorkPlan res" where
  "createStableReviewWorkPlan sha input =
     throws (requireDigest (reviewRevisionHash input) ''review_revision_hash'')
     (throws (requireDigest (compatibilityKey input) ''compatibility_key'')
     (throws (requirePositive (maxWorkSlots input) ''max_work_slots'')
     (throws (requirePositive (maxAttemptsPerSlot input) ''max_attempts_per_slot'')
     (throw_if (providers input = [] \<or> batches input = []) ''review_work_plan_empty''
     (let lanes = js_sort (\<lambda>l r. compareCodePoints (lane_providerName l) (lane_providerName r)) (providers input);
          ordered = js_sort compareBatches (with_ordinals (batches input))
      in throws (assertUnique (map lane_providerName lanes) ''review_work_plan_provider_duplicate'')
         (throws (assertUnique (map lane_voteIdentityHash lanes) ''review_work_plan_vote_lane_duplicate'')
         (throws (assertUnique (map (batchId \<circ> fst) ordered) ''review_work_plan_batch_duplicate'')
         (throws (assertUnique (map (show_int \<circ> snd) ordered) ''review_work_plan_scheduling_ordinal_duplicate'')
         (throw_if (length (filter (\<lambda>ob. batch_taskKind (fst ob) = PrDescription) ordered) > 1)
            ''review_description_slot_duplicate''
         (rbind (res_map (assign_batch sha input lanes) ordered) (\<lambda>groups.
            let assigned = concat groups
            in throw_if (int (length assigned) > maxWorkSlots input) ''review_work_plan_slot_limit_exceeded''
                 (finish_plan sha input ordered assigned))))))))))))"


section \<open>What the manifest accepts\<close>

definition canon :: "string list \<Rightarrow> string list" where
  "canon paths = js_sort compareCodePoints (js_set paths)"

lemma set_canon [simp]: "set (canon ps) = set ps"
  by (simp add: canon_def)

lemma distinct_canon [simp]: "distinct (canon ps)"
  by (simp add: canon_def)

lemma length_canon: "length (canon ps) = card (set ps)"
  by (metis distinct_canon distinct_card set_canon)

lemma canon_cong: "set ps = set qs \<Longrightarrow> canon ps = canon qs"
  by (simp add: canon_def mset_js_set code_points.sort_perm)

lemma canon_eq_iff: "canon ps = canon qs \<longleftrightarrow> set ps = set qs"
  by (metis canon_cong set_canon)

lemma canonicalPaths_Inr: "canonicalPaths ps = Inr qs \<longleftrightarrow> (\<forall>p \<in> set ps. \<not> path_invalid p) \<and> qs = canon ps"
  by (auto simp: canonicalPaths_def canon_def requireNormalizedRepoPath_def res_simps)

definition canon_slot :: "SlotPaths \<Rightarrow> SlotPaths" where
  "canon_slot a = \<lparr>sp_workSlotId = sp_workSlotId a, sp_paths = canon (sp_paths a)\<rparr>"

definition canon_slots :: "SlotPaths list \<Rightarrow> SlotPaths list" where
  "canon_slots as = js_sort (\<lambda>l r. compareCodePoints (sp_workSlotId l) (sp_workSlotId r)) (map canon_slot as)"

lemma canon_slot_sel [simp]:
  "sp_workSlotId (canon_slot a) = sp_workSlotId a" "sp_paths (canon_slot a) = canon (sp_paths a)"
  by (simp_all add: canon_slot_def)

lemma canon_slot_id [simp]: "sp_workSlotId \<circ> canon_slot = sp_workSlotId"
  by auto

lemma mset_canon_slots [simp]: "mset (canon_slots as) = image_mset canon_slot (mset as)"
  by (simp add: canon_slots_def)

lemma set_canon_slots [simp]: "set (canon_slots as) = canon_slot ` set as"
  by (simp add: canon_slots_def)

lemma canonicalSlotPaths_Inr: "canonicalSlotPaths eligible a = Inr b \<longleftrightarrow>
    (matches_identity ''._:/-'' (sp_workSlotId a) \<and> (\<forall>p \<in> set (sp_paths a). \<not> path_invalid p) \<and>
      set (sp_paths a) \<subseteq> set eligible) \<and> b = canon_slot a"
  by (auto simp: canonicalSlotPaths_def canonicalPaths_Inr requireIdentity_def canon_slot_def res_simps)

definition assigned_paths :: "ManifestInput \<Rightarrow> string set" where
  "assigned_paths input = (\<Union>a \<in> set (mi_assignments input). set (sp_paths a))"

text \<open>The manifest's contract, in terms of sets: the slots are well named and distinct, every path
  is normalised, the assigned and the uncovered paths split the eligible ones, the excluded paths
  are not eligible, and the sizes are within the limits.\<close>

definition manifest_ok :: "ManifestInput \<Rightarrow> bool" where
  "manifest_ok input \<longleftrightarrow>
     distinct (map sp_workSlotId (mi_assignments input)) \<and>
     (\<forall>a \<in> set (mi_assignments input). matches_identity ''._:/-'' (sp_workSlotId a)) \<and>
     (\<forall>p \<in> set (mi_eligible input) \<union> set (mi_excluded input). \<not> path_invalid p) \<and>
     assigned_paths input \<union> set (mi_uncovered input) = set (mi_eligible input) \<and>
     assigned_paths input \<inter> set (mi_uncovered input) = {} \<and>
     set (mi_excluded input) \<inter> set (mi_eligible input) = {}"

definition manifest_bounds :: "ManifestInput \<Rightarrow> bool" where
  "manifest_bounds input \<longleftrightarrow>
     (\<Sum>a \<leftarrow> mi_assignments input. card (set (sp_paths a))) + card (set (mi_eligible input)) +
       card (set (mi_uncovered input)) + card (set (mi_excluded input)) \<le> 4096 \<and>
     (\<forall>plan. mi_lifecyclePlan input = Some plan \<longrightarrow> byte_length (canonicalJson plan) \<le> 65536) \<and>
     byte_length (canonicalJson (manifest_json (mi_lifecyclePlan input) (canon_slots (mi_assignments input))
       (canon (mi_eligible input)) (canon (mi_excluded input)) (canon (mi_uncovered input)))) \<le> 524288"

definition manifest_of :: "(string \<Rightarrow> string) \<Rightarrow> ManifestInput \<Rightarrow> StableReviewAssignmentManifest" where
  "manifest_of sha input =
     (let json = canonicalJson (manifest_json (mi_lifecyclePlan input) (canon_slots (mi_assignments input))
            (canon (mi_eligible input)) (canon (mi_excluded input)) (canon (mi_uncovered input)))
      in \<lparr>assignmentManifestCanonicalJson = json,
          assignmentManifestHash = sha (''rr.review-assignment-manifest.v'' @
            show_nat (manifest_version (mi_lifecyclePlan input)) @ [CHR 0x00] @ json)\<rparr>)"

lemma canon_slots_ids: "distinct (map sp_workSlotId (canon_slots as)) = distinct (map sp_workSlotId as)"
  by (simp add: canon_slots_def comp_def)

lemma sum_canon_slots: "sum_list (map (length \<circ> sp_paths) (canon_slots as)) = (\<Sum>a \<leftarrow> as. card (set (sp_paths a)))"
proof -
  have "sum_list (map (length \<circ> sp_paths) (canon_slots as)) =
      sum_mset (image_mset (length \<circ> sp_paths) (mset (canon_slots as)))"
    by (metis mset_map sum_mset_sum_list)
  also have "\<dots> = sum_mset (image_mset (\<lambda>a. card (set (sp_paths a))) (mset as))"
    by (simp add: comp_def image_mset.compositionality length_canon)
  also have "\<dots> = (\<Sum>a \<leftarrow> as. card (set (sp_paths a)))"
    by (metis mset_map sum_mset_sum_list)
  finally show ?thesis .
qed

lemma canon_slots_assigned: "set (concat (map sp_paths (canon_slots (mi_assignments input)))) = assigned_paths input"
  by (auto simp: assigned_paths_def)

lemma manifest_Inr: "createStableReviewAssignmentManifest sha input = Inr m \<longleftrightarrow>
    manifest_ok input \<and> manifest_bounds input \<and> m = manifest_of sha input"
proof -
  have slots: "res_map (canonicalSlotPaths e) (mi_assignments input) = Inr ys \<longleftrightarrow>
      (\<forall>a \<in> set (mi_assignments input). matches_identity ''._:/-'' (sp_workSlotId a) \<and>
        (\<forall>p \<in> set (sp_paths a). \<not> path_invalid p) \<and> set (sp_paths a) \<subseteq> set e) \<and>
      ys = map canon_slot (mi_assignments input)" for e ys
    by (rule res_map_iff) (rule canonicalSlotPaths_Inr)
  have lifecycle: "(case l of None \<Rightarrow> False | Some plan \<Rightarrow> P plan) \<longleftrightarrow> (\<exists>plan. l = Some plan \<and> P plan)" for l and P :: "json \<Rightarrow> bool"
    by (cases l) auto
  show ?thesis
    unfolding createStableReviewAssignmentManifest_def Let_def
    apply (simp only: res_simps canonicalPaths_Inr slots ex_simps simp_thms canon_slots_def [symmetric]
      canon_slots_ids canon_slots_assigned set_canon sum_canon_slots
      length_canon lifecycle)
    apply (auto simp: manifest_ok_def manifest_bounds_def manifest_of_def Let_def assigned_paths_def not_less
      canon_slots_def [symmetric] canon_slots_ids sum_canon_slots length_canon)
    done
qed


section \<open>What a manifest identifies\<close>

lemma canon_sorted_list: "canon ps = sorted_list_of_set (set ps)"
proof -
  have "sorted (canon ps)"
    using code_points.sorted_sort [of "js_set ps"] by (simp add: canon_def compareCodePoints_le)
  then show ?thesis by (metis distinct_canon set_canon sorted_list_of_set.idem_if_sorted_distinct)
qed

definition slot_contents :: "ManifestInput \<Rightarrow> (string \<times> string set) set" where
  "slot_contents input = (\<lambda>a. (sp_workSlotId a, set (sp_paths a))) ` set (mi_assignments input)"

text \<open>Two inputs describe the same assignment: the same paths on the same slots, the same eligible,
  uncovered and excluded paths, and the same lifecycle plan up to member order.\<close>

definition same_manifest :: "ManifestInput \<Rightarrow> ManifestInput \<Rightarrow> bool" where
  "same_manifest i1 i2 \<longleftrightarrow>
     map_option sort_members (mi_lifecyclePlan i1) = map_option sort_members (mi_lifecyclePlan i2) \<and>
     slot_contents i1 = slot_contents i2 \<and> set (mi_eligible i1) = set (mi_eligible i2) \<and>
     set (mi_uncovered i1) = set (mi_uncovered i2) \<and> set (mi_excluded i1) = set (mi_excluded i2)"

lemma slot_contents_canon: "slot_contents i1 = slot_contents i2 \<longleftrightarrow>
    canon_slot ` set (mi_assignments i1) = canon_slot ` set (mi_assignments i2)"
proof -
  let ?pair = "\<lambda>a. (sp_workSlotId a, set (sp_paths a))"
  let ?slot = "\<lambda>(i, s). \<lparr>sp_workSlotId = i, sp_paths = sorted_list_of_set s\<rparr>"
  have "canon_slot ` A = ?slot ` ?pair ` A" for A
    by (simp add: image_image canon_slot_def canon_sorted_list)
  moreover have "?pair ` A = ?pair ` canon_slot ` A" for A
    by (simp add: image_image)
  ultimately show ?thesis unfolding slot_contents_def by (metis (no_types, lifting))
qed

lemma canon_slots_eq:
  assumes "distinct (map sp_workSlotId as)" "distinct (map sp_workSlotId bs)"
  shows "canon_slots as = canon_slots bs \<longleftrightarrow> canon_slot ` set as = canon_slot ` set bs"
proof
  assume eq: "canon_slot ` set as = canon_slot ` set bs"
  have d: "distinct (map canon_slot cs)" if "distinct (map sp_workSlotId cs)" for cs
    using that by (auto simp: distinct_map inj_on_def dest: arg_cong [where f = sp_workSlotId])
  have "mset (map canon_slot as) = mset (map canon_slot bs)"
    using d assms eq by (metis list.set_map mset_set_set)
  then show "canon_slots as = canon_slots bs"
    using assms unfolding canon_slots_def by (intro sort_by_code_points_perm) simp_all
next
  assume "canon_slots as = canon_slots bs"
  then show "canon_slot ` set as = canon_slot ` set bs" by (metis set_canon_slots)
qed

lemma slot_paths_json_inj:
  assumes "sort_members (slot_paths_json a) = sort_members (slot_paths_json b)"
  shows "a = b"
proof -
  note member = member_of_equal [OF assms [unfolded slot_paths_json_def]]
  have "inj JStr" by (simp add: inj_def)
  with member [of "''paths''"] member [of "''workSlotId''"] show ?thesis
    by (simp add: strings_json_def comp_def inj_map_eq_map)
qed

lemma slots_json_inj: "sort_members (JArr (map slot_paths_json as)) = sort_members (JArr (map slot_paths_json bs)) \<longleftrightarrow> as = bs"
  using inj_map_eq_map [of "sort_members \<circ> slot_paths_json" as bs] slot_paths_json_inj
  by (auto simp: inj_def)

lemma strings_json_inj: "sort_members (strings_json as) = sort_members (strings_json bs) \<longleftrightarrow> as = bs"
  using inj_map_eq_map [of "sort_members \<circ> JStr" as bs] by (auto simp: strings_json_def inj_def)

lemma manifest_json_inj: "sort_members (manifest_json l as e x u) = sort_members (manifest_json l' as' e' x' u') \<longleftrightarrow>
    map_option sort_members l = map_option sort_members l' \<and> as = as' \<and> e = e' \<and> x = x' \<and> u = u'"
proof
  assume "sort_members (manifest_json l as e x u) = sort_members (manifest_json l' as' e' x' u')"
  note member = member_of_equal [OF this [unfolded manifest_json_def]]
  have d: "distinct (map fst ((case k of None \<Rightarrow> [] | Some v \<Rightarrow> [(''lifecyclePlan'', v)]) @
      [(''assignments'', a), (''eligiblePaths'', b), (''excludedPaths'', c), (''manifestVersion'', d),
       (''uncoveredPaths'', f)]))" for k :: "json option" and a b c d f :: json
    by (auto split: option.split)
  show "map_option sort_members l = map_option sort_members l' \<and> as = as' \<and> e = e' \<and> x = x' \<and> u = u'"
    using member [OF d d, of "''lifecyclePlan''"] member [OF d d, of "''assignments''"]
      member [OF d d, of "''eligiblePaths''"] member [OF d d, of "''excludedPaths''"]
      member [OF d d, of "''uncoveredPaths''"]
    by (cases l; cases l') (simp_all add: strings_json_inj slots_json_inj del: sort_members.simps)
next
  assume "map_option sort_members l = map_option sort_members l' \<and> as = as' \<and> e = e' \<and> x = x' \<and> u = u'"
  then show "sort_members (manifest_json l as e x u) = sort_members (manifest_json l' as' e' x' u')"
    by (cases l; cases l') (auto simp: manifest_json_def manifest_version_def)
qed

lemma manifest_same:
  assumes "createStableReviewAssignmentManifest sha i1 = Inr m1"
    and "createStableReviewAssignmentManifest sha i2 = Inr m2"
  shows "assignmentManifestCanonicalJson m1 = assignmentManifestCanonicalJson m2 \<longleftrightarrow> same_manifest i1 i2"
  using assms by (auto simp: manifest_Inr manifest_of_def Let_def canonicalJson_inj manifest_json_inj
      same_manifest_def manifest_ok_def canon_slots_eq slot_contents_canon canon_eq_iff)

section \<open>Properties of the manifest and of batch identities\<close>

text \<open>
  The manifest is accepted exactly when it accounts for every path: the eligible paths are
  split into the ones assigned to slots and the uncovered ones, none of them excluded, every path a
  normalised repository path, the slots distinct and well named, and the sizes within the limits.
\<close>

theorem manifest_accounts_for_every_path:
  "(\<exists>m. createStableReviewAssignmentManifest sha input = Inr m) \<longleftrightarrow>
     manifest_ok input \<and> manifest_bounds input"
  by (simp add: manifest_Inr)

text \<open>
  The canonical text that is stored and hashed identifies the assignment: it depends neither on
  the order nor on repetitions in the input, and two different assignments never share a text.
\<close>

theorem manifest_text_identifies_assignment:
  assumes "createStableReviewAssignmentManifest sha i1 = Inr m1"
    and "createStableReviewAssignmentManifest sha i2 = Inr m2"
  shows "(assignmentManifestCanonicalJson m1 = assignmentManifestCanonicalJson m2 \<longleftrightarrow> same_manifest i1 i2) \<and>
    (same_manifest i1 i2 \<longrightarrow> assignmentManifestHash m1 = assignmentManifestHash m2)"
proof -
  have "mi_lifecyclePlan i1 = None \<longleftrightarrow> mi_lifecyclePlan i2 = None" if "same_manifest i1 i2"
    using that by (cases "mi_lifecyclePlan i1"; cases "mi_lifecyclePlan i2") (auto simp: same_manifest_def)
  then show ?thesis using manifest_same [OF assms] assms
    by (auto simp: manifest_Inr manifest_of_def Let_def manifest_version_def)
qed


definition demo_manifest :: ManifestInput where
  "demo_manifest = \<lparr>mi_lifecyclePlan = None,
     mi_assignments = [\<lparr>sp_workSlotId = ''slot-1'', sp_paths = [''b.ts'', ''a.ts'']\<rparr>],
     mi_eligible = [''b.ts'', ''c.ts'', ''a.ts''], mi_uncovered = [''c.ts''], mi_excluded = [''lib/d.ts'']\<rparr>"

definition demo_manifest' :: ManifestInput where
  "demo_manifest' = \<lparr>mi_lifecyclePlan = None,
     mi_assignments = [\<lparr>sp_workSlotId = ''slot-1'', sp_paths = [''a.ts'', ''b.ts'', ''a.ts'']\<rparr>],
     mi_eligible = [''a.ts'', ''b.ts'', ''c.ts''], mi_uncovered = [''c.ts''], mi_excluded = [''lib/d.ts'']\<rparr>"

lemmas json_eval = manifest_json_def slot_paths_json_def strings_json_def manifest_version_def
  compareCodePoints_def quote_def escape_char_def show_int_def show_nat.simps byte_length_def

lemma demo_canon:
  "canon [''b.ts'', ''a.ts''] = [''a.ts'', ''b.ts'']"
  "canon [''a.ts'', ''b.ts'', ''a.ts''] = [''a.ts'', ''b.ts'']"
  "canon [''b.ts'', ''c.ts'', ''a.ts''] = [''a.ts'', ''b.ts'', ''c.ts'']"
  "canon [''a.ts'', ''b.ts'', ''c.ts''] = [''a.ts'', ''b.ts'', ''c.ts'']"
  "canon [''c.ts''] = [''c.ts'']" "canon [''lib/d.ts''] = [''lib/d.ts'']"
  by code_simp+

lemma demo_manifests_ok: "manifest_ok demo_manifest" "manifest_ok demo_manifest'"
  by (auto simp: manifest_ok_def demo_manifest_def demo_manifest'_def assigned_paths_def path_invalid_def
      js_string_simps)

lemma demo_manifests_bounds: "manifest_bounds demo_manifest" "manifest_bounds demo_manifest'"
  by (simp_all add: manifest_bounds_def demo_manifest_def demo_manifest'_def canon_slots_def canon_slot_def
      demo_canon json_eval card_insert_if)

lemma demo_manifests_accepted:
  "createStableReviewAssignmentManifest (\<lambda>s. s) demo_manifest = Inr (manifest_of (\<lambda>s. s) demo_manifest)"
  "createStableReviewAssignmentManifest (\<lambda>s. s) demo_manifest' = Inr (manifest_of (\<lambda>s. s) demo_manifest')"
  by (simp_all add: manifest_Inr demo_manifests_ok demo_manifests_bounds)

theorem manifest_text_identifies_assignment_witness:
  "assignmentManifestHash (manifest_of (\<lambda>s. s) demo_manifest) =
   assignmentManifestHash (manifest_of (\<lambda>s. s) demo_manifest')"
proof -
  have "same_manifest demo_manifest demo_manifest'"
    by (auto simp: same_manifest_def slot_contents_def demo_manifest_def demo_manifest'_def)
  with manifest_text_identifies_assignment [OF demo_manifests_accepted] show ?thesis by blast
qed

section \<open>Batch identities\<close>

interpretation member_order: js_comparator compareMembers
proof
  fix x y z :: StableReviewBatchMember
  show "compareMembers x y \<le> 0 \<or> compareMembers y x \<le> 0"
    by (auto simp: compareMembers_def Let_def compareCodePoints_def)
  show "compareMembers x y \<le> 0 \<Longrightarrow> compareMembers y z \<le> 0 \<Longrightarrow> compareMembers x z \<le> 0"
    by (auto simp: compareMembers_def Let_def compareCodePoints_def split: if_splits)
qed

lemma members_sorted: "sorted (map filename (js_sort compareMembers ms))"
proof -
  have "compareMembers l r \<le> 0 \<Longrightarrow> filename l \<le> filename r" for l r
    by (auto simp: compareMembers_def Let_def compareCodePoints_def split: if_splits)
  with member_order.sorted_sort [of ms] show ?thesis
    by (auto simp: sorted_map elim: sorted_wrt_mono_rel [rotated])
qed

lemma sort_members_perm: "mset ms = mset ns \<Longrightarrow> distinct (map filename ms) \<Longrightarrow>
    js_sort compareMembers ms = js_sort compareMembers ns"
  by (intro sorted_key_unique [where f = filename]) (auto simp: members_sorted distinct_map)

lemma or_null_inj: "sort_members (or_null a) = sort_members (or_null b) \<longleftrightarrow> a = b"
  by (auto simp: or_null_def split: option.splits)

lemma member_json_inj: "sort_members (member_json a) = sort_members (member_json b) \<longleftrightarrow> a = b"
proof
  assume "sort_members (member_json a) = sort_members (member_json b)"
  note member = member_of_equal [OF this [unfolded member_json_def]]
  show "a = b"
    using member [of "''additions''"] member [of "''changes''"] member [of "''deletions''"]
      member [of "''filename''"] member [of "''language''"] member [of "''patch''"]
      member [of "''previousFilename''"] member [of "''status''"]
    by (intro StableReviewBatchMember.equality) (simp_all add: or_null_inj)
qed simp

lemma batch_id_json_inj:
  assumes "sort_members (batch_id_json k ms) = sort_members (batch_id_json k' ns)"
  shows "k = k' \<and> js_sort compareMembers ms = js_sort compareMembers ns"
proof -
  note member = member_of_equal [OF assms [unfolded batch_id_json_def]]
  have "inj (sort_members \<circ> member_json)" by (auto simp: inj_def member_json_inj)
  then have "map sort_members (map member_json ms) = map sort_members (map member_json ns) \<longleftrightarrow> ms = ns" for ms ns
    by (metis inj_map_eq_map map_map)
  with member [of "''members''"] member [of "''taskKind''"] show ?thesis
    by (cases k; cases k') (simp_all del: map_map)
qed


text \<open>
  A batch has an identity exactly when its files are distinct, the identity depends neither on
  the order of the members nor on anything but their content and the task, and the text that is
  hashed determines both.
\<close>

theorem batch_id_identifies_members:
  assumes "distinct (map filename ms)" "distinct (map filename ns)"
  shows "\<exists>i j. createStableReviewBatchId sha k ms = Inr i \<and> createStableReviewBatchId sha k' ns = Inr j \<and>
    i = sha_of sha ''rr.review-batch.v2'' (batch_id_json k ms) \<and>
    (mset ms = mset ns \<and> k = k' \<longrightarrow> i = j) \<and>
    (canonicalJson (batch_id_json k ms) = canonicalJson (batch_id_json k' ns) \<longleftrightarrow> mset ms = mset ns \<and> k = k')"
proof -
  have "createStableReviewBatchId sha k ms = Inr (sha_of sha ''rr.review-batch.v2'' (batch_id_json k ms))"
    if "distinct (map filename ms)" for k ms
    using that by (simp add: createStableReviewBatchId_def res_simps)
  moreover have "mset ms = mset ns \<longrightarrow> batch_id_json k ms = batch_id_json k ns"
    using sort_members_perm assms(1) by (simp add: batch_id_json_def)
  moreover have "canonicalJson (batch_id_json k ms) = canonicalJson (batch_id_json k' ns) \<longrightarrow>
      mset ms = mset ns \<and> k = k'"
    using batch_id_json_inj by (metis canonicalJson_inj mset_js_sort)
  ultimately show ?thesis using assms by auto
qed

definition demo_member :: "string \<Rightarrow> StableReviewBatchMember" where
  "demo_member f = \<lparr>filename = f, status = ''modified'', additions = 2, deletions = 1, changes = 3,
     patch = Some ''+x'', previousFilename = None, language = None\<rparr>"

theorem batch_id_identifies_members_witness:
  "createStableReviewBatchId rev FindingDiscovery [demo_member ''b.ts'', demo_member ''a.ts''] =
   createStableReviewBatchId rev FindingDiscovery [demo_member ''a.ts'', demo_member ''b.ts'']"
  using batch_id_identifies_members [of "[demo_member ''b.ts'', demo_member ''a.ts'']"
      "[demo_member ''a.ts'', demo_member ''b.ts'']" rev FindingDiscovery FindingDiscovery]
  by (auto simp: demo_member_def)

section \<open>The plan\<close>

interpretation batch_order: js_comparator compareBatches
proof
  fix x y z :: OrderedBatch
  show "compareBatches x y \<le> 0 \<or> compareBatches y x \<le> 0"
    by (auto simp: compareBatches_def compareCodePoints_def)
  show "compareBatches x y \<le> 0 \<Longrightarrow> compareBatches y z \<le> 0 \<Longrightarrow> compareBatches x z \<le> 0"
    by (auto simp: compareBatches_def compareCodePoints_def split: if_splits)
qed

interpretation assignment_order: js_comparator compareAssignments
proof
  fix x y z :: StableReviewWorkAssignment
  show "compareAssignments x y \<le> 0 \<or> compareAssignments y x \<le> 0"
    by (auto simp: compareAssignments_def Let_def compareCodePoints_def)
  show "compareAssignments x y \<le> 0 \<Longrightarrow> compareAssignments y z \<le> 0 \<Longrightarrow> compareAssignments x z \<le> 0"
    by (auto simp: compareAssignments_def Let_def compareCodePoints_def split: if_splits)
qed

lemma batches_sorted: "sorted (map snd (js_sort compareBatches obs))"
proof -
  have "compareBatches l r \<le> 0 \<Longrightarrow> snd l \<le> snd r" for l r
    by (auto simp: compareBatches_def split: if_splits)
  with batch_order.sorted_sort [of obs] show ?thesis
    by (auto simp: sorted_map elim: sorted_wrt_mono_rel [rotated])
qed

lemma assignments_sorted: "sorted (map schedulingOrdinal (js_sort compareAssignments as))"
proof -
  have "compareAssignments l r \<le> 0 \<Longrightarrow> schedulingOrdinal l \<le> schedulingOrdinal r" for l r
    by (auto simp: compareAssignments_def Let_def split: if_splits)
  with assignment_order.sorted_sort [of as] show ?thesis
    by (auto simp: sorted_map elim: sorted_wrt_mono_rel [rotated])
qed

definition lane_ok :: "WorkPlanInput \<Rightarrow> StableReviewProviderLane \<Rightarrow> bool" where
  "lane_ok input p \<longleftrightarrow> matches_identity ''._:/-'' (lane_providerName p) \<and>
     matches_identity ''._:/-'' (lane_retryPolicyVersion p) \<and> is_digest 64 (lane_voteIdentityHash p) \<and>
     is_safe_integer (lane_attemptBudget p) \<and> 1 \<le> lane_attemptBudget p \<and>
     lane_attemptBudget p \<le> maxAttemptsPerSlot input"

definition special :: "StableReviewBatch \<Rightarrow> bool" where
  "special b \<longleftrightarrow> batch_taskKind b = PrDescription \<or> batch_taskKind b = LifecycleRevalidation"

definition batch_ok :: "OrderedBatch \<Rightarrow> bool" where
  "batch_ok ob \<longleftrightarrow> matches_identity ''._:/-'' (batchId (fst ob)) \<and> is_safe_integer (snd ob) \<and> 0 \<le> snd ob \<and>
     (special (fst ob) \<longrightarrow> \<not> batch_required (fst ob) \<and> batch_paths (fst ob) = [])"

lemma assign_slot_Inr: "assign_slot sha input ob p = Inr a \<longleftrightarrow> lane_ok input p \<and> a = plan_slot sha input ob p"
  by (auto simp: assign_slot_def lane_ok_def requireIdentity_def requireDigest_def res_simps)

lemma assign_batch_Inr: "assign_batch sha input lanes ob = Inr as \<longleftrightarrow>
    (batch_ok ob \<and> (\<forall>p \<in> set (lanes_of input (fst ob) lanes). lane_ok input p)) \<and>
    as = map (plan_slot sha input ob) (lanes_of input (fst ob) lanes)"
proof -
  have "res_map (assign_slot sha input ob) ps = Inr as \<longleftrightarrow>
      (\<forall>p \<in> set ps. lane_ok input p) \<and> as = map (plan_slot sha input ob) ps" for ps
    by (rule res_map_iff) (rule assign_slot_Inr)
  then show ?thesis
    by (auto simp: assign_batch_def Let_def batch_ok_def special_def requireIdentity_def requireNonNegative_def
        res_simps)
qed

definition sorted_lanes :: "WorkPlanInput \<Rightarrow> StableReviewProviderLane list" where
  "sorted_lanes input = js_sort (\<lambda>l r. compareCodePoints (lane_providerName l) (lane_providerName r)) (providers input)"

definition ordered_batches :: "WorkPlanInput \<Rightarrow> OrderedBatch list" where
  "ordered_batches input = js_sort compareBatches (with_ordinals (batches input))"

definition planned_slots :: "(string \<Rightarrow> string) \<Rightarrow> WorkPlanInput \<Rightarrow> StableReviewWorkAssignment list" where
  "planned_slots sha input = concat (map (\<lambda>ob. map (plan_slot sha input ob) (lanes_of input (fst ob) (sorted_lanes input)))
     (ordered_batches input))"

text \<open>What the plan checks before the manifest.\<close>

definition plan_input_ok :: "(string \<Rightarrow> string) \<Rightarrow> WorkPlanInput \<Rightarrow> bool" where
  "plan_input_ok sha input \<longleftrightarrow>
     is_digest 64 (reviewRevisionHash input) \<and> is_digest 64 (compatibilityKey input) \<and>
     is_safe_integer (maxWorkSlots input) \<and> 1 \<le> maxWorkSlots input \<and>
     is_safe_integer (maxAttemptsPerSlot input) \<and> 1 \<le> maxAttemptsPerSlot input \<and>
     providers input \<noteq> [] \<and> batches input \<noteq> [] \<and>
     distinct (map lane_providerName (providers input)) \<and> distinct (map lane_voteIdentityHash (providers input)) \<and>
     distinct (map batchId (batches input)) \<and> distinct (map snd (with_ordinals (batches input))) \<and>
     length (filter (\<lambda>b. batch_taskKind b = PrDescription) (batches input)) \<le> 1 \<and>
     (\<forall>ob \<in> set (with_ordinals (batches input)). batch_ok ob \<and>
       (\<forall>p \<in> set (lanes_of input (fst ob) (sorted_lanes input)). lane_ok input p)) \<and>
     int (length (planned_slots sha input)) \<le> maxWorkSlots input"

lemma fst_with_ordinals: "map fst (with_ordinals bs) = bs"
  by (simp add: with_ordinals_def comp_def split_beta)

lemma plan_Inr: "createStableReviewWorkPlan sha input = Inr plan \<longleftrightarrow>
    plan_input_ok sha input \<and>
    finish_plan sha input (ordered_batches input) (planned_slots sha input) = Inr plan"
proof -
  have groups: "res_map (assign_batch sha input lanes) obs = Inr gs \<longleftrightarrow>
      (\<forall>ob \<in> set obs. batch_ok ob \<and> (\<forall>p \<in> set (lanes_of input (fst ob) lanes). lane_ok input p)) \<and>
      gs = map (\<lambda>ob. map (plan_slot sha input ob) (lanes_of input (fst ob) lanes)) obs" for lanes obs gs
    by (rule res_map_iff) (rule assign_batch_Inr)
  have "inj show_int" by (metis append_Nil2 injI no_digit_def show_int_prefix)
  then have shown: "distinct (map (show_int \<circ> snd) obs) \<longleftrightarrow> distinct (map snd obs)" for obs :: "OrderedBatch list"
    by (metis distinct_map inj_on_subset map_map subset_UNIV)
  have ids: "distinct (map (batchId \<circ> fst) (with_ordinals bs)) \<longleftrightarrow> distinct (map batchId bs)" for bs
    by (metis fst_with_ordinals map_map)
  have descr: "length (filter (\<lambda>ob. batch_taskKind (fst ob) = PrDescription) (js_sort compareBatches (with_ordinals bs))) =
      length (filter (\<lambda>b. batch_taskKind b = PrDescription) bs)" for bs
  proof -
    have "length (filter P (map fst obs)) = length (filter (P \<circ> fst) obs)" for P and obs :: "OrderedBatch list"
      by (induction obs) auto
    moreover have "length (filter P (js_sort compareBatches obs)) = length (filter P obs)" for P obs
      by (metis mset_filter mset_js_sort size_mset)
    ultimately show ?thesis by (metis (no_types, lifting) comp_apply filter_cong fst_with_ordinals)
  qed
  show ?thesis
    unfolding createStableReviewWorkPlan_def Let_def sorted_lanes_def [symmetric] ordered_batches_def [symmetric]
    by (auto simp: res_simps groups requireDigest_def requirePositive_def plan_input_ok_def
      planned_slots_def not_less, auto simp: ordered_batches_def sorted_lanes_def shown ids descr)
qed


lemma set_ordered [simp]: "set (ordered_batches input) = set (with_ordinals (batches input))"
  by (simp add: ordered_batches_def)

lemma set_sorted_lanes [simp]: "set (sorted_lanes input) = set (providers input)"
  by (simp add: sorted_lanes_def)

lemma plan_slot_sel [simp]:
  "assigned_batchId (plan_slot sha input ob p) = batchId (fst ob)"
  "assigned_providerName (plan_slot sha input ob p) = lane_providerName p"
  "schedulingOrdinal (plan_slot sha input ob p) = snd ob"
  by (simp_all add: plan_slot_def Let_def)

lemma set_planned_slots: "set (planned_slots sha input) =
    (\<Union>ob \<in> set (with_ordinals (batches input)).
      plan_slot sha input ob ` set (lanes_of input (fst ob) (sorted_lanes input)))"
  by (simp add: planned_slots_def)

definition batch_path_map :: "WorkPlanInput \<Rightarrow> (string \<times> string list) list" where
  "batch_path_map input = map (\<lambda>ob. (batchId (fst ob), canon (batch_paths (fst ob)))) (ordered_batches input)"

definition plan_manifest_input :: "(string \<Rightarrow> string) \<Rightarrow> WorkPlanInput \<Rightarrow> ManifestInput" where
  "plan_manifest_input sha input =
     (let assignments = js_sort compareAssignments (planned_slots sha input)
      in \<lparr>mi_lifecyclePlan = (case lifecyclePlan input of None \<Rightarrow> None | Some f \<Rightarrow> f assignments),
          mi_assignments = map (\<lambda>a.
            \<lparr>sp_workSlotId = workSlotId (workSlot a),
             sp_paths = (case map_of (rev (batch_path_map input)) (assigned_batchId a) of None \<Rightarrow> [] | Some ps \<Rightarrow> ps)\<rparr>)
            (js_sort by_slot_id assignments),
          mi_eligible = eligiblePaths input, mi_uncovered = uncoveredPaths input,
          mi_excluded = excludedPaths input\<rparr>)"

lemma finish_plan_Inr:
  assumes "finish_plan sha input (ordered_batches input) (planned_slots sha input) = Inr plan"
  shows "createStableReviewAssignmentManifest sha (plan_manifest_input sha input) = Inr (planManifest plan) \<and>
    plan_assignments plan = js_sort compareAssignments (planned_slots sha input)"
proof -
  have paths: "res_map (\<lambda>ob. rbind (canonicalPaths (batch_paths (fst ob))) (\<lambda>ps. Inr (batchId (fst ob), ps))) obs = Inr ys \<longleftrightarrow>
      (\<forall>ob \<in> set obs. \<forall>p \<in> set (batch_paths (fst ob)). \<not> path_invalid p) \<and>
      ys = map (\<lambda>ob. (batchId (fst ob), canon (batch_paths (fst ob)))) obs" for obs ys
    by (rule res_map_iff) (auto simp: res_simps canonicalPaths_Inr)
  show ?thesis
    using assms by (auto simp: finish_plan_def Let_def res_simps paths plan_manifest_input_def batch_path_map_def)
qed

lemma plan_lookup:
  assumes "plan_input_ok sha input" "ob \<in> set (with_ordinals (batches input))"
  shows "map_of (rev (batch_path_map input)) (batchId (fst ob)) = Some (canon (batch_paths (fst ob)))"
proof -
  have "map batchId (batches input) = map (batchId \<circ> fst) (with_ordinals (batches input))"
    by (metis fst_with_ordinals map_map)
  then have "mset (map (batchId \<circ> fst) (ordered_batches input)) = mset (map batchId (batches input))"
    by (simp add: ordered_batches_def)
  then have "distinct (map (batchId \<circ> fst) (ordered_batches input))"
    using assms(1) by (metis mset_eq_imp_distinct_iff plan_input_ok_def)
  then have "distinct (map fst (rev (batch_path_map input)))"
    by (simp add: batch_path_map_def comp_def rev_map [symmetric])
  then show ?thesis
    using assms(2) by (intro map_of_is_SomeI) (auto simp: batch_path_map_def)
qed

lemma lanes_nonempty: "plan_input_ok sha input \<Longrightarrow>
    \<exists>p. p \<in> set (lanes_of input b (sorted_lanes input)) \<and> p \<in> set (providers input)"
  by (cases "providers input") (auto simp: lanes_of_def plan_input_ok_def)

lemma plan_assigned_paths:
  assumes "plan_input_ok sha input"
  shows "assigned_paths (plan_manifest_input sha input) = (\<Union>b \<in> set (batches input). set (batch_paths b))"
proof -
  have b: "set (batches input) = fst ` set (with_ordinals (batches input))"
    by (metis fst_with_ordinals list.set_map)
  let ?A = "set (with_ordinals (batches input))" and ?L = "\<lambda>ob. set (lanes_of input (fst ob) (sorted_lanes input))"
  let ?paths = "\<lambda>a. set (case map_of (rev (batch_path_map input)) (assigned_batchId a) of None \<Rightarrow> [] | Some ps \<Rightarrow> ps)"
  have slot: "?paths (plan_slot sha input ob p) = set (batch_paths (fst ob))" if "ob \<in> ?A" for ob p
    using plan_lookup [OF assms that] by simp
  have "assigned_paths (plan_manifest_input sha input) = (\<Union>a \<in> set (planned_slots sha input). ?paths a)"
    by (simp add: assigned_paths_def plan_manifest_input_def Let_def)
  also have "\<dots> = (\<Union>ob \<in> ?A. \<Union>p \<in> ?L ob. ?paths (plan_slot sha input ob p))"
    by (simp add: set_planned_slots)
  also have "\<dots> = (\<Union>ob \<in> ?A. \<Union>p \<in> ?L ob. set (batch_paths (fst ob)))"
    using slot by (intro SUP_cong) auto
  also have "\<dots> = (\<Union>ob \<in> ?A. set (batch_paths (fst ob)))"
    using lanes_nonempty [OF assms] by blast
  finally show ?thesis using b by simp
qed

section \<open>Properties of the plan\<close>

text \<open>
  C28: a plan is only returned when the batches cover the review: every eligible path is in the
  scope of a batch or declared uncovered, never both, no excluded path is eligible, and the manifest
  in the plan is the one of these paths.
\<close>

theorem work_plan_covers_every_path:
  assumes "createStableReviewWorkPlan sha input = Inr plan"
  shows "(\<Union>b \<in> set (batches input). set (batch_paths b)) \<union> set (uncoveredPaths input) = set (eligiblePaths input) \<and>
    (\<Union>b \<in> set (batches input). set (batch_paths b)) \<inter> set (uncoveredPaths input) = {} \<and>
    set (excludedPaths input) \<inter> set (eligiblePaths input) = {} \<and>
    planManifest plan = manifest_of sha (plan_manifest_input sha input)"
proof -
  have ok: "plan_input_ok sha input" and fin: "finish_plan sha input (ordered_batches input) (planned_slots sha input) = Inr plan"
    using assms by (auto simp: plan_Inr)
  from finish_plan_Inr [OF fin]
  have "manifest_ok (plan_manifest_input sha input)" "planManifest plan = manifest_of sha (plan_manifest_input sha input)"
    by (auto simp: manifest_Inr)
  with plan_assigned_paths [OF ok] show ?thesis
    by (simp add: manifest_ok_def plan_manifest_input_def Let_def)
qed

text \<open>
  The plan has exactly one slot for each batch and each of its provider lanes, with distinct
  ids, in scheduling order and within the slot limit; a description or lifecycle batch runs once, on
  the first configured provider, with one attempt and never as a required slot; every other slot
  gets its provider's attempt budget, within the limit.
\<close>

theorem work_plan_slots:
  assumes "createStableReviewWorkPlan sha input = Inr plan"
  shows "(\<lambda>a. (assigned_batchId a, assigned_providerName a)) ` set (plan_assignments plan) =
      (\<Union>b \<in> set (batches input). (\<lambda>p. (batchId b, lane_providerName p)) `
        (if special b then {hd (providers input)} else set (providers input))) \<and>
    distinct (map (workSlotId \<circ> workSlot) (plan_assignments plan)) \<and>
    sorted (map schedulingOrdinal (plan_assignments plan)) \<and>
    int (length (plan_assignments plan)) \<le> maxWorkSlots input \<and>
    (\<forall>a \<in> set (plan_assignments plan). 1 \<le> slot_attemptBudget (workSlot a) \<and>
      slot_attemptBudget (workSlot a) \<le> maxAttemptsPerSlot input \<and>
      (slot_taskKind (workSlot a) \<noteq> FindingDiscovery \<longrightarrow>
        slot_attemptBudget (workSlot a) = 1 \<and> \<not> slot_required (workSlot a)))"
proof -
  have ok: "plan_input_ok sha input" and fin: "finish_plan sha input (ordered_batches input) (planned_slots sha input) = Inr plan"
    using assms by (auto simp: plan_Inr)
  note plan = finish_plan_Inr [OF fin]
  have b: "set (batches input) = fst ` set (with_ordinals (batches input))"
    by (metis fst_with_ordinals list.set_map)
  have lanes: "set (lanes_of input b (sorted_lanes input)) =
      (if special b then {hd (providers input)} else set (providers input))" for b
    by (simp add: lanes_of_def special_def)
  have "distinct (map sp_workSlotId (mi_assignments (plan_manifest_input sha input)))"
    using plan by (simp add: manifest_Inr manifest_ok_def)
  then have ids: "distinct (map (workSlotId \<circ> workSlot) (plan_assignments plan))"
    using plan by (simp add: plan_manifest_input_def Let_def comp_def)
  have pairs: "(\<lambda>a. (assigned_batchId a, assigned_providerName a)) ` set (plan_assignments plan) =
      (\<Union>b \<in> set (batches input). (\<lambda>p. (batchId b, lane_providerName p)) `
        (if special b then {hd (providers input)} else set (providers input)))"
  proof -
    have "(\<lambda>a. (assigned_batchId a, assigned_providerName a)) ` set (plan_assignments plan) =
        (\<Union>ob \<in> set (with_ordinals (batches input)). (\<lambda>p. (batchId (fst ob), lane_providerName p)) `
          (if special (fst ob) then {hd (providers input)} else set (providers input)))"
      using plan by (simp add: set_planned_slots image_UN image_image lanes)
    also have "\<dots> = (\<Union>b \<in> set (batches input). (\<lambda>p. (batchId b, lane_providerName p)) `
          (if special b then {hd (providers input)} else set (providers input)))"
      by (simp add: b)
    finally show ?thesis .
  qed
  have slots: "1 \<le> slot_attemptBudget (workSlot a) \<and> slot_attemptBudget (workSlot a) \<le> maxAttemptsPerSlot input \<and>
      (slot_taskKind (workSlot a) \<noteq> FindingDiscovery \<longrightarrow>
        slot_attemptBudget (workSlot a) = 1 \<and> \<not> slot_required (workSlot a))"
    if a: "a \<in> set (plan_assignments plan)" for a
  proof -
    from a plan obtain ob p where ob: "a = plan_slot sha input ob p" "ob \<in> set (with_ordinals (batches input))"
      "p \<in> set (lanes_of input (fst ob) (sorted_lanes input))" by (auto simp: set_planned_slots)
    with ok have "batch_ok ob" "lane_ok input p" "1 \<le> maxAttemptsPerSlot input" by (auto simp: plan_input_ok_def)
    with ob(1) show ?thesis
      by (cases "batch_taskKind (fst ob)") (auto simp: plan_slot_def Let_def batch_ok_def lane_ok_def special_def)
  qed
  show ?thesis using ids pairs slots plan ok by (simp add: assignments_sorted plan_input_ok_def)
qed


lemma with_explicit_ordinals:
  assumes "\<forall>b \<in> set bs. batch_ordinal b \<noteq> None"
  shows "with_ordinals bs = map (\<lambda>b. (b, the (batch_ordinal b))) bs"
proof -
  have "map (\<lambda>(i, b). (b, case batch_ordinal b of Some k \<Rightarrow> k | None \<Rightarrow> int i)) (List.enumerate n bs) =
      map (\<lambda>b. (b, the (batch_ordinal b))) bs" for n
    using assms by (induction bs arbitrary: n) auto
  then show ?thesis by (simp add: with_ordinals_def)
qed

lemma ordered_batches_perm:
  assumes "mset bs = mset (batches input)" "\<forall>b \<in> set (batches input). batch_ordinal b \<noteq> None"
    and "distinct (map snd (with_ordinals (batches input)))"
  shows "js_sort compareBatches (with_ordinals bs) = ordered_batches input"
proof -
  have explicit: "\<forall>b \<in> set bs. batch_ordinal b \<noteq> None"
    using assms(1,2) by (metis set_mset_mset)
  have "mset (with_ordinals bs) = mset (with_ordinals (batches input))"
    using assms(1) explicit assms(2) by (simp add: with_explicit_ordinals)
  then show ?thesis
    using assms(3) batches_sorted unfolding ordered_batches_def
    by (intro sorted_key_unique [where f = snd]) (auto simp: distinct_map dest: mset_eq_setD)
qed

text \<open>
  The plan, its manifest and its hash do not depend on the order in which the providers and the
  batches are given, as long as the batches carry their scheduling ordinals and, where a description
  or lifecycle batch is planned, the first configured provider stays first.
\<close>

theorem work_plan_ignores_input_order:
  assumes "createStableReviewWorkPlan sha input = Inr plan"
    and "\<forall>b \<in> set (batches input). batch_ordinal b \<noteq> None"
    and "mset bs = mset (batches input)" "mset ps = mset (providers input)"
    and "\<exists>b \<in> set (batches input). special b \<Longrightarrow> hd ps = hd (providers input)"
  shows "createStableReviewWorkPlan sha (input\<lparr>providers := ps, batches := bs\<rparr>) = Inr plan"
proof -
  let ?i = "input\<lparr>providers := ps, batches := bs\<rparr>"
  have ok: "plan_input_ok sha input" and fin: "finish_plan sha input (ordered_batches input) (planned_slots sha input) = Inr plan"
    using assms(1) by (auto simp: plan_Inr)
  have lanes: "sorted_lanes ?i = sorted_lanes input"
    using sort_by_code_points_perm [OF assms(4) [symmetric]] ok by (simp add: sorted_lanes_def plan_input_ok_def)
  have ordered: "ordered_batches ?i = ordered_batches input"
    using ordered_batches_perm [OF assms(3,2)] ok by (simp add: ordered_batches_def plan_input_ok_def)
  have sets: "set bs = set (batches input)" "set ps = set (providers input)"
    using assms(3,4) by (metis set_mset_mset)+
  have sel: "lanes_of ?i b ls = lanes_of input b ls" if "b \<in> set (batches input)" for b ls
    using assms(5) that by (auto simp: lanes_of_def special_def)
  have same: "plan_slot sha ?i = plan_slot sha input" "lane_ok ?i = lane_ok input"
    by (auto simp: fun_eq_iff plan_slot_def work_slot_id_json_def lane_ok_def)
  have b: "fst ob \<in> set (batches input)" if "ob \<in> set (with_ordinals (batches input))" for ob
    using that by (metis fst_with_ordinals image_eqI list.set_map)
  have planned: "planned_slots sha ?i = planned_slots sha input"
    unfolding planned_slots_def lanes ordered same using sel b by (intro arg_cong [of _ _ concat] map_cong) auto
  have perm: "mset (with_ordinals bs) = mset (with_ordinals (batches input))"
    using ordered by (metis mset_js_sort ordered_batches_def WorkPlanInput.select_convs(4) WorkPlanInput.surjective WorkPlanInput.update_convs(4))
  have "plan_input_ok sha ?i \<longleftrightarrow> plan_input_ok sha input"
  proof -
    have "ps = [] \<longleftrightarrow> providers input = []" "bs = [] \<longleftrightarrow> batches input = []"
      using assms(3,4) by (metis mset_zero_iff)+
    moreover have "(\<forall>ob \<in> set (with_ordinals bs). batch_ok ob \<and>
          (\<forall>p \<in> set (lanes_of ?i (fst ob) (sorted_lanes ?i)). lane_ok ?i p)) \<longleftrightarrow>
        (\<forall>ob \<in> set (with_ordinals (batches input)). batch_ok ob \<and>
          (\<forall>p \<in> set (lanes_of input (fst ob) (sorted_lanes input)). lane_ok input p))"
      using sel b by (simp add: mset_eq_setD [OF perm] same lanes)
    ultimately show ?thesis
      unfolding plan_input_ok_def planned
      by (simp add: distinct_map_perm [OF assms(4)] distinct_map_perm [OF assms(3)]
        distinct_map_perm [OF perm] length_filter_perm [OF assms(3)])
  qed
  with ok have "plan_input_ok sha ?i" by simp
  moreover have "finish_plan sha ?i = finish_plan sha input"
    by (simp add: fun_eq_iff finish_plan_def plan_json_def)
  ultimately show ?thesis using fin by (simp add: plan_Inr ordered planned)
qed


section \<open>A plan of two batches\<close>

lemma finish_plan_exists:
  assumes "\<forall>b \<in> set (batches input). \<forall>p \<in> set (batch_paths b). \<not> path_invalid p"
    and "manifest_ok (plan_manifest_input sha input)" "manifest_bounds (plan_manifest_input sha input)"
  shows "\<exists>plan. finish_plan sha input (ordered_batches input) (planned_slots sha input) = Inr plan"
proof -
  have b: "fst ob \<in> set (batches input)" if "ob \<in> set (with_ordinals (batches input))" for ob
    using that by (metis fst_with_ordinals image_eqI list.set_map)
  have paths: "res_map (\<lambda>ob. rbind (canonicalPaths (batch_paths (fst ob))) (\<lambda>ps. Inr (batchId (fst ob), ps)))
      (ordered_batches input) = Inr (batch_path_map input)"
    unfolding batch_path_map_def using assms(1) b by (intro res_map_pure) (auto simp: res_simps canonicalPaths_Inr)
  have "createStableReviewAssignmentManifest sha (plan_manifest_input sha input) =
      Inr (manifest_of sha (plan_manifest_input sha input))"
    using assms by (simp add: manifest_Inr)
  then show ?thesis
    by (simp add: finish_plan_def Let_def paths plan_manifest_input_def)
qed

definition demo_digest :: string where
  "demo_digest = replicate 64 CHR ''0''"

definition demo_lane :: StableReviewProviderLane where
  "demo_lane = \<lparr>lane_providerName = ''p'', lane_providerKind = Codex, lane_voteIdentityHash = demo_digest,
     lane_required = True, lane_attemptBudget = 2, lane_retryPolicyVersion = ''v1''\<rparr>"

definition demo_batch :: "string \<Rightarrow> ReviewTaskKind \<Rightarrow> int \<Rightarrow> string list \<Rightarrow> StableReviewBatch" where
  "demo_batch i kind ordinal paths = \<lparr>batchId = i, batch_taskKind = kind, batch_required = (kind = FindingDiscovery),
     batch_paths = paths, batch_ordinal = Some ordinal\<rparr>"

definition demo_plan_input :: WorkPlanInput where
  "demo_plan_input = \<lparr>reviewRevisionHash = demo_digest, compatibilityKey = demo_digest,
     providers = [demo_lane],
     batches = [demo_batch ''x'' PrDescription 1 [], demo_batch ''y'' FindingDiscovery 0 [''a.ts'']],
     eligiblePaths = [''a.ts''], uncoveredPaths = [], excludedPaths = [''d.ts''],
     lifecyclePlan = None, maxWorkSlots = 4, maxAttemptsPerSlot = 3\<rparr>"

text \<open>A hash of the example: the character of the batch id in the slot's text.\<close>

definition demo_sha :: "string \<Rightarrow> string" where
  "demo_sha s = [s ! 35]"

lemma demo_slot_ids:
  "workSlotId (workSlot (plan_slot demo_sha demo_plan_input (demo_batch ''x'' kind k ps, k) demo_lane)) = ''x''"
  "workSlotId (workSlot (plan_slot demo_sha demo_plan_input (demo_batch ''y'' kind k ps, k) demo_lane)) = ''y''"
  by (simp_all add: plan_slot_def Let_def sha_of_def work_slot_id_json_def compareCodePoints_def demo_sha_def
      demo_batch_def quote_def escape_char_def)

abbreviation demo_x :: StableReviewBatch where
  "demo_x \<equiv> demo_batch ''x'' PrDescription 1 []"

abbreviation demo_y :: StableReviewBatch where
  "demo_y \<equiv> demo_batch ''y'' FindingDiscovery 0 [''a.ts'']"

lemma demo_batch_sel [simp]:
  "batchId (demo_batch i kind k ps) = i" "batch_taskKind (demo_batch i kind k ps) = kind"
  "batch_required (demo_batch i kind k ps) = (kind = FindingDiscovery)"
  "batch_paths (demo_batch i kind k ps) = ps" "batch_ordinal (demo_batch i kind k ps) = Some k"
  by (simp_all add: demo_batch_def)

lemma demo_ordinals: "with_ordinals (batches demo_plan_input) = [(demo_x, 1), (demo_y, 0)]"
  by (simp add: with_ordinals_def demo_plan_input_def)

lemma demo_ordered: "ordered_batches demo_plan_input = [(demo_y, 0), (demo_x, 1)]"
  by (simp add: ordered_batches_def demo_ordinals compareBatches_def)

lemma demo_lanes: "sorted_lanes demo_plan_input = [demo_lane]" "lanes_of demo_plan_input b [demo_lane] = [demo_lane]"
  by (simp_all add: sorted_lanes_def lanes_of_def demo_plan_input_def)

lemma demo_planned: "planned_slots demo_sha demo_plan_input =
    [plan_slot demo_sha demo_plan_input (demo_y, 0) demo_lane, plan_slot demo_sha demo_plan_input (demo_x, 1) demo_lane]"
  by (simp add: planned_slots_def demo_ordered demo_lanes)

lemma demo_plan_manifest: "plan_manifest_input demo_sha demo_plan_input =
    \<lparr>mi_lifecyclePlan = None,
     mi_assignments = [\<lparr>sp_workSlotId = ''x'', sp_paths = []\<rparr>, \<lparr>sp_workSlotId = ''y'', sp_paths = [''a.ts'']\<rparr>],
     mi_eligible = [''a.ts''], mi_uncovered = [], mi_excluded = [''d.ts'']\<rparr>"
proof -
  have "batch_path_map demo_plan_input = [(''y'', [''a.ts'']), (''x'', [])]"
    by (simp add: batch_path_map_def demo_ordered canon_def)
  then show ?thesis
    by (simp add: plan_manifest_input_def Let_def demo_planned compareAssignments_def by_slot_id_def
        demo_slot_ids compareCodePoints_def, simp add: demo_plan_input_def)
qed

lemma demo_plan_ok: "plan_input_ok demo_sha demo_plan_input"
proof -
  have "is_digest 64 demo_digest"
    by (simp add: is_digest_def demo_digest_def list_all_iff is_hex_def is_digit_def)
  then show ?thesis
    by (simp add: plan_input_ok_def demo_planned demo_ordinals demo_lanes)
      (simp add: demo_plan_input_def demo_lane_def batch_ok_def lane_ok_def special_def is_safe_integer_def
        max_safe_integer_def js_string_simps)
qed

lemma demo_plan_exists: "\<exists>plan. createStableReviewWorkPlan demo_sha demo_plan_input = Inr plan"
proof -
  have "manifest_ok (plan_manifest_input demo_sha demo_plan_input)"
    by (auto simp: demo_plan_manifest manifest_ok_def assigned_paths_def path_invalid_def js_string_simps)
  moreover have "manifest_bounds (plan_manifest_input demo_sha demo_plan_input)"
    by (simp add: demo_plan_manifest manifest_bounds_def canon_slots_def canon_slot_def canon_def json_eval)
  moreover have "\<forall>b \<in> set (batches demo_plan_input). \<forall>p \<in> set (batch_paths b). \<not> path_invalid p"
    by (simp add: demo_plan_input_def path_invalid_def)
  ultimately show ?thesis
    using finish_plan_exists demo_plan_ok by (simp add: plan_Inr)
qed

theorem work_plan_covers_every_path_witness:
  "\<exists>plan. createStableReviewWorkPlan demo_sha demo_plan_input = Inr plan \<and>
     planManifest plan = manifest_of demo_sha (plan_manifest_input demo_sha demo_plan_input)"
  using demo_plan_exists work_plan_covers_every_path by blast

theorem work_plan_slots_witness:
  "\<exists>plan. createStableReviewWorkPlan demo_sha demo_plan_input = Inr plan \<and>
     distinct (map (workSlotId \<circ> workSlot) (plan_assignments plan)) \<and>
     sorted (map schedulingOrdinal (plan_assignments plan))"
  using demo_plan_exists work_plan_slots by blast

theorem work_plan_ignores_input_order_witness:
  "\<exists>plan. createStableReviewWorkPlan demo_sha demo_plan_input = Inr plan \<and>
     createStableReviewWorkPlan demo_sha (demo_plan_input\<lparr>providers := [demo_lane], batches := [demo_y, demo_x]\<rparr>) = Inr plan"
proof -
  obtain plan where plan: "createStableReviewWorkPlan demo_sha demo_plan_input = Inr plan"
    using demo_plan_exists by blast
  have "createStableReviewWorkPlan demo_sha (demo_plan_input\<lparr>providers := [demo_lane], batches := [demo_y, demo_x]\<rparr>) = Inr plan"
    by (rule work_plan_ignores_input_order [OF plan]) (auto simp: demo_plan_input_def)
  with plan show ?thesis by blast
qed

end
