(* ===== verification/Prompt_Coverage.thy ===== *)
theory Prompt_Coverage
  imports Canonical_Json
begin

text \<open>
  \<open>src/review-orchestration/domain/review-prompt-coverage.ts\<close>: the record of how much of each
  assigned path a provider's prompt really contained, hashed so that it cannot be altered later.
  The enumeration of coverage kinds comes from \<open>src/analysis/llm/prepared-review-prompt.ts\<close>; the
  check that a kind is one of its values always succeeds on the datatype and is omitted.  The
  SHA-256 of Node's \<open>crypto\<close> is the parameter \<open>sha\<close>.
\<close>

section \<open>Data\<close>

datatype PromptPathCoverageKind =
  FullPatch | TrustedRead | SummaryOnly | MetadataOnly | PolicyExcluded | Trimmed | Unavailable

fun coverage_kind_value :: "PromptPathCoverageKind \<Rightarrow> string" where
  "coverage_kind_value FullPatch = ''full_patch''"
| "coverage_kind_value TrustedRead = ''trusted_read''"
| "coverage_kind_value SummaryOnly = ''summary_only''"
| "coverage_kind_value MetadataOnly = ''metadata_only''"
| "coverage_kind_value PolicyExcluded = ''policy_excluded''"
| "coverage_kind_value Trimmed = ''trimmed''"
| "coverage_kind_value Unavailable = ''unavailable''"

record PromptPathCoverage =
  fact_path :: string
  fact_kind :: PromptPathCoverageKind
  fact_contentHash :: "string option"

record ReviewPromptCoverageManifest =
  coverage_version :: string
  coverage_workSlotId :: string
  coverage_revisionHash :: string
  coverage_paths :: "PromptPathCoverage list"
  coverageHash :: string

record ProviderVisibleReviewCoverage =
  visible_version :: string
  visible_paths :: "PromptPathCoverage list"
  visible_coverageHash :: string

record CoverageInput =
  in_workSlotId :: string
  in_revisionHash :: string
  in_assignedPaths :: "string list"
  in_pathCoverage :: "PromptPathCoverage list"

section \<open>Operations\<close>

definition fact_json :: "PromptPathCoverage \<Rightarrow> json" where
  "fact_json f = JObj
     [(''path'', JStr (fact_path f)), (''kind'', JStr (coverage_kind_value (fact_kind f))),
      (''contentHash'', case fact_contentHash f of None \<Rightarrow> JNull | Some h \<Rightarrow> JStr h)]"

text \<open>The loop that fills \<open>byPath\<close>.\<close>

fun index_facts :: "(string \<times> PromptPathCoverage) list \<Rightarrow> PromptPathCoverage list \<Rightarrow>
    (string \<times> PromptPathCoverage) list res" where
  "index_facts byPath [] = Inr byPath"
| "index_facts byPath (f # fs) =
     throw_if (fact_path f = [] \<or> map_of byPath (fact_path f) \<noteq> None) ''review_prompt_coverage_path_fact_invalid''
     (throw_if (fact_kind f = TrustedRead \<or>
         (case fact_contentHash f of None \<Rightarrow> False | Some h \<Rightarrow> \<not> is_digest 64 h)) ''review_prompt_coverage_untrusted_fact''
     (index_facts (AList.update (fact_path f) f byPath) fs))"

definition coverage_facts_json :: "PromptPathCoverage list \<Rightarrow> string \<Rightarrow> string \<Rightarrow> json" where
  "coverage_facts_json paths revision slot = JObj
     [(''paths'', JArr (map fact_json paths)), (''reviewRevisionHash'', JStr revision),
      (''version'', JStr ''review_prompt_coverage.v2''), (''workSlotId'', JStr slot)]"

definition createReviewPromptCoverageManifest ::
    "(string \<Rightarrow> string) \<Rightarrow> CoverageInput \<Rightarrow> ReviewPromptCoverageManifest res" where
  "createReviewPromptCoverageManifest sha input =
     throw_if (in_workSlotId input = [] \<or> \<not> is_digest 64 (in_revisionHash input)) ''review_prompt_coverage_scope_invalid''
     (let assigned = js_sort compareCodePoints (js_set (in_assignedPaths input))
      in throw_if (length assigned \<noteq> length (in_assignedPaths input)) ''review_prompt_coverage_assigned_paths_invalid''
         (rbind (index_facts [] (in_pathCoverage input)) (\<lambda>byPath.
            throw_if (length byPath \<noteq> length assigned \<or> list_ex (\<lambda>p. map_of byPath p = None) assigned)
              ''review_prompt_coverage_path_set_mismatch''
            (let paths = map (\<lambda>p. the (map_of byPath p)) assigned
             in Inr \<lparr>coverage_version = ''review_prompt_coverage.v2'',
                     coverage_workSlotId = in_workSlotId input,
                     coverage_revisionHash = in_revisionHash input,
                     coverage_paths = paths,
                     coverageHash = sha (canonicalJson
                       (coverage_facts_json paths (in_revisionHash input) (in_workSlotId input)))\<rparr>))))"

definition isReviewPromptCoverageComplete :: "ReviewPromptCoverageManifest \<Rightarrow> bool" where
  "isReviewPromptCoverageComplete m \<longleftrightarrow> length (coverage_paths m) > 0 \<and>
     list_all (\<lambda>f. fact_kind f = FullPatch \<or> fact_kind f = PolicyExcluded) (coverage_paths m)"

definition coverage_manifest_json :: "ReviewPromptCoverageManifest \<Rightarrow> json" where
  "coverage_manifest_json m = JObj
     [(''coverageHash'', JStr (coverageHash m)), (''paths'', JArr (map fact_json (coverage_paths m))),
      (''reviewRevisionHash'', JStr (coverage_revisionHash m)), (''version'', JStr (coverage_version m)),
      (''workSlotId'', JStr (coverage_workSlotId m))]"

definition serializeReviewPromptCoverageManifest ::
    "(string \<Rightarrow> string) \<Rightarrow> ReviewPromptCoverageManifest \<Rightarrow> string res" where
  "serializeReviewPromptCoverageManifest sha m =
     (let canonical = canonicalJson (coverage_manifest_json m)
      in rbind (createReviewPromptCoverageManifest sha
             \<lparr>in_workSlotId = coverage_workSlotId m, in_revisionHash = coverage_revisionHash m,
              in_assignedPaths = map fact_path (coverage_paths m), in_pathCoverage = coverage_paths m\<rparr>)
           (\<lambda>rebuilt. throw_if (coverageHash rebuilt \<noteq> coverageHash m) ''review_prompt_coverage_hash_mismatch''
              (Inr canonical)))"

definition visible_facts_json :: "PromptPathCoverage list \<Rightarrow> json" where
  "visible_facts_json paths = JObj
     [(''paths'', JArr (map fact_json paths)), (''version'', JStr ''provider_visible_review_coverage.v1'')]"

definition createProviderVisibleReviewCoverage ::
    "(string \<Rightarrow> string) \<Rightarrow> ReviewPromptCoverageManifest \<Rightarrow> ProviderVisibleReviewCoverage" where
  "createProviderVisibleReviewCoverage sha m =
     \<lparr>visible_version = ''provider_visible_review_coverage.v1'',
      visible_paths = coverage_paths m,
      visible_coverageHash = sha (canonicalJson (visible_facts_json (coverage_paths m)))\<rparr>"

definition visible_coverage_json :: "ProviderVisibleReviewCoverage \<Rightarrow> json" where
  "visible_coverage_json c = JObj
     [(''coverageHash'', JStr (visible_coverageHash c)), (''paths'', JArr (map fact_json (visible_paths c))),
      (''version'', JStr (visible_version c))]"

definition serializeProviderVisibleReviewCoverage ::
    "(string \<Rightarrow> string) \<Rightarrow> ProviderVisibleReviewCoverage \<Rightarrow> string res" where
  "serializeProviderVisibleReviewCoverage sha c =
     (let canonical = canonicalJson (visible_coverage_json c)
      in rbind (createReviewPromptCoverageManifest sha
             \<lparr>in_workSlotId = ''semantic-validation'', in_revisionHash = replicate 64 CHR ''0'',
              in_assignedPaths = map fact_path (visible_paths c), in_pathCoverage = visible_paths c\<rparr>)
           (\<lambda>rebuilt. throw_if (visible_coverageHash (createProviderVisibleReviewCoverage sha rebuilt) \<noteq>
                visible_coverageHash c) ''provider_visible_review_coverage_hash_mismatch''
              (Inr canonical)))"

section \<open>The facts by path\<close>

definition fact_ok :: "PromptPathCoverage \<Rightarrow> bool" where
  "fact_ok f \<longleftrightarrow> fact_path f \<noteq> [] \<and> fact_kind f \<noteq> TrustedRead \<and>
     (\<forall>h. fact_contentHash f = Some h \<longrightarrow> is_digest 64 h)"

lemma index_facts_Inr: "index_facts m fs = Inr m' \<longleftrightarrow>
    (\<forall>f \<in> set fs. fact_ok f) \<and> distinct (map fact_path fs) \<and> fact_path ` set fs \<inter> fst ` set m = {} \<and>
    m' = m @ map (\<lambda>f. (fact_path f, f)) fs"
proof (induction fs arbitrary: m)
  case (Cons f fs)
  have fresh: "map_of m (fact_path f) = None \<Longrightarrow> AList.update (fact_path f) f m = m @ [(fact_path f, f)]"
    by (induction m) (auto split: if_splits)
  have hash: "(case fact_contentHash f of None \<Rightarrow> False | Some h \<Rightarrow> \<not> is_digest 64 h) \<longleftrightarrow>
      \<not> (\<forall>h. fact_contentHash f = Some h \<longrightarrow> is_digest 64 h)"
    by (cases "fact_contentHash f") auto
  show ?case
  proof (cases "fact_path f \<in> fst ` set m")
    case True
    then show ?thesis by (auto simp: throw_if_def map_of_eq_None_iff)
  next
    case False
    then have "map_of m (fact_path f) = None" by (simp add: map_of_eq_None_iff)
    with False show ?thesis
      using Cons.IH [of "m @ [(fact_path f, f)]"] by (auto simp: res_simps fact_ok_def hash fresh)
  qed
qed auto

definition sort_facts :: "PromptPathCoverage list \<Rightarrow> PromptPathCoverage list" where
  "sort_facts fs = js_sort (\<lambda>l r. compareCodePoints (fact_path l) (fact_path r)) fs"

text \<open>What the manifest accepts, and the facts it keeps.\<close>

definition coverage_ok :: "CoverageInput \<Rightarrow> bool" where
  "coverage_ok input \<longleftrightarrow> in_workSlotId input \<noteq> [] \<and> is_digest 64 (in_revisionHash input) \<and>
     (\<forall>f \<in> set (in_pathCoverage input). fact_ok f) \<and>
     mset (map fact_path (in_pathCoverage input)) = mset (in_assignedPaths input) \<and>
     distinct (in_assignedPaths input)"

lemma facts_by_path:
  assumes "mset (map fact_path fs) = mset ps" "distinct ps"
  shows "map (\<lambda>p. the (map_of (map (\<lambda>f. (fact_path f, f)) fs) p)) (js_sort compareCodePoints ps) = sort_facts fs"
proof -
  have d: "distinct (map fact_path fs)" using assms by (metis mset_eq_imp_distinct_iff)
  have "mset (map fact_path (sort_facts fs)) = mset ps"
    using assms(1) by (simp add: sort_facts_def)
  then have "map fact_path (sort_facts fs) = js_sort compareCodePoints ps"
    using sorted_by_code_points [of fact_path fs] code_points.sorted_sort [of ps]
    by (intro code_points.sort_unique) (simp_all add: compareCodePoints_le sort_facts_def)
  moreover have "map (\<lambda>p. the (map_of (map (\<lambda>f. (fact_path f, f)) fs) p)) (map fact_path (sort_facts fs)) = sort_facts fs"
  proof -
    have "map_of (map (\<lambda>f. (fact_path f, f)) fs) (fact_path f) = Some f" if "f \<in> set fs" for f
      using d that by (intro map_of_is_SomeI) (auto simp: comp_def)
    then show ?thesis by (auto simp: sort_facts_def intro: map_idI)
  qed
  ultimately show ?thesis by simp
qed

lemma coverage_Inr: "createReviewPromptCoverageManifest sha input = Inr m \<longleftrightarrow>
    coverage_ok input \<and>
    m = \<lparr>coverage_version = ''review_prompt_coverage.v2'', coverage_workSlotId = in_workSlotId input,
         coverage_revisionHash = in_revisionHash input, coverage_paths = sort_facts (in_pathCoverage input),
         coverageHash = sha (canonicalJson (coverage_facts_json (sort_facts (in_pathCoverage input))
           (in_revisionHash input) (in_workSlotId input)))\<rparr>"
proof -
  let ?fs = "in_pathCoverage input" and ?ps = "in_assignedPaths input"
  have lookup: "map_of (map (\<lambda>f. (fact_path f, f)) ?fs) p = None \<longleftrightarrow> p \<notin> fact_path ` set ?fs" for p
    by (simp add: map_of_eq_None_iff image_image)
  have perm: "distinct (map fact_path ?fs) \<and> length ?fs = length ?ps \<and> (\<forall>p \<in> set ?ps. p \<in> fact_path ` set ?fs) \<longleftrightarrow>
      mset (map fact_path ?fs) = mset ?ps" if "distinct ?ps"
  proof
    assume *: "distinct (map fact_path ?fs) \<and> length ?fs = length ?ps \<and> (\<forall>p \<in> set ?ps. p \<in> fact_path ` set ?fs)"
    moreover from this have "card (set (map fact_path ?fs)) = length ?ps"
      by (metis distinct_card length_map)
    ultimately have "set ?ps = set (map fact_path ?fs)"
      using that by (intro card_subset_eq) (auto simp: distinct_card)
    with * that show "mset (map fact_path ?fs) = mset ?ps"
      by (metis set_eq_iff_mset_eq_distinct)
  next
    assume *: "mset (map fact_path ?fs) = mset ?ps"
    from mset_eq_setD [OF this] mset_eq_imp_distinct_iff [OF this] mset_eq_length [OF this] that
    show "distinct (map fact_path ?fs) \<and> length ?fs = length ?ps \<and> (\<forall>p \<in> set ?ps. p \<in> fact_path ` set ?fs)"
      by auto
  qed
  show ?thesis
  proof (cases "distinct ?ps \<and> mset (map fact_path ?fs) = mset ?ps")
    case True
    with perm facts_by_path [of ?fs ?ps] lookup show ?thesis
      by (auto simp: createReviewPromptCoverageManifest_def Let_def res_simps index_facts_Inr coverage_ok_def
          js_set_distinct list_ex_iff simp del: not_None_eq)
  next
    case False
    with perm lookup show ?thesis
      by (auto simp: createReviewPromptCoverageManifest_def Let_def res_simps index_facts_Inr coverage_ok_def
          list_ex_iff simp del: not_None_eq)
  qed
qed

lemma mset_sort_facts [simp]: "mset (sort_facts fs) = mset fs"
  by (simp add: sort_facts_def)

lemma set_sort_facts [simp]: "set (sort_facts fs) = set fs"
  by (simp add: sort_facts_def)

lemma sort_facts_idem [simp]: "sort_facts (sort_facts fs) = sort_facts fs"
  unfolding sort_facts_def by (rule by_code_points.sort_sorted [OF by_code_points.sorted_sort])

lemma rebuild_ok:
  assumes "coverage_ok input" "slot \<noteq> []" "is_digest 64 revision"
  shows "coverage_ok \<lparr>in_workSlotId = slot, in_revisionHash = revision,
    in_assignedPaths = map fact_path (sort_facts (in_pathCoverage input)), in_pathCoverage = sort_facts (in_pathCoverage input)\<rparr>"
  using assms mset_eq_imp_distinct_iff [of "map fact_path (in_pathCoverage input)" "in_assignedPaths input"]
  by (auto simp: coverage_ok_def) (simp add: sort_facts_def)

section \<open>Facts and their texts\<close>

lemma fact_json_inj: "sort_members (fact_json a) = sort_members (fact_json b) \<longleftrightarrow> a = b"
proof
  assume "sort_members (fact_json a) = sort_members (fact_json b)"
  note member = member_of_equal [OF this [unfolded fact_json_def]]
  have "fact_kind a = fact_kind b"
    using member [of "''kind''"] by (cases "fact_kind a"; cases "fact_kind b") simp_all
  moreover have "fact_contentHash a = fact_contentHash b"
    using member [of "''contentHash''"] by (simp split: option.splits)
  ultimately show "a = b"
    using member [of "''path''"] by (intro PromptPathCoverage.equality) simp_all
qed simp

lemma coverage_facts_inj:
  assumes "canonicalJson (coverage_facts_json fs r s) = canonicalJson (coverage_facts_json fs' r' s')"
  shows "fs = fs' \<and> r = r' \<and> s = s'"
proof -
  note member = member_of_equal [OF assms [unfolded canonicalJson_inj coverage_facts_json_def]]
  have "inj (sort_members \<circ> fact_json)" by (auto simp: inj_def fact_json_inj)
  then have "map sort_members (map fact_json fs) = map sort_members (map fact_json fs') \<longleftrightarrow> fs = fs'"
    by (metis inj_map_eq_map map_map)
  with member [of "''paths''"] member [of "''reviewRevisionHash''"] member [of "''workSlotId''"] show ?thesis
    by (simp del: map_map)
qed

lemma ball_by_key:
  assumes "inj_on f A"
  shows "(\<forall>x \<in> A. \<exists>y \<in> A. f y = f x \<and> K y) \<longleftrightarrow> (\<forall>x \<in> A. K x)"
proof
  assume *: "\<forall>x \<in> A. \<exists>y \<in> A. f y = f x \<and> K y"
  show "\<forall>x \<in> A. K x"
  proof
    fix x assume "x \<in> A"
    with * obtain y where "y \<in> A" "f y = f x" "K y" by blast
    with inj_onD [OF assms] \<open>x \<in> A\<close> show "K x" by metis
  qed
qed blast

section \<open>Properties\<close>


definition demo_fact :: "string \<Rightarrow> PromptPathCoverageKind \<Rightarrow> PromptPathCoverage" where
  "demo_fact p k = \<lparr>fact_path = p, fact_kind = k, fact_contentHash = None\<rparr>"

definition demo_coverage :: CoverageInput where
  "demo_coverage = \<lparr>in_workSlotId = ''slot'', in_revisionHash = replicate 64 CHR ''0'',
     in_assignedPaths = [''b.ts'', ''a.ts''],
     in_pathCoverage = [demo_fact ''a.ts'' FullPatch, demo_fact ''b.ts'' Trimmed]\<rparr>"

lemma demo_coverage_ok: "coverage_ok demo_coverage"
  by (simp add: coverage_ok_def demo_coverage_def demo_fact_def fact_ok_def is_digest_def list_all_iff
      is_hex_def is_digit_def add_mset_commute)

lemma demo_coverage_manifest: "\<exists>m. createReviewPromptCoverageManifest sha demo_coverage = Inr m"
  using demo_coverage_ok by (simp add: coverage_Inr)


text \<open>
  Every manifest the module creates serialises, and so does the provider-visible coverage made
  from it: the recomputation of the hash never rejects an untouched manifest.
\<close>

theorem coverage_serializes:
  assumes "createReviewPromptCoverageManifest sha input = Inr m"
  shows "serializeReviewPromptCoverageManifest sha m = Inr (canonicalJson (coverage_manifest_json m)) \<and>
    serializeProviderVisibleReviewCoverage sha (createProviderVisibleReviewCoverage sha m) =
      Inr (canonicalJson (visible_coverage_json (createProviderVisibleReviewCoverage sha m)))"
proof -
  have ok: "coverage_ok input" using assms by (simp add: coverage_Inr)
  have zeros: "is_digest 64 (replicate 64 CHR ''0'')"
    by (simp add: is_digest_def list_all_iff is_hex_def is_digit_def)
  have "in_workSlotId input \<noteq> []" "is_digest 64 (in_revisionHash input)"
    using ok by (simp_all add: coverage_ok_def)
  with rebuild_ok [OF ok] zeros have
    "coverage_ok \<lparr>in_workSlotId = in_workSlotId input, in_revisionHash = in_revisionHash input,
       in_assignedPaths = map fact_path (sort_facts (in_pathCoverage input)), in_pathCoverage = sort_facts (in_pathCoverage input)\<rparr>"
    "coverage_ok \<lparr>in_workSlotId = ''semantic-validation'', in_revisionHash = replicate 64 CHR ''0'',
       in_assignedPaths = map fact_path (sort_facts (in_pathCoverage input)), in_pathCoverage = sort_facts (in_pathCoverage input)\<rparr>"
    by simp_all
  note oks = this [THEN conjI [THEN coverage_Inr [THEN iffD2], OF _ refl]]
  show ?thesis
    using assms
    by (simp add: serializeReviewPromptCoverageManifest_def serializeProviderVisibleReviewCoverage_def Let_def
        coverage_Inr oks createProviderVisibleReviewCoverage_def throw_if_def)
qed

theorem coverage_serializes_witness:
  "\<exists>m. createReviewPromptCoverageManifest rev demo_coverage = Inr m \<and>
     serializeReviewPromptCoverageManifest rev m = Inr (canonicalJson (coverage_manifest_json m))"
  using demo_coverage_manifest [of rev] coverage_serializes by blast

text \<open>
  A manifest cannot be altered behind its hash: when two manifests both serialise and carry the
  same hash, and the hash does not collide on their two texts, they are about the same slot and
  revision and record the same facts.
\<close>

theorem coverage_hash_detects_changes:
  assumes "serializeReviewPromptCoverageManifest sha m = Inr x" "serializeReviewPromptCoverageManifest sha m' = Inr x'"
    and "coverageHash m = coverageHash m'"
    and "inj_on sha (canonicalJson ` {coverage_facts_json (sort_facts (coverage_paths m)) (coverage_revisionHash m) (coverage_workSlotId m),
      coverage_facts_json (sort_facts (coverage_paths m')) (coverage_revisionHash m') (coverage_workSlotId m')})"
  shows "coverage_workSlotId m = coverage_workSlotId m' \<and> coverage_revisionHash m = coverage_revisionHash m' \<and>
    mset (coverage_paths m) = mset (coverage_paths m')"
proof -
  let ?j = "\<lambda>m. coverage_facts_json (sort_facts (coverage_paths m)) (coverage_revisionHash m) (coverage_workSlotId m)"
  have "coverageHash m = sha (canonicalJson (?j m))" "coverageHash m' = sha (canonicalJson (?j m'))"
    using assms(1,2) by (auto simp: serializeReviewPromptCoverageManifest_def Let_def res_simps coverage_Inr)
  with assms(3) have "canonicalJson (?j m) = canonicalJson (?j m')"
    by - (rule inj_onD [OF assms(4)]; simp)
  from coverage_facts_inj [OF this] show ?thesis by (metis mset_sort_facts)
qed

lemma serialize_Inr: "serializeReviewPromptCoverageManifest sha m = Inr x \<longleftrightarrow>
    coverage_ok \<lparr>in_workSlotId = coverage_workSlotId m, in_revisionHash = coverage_revisionHash m,
      in_assignedPaths = map fact_path (coverage_paths m), in_pathCoverage = coverage_paths m\<rparr> \<and>
    coverageHash m = sha (canonicalJson (coverage_facts_json (sort_facts (coverage_paths m)) (coverage_revisionHash m) (coverage_workSlotId m))) \<and>
    x = canonicalJson (coverage_manifest_json m)"
  by (auto simp: serializeReviewPromptCoverageManifest_def Let_def res_simps coverage_Inr)

definition demo_stored :: "PromptPathCoverage list \<Rightarrow> ReviewPromptCoverageManifest" where
  "demo_stored fs = \<lparr>coverage_version = ''review_prompt_coverage.v2'', coverage_workSlotId = ''slot'',
     coverage_revisionHash = replicate 64 CHR ''0'', coverage_paths = fs,
     coverageHash = rev (canonicalJson (coverage_facts_json
       [demo_fact ''a.ts'' FullPatch, demo_fact ''b.ts'' Trimmed] (replicate 64 CHR ''0'') ''slot''))\<rparr>"

lemma demo_stored_serializes:
  assumes "fs \<in> {[demo_fact ''a.ts'' FullPatch, demo_fact ''b.ts'' Trimmed], [demo_fact ''b.ts'' Trimmed, demo_fact ''a.ts'' FullPatch]}"
  shows "serializeReviewPromptCoverageManifest rev (demo_stored fs) = Inr (canonicalJson (coverage_manifest_json (demo_stored fs)))"
  using assms
  by (auto simp: serialize_Inr demo_stored_def coverage_ok_def demo_fact_def fact_ok_def sort_facts_def
      compareCodePoints_def is_digest_def list_all_iff is_hex_def is_digit_def)

theorem coverage_hash_detects_changes_witness:
  "mset (coverage_paths (demo_stored [demo_fact ''a.ts'' FullPatch, demo_fact ''b.ts'' Trimmed])) =
   mset (coverage_paths (demo_stored [demo_fact ''b.ts'' Trimmed, demo_fact ''a.ts'' FullPatch]))"
  using coverage_hash_detects_changes [OF demo_stored_serializes demo_stored_serializes,
      of "[demo_fact ''a.ts'' FullPatch, demo_fact ''b.ts'' Trimmed]" "[demo_fact ''b.ts'' Trimmed, demo_fact ''a.ts'' FullPatch]"]
  by (simp add: demo_stored_def inj_on_def)

end
