(* ===== verification/Circuit_Breaker.thy ===== *)
theory Circuit_Breaker
  imports Prelude
begin

text \<open>
  \<open>src/providers/circuit-breaker.ts\<close>: a circuit per provider that opens after consecutive
  failures, with its state kept in memory and in \<open>CacheStorage\<close>.  The clock and the outcome of
  every storage access are inputs of an operation, so all statements hold whatever fails: a read may
  throw, and a write may throw and leave any content in the file.  A file holds the JSON of a circuit or
  a text that \<open>JSON.parse\<close> rejects.  Circuits are named by their storage key (\<open>key(providerId)\<close>).
  An absent \<open>probeInFlight\<close> is \<open>False\<close>, which the code tests it as; failure counts are integers.
\<close>

section \<open>State\<close>

datatype CircuitState = Closed | Open | HalfOpen

record CircuitData =
  state :: CircuitState
  failures :: int
  openedAt :: "int option"
  probeInFlight :: bool

datatype stored_text = Stored CircuitData | Corrupt

record CircuitBreaker =
  failureThreshold :: int
  openDurationMs :: int
  inMemoryState :: "string \<rightharpoonup> CircuitData"
  storageAvailable :: bool
  storage :: "string \<rightharpoonup> stored_text"

text \<open>What the environment does during one operation: the time, whether the read throws, and for
  each write whether it throws (and then what the file holds).\<close>

record env =
  now :: int
  read_throws :: bool
  write_fails :: "nat \<Rightarrow> stored_text option option"

definition DEFAULT_FAILURE_THRESHOLD :: int where
  "DEFAULT_FAILURE_THRESHOLD = 3"

definition DEFAULT_OPEN_DURATION_MS :: int where
  "DEFAULT_OPEN_DURATION_MS = 5 * 60 * 1000"

definition new_breaker :: "int option \<Rightarrow> int option \<Rightarrow> (string \<rightharpoonup> stored_text) \<Rightarrow> CircuitBreaker" where
  "new_breaker threshold duration files =
     \<lparr>failureThreshold = (case threshold of Some t \<Rightarrow> t | None \<Rightarrow> DEFAULT_FAILURE_THRESHOLD),
      openDurationMs = (case duration of Some d \<Rightarrow> d | None \<Rightarrow> DEFAULT_OPEN_DURATION_MS),
      inMemoryState = Map.empty, storageAvailable = True, storage = files\<rparr>"

section \<open>Loading and saving\<close>

definition closed_circuit :: CircuitData where
  "closed_circuit = \<lparr>state = Closed, failures = 0, openedAt = None, probeInFlight = False\<rparr>"

definition from_memory :: "string \<Rightarrow> CircuitBreaker \<Rightarrow> CircuitData" where
  "from_memory key b = (case inMemoryState b key of Some d \<Rightarrow> d | None \<Rightarrow> closed_circuit)"

definition load :: "string \<Rightarrow> env \<Rightarrow> CircuitBreaker \<Rightarrow> CircuitData \<times> CircuitBreaker" where
  "load key e b =
     (if \<not> storageAvailable b \<and> inMemoryState b key \<noteq> None then (from_memory key b, b)
      else if read_throws e then (from_memory key b, b\<lparr>storageAvailable := False\<rparr>)
      else case storage b key of
             None \<Rightarrow> (from_memory key b, b)
           | Some Corrupt \<Rightarrow> (from_memory key b, b)
           | Some (Stored d) \<Rightarrow>
               (d, b\<lparr>inMemoryState := (inMemoryState b)(key \<mapsto> d), storageAvailable := True\<rparr>))"

definition setState :: "string \<Rightarrow> stored_text option option \<Rightarrow> CircuitData \<Rightarrow> CircuitBreaker \<Rightarrow> CircuitBreaker" where
  "setState key fails d b =
     (let b1 = b\<lparr>inMemoryState := (inMemoryState b)(key \<mapsto> d)\<rparr>
      in if storageAvailable b1
         then case fails of
                None \<Rightarrow> b1\<lparr>storage := (storage b1)(key \<mapsto> Stored d)\<rparr>
              | Some left \<Rightarrow> b1\<lparr>storage := (storage b1)(key := left), storageAvailable := False\<rparr>
         else b1)"

section \<open>Operations\<close>

definition isOpen :: "string \<Rightarrow> env \<Rightarrow> CircuitBreaker \<Rightarrow> bool \<times> CircuitBreaker" where
  "isOpen key e b0 =
     (let (s0, b1) = load key e b0;
          expired = (case openedAt s0 of None \<Rightarrow> False | Some t \<Rightarrow> t \<noteq> 0 \<and> now e - t > openDurationMs b1);
          moved = (state s0 = Open \<and> expired);
          s = (if moved then \<lparr>state = HalfOpen, failures = 0, openedAt = None, probeInFlight = False\<rparr> else s0);
          b2 = (if moved then setState key (write_fails e 0) s b1 else b1)
      in if state s = Open then (True, b2)
         else if state s = HalfOpen
         then if probeInFlight s then (True, b2)
              else (False, setState key (write_fails e 1) (s\<lparr>probeInFlight := True\<rparr>) b2)
         else (False, b2))"

definition recordSuccess :: "string \<Rightarrow> env \<Rightarrow> CircuitBreaker \<Rightarrow> CircuitBreaker" where
  "recordSuccess key e b0 =
     (let (s, b1) = load key e b0 in setState key (write_fails e 0) closed_circuit b1)"

definition opened :: "int \<Rightarrow> int \<Rightarrow> CircuitData" where
  "opened n t = \<lparr>state = Open, failures = n, openedAt = Some t, probeInFlight = False\<rparr>"

definition recordFailure :: "string \<Rightarrow> env \<Rightarrow> CircuitBreaker \<Rightarrow> CircuitBreaker" where
  "recordFailure key e b0 =
     (let (s, b1) = load key e b0;
          n = failures s + 1
      in if state s = HalfOpen then setState key (write_fails e 0) (opened n (now e)) b1
         else if n \<ge> failureThreshold b1 then setState key (write_fails e 0) (opened n (now e)) b1
         else setState key (write_fails e 0)
                \<lparr>state = Closed, failures = n, openedAt = None, probeInFlight = False\<rparr> b1)"

datatype breaker_op = IsOpen | RecordSuccess | RecordFailure

fun perform :: "string \<Rightarrow> breaker_op \<Rightarrow> env \<Rightarrow> CircuitBreaker \<Rightarrow> bool option \<times> CircuitBreaker" where
  "perform key IsOpen e b = (let (r, b') = isOpen key e b in (Some r, b'))"
| "perform key RecordSuccess e b = (None, recordSuccess key e b)"
| "perform key RecordFailure e b = (None, recordFailure key e b)"

text \<open>A run of operations, each with its provider's key: the answers of \<open>isOpen\<close>, and the state.\<close>

fun breaker_run :: "(string \<times> breaker_op \<times> env) list \<Rightarrow> CircuitBreaker \<Rightarrow> bool option list \<times> CircuitBreaker" where
  "breaker_run [] b = ([], b)"
| "breaker_run ((key, op, e) # evs) b =
     (let (r, b') = perform key op e b; (rs, b'') = breaker_run evs b' in (r # rs, b''))"

section \<open>The data of one circuit\<close>

text \<open>The operations of the code on the data of one circuit, without storage.\<close>

fun circuit_step :: "int \<Rightarrow> int \<Rightarrow> breaker_op \<Rightarrow> int \<Rightarrow> CircuitData \<Rightarrow> bool option \<times> CircuitData" where
  "circuit_step threshold duration IsOpen t d =
     (let moved = (state d = Open \<and> (\<exists>t0. openedAt d = Some t0 \<and> t0 \<noteq> 0 \<and> t - t0 > duration))
      in if state d = Closed then (Some False, d)
         else if state d = Open \<and> \<not> moved then (Some True, d)
         else if state d = HalfOpen \<and> probeInFlight d then (Some True, d)
         else (Some False, if moved then \<lparr>state = HalfOpen, failures = 0, openedAt = None, probeInFlight = True\<rparr>
               else d\<lparr>probeInFlight := True\<rparr>))"
| "circuit_step threshold duration RecordSuccess t d = (None, closed_circuit)"
| "circuit_step threshold duration RecordFailure t d =
     (None, if state d = HalfOpen \<or> failures d + 1 \<ge> threshold then opened (failures d + 1) t
            else closed_circuit\<lparr>failures := failures d + 1\<rparr>)"

fun circuit_run :: "int \<Rightarrow> int \<Rightarrow> (breaker_op \<times> int) list \<Rightarrow> CircuitData \<Rightarrow> bool option list \<times> CircuitData" where
  "circuit_run threshold duration [] d = ([], d)"
| "circuit_run threshold duration ((op, t) # evs) d =
     (let (r, d') = circuit_step threshold duration op t d; (rs, d'') = circuit_run threshold duration evs d'
      in (r # rs, d''))"

section \<open>The memory and the file of a circuit agree\<close>

definition represents :: "string \<Rightarrow> CircuitBreaker \<Rightarrow> CircuitData \<Rightarrow> bool" where
  "represents key b d \<longleftrightarrow> (case inMemoryState b key of
     Some m \<Rightarrow> m = d \<and> (\<forall>x. storageAvailable b \<longrightarrow> storage b key = Some (Stored x) \<longrightarrow> x = d)
   | None \<Rightarrow> d = closed_circuit \<and> (\<forall>x. storage b key \<noteq> Some (Stored x)))"

lemma load_represents:
  assumes "represents key b d"
  shows "\<exists>b'. load key e b = (d, b') \<and> represents key b' d \<and>
    failureThreshold b' = failureThreshold b \<and> openDurationMs b' = openDurationMs b"
  using assms
  by (cases "inMemoryState b key"; cases "storageAvailable b"; cases "storage b key")
    (auto simp: load_def represents_def from_memory_def split: stored_text.split)

lemma setState_represents: "represents key (setState key fails d b) d"
  by (auto simp: setState_def represents_def Let_def split: option.split)

lemma setState_options [simp]:
  "failureThreshold (setState key fails d b) = failureThreshold b"
  "openDurationMs (setState key fails d b) = openDurationMs b"
  by (simp_all add: setState_def Let_def split: option.split)

lemma perform_refines:
  assumes "represents key b d"
  shows "\<exists>r b' d'. perform key op e b = (r, b') \<and> represents key b' d' \<and>
    circuit_step (failureThreshold b) (openDurationMs b) op (now e) d = (r, d') \<and>
    failureThreshold b' = failureThreshold b \<and> openDurationMs b' = openDurationMs b"
proof -
  obtain b1 where l: "load key e b = (d, b1)" "represents key b1 d"
    "failureThreshold b1 = failureThreshold b" "openDurationMs b1 = openDurationMs b"
    using load_represents [OF assms] by blast
  show ?thesis
  proof (cases op)
    case IsOpen
    then show ?thesis
      by (cases "state d"; cases "openedAt d")
        (auto simp: isOpen_def l Let_def setState_represents)
  next
    case RecordSuccess
    then show ?thesis by (simp add: recordSuccess_def l setState_represents)
  next
    case RecordFailure
    then show ?thesis
      by (auto simp: recordFailure_def l setState_represents Let_def closed_circuit_def)
  qed
qed

lemma run_refines:
  assumes "represents key b d"
  shows "\<exists>b' d'. breaker_run (map (Pair key) evs) b =
      (fst (circuit_run (failureThreshold b) (openDurationMs b) (map (\<lambda>(op, e). (op, now e)) evs) d), b') \<and>
    d' = snd (circuit_run (failureThreshold b) (openDurationMs b) (map (\<lambda>(op, e). (op, now e)) evs) d) \<and>
    represents key b' d'"
  using assms
proof (induction evs arbitrary: b d)
  case (Cons ev evs)
  obtain op e where ev: "ev = (op, e)" by fastforce
  obtain r b1 d1 where step: "perform key op e b = (r, b1)" "represents key b1 d1"
    "circuit_step (failureThreshold b) (openDurationMs b) op (now e) d = (r, d1)"
    "failureThreshold b1 = failureThreshold b" "openDurationMs b1 = openDurationMs b"
    using perform_refines [OF Cons.prems] by blast
  from Cons.IH [OF step(2)] step show ?case by (auto simp: ev split: prod.splits)
qed simp


lemma fresh_represents: "(\<forall>x. files key \<noteq> Some (Stored x)) \<Longrightarrow> represents key (new_breaker t d files) closed_circuit"
  by (simp add: represents_def new_breaker_def)

section \<open>The state machine the comment documents\<close>

text \<open>
  The comment of the class: a closed circuit counts consecutive failures and opens at the threshold; an open one
  blocks every request until the cooldown has passed; then one probe is let through, whose success closes the
  circuit and whose failure opens it again.  The comment gives an open circuit no other way out, and does not say
  what the result of a request means that was let through before the circuit opened: there the machine has no step
  (the code closes the circuit on a success and on a failure below the threshold).
\<close>

datatype phase = Counting int | Blocking int | Probing

fun documented :: "int \<Rightarrow> int \<Rightarrow> breaker_op \<Rightarrow> int \<Rightarrow> phase \<Rightarrow> (bool option \<times> phase) option" where
  "documented threshold duration IsOpen t (Counting n) = Some (Some False, Counting n)"
| "documented threshold duration IsOpen t (Blocking since) =
     Some (if t - since > duration then (Some False, Probing) else (Some True, Blocking since))"
| "documented threshold duration IsOpen t Probing = Some (Some True, Probing)"
| "documented threshold duration RecordSuccess t (Blocking since) = None"
| "documented threshold duration RecordSuccess t p = Some (None, Counting 0)"
| "documented threshold duration RecordFailure t (Counting n) =
     Some (None, if n + 1 \<ge> threshold then Blocking t else Counting (n + 1))"
| "documented threshold duration RecordFailure t (Blocking since) = None"
| "documented threshold duration RecordFailure t Probing = Some (None, Blocking t)"

fun documented_run :: "int \<Rightarrow> int \<Rightarrow> (breaker_op \<times> int) list \<Rightarrow> phase \<Rightarrow> bool option list option" where
  "documented_run threshold duration [] p = Some []"
| "documented_run threshold duration ((op, t) # evs) p = (case documented threshold duration op t p of
     None \<Rightarrow> None
   | Some (r, p') \<Rightarrow> map_option ((#) r) (documented_run threshold duration evs p'))"

text \<open>The data of the code in each phase.\<close>

fun in_phase :: "phase \<Rightarrow> CircuitData \<Rightarrow> bool" where
  "in_phase (Counting n) d \<longleftrightarrow> state d = Closed \<and> failures d = n"
| "in_phase (Blocking since) d \<longleftrightarrow> state d = Open \<and> openedAt d = Some since \<and> 0 < since"
| "in_phase Probing d \<longleftrightarrow> state d = HalfOpen \<and> probeInFlight d"

lemma step_documented:
  assumes "in_phase p d" "documented threshold duration op t p = Some (r, p')" "0 < t"
  shows "\<exists>d'. circuit_step threshold duration op t d = (r, d') \<and> in_phase p' d'"
  using assms
  by (cases "(threshold, duration, op, t, p)" rule: documented.cases)
    (auto simp: Let_def closed_circuit_def opened_def split: if_splits)

lemma run_documented:
  "in_phase p d \<Longrightarrow> documented_run threshold duration evs p = Some rs \<Longrightarrow> \<forall>(op, t) \<in> set evs. 0 < t \<Longrightarrow>
    fst (circuit_run threshold duration evs d) = rs"
proof (induction evs arbitrary: p d rs)
  case (Cons ev evs)
  obtain op t where ev: "ev = (op, t)" by fastforce
  from Cons.prems(2) obtain r p' rs' where step: "documented threshold duration op t p = Some (r, p')"
    "documented_run threshold duration evs p' = Some rs'" "rs = r # rs'"
    by (auto simp: ev split: option.splits)
  from step_documented [OF Cons.prems(1) step(1)] Cons.prems(3) obtain d' where
    d': "circuit_step threshold duration op t d = (r, d')" "in_phase p' d'" by (auto simp: ev)
  from Cons.IH [OF d'(2) step(2)] Cons.prems(3) d'(1) step(3) show ?case by (simp add: ev split_beta)
qed simp

section \<open>Runs of a circuit\<close>

definition answers_false :: "bool option list \<Rightarrow> nat" where
  "answers_false rs = length (filter (\<lambda>r. r = Some False) rs)"

abbreviation polls_of :: "int list \<Rightarrow> (breaker_op \<times> int) list" where
  "polls_of ts \<equiv> map (\<lambda>t. (IsOpen, t)) ts"

lemma probing_blocks: "state d = HalfOpen \<Longrightarrow> probeInFlight d \<Longrightarrow>
    circuit_run threshold duration (polls_of ts) d = (map (\<lambda>t. Some True) ts, d)"
  by (induction ts) (auto simp: Let_def)

lemma answers_all_true: "answers_false (map (\<lambda>t. Some True) ts) = 0"
  by (simp add: answers_false_def)

lemma one_probe: "state d \<noteq> Closed \<Longrightarrow> answers_false (fst (circuit_run threshold duration (polls_of ts) d)) \<le> 1"
proof (induction ts)
  case (Cons t ts)
  obtain r d' where step: "circuit_step threshold duration IsOpen t d = (r, d')" by fastforce
  show ?case
  proof (cases "r = Some False")
    case True
    with step Cons.prems have "state d' = HalfOpen" "probeInFlight d'"
      by (cases "state d"; auto simp: Let_def split: if_splits)+
    with True show ?thesis
      using answers_all_true [of ts] by (simp add: step probing_blocks answers_false_def del: circuit_step.simps)
  next
    case False
    with step Cons.prems have "d' = d" by (auto simp: Let_def split: if_splits)
    with False Cons show ?thesis by (auto simp: step answers_false_def simp del: circuit_step.simps split: prod.splits)
  qed
qed (simp add: answers_false_def)

lemma cooling_blocks:
  assumes "state d = Open" "openedAt d = Some t0" "\<forall>t \<in> set ts. t - t0 \<le> duration"
  shows "circuit_run threshold duration (polls_of ts) d = (map (\<lambda>t. Some True) ts, d)"
  using assms by (induction ts) (auto simp: Let_def)

abbreviation failures_at :: "int list \<Rightarrow> (breaker_op \<times> int) list" where
  "failures_at ts \<equiv> map (\<lambda>t. (RecordFailure, t)) ts"

lemma failures_below: "state d = Closed \<Longrightarrow> failures d + int (length ts) < threshold \<Longrightarrow>
    snd (circuit_run threshold duration (failures_at ts) d) =
      (if ts = [] then d else closed_circuit\<lparr>failures := failures d + int (length ts)\<rparr>)"
proof (induction ts arbitrary: d)
  case (Cons t ts)
  have "snd (circuit_run threshold duration (failures_at ts) (closed_circuit\<lparr>failures := failures d + 1\<rparr>)) =
      (if ts = [] then closed_circuit\<lparr>failures := failures d + 1\<rparr>
       else closed_circuit\<lparr>failures := failures d + 1 + int (length ts)\<rparr>)"
    using Cons.IH [of "closed_circuit\<lparr>failures := failures d + 1\<rparr>"] Cons.prems by (simp add: closed_circuit_def)
  then show ?case using Cons.prems by (simp add: split_beta)
qed simp

lemma circuit_run_append: "circuit_run threshold duration (xs @ ys) d =
    (let (rs, d') = circuit_run threshold duration xs d; (rs', d'') = circuit_run threshold duration ys d'
     in (rs @ rs', d''))"
  by (induction xs arbitrary: d) (auto split: prod.splits)

section \<open>Properties\<close>

definition working :: "int \<Rightarrow> env" where
  "working t = \<lparr>now = t, read_throws = False, write_fails = (\<lambda>n. None)\<rparr>"

definition broken :: "int \<Rightarrow> env" where
  "broken t = \<lparr>now = t, read_throws = True, write_fails = (\<lambda>n. Some (Some Corrupt))\<rparr>"



text \<open>
  A circuit opens at the threshold of consecutive failures, not before; once open it blocks every
  caller until the cooldown has passed, and then it lets exactly one probe through, whose success
  closes the circuit and whose failure opens it again with a new cooldown.
\<close>

theorem circuit_life_cycle:
  fixes threshold :: int
  assumes "1 \<le> threshold"
  shows "(int (length ts) < threshold \<longrightarrow>
      state (snd (circuit_run threshold duration (failures_at ts) closed_circuit)) = Closed) \<and>
    (int (length ts) + 1 = threshold \<longrightarrow>
      snd (circuit_run threshold duration (failures_at (ts @ [t])) closed_circuit) = opened threshold t) \<and>
    ((\<forall>u \<in> set us. u - t \<le> duration) \<longrightarrow>
      fst (circuit_run threshold duration (polls_of us) (opened n t)) = map (\<lambda>u. Some True) us) \<and>
    answers_false (fst (circuit_run threshold duration (polls_of us) (opened n t))) \<le> 1 \<and>
    (state d = HalfOpen \<longrightarrow> snd (circuit_step threshold duration RecordFailure t d) = opened (failures d + 1) t) \<and>
    snd (circuit_step threshold duration RecordSuccess t d) = closed_circuit"
proof (intro conjI impI)
  assume "int (length ts) < threshold"
  then show "state (snd (circuit_run threshold duration (failures_at ts) closed_circuit)) = Closed"
    using failures_below [of closed_circuit ts threshold duration] by (simp add: closed_circuit_def)
next
  assume *: "int (length ts) + 1 = threshold"
  define d' where "d' = snd (circuit_run threshold duration (failures_at ts) closed_circuit)"
  have d': "d' = (if ts = [] then closed_circuit else closed_circuit\<lparr>failures := int (length ts)\<rparr>)"
    using * failures_below [of closed_circuit ts threshold duration] by (simp add: d'_def closed_circuit_def)
  then have "snd (circuit_step threshold duration RecordFailure t d') = opened threshold t"
    using * by (auto simp: closed_circuit_def)
  then show "snd (circuit_run threshold duration (failures_at (ts @ [t])) closed_circuit) = opened threshold t"
    by (simp add: circuit_run_append d'_def split_beta)
next
  assume "\<forall>u \<in> set us. u - t \<le> duration"
  then show "fst (circuit_run threshold duration (polls_of us) (opened n t)) = map (\<lambda>u. Some True) us"
    using cooling_blocks [of "opened n t" t us duration threshold] by (simp add: opened_def)
next
  show "answers_false (fst (circuit_run threshold duration (polls_of us) (opened n t))) \<le> 1"
    using one_probe [of "opened n t"] by (simp add: opened_def)
qed simp_all

theorem circuit_life_cycle_witness:
  "snd (circuit_run 3 100 (failures_at ([1, 2] @ [3])) closed_circuit) = opened 3 3 \<and>
   answers_false (fst (circuit_run 3 100 (polls_of [50, 104, 105]) (opened 3 3))) \<le> 1"
  using circuit_life_cycle [of 3 "[1, 2]" 100 3 "[50, 104, 105]" 3 closed_circuit]
  by (simp del: circuit_step.simps circuit_run.simps list.map append_Cons)

definition demo_late :: "(breaker_op \<times> env) list" where
  "demo_late = [(RecordFailure, working 1), (RecordFailure, working 2), (RecordFailure, working 3),
     (IsOpen, working 200), (RecordFailure, working 201), (IsOpen, working 202),
     (RecordFailure, working 203), (IsOpen, working 204)]"

lemma late_run: "fst (breaker_run (map (Pair key) demo_late) (new_breaker None (Some 100) Map.empty)) =
    [None, None, None, Some False, None, Some True, None, Some False]"
proof -
  have "represents key (new_breaker None (Some 100) Map.empty) closed_circuit"
    by (rule fresh_represents) simp
  from run_refines [OF this, of demo_late]
  have "fst (breaker_run (map (Pair key) demo_late) (new_breaker None (Some 100) Map.empty)) =
      fst (circuit_run 3 100 (map (\<lambda>(op, e). (op, now e)) demo_late) closed_circuit)"
    by (auto simp: new_breaker_def DEFAULT_FAILURE_THRESHOLD_def)
  also have "\<dots> = [None, None, None, Some False, None, Some True, None, Some False]"
    by (simp add: demo_late_def working_def closed_circuit_def opened_def)
  finally show ?thesis .
qed

text \<open>
  A failure that arrives late, after the circuit was opened again, closes it: the failure count
  restarted at zero with the probe, so the late failure is below the threshold and the code writes
  \<open>closed\<close>, and the next caller is let through in the middle of the cooldown.
\<close>

theorem late_failure_closes_open_circuit:
  assumes "state d = Open" and "failures d + 1 < threshold"
  shows "state (snd (circuit_step threshold duration RecordFailure t d)) = Closed \<and>
    fst (circuit_step threshold duration IsOpen t' (snd (circuit_step threshold duration RecordFailure t d))) = Some False \<and>
    fst (breaker_run (map (Pair key) demo_late) (new_breaker None (Some 100) Map.empty)) =
      [None, None, None, Some False, None, Some True, None, Some False]"
  using assms by (simp add: late_run closed_circuit_def)

theorem late_failure_closes_open_circuit_witness:
  "state (snd (circuit_step 3 100 RecordFailure 203 (opened 1 201))) = Closed"
  using late_failure_closes_open_circuit [of "opened 1 201" 3] by (simp add: opened_def)

text \<open>
  After a failed write the state of a circuit lives in memory only, and the next successful read
  of any other provider's file brings the stale file of the first one back: the failure is forgotten.
\<close>

theorem other_provider_revives_stale_state:
  assumes "storageAvailable b = False" "inMemoryState b key = Some d" "storage b key = Some (Stored old)"
    and "other \<noteq> key" "inMemoryState b other = None" "storage b other = Some (Stored x)"
    and "read_throws e = False" "read_throws e' = False"
  shows "fst (load key e b) = d \<and> fst (load key e' (snd (load other e b))) = old"
  using assms by (simp add: load_def from_memory_def)

definition demo_breaker :: CircuitBreaker where
  "demo_breaker = recordFailure ''a'' ((working 1)\<lparr>write_fails := (\<lambda>n. Some (Some (Stored closed_circuit)))\<rparr>)
     (new_breaker (Some 1) None (\<lambda>k. Some (Stored closed_circuit)))"

theorem other_provider_revives_stale_state_witness:
  "fst (isOpen ''a'' (working 3) demo_breaker) = True \<and>
   fst (isOpen ''a'' (working 3) (snd (isOpen ''b'' (working 2) demo_breaker))) = False"
  using other_provider_revives_stale_state [of demo_breaker "''a''" "opened 1 1" closed_circuit "''b''" closed_circuit
      "working 2" "working 3"]
    other_provider_revives_stale_state [of demo_breaker "''a''" "opened 1 1" closed_circuit "''b''" closed_circuit
      "working 3" "working 3"]
  by (simp add: demo_breaker_def recordFailure_def new_breaker_def load_def setState_def working_def isOpen_def
      from_memory_def closed_circuit_def opened_def Let_def DEFAULT_OPEN_DURATION_MS_def)


section \<open>The promise-chain lock\<close>

text \<open>
  \<open>withLock\<close> for one provider.  An operation waits for the tail it found in \<open>locks\<close> (\<open>waits_for\<close>) and
  becomes the new tail; it runs its body once that tail has settled, and the \<open>finally\<close> block
  releases it and clears the tail if it is still its own.  \<open>Expire\<close> is the failsafe timer of an
  operation that has not finished.
\<close>

record lock_chain =
  lock_tail :: "nat option"
  waits_for :: "nat \<rightharpoonup> nat option"
  begun :: "nat list"
  ended :: "nat list"

definition no_locks :: lock_chain where
  "no_locks = \<lparr>lock_tail = None, waits_for = Map.empty, begun = [], ended = []\<rparr>"

definition request :: "nat \<Rightarrow> lock_chain \<Rightarrow> lock_chain" where
  "request i l = l\<lparr>waits_for := (waits_for l)(i \<mapsto> lock_tail l), lock_tail := Some i\<rparr>"

definition may_begin :: "nat \<Rightarrow> lock_chain \<Rightarrow> bool" where
  "may_begin i l \<longleftrightarrow> i \<notin> set (begun l) \<and>
     (case waits_for l i of None \<Rightarrow> False | Some None \<Rightarrow> True | Some (Some p) \<Rightarrow> p \<in> set (ended l))"

definition begin_body :: "nat \<Rightarrow> lock_chain \<Rightarrow> lock_chain" where
  "begin_body i l = l\<lparr>begun := begun l @ [i]\<rparr>"

definition end_body :: "nat \<Rightarrow> lock_chain \<Rightarrow> lock_chain" where
  "end_body i l = l\<lparr>ended := ended l @ [i], lock_tail := (if lock_tail l = Some i then None else lock_tail l)\<rparr>"

definition expire :: "nat \<Rightarrow> lock_chain \<Rightarrow> lock_chain" where
  "expire i l = l\<lparr>lock_tail := (if lock_tail l = Some i then None else lock_tail l)\<rparr>"

datatype lock_event = Request nat | Begin nat | End nat | Expire nat

inductive lock_run :: "lock_event list \<Rightarrow> lock_chain \<Rightarrow> bool" where
  idle: "lock_run [] no_locks"
| requested: "lock_run es l \<Longrightarrow> waits_for l i = None \<Longrightarrow> lock_run (es @ [Request i]) (request i l)"
| began: "lock_run es l \<Longrightarrow> may_begin i l \<Longrightarrow> lock_run (es @ [Begin i]) (begin_body i l)"
| finished: "lock_run es l \<Longrightarrow> i \<in> set (begun l) \<Longrightarrow> i \<notin> set (ended l) \<Longrightarrow> lock_run (es @ [End i]) (end_body i l)"
| expired: "lock_run es l \<Longrightarrow> waits_for l i \<noteq> None \<Longrightarrow> i \<notin> set (ended l) \<Longrightarrow> lock_run (es @ [Expire i]) (expire i l)"

definition requests :: "lock_event list \<Rightarrow> nat list" where
  "requests es = concat (map (\<lambda>e. case e of Request i \<Rightarrow> [i] | _ \<Rightarrow> []) es)"

definition timer_fired :: "lock_event list \<Rightarrow> bool" where
  "timer_fired es \<longleftrightarrow> list_ex (\<lambda>e. case e of Expire i \<Rightarrow> True | _ \<Rightarrow> False) es"

text \<open>The operations run in request order: \<open>k\<close> have ended and at most the next one has begun.\<close>

definition chain_inv :: "nat list \<Rightarrow> lock_chain \<Rightarrow> nat \<Rightarrow> bool" where
  "chain_inv rs l k \<longleftrightarrow> k \<le> length rs \<and> distinct rs \<and> ended l = take k rs \<and>
     (begun l = take k rs \<or> k < length rs \<and> begun l = take (Suc k) rs) \<and>
     dom (waits_for l) = set rs \<and>
     (\<forall>j. k < j \<and> j < length rs \<longrightarrow> waits_for l (rs ! j) = Some (Some (rs ! (j - 1)))) \<and>
     (k < length rs \<longrightarrow> waits_for l (rs ! k) = Some None \<or> 0 < k \<and> waits_for l (rs ! k) = Some (Some (rs ! (k - 1)))) \<and>
     lock_tail l = (if k = length rs then None else Some (last rs))"

lemma request_inv:
  assumes "chain_inv rs l k" "waits_for l i = None"
  shows "chain_inv (rs @ [i]) (request i l) k"
proof -
  have "i \<notin> set rs" using assms by (metis chain_inv_def domIff)
  then show ?thesis
    using assms(1)
    by (auto simp: chain_inv_def request_def nth_append last_conv_nth less_Suc_eq)
qed

lemma begin_inv:
  assumes "chain_inv rs l k" "may_begin i l"
  shows "chain_inv rs (begin_body i l) k"
proof -
  have inv: "distinct rs" "ended l = take k rs" "dom (waits_for l) = set rs" using assms(1) by (auto simp: chain_inv_def)
  have "i \<in> set rs" "i \<notin> set (begun l)"
    using assms(2) inv(3) by (auto simp: may_begin_def dom_def split: option.splits)
  then obtain j where j: "i = rs ! j" "j < length rs" by (metis in_set_conv_nth)
  have "set (take k rs) \<subseteq> set (begun l)"
    using assms(1) set_take_subset_set_take [of k "Suc k" rs] by (auto simp: chain_inv_def)
  with \<open>i \<notin> set (begun l)\<close> j have "k \<le> j" by (metis in_set_conv_nth leI length_take min.absorb4 min_less_iff_conj nth_take subsetD)
  moreover have "\<not> k < j"
  proof
    assume "k < j"
    with assms(1) j have "waits_for l i = Some (Some (rs ! (j - 1)))" by (auto simp: chain_inv_def)
    with assms(2) inv(2) have "rs ! (j - 1) \<in> set (take k rs)" by (simp add: may_begin_def)
    then obtain m where "m < k" "m < length rs" "rs ! m = rs ! (j - 1)" by (auto simp: in_set_conv_nth)
    with inv(1) j(2) \<open>k < j\<close> show False by (simp add: nth_eq_iff_index_eq)
  qed
  ultimately have "i = rs ! k" "k < length rs" using j by auto
  with \<open>i \<notin> set (begun l)\<close> assms(1) show ?thesis
    by (auto simp: chain_inv_def begin_body_def take_Suc_conv_app_nth)
qed

lemma end_inv:
  assumes "chain_inv rs l k" "i \<in> set (begun l)" "i \<notin> set (ended l)"
  shows "chain_inv rs (end_body i l) (Suc k)"
proof -
  have k: "k < length rs" "begun l = take (Suc k) rs" "ended l = take k rs"
    using assms by (auto simp: chain_inv_def)
  with assms(2,3) have i: "i = rs ! k" by (auto simp: take_Suc_conv_app_nth)
  show ?thesis
  proof (cases "Suc k = length rs")
    case True
    with i k have "i = last rs" by (metis diff_Suc_1 last_conv_nth list.size(3) not_less_zero)
    moreover have "take k rs @ [rs ! k] = rs" using k(1) True by (metis order_refl take_Suc_conv_app_nth take_all)
    ultimately show ?thesis using True assms(1) k i by (auto simp: chain_inv_def end_body_def)
  next
    case False
    have "rs \<noteq> []" using k(1) by auto
    with False assms(1) k(1) i have "last rs \<noteq> i"
      by (auto simp: chain_inv_def last_conv_nth nth_eq_iff_index_eq)
    with False assms(1) k i show ?thesis
      by (auto simp: chain_inv_def end_body_def take_Suc_conv_app_nth)
  qed
qed

lemma event_lists [simp]:
  "requests [] = []" "requests (es @ [Request i]) = requests es @ [i]" "requests (es @ [Begin i]) = requests es"
  "requests (es @ [End i]) = requests es" "requests (es @ [Expire i]) = requests es"
  "timer_fired (es @ [Request i]) = timer_fired es" "timer_fired (es @ [Begin i]) = timer_fired es"
  "timer_fired (es @ [End i]) = timer_fired es" "timer_fired (es @ [Expire i])"
  by (simp_all add: requests_def timer_fired_def)

lemma chain_reachable: "lock_run es l \<Longrightarrow> \<not> timer_fired es \<Longrightarrow> \<exists>k. chain_inv (requests es) l k"
proof (induction rule: lock_run.induct)
  case idle
  then show ?case by (auto simp: chain_inv_def no_locks_def)
next
  case (requested es l i)
  then show ?case by (auto dest: request_inv)
next
  case (began es l i)
  then show ?case by (auto dest: begin_inv)
next
  case (finished es l i)
  then show ?case by (auto dest: end_inv)
qed simp

text \<open>
  The operations on one provider exclude each other and run in the order they were requested, as
  long as no operation outlives the cleanup timer; and as soon as the operations before it have
  ended, the next one may begin, so no request waits for ever.
\<close>

theorem provider_lock_serializes:
  assumes "lock_run es l" and "\<not> timer_fired es"
  shows "\<exists>k \<le> length (requests es). ended l = take k (requests es) \<and>
    (begun l = ended l \<or> k < length (requests es) \<and> begun l = ended l @ [requests es ! k]) \<and>
    (begun l = ended l \<and> k < length (requests es) \<longrightarrow> may_begin (requests es ! k) l)"
proof -
  obtain k where inv: "chain_inv (requests es) l k" using chain_reachable [OF assms] by blast
  let ?rs = "requests es"
  have "may_begin (?rs ! k) l" if "begun l = ended l" "k < length ?rs"
  proof -
    have "?rs ! k \<notin> set (begun l)"
      using inv that by (auto simp: chain_inv_def in_set_conv_nth nth_eq_iff_index_eq)
    moreover have "0 < k \<Longrightarrow> ?rs ! (k - 1) \<in> set (ended l)"
      using inv that(2) by (auto simp: chain_inv_def in_set_conv_nth intro!: exI [of _ "k - 1"])
    ultimately show ?thesis using inv that(2) by (auto simp: may_begin_def chain_inv_def)
  qed
  then show ?thesis
    using inv by (intro exI [of _ k]) (auto simp: chain_inv_def take_Suc_conv_app_nth)
qed

definition demo_lock_events :: "lock_event list" where
  "demo_lock_events = ((([] @ [Request 1]) @ [Request 2]) @ [Begin 1]) @ [End 1]"

definition demo_lock :: lock_chain where
  "demo_lock = end_body 1 (begin_body 1 (request 2 (request 1 no_locks)))"

lemma demo_lock_run: "lock_run demo_lock_events demo_lock"
  unfolding demo_lock_events_def demo_lock_def
  by (intro lock_run.intros)
    (simp_all add: no_locks_def request_def begin_body_def may_begin_def)

theorem provider_lock_serializes_witness:
  "\<exists>k \<le> length (requests demo_lock_events). ended demo_lock = take k (requests demo_lock_events)"
  using provider_lock_serializes [OF demo_lock_run] by (auto simp: demo_lock_events_def timer_fired_def)

end
