(* ===== verification/Checkpoint.thy ===== *)
theory Checkpoint
  imports Prelude
begin

text \<open>
  \<open>src/review-execution/domain/review-checkpoint.ts\<close>: the vocabulary of durable review checkpoints
  that the session and its client share.  The validation library \<open>zod\<close> is not part of the
  repository: \<open>parse_plan\<close> stands for \<open>reviewCheckpointPlanIdentitySchema.parse\<close>, and what the code
  relies on is the hypothesis \<open>schema_enforced\<close>, that a parse that succeeds returns the value it was
  given and has checked the constraints that the schema declares (\<open>plan_schema\<close>).  The payload of a
  batch stays abstract (\<open>'p\<close>): the session only stores and compares payloads.
\<close>

section \<open>Statuses and limits\<close>

definition GIT_SHA_LENGTH :: nat where
  "GIT_SHA_LENGTH = 40"

definition HASH_LENGTH :: nat where
  "HASH_LENGTH = 64"

definition MAX_PLANNED_WORK_KEYS :: nat where
  "MAX_PLANNED_WORK_KEYS = 200"

definition REVIEW_CHECKPOINT_PROTOCOL_VERSION :: int where
  "REVIEW_CHECKPOINT_PROTOCOL_VERSION = 1"

datatype StartStatus = Started | Replaced | StartIdempotent

datatype BatchResultStatus = BatchAccepted | BatchIdempotent

datatype FinalizeStatus = FinalizeFinalized | FinalizeIdempotent

section \<open>Plans, records and results\<close>

record PlanIdentity =
  pullRequestNumber :: int
  baseSha :: string
  headSha :: string
  compatibilityKey :: string
  planHash :: string
  workKeys :: "string list"

record 'p CheckpointRecord =
  version :: int
  checkpoint_plan :: PlanIdentity
  recordedResults :: "(string \<times> 'p) list"
  checkpoint_finalized :: bool

datatype 'p RestoreResult = RestoreMissing int | RestoreFound int "'p CheckpointRecord"

fun restored_expectedVersion :: "'p RestoreResult \<Rightarrow> int" where
  "restored_expectedVersion (RestoreMissing v) = v"
| "restored_expectedVersion (RestoreFound v r) = v"

text \<open>Acknowledgements carry the version, the head and the plan hash, and for a batch its work key.\<close>

datatype StartResult = StartAcknowledged StartStatus int string string | StartConflict int

datatype BatchResult = BatchAcknowledged BatchResultStatus int string string string | BatchConflict int

datatype FinalizeResult = FinalizeAcknowledged FinalizeStatus int string string | FinalizeConflict int

record FinalizationMarker =
  marker_protocolVersion :: int
  marker_pullRequestNumber :: int
  marker_headSha :: string
  marker_planHash :: string
  marker_expectedVersion :: int
  snapshotAdvancementRequired :: bool

section \<open>The client port\<close>

record RestoreInput =
  restore_pullRequestNumber :: int
  restore_baseSha :: string
  restore_headSha :: string
  restore_compatibilityKey :: string
  restore_planHash :: string

record 'p CommitInput =
  commit_expectedVersion :: int
  commit_pullRequestNumber :: int
  commit_headSha :: string
  commit_planHash :: string
  commit_workKey :: string
  commit_batchId :: string
  commit_batchIndex :: int
  commit_payload :: 'p

record FinalizeInput =
  finalize_expectedVersion :: int
  finalize_pullRequestNumber :: int
  finalize_headSha :: string
  finalize_planHash :: string

text \<open>A client is a state of type \<open>'c\<close> (the service behind it, and whatever its answers depend on)
  with operations that answer or reject, and change that state.\<close>

record ('c, 'p) ClientPort =
  call_restore :: "RestoreInput \<Rightarrow> 'c \<Rightarrow> 'p RestoreResult res \<times> 'c"
  call_start :: "int \<Rightarrow> PlanIdentity \<Rightarrow> 'c \<Rightarrow> StartResult res \<times> 'c"
  call_commit :: "'p CommitInput \<Rightarrow> 'c \<Rightarrow> BatchResult res \<times> 'c"
  call_finalize :: "FinalizeInput \<Rightarrow> 'c \<Rightarrow> FinalizeResult res \<times> 'c"

section \<open>Plan identities\<close>

definition plan_schema :: "PlanIdentity \<Rightarrow> bool" where
  "plan_schema p \<longleftrightarrow>
     0 < pullRequestNumber p \<and>
     is_digest_ci GIT_SHA_LENGTH (baseSha p) \<and> is_digest_ci GIT_SHA_LENGTH (headSha p) \<and>
     is_digest_ci HASH_LENGTH (compatibilityKey p) \<and> is_digest_ci HASH_LENGTH (planHash p) \<and>
     list_all (is_digest_ci HASH_LENGTH) (workKeys p) \<and> length (workKeys p) \<le> MAX_PLANNED_WORK_KEYS \<and>
     length (js_set (map js_lower (workKeys p))) = length (workKeys p)"

definition schema_enforced :: "(PlanIdentity \<Rightarrow> PlanIdentity res) \<Rightarrow> bool" where
  "schema_enforced parse_plan \<longleftrightarrow> (\<forall>p q. parse_plan p = Inr q \<longrightarrow> q = p \<and> plan_schema p)"

definition createReviewCheckpointPlanIdentity ::
    "(PlanIdentity \<Rightarrow> PlanIdentity res) \<Rightarrow> PlanIdentity \<Rightarrow> PlanIdentity res" where
  "createReviewCheckpointPlanIdentity parse_plan input =
     rbind (parse_plan input) (\<lambda>parsed. Inr (parsed
       \<lparr>baseSha := js_lower (baseSha parsed), headSha := js_lower (headSha parsed),
        compatibilityKey := js_lower (compatibilityKey parsed), planHash := js_lower (planHash parsed),
        workKeys := map js_lower (workKeys parsed)\<rparr>))"

definition checkpointPlansMatch :: "PlanIdentity \<Rightarrow> PlanIdentity \<Rightarrow> bool" where
  "checkpointPlansMatch l r \<longleftrightarrow>
     pullRequestNumber l = pullRequestNumber r \<and> baseSha l = baseSha r \<and> headSha l = headSha r \<and>
     compatibilityKey l = compatibilityKey r \<and> planHash l = planHash r \<and>
     length (workKeys l) = length (workKeys r) \<and>
     list_all2 (=) (workKeys l) (workKeys r)"

lemma plansMatch_eq: "checkpointPlansMatch l r \<longleftrightarrow> l = r"
  by (auto simp: checkpointPlansMatch_def list.rel_eq intro: PlanIdentity.equality)

text \<open>A plan in the form the session works with: lower case, and planned keys are distinct.\<close>

definition plan_ok :: "PlanIdentity \<Rightarrow> bool" where
  "plan_ok p \<longleftrightarrow> distinct (workKeys p) \<and> length (workKeys p) \<le> MAX_PLANNED_WORK_KEYS \<and>
     is_digest GIT_SHA_LENGTH (headSha p) \<and> is_digest HASH_LENGTH (planHash p) \<and>
     list_all (is_digest HASH_LENGTH) (workKeys p)"

lemma createPlan_ok:
  assumes "schema_enforced parse_plan" "createReviewCheckpointPlanIdentity parse_plan input = Inr plan"
  shows "plan_ok plan"
proof -
  from assms have "plan_schema input" "plan = input
       \<lparr>baseSha := js_lower (baseSha input), headSha := js_lower (headSha input),
        compatibilityKey := js_lower (compatibilityKey input), planHash := js_lower (planHash input),
        workKeys := map js_lower (workKeys input)\<rparr>"
    by (auto simp: schema_enforced_def createReviewCheckpointPlanIdentity_def res_simps)
  then show ?thesis
    using length_js_set_eq [of "map js_lower (workKeys input)"]
    by (auto simp: plan_ok_def plan_schema_def list_all_iff is_digest_lower)
qed

end
