(* ===== verification/Checkpoint_Session.thy ===== *)
theory Checkpoint_Session
  imports Checkpoint
begin

text \<open>
  \<open>src/review-execution/application/review-checkpoint-session.ts\<close>: the session that stores the
  result of each finished batch with the checkpoint service and finalises the checkpoint.  It fails
  open: whatever goes wrong, it disables itself and the review goes on.  The client and the marker
  writer are the ports of the domain; \<open>normalize\<close> and \<open>matches\<close> stand for
  \<open>normalizeReviewCheckpointBatchPayload\<close> and \<open>checkpointPayloadsMatch\<close> of \<open>review-checkpoint.ts\<close>, so the
  results hold for every payload type.  \<open>enqueue\<close> runs one operation after the other, so an
  operation is a function from session and client state to answer, session and client state.
\<close>

section \<open>State\<close>

datatype 'p CommitAnswer = CommitAccepted int 'p | CommitIdempotent int 'p | CommitDisabled

datatype FinalizeAnswer =
    SessionFinalized int bool
  | SessionIdempotent int bool
  | SessionIncomplete "string list"
  | SessionDisabled

record 'p Session =
  plan :: PlanIdentity
  expectedVersion :: int
  acceptedResults :: "(string \<times> 'p) list"
  finalized :: bool
  disabled :: bool
  warnings :: "string list"

text \<open>What a session is opened with, besides the plan: the client, the marker writer (if any), whether there
  is a logger, and the two functions of the payload module.\<close>

record ('c, 'p, 'i) SessionEnv =
  client :: "('c, 'p) ClientPort"
  markerWriter :: "(FinalizationMarker \<Rightarrow> 'c \<Rightarrow> unit res \<times> 'c) option"
  has_logger :: bool
  normalize :: "'i \<Rightarrow> 'p res"
  matches :: "'p \<Rightarrow> 'p \<Rightarrow> bool"

section \<open>Helpers\<close>

definition isValidVersionAcknowledgement :: "int \<Rightarrow> int \<Rightarrow> bool \<Rightarrow> bool" where
  "isValidVersionAcknowledgement acknowledged expected idempotent =
     (if idempotent then acknowledged \<ge> expected else acknowledged = expected + 1)"

definition restoreInput :: "PlanIdentity \<Rightarrow> RestoreInput" where
  "restoreInput p = \<lparr>restore_pullRequestNumber = pullRequestNumber p, restore_baseSha = baseSha p,
     restore_headSha = headSha p, restore_compatibilityKey = compatibilityKey p, restore_planHash = planHash p\<rparr>"

fun index_by_work_key :: "PlanIdentity \<Rightarrow> (string \<times> 'p) list \<Rightarrow> (string \<times> 'p) list \<Rightarrow> (string \<times> 'p) list option" where
  "index_by_work_key p byWorkKey [] = Some byWorkKey"
| "index_by_work_key p byWorkKey ((key, payload) # rest) =
     (let workKey = js_lower key
      in if workKey \<notin> set (workKeys p) \<or> map_of byWorkKey workKey \<noteq> None then None
         else index_by_work_key p (AList.update workKey payload byWorkKey) rest)"

text \<open>The entries of a map, in plan order: \<open>plan.workKeys.flatMap(key => ...)\<close>.\<close>

definition in_plan_order :: "PlanIdentity \<Rightarrow> (string \<times> 'p) list \<Rightarrow> (string \<times> 'p) list" where
  "in_plan_order p m = concat (map (\<lambda>key. case map_of m key of None \<Rightarrow> [] | Some x \<Rightarrow> [(key, x)]) (workKeys p))"

definition acceptedResultsInPlanOrder :: "PlanIdentity \<Rightarrow> 'p CheckpointRecord \<Rightarrow> (string \<times> 'p) list option" where
  "acceptedResultsInPlanOrder p checkpoint =
     map_option (in_plan_order p) (index_by_work_key p [] (recordedResults checkpoint))"

definition is_checkpoint_reason :: "string \<Rightarrow> bool" where
  "is_checkpoint_reason m \<longleftrightarrow> take 18 m = ''review_checkpoint_'' \<and> length m > 18 \<and>
     list_all (\<lambda>c. is_lower c \<or> c = CHR ''_'') (drop 18 m)"

fun safeFailureReason :: "js_error \<Rightarrow> string" where
  "safeFailureReason (JsError m) = (if is_checkpoint_reason m then m else ''unexpected_checkpoint_error'')"

definition warn_text :: "string \<Rightarrow> string" where
  "warn_text reason = ''Hosted review checkpoint unavailable; continuing without durable batch persistence ('' @
     take 120 reason @ '').''"

definition warnFailOpen :: "('c, 'p, 'i) SessionEnv \<Rightarrow> string \<Rightarrow> string list \<Rightarrow> string list" where
  "warnFailOpen env reason logged = (if has_logger env then logged @ [warn_text reason] else logged)"

definition disable :: "('c, 'p, 'i) SessionEnv \<Rightarrow> string \<Rightarrow> 'p Session \<Rightarrow> 'p Session" where
  "disable env reason s =
     (if disabled s then s else s\<lparr>disabled := True, warnings := warnFailOpen env reason (warnings s)\<rparr>)"

definition setAcceptedResult :: "string \<Rightarrow> 'p \<Rightarrow> 'p Session \<Rightarrow> 'p Session" where
  "setAcceptedResult workKey payload s =
     s\<lparr>acceptedResults := in_plan_order (plan s) (AList.update workKey payload (acceptedResults s))\<rparr>"

fun index_of :: "'a list \<Rightarrow> 'a \<Rightarrow> int" where
  "index_of [] x = -1"
| "index_of (y # ys) x = (if y = x then 0 else let i = index_of ys x in if i < 0 then -1 else i + 1)"

section \<open>Opening a session\<close>

text \<open>\<open>open\<close> answers a session, or \<open>None\<close> when the review has to go on without one; the warnings of
  a failed opening are returned beside it.  Only an invalid plan is thrown.\<close>

definition new_session :: "PlanIdentity \<Rightarrow> int \<Rightarrow> (string \<times> 'p) list \<Rightarrow> bool \<Rightarrow> 'p Session" where
  "new_session p v results fin = \<lparr>plan = p, expectedVersion = v, acceptedResults = results, finalized = fin,
     disabled = False, warnings = []\<rparr>"

definition open_started :: "('c, 'p, 'i) SessionEnv \<Rightarrow> PlanIdentity \<Rightarrow> int \<Rightarrow> 'c \<Rightarrow>
    ('p Session option \<times> string list) \<times> 'c" where
  "open_started env p expected c =
     (let (started, c1) = call_start (client env) expected p c
      in case started of
           Inl e \<Rightarrow> ((None, warnFailOpen env (safeFailureReason e) []), c1)
         | Inr (StartConflict v) \<Rightarrow> ((None, warnFailOpen env ''start_version_conflict'' []), c1)
         | Inr (StartAcknowledged status v head hash) \<Rightarrow>
             if js_lower head \<noteq> headSha p \<or> js_lower hash \<noteq> planHash p \<or>
                \<not> isValidVersionAcknowledgement v expected (status = StartIdempotent)
             then ((None, warnFailOpen env ''invalid_start_acknowledgement'' []), c1)
             else ((Some (new_session p v [] False), []), c1))"

definition open_session :: "(PlanIdentity \<Rightarrow> PlanIdentity res) \<Rightarrow> ('c, 'p, 'i) SessionEnv \<Rightarrow> PlanIdentity \<Rightarrow> 'c \<Rightarrow>
    (('p Session option \<times> string list) \<times> 'c) res" where
  "open_session parse_plan env input c =
     rbind (createReviewCheckpointPlanIdentity parse_plan input) (\<lambda>p. Inr
       (let (restored, c1) = call_restore (client env) (restoreInput p) c
        in case restored of
             Inl e \<Rightarrow> ((None, warnFailOpen env (safeFailureReason e) []), c1)
           | Inr (RestoreMissing v) \<Rightarrow> open_started env p v c1
           | Inr (RestoreFound v checkpoint) \<Rightarrow>
               if checkpointPlansMatch (checkpoint_plan checkpoint) p
               then (case acceptedResultsInPlanOrder p checkpoint of
                       None \<Rightarrow> ((None, warnFailOpen env ''invalid_restored_checkpoint'' []), c1)
                     | Some results \<Rightarrow>
                         if v \<noteq> version checkpoint \<or>
                            (checkpoint_finalized checkpoint \<and> length results \<noteq> length (workKeys p))
                         then ((None, warnFailOpen env ''invalid_restored_checkpoint'' []), c1)
                         else ((Some (new_session p v results (checkpoint_finalized checkpoint)), []), c1))
               else open_started env p v c1))"

section \<open>Committing a batch\<close>

definition sendBatchResult :: "('c, 'p, 'i) SessionEnv \<Rightarrow> string \<Rightarrow> 'p \<Rightarrow> 'p Session \<Rightarrow> 'c \<Rightarrow> BatchResult res \<times> 'c" where
  "sendBatchResult env workKey payload s c =
     call_commit (client env)
       \<lparr>commit_expectedVersion = expectedVersion s, commit_pullRequestNumber = pullRequestNumber (plan s),
        commit_headSha = headSha (plan s), commit_planHash = planHash (plan s), commit_workKey = workKey,
        commit_batchId = workKey, commit_batchIndex = index_of (workKeys (plan s)) workKey,
        commit_payload = payload\<rparr> c"

definition applyRestoredCheckpoint :: "'p CheckpointRecord \<Rightarrow> int \<Rightarrow> 'p Session \<Rightarrow> 'p Session option" where
  "applyRestoredCheckpoint checkpoint expected s =
     (case acceptedResultsInPlanOrder (plan s) checkpoint of
        None \<Rightarrow> None
      | Some results \<Rightarrow>
          if version checkpoint \<noteq> expected \<or>
             (checkpoint_finalized checkpoint \<and> length results \<noteq> length (workKeys (plan s)))
          then None
          else Some (s\<lparr>expectedVersion := expected, acceptedResults := results,
                       finalized := checkpoint_finalized checkpoint\<rparr>))"

datatype Reconciled = ReconcileAccepted | ReconcileIdempotent | ReconcileDisabled

text \<open>\<open>reconcileAfterConflict\<close>; a rejected \<open>restore\<close> is thrown to the caller.\<close>

definition reconcileAfterConflict :: "('c, 'p, 'i) SessionEnv \<Rightarrow> string \<Rightarrow> 'p \<Rightarrow> 'p Session \<Rightarrow> 'c \<Rightarrow>
    (Reconciled res \<times> 'p Session) \<times> 'c" where
  "reconcileAfterConflict env workKey payload s c =
     (let (restored, c1) = call_restore (client env) (restoreInput (plan s)) c
      in case restored of
           Inl e \<Rightarrow> ((Inl e, s), c1)
         | Inr (RestoreMissing v) \<Rightarrow>
             ((Inr ReconcileDisabled, disable env ''checkpoint_plan_changed_during_reconcile'' s), c1)
         | Inr (RestoreFound v checkpoint) \<Rightarrow>
             if \<not> checkpointPlansMatch (checkpoint_plan checkpoint) (plan s)
             then ((Inr ReconcileDisabled, disable env ''checkpoint_plan_changed_during_reconcile'' s), c1)
             else case applyRestoredCheckpoint checkpoint v s of
                    None \<Rightarrow> ((Inr ReconcileDisabled, disable env ''invalid_reconciled_checkpoint'' s), c1)
                  | Some s1 \<Rightarrow>
                      (case map_of (acceptedResults s1) workKey of
                         None \<Rightarrow> if finalized s1
                           then ((Inr ReconcileDisabled, disable env ''finalized_checkpoint_missing_batch'' s1), c1)
                           else ((Inr ReconcileAccepted, s1), c1)
                       | Some accepted \<Rightarrow> if \<not> matches env accepted payload
                           then ((Inr ReconcileDisabled, disable env ''checkpoint_batch_payload_changed'' s1), c1)
                           else ((Inr ReconcileIdempotent, s1), c1)))"

text \<open>What happens to an answer of the service that is not retried any more.\<close>

definition finish_commit :: "('c, 'p, 'i) SessionEnv \<Rightarrow> string \<Rightarrow> 'p \<Rightarrow> BatchResult res \<Rightarrow> 'p Session \<Rightarrow>
    'p CommitAnswer \<times> 'p Session" where
  "finish_commit env workKey payload result s =
     (case result of
        Inl e \<Rightarrow> (CommitDisabled, disable env (safeFailureReason e) s)
      | Inr (BatchConflict v) \<Rightarrow> (CommitDisabled, disable env ''repeated_version_conflict'' s)
      | Inr (BatchAcknowledged status v head hash key) \<Rightarrow>
          if \<not> (js_lower head = headSha (plan s) \<and> js_lower hash = planHash (plan s) \<and> js_lower key = workKey) \<or>
             \<not> isValidVersionAcknowledgement v (expectedVersion s) (status = BatchIdempotent)
          then (CommitDisabled, disable env ''mismatched_batch_acknowledgement'' s)
          else let s1 = setAcceptedResult workKey payload (s\<lparr>expectedVersion := v\<rparr>)
               in (if status = BatchIdempotent then CommitIdempotent v payload else CommitAccepted v payload, s1))"

definition commitSuccessfulBatchNow :: "('c, 'p, 'i) SessionEnv \<Rightarrow> string \<Rightarrow> 'i \<Rightarrow> 'p Session \<Rightarrow> 'c \<Rightarrow>
    ('p CommitAnswer \<times> 'p Session) \<times> 'c" where
  "commitSuccessfulBatchNow env rawKey input s c =
     (if disabled s \<or> finalized s then ((CommitDisabled, s), c)
      else let workKey = js_lower rawKey
           in if workKey \<notin> set (workKeys (plan s))
              then ((CommitDisabled, disable env ''unplanned_work_key'' s), c)
              else case normalize env input of
                     Inl e \<Rightarrow> ((CommitDisabled, disable env ''invalid_batch_payload'' s), c)
                   | Inr payload \<Rightarrow>
                       (case map_of (acceptedResults s) workKey of
                          Some existing \<Rightarrow>
                            if \<not> matches env existing payload
                            then ((CommitDisabled, disable env ''non_idempotent_batch_replay'' s), c)
                            else ((CommitIdempotent (expectedVersion s) existing, s), c)
                        | None \<Rightarrow>
                            let (result, c1) = sendBatchResult env workKey payload s c
                            in case result of
                                 Inr (BatchConflict v) \<Rightarrow>
                                   (let ((reconciled, s1), c2) = reconcileAfterConflict env workKey payload s c1
                                    in case reconciled of
                                         Inl e \<Rightarrow> ((CommitDisabled, disable env (safeFailureReason e) s1), c2)
                                       | Inr ReconcileIdempotent \<Rightarrow>
                                           ((CommitIdempotent (expectedVersion s1) payload, s1), c2)
                                       | Inr ReconcileDisabled \<Rightarrow> ((CommitDisabled, s1), c2)
                                       | Inr ReconcileAccepted \<Rightarrow>
                                           (let (result2, c3) = sendBatchResult env workKey payload s1 c2
                                            in (finish_commit env workKey payload result2 s1, c3)))
                               | _ \<Rightarrow> (finish_commit env workKey payload result s, c1)))"

section \<open>Finalising\<close>

definition finalize_input :: "'p Session \<Rightarrow> FinalizeInput" where
  "finalize_input s = \<lparr>finalize_expectedVersion = expectedVersion s,
     finalize_pullRequestNumber = pullRequestNumber (plan s), finalize_headSha = headSha (plan s),
     finalize_planHash = planHash (plan s)\<rparr>"

definition reconcileFinalizationConflict :: "('c, 'p, 'i) SessionEnv \<Rightarrow> 'p Session \<Rightarrow> 'c \<Rightarrow>
    (bool res \<times> 'p Session) \<times> 'c" where
  "reconcileFinalizationConflict env s c =
     (let (restored, c1) = call_restore (client env) (restoreInput (plan s)) c
      in case restored of
           Inl e \<Rightarrow> ((Inl e, s), c1)
         | Inr (RestoreMissing v) \<Rightarrow> ((Inr False, disable env ''checkpoint_changed_during_finalize'' s), c1)
         | Inr (RestoreFound v checkpoint) \<Rightarrow>
             if \<not> checkpointPlansMatch (checkpoint_plan checkpoint) (plan s)
             then ((Inr False, disable env ''checkpoint_changed_during_finalize'' s), c1)
             else case applyRestoredCheckpoint checkpoint v s of
                    None \<Rightarrow> ((Inr False, disable env ''checkpoint_changed_during_finalize'' s), c1)
                  | Some s1 \<Rightarrow>
                      if length (acceptedResults s1) \<noteq> length (workKeys (plan s1))
                      then ((Inr False, disable env ''checkpoint_changed_during_finalize'' s1), c1)
                      else ((Inr True, s1), c1))"

definition writeFinalizationMarker :: "('c, 'p, 'i) SessionEnv \<Rightarrow> bool \<Rightarrow> 'p Session \<Rightarrow> 'c \<Rightarrow>
    (bool \<times> 'p Session) \<times> 'c" where
  "writeFinalizationMarker env required s c =
     (case markerWriter env of
        None \<Rightarrow> ((False, s), c)
      | Some write \<Rightarrow>
          let (r, c1) = write \<lparr>marker_protocolVersion = REVIEW_CHECKPOINT_PROTOCOL_VERSION,
                marker_pullRequestNumber = pullRequestNumber (plan s), marker_headSha = headSha (plan s),
                marker_planHash = planHash (plan s), marker_expectedVersion = expectedVersion s,
                snapshotAdvancementRequired = required\<rparr> c
          in case r of
               Inr u \<Rightarrow> ((True, s), c1)
             | Inl e \<Rightarrow> ((False, s\<lparr>warnings := warnFailOpen env ''finalization_marker_write_failed'' (warnings s)\<rparr>), c1))"

definition finish_finalize :: "('c, 'p, 'i) SessionEnv \<Rightarrow> bool \<Rightarrow> FinalizeResult res \<Rightarrow> 'p Session \<Rightarrow> 'c \<Rightarrow>
    (FinalizeAnswer \<times> 'p Session) \<times> 'c" where
  "finish_finalize env required result s c =
     (case result of
        Inl e \<Rightarrow> ((SessionDisabled, disable env (safeFailureReason e) s), c)
      | Inr (FinalizeConflict v) \<Rightarrow> ((SessionDisabled, disable env ''repeated_finalize_version_conflict'' s), c)
      | Inr (FinalizeAcknowledged status v head hash) \<Rightarrow>
          if js_lower head \<noteq> headSha (plan s) \<or> js_lower hash \<noteq> planHash (plan s) \<or>
             \<not> isValidVersionAcknowledgement v (expectedVersion s) (status = FinalizeIdempotent)
          then ((SessionDisabled, disable env ''mismatched_finalize_acknowledgement'' s), c)
          else let ((written, s1), c1) = writeFinalizationMarker env required (s\<lparr>expectedVersion := v, finalized := True\<rparr>) c
               in ((if status = FinalizeIdempotent then SessionIdempotent (expectedVersion s1) written
                    else SessionFinalized (expectedVersion s1) written, s1), c1))"

definition missingWorkKeys :: "'p Session \<Rightarrow> string list" where
  "missingWorkKeys s = filter (\<lambda>key. map_of (acceptedResults s) key = None) (workKeys (plan s))"

definition finalizeNow :: "('c, 'p, 'i) SessionEnv \<Rightarrow> bool \<Rightarrow> 'p Session \<Rightarrow> 'c \<Rightarrow>
    (FinalizeAnswer \<times> 'p Session) \<times> 'c" where
  "finalizeNow env required s c =
     (if disabled s then ((SessionDisabled, s), c)
      else if length (missingWorkKeys s) > 0 then ((SessionIncomplete (missingWorkKeys s), s), c)
      else let (result, c1) = call_finalize (client env) (finalize_input s) c
           in case result of
                Inr (FinalizeConflict v) \<Rightarrow>
                  (let ((reconciled, s1), c2) = reconcileFinalizationConflict env s c1
                   in case reconciled of
                        Inl e \<Rightarrow> ((SessionDisabled, disable env (safeFailureReason e) s1), c2)
                      | Inr ok \<Rightarrow>
                          if \<not> ok then ((SessionDisabled, s1), c2)
                          else let (result2, c3) = call_finalize (client env) (finalize_input s1) c2
                               in finish_finalize env required result2 s1 c3)
              | _ \<Rightarrow> finish_finalize env required result s c1)"

section \<open>The life of a session\<close>

text \<open>\<open>enqueue\<close> runs the operations in the order they are called, each on the session the previous
  one left.\<close>

datatype 'i SessionOp = Commit string 'i | Finalize bool

fun perform :: "('c, 'p, 'i) SessionEnv \<Rightarrow> 'i SessionOp \<Rightarrow> 'p Session \<times> 'c \<Rightarrow> 'p Session \<times> 'c" where
  "perform env (Commit key input) (s, c) = (let ((a, s1), c1) = commitSuccessfulBatchNow env key input s c in (s1, c1))"
| "perform env (Finalize required) (s, c) = (let ((a, s1), c1) = finalizeNow env required s c in (s1, c1))"

definition session_run :: "('c, 'p, 'i) SessionEnv \<Rightarrow> 'i SessionOp list \<Rightarrow> 'p Session \<times> 'c \<Rightarrow> 'p Session \<times> 'c" where
  "session_run env ops st = foldl (\<lambda>st op. perform env op st) st ops"


section \<open>Invariant\<close>

lemma fst_in_plan_order: "map fst (in_plan_order p m) = filter (\<lambda>k. map_of m k \<noteq> None) (workKeys p)"
proof -
  have "map fst (concat (map (\<lambda>key. case map_of m key of None \<Rightarrow> [] | Some x \<Rightarrow> [(key, x)]) ks)) =
      filter (\<lambda>k. map_of m k \<noteq> None) ks" for ks
    by (induction ks) (auto split: option.split)
  then show ?thesis by (simp add: in_plan_order_def)
qed

lemma map_of_in_plan_order: "map_of (in_plan_order p m) k = (if k \<in> set (workKeys p) then map_of m k else None)"
proof -
  have "map_of (concat (map (\<lambda>key. case map_of m key of None \<Rightarrow> [] | Some x \<Rightarrow> [(key, x)]) ks)) k =
      (if k \<in> set ks then map_of m k else None)" for ks
    by (induction ks) (auto split: option.split)
  then show ?thesis by (simp add: in_plan_order_def)
qed

lemma in_plan_order_cong: "\<forall>k \<in> set (workKeys p). map_of m k = map_of n k \<Longrightarrow> in_plan_order p m = in_plan_order p n"
  unfolding in_plan_order_def by (rule arg_cong [of _ _ concat], rule map_cong) simp_all

lemma in_plan_order_idem [simp]: "in_plan_order p (in_plan_order p m) = in_plan_order p m"
  by (rule in_plan_order_cong) (simp add: map_of_in_plan_order)

text \<open>The accepted results are those of planned keys, in plan order; a finalised session has them all.\<close>

definition session_inv :: "'p Session \<Rightarrow> bool" where
  "session_inv s \<longleftrightarrow> distinct (workKeys (plan s)) \<and>
     in_plan_order (plan s) (acceptedResults s) = acceptedResults s \<and>
     (finalized s \<longrightarrow> length (acceptedResults s) = length (workKeys (plan s)))"

lemma complete_keys: "length (in_plan_order p m) = length (workKeys p) \<longleftrightarrow> map fst (in_plan_order p m) = workKeys p"
  by (metis filter_id_conv fst_in_plan_order length_filter_less length_map nat_neq_iff)

lemma no_missing: "missingWorkKeys s = [] \<Longrightarrow> in_plan_order (plan s) (acceptedResults s) = acceptedResults s \<Longrightarrow>
    length (acceptedResults s) = length (workKeys (plan s))"
  by (metis (mono_tags, lifting) complete_keys empty_filter_conv filter_True fst_in_plan_order missingWorkKeys_def)

lemma disable_frame [simp]:
  "plan (disable env r s) = plan s" "expectedVersion (disable env r s) = expectedVersion s"
  "acceptedResults (disable env r s) = acceptedResults s" "finalized (disable env r s) = finalized s"
  "disabled (disable env r s)"
  by (simp_all add: disable_def)

lemma disable_inv [simp]: "session_inv (disable env r s) = session_inv s"
  by (simp add: session_inv_def)

lemma restored_ordered: "acceptedResultsInPlanOrder p checkpoint = Some results \<Longrightarrow> in_plan_order p results = results"
  by (auto simp: acceptedResultsInPlanOrder_def)

lemma applyRestored_inv:
  assumes "applyRestoredCheckpoint checkpoint v s = Some s1" "session_inv s"
  shows "session_inv s1 \<and> plan s1 = plan s \<and> disabled s1 = disabled s"
  using assms
  by (auto simp: applyRestoredCheckpoint_def session_inv_def restored_ordered split: option.splits if_splits)

lemma setAccepted_inv: "session_inv s \<Longrightarrow> \<not> finalized s \<Longrightarrow> session_inv (setAcceptedResult k x s)"
  by (simp add: session_inv_def setAcceptedResult_def)

lemma finish_commit_inv:
  assumes "finish_commit env k x r s = (a, s')" "session_inv s" "\<not> finalized s" "k \<in> set (workKeys (plan s))"
  shows "session_inv s' \<and> plan s' = plan s \<and>
    (a \<noteq> CommitDisabled \<longrightarrow> disabled s' = disabled s \<and> map_of (acceptedResults s') k = Some x) \<and>
    (a = CommitDisabled \<longrightarrow> disabled s')"
  using assms setAccepted_inv [of "s\<lparr>expectedVersion := v\<rparr>" k x for v]
  by (auto simp: finish_commit_def Let_def setAcceptedResult_def map_of_in_plan_order update_Some_unfold
      session_inv_def update_conv split: sum.splits BatchResult.splits if_splits)

lemma reconcile_inv:
  assumes "reconcileAfterConflict env k x s c = ((r, s'), c')" "session_inv s"
  shows "session_inv s' \<and> plan s' = plan s \<and>
    (r = Inr ReconcileAccepted \<longrightarrow> \<not> finalized s') \<and>
    (r \<noteq> Inr ReconcileDisabled \<longrightarrow> disabled s' = disabled s) \<and> (r = Inr ReconcileDisabled \<longrightarrow> disabled s') \<and>
    (r = Inr ReconcileIdempotent \<longrightarrow> (\<exists>y. map_of (acceptedResults s') k = Some y \<and> matches env y x))"
  using assms
  by (auto simp: reconcileAfterConflict_def split: prod.splits sum.splits RestoreResult.splits option.splits if_splits
      dest: applyRestored_inv)


lemma commit_inv:
  assumes "commitSuccessfulBatchNow env key input s c = ((a, s'), c')" "session_inv s"
  shows "session_inv s' \<and> plan s' = plan s \<and>
    (a \<noteq> CommitDisabled \<longrightarrow> \<not> disabled s' \<and> js_lower key \<in> set (workKeys (plan s)) \<and>
      (\<exists>x y. normalize env input = Inr x \<and> map_of (acceptedResults s') (js_lower key) = Some y \<and> (y = x \<or> matches env y x)))"
proof -
  let ?k = "js_lower key"
  show ?thesis
  proof (cases "disabled s \<or> finalized s \<or> ?k \<notin> set (workKeys (plan s)) \<or> (\<exists>e. normalize env input = Inl e)")
    case True
    then show ?thesis using assms by (auto simp: commitSuccessfulBatchNow_def Let_def split: if_splits)
  next
    case False
    then obtain x where x: "normalize env input = Inr x" by (cases "normalize env input") auto
    from False have open_: "\<not> disabled s" "\<not> finalized s" "?k \<in> set (workKeys (plan s))" by auto
    show ?thesis
    proof (cases "map_of (acceptedResults s) ?k")
      case (Some y)
      with assms x open_ show ?thesis by (auto simp: commitSuccessfulBatchNow_def Let_def split: if_splits)
    next
      case None
      obtain r c1 where send: "sendBatchResult env ?k x s c = (r, c1)" by fastforce
      show ?thesis
      proof (cases "\<exists>v. r = Inr (BatchConflict v)")
        case False
        with assms x open_ None send have "finish_commit env ?k x r s = (a, s')"
          by (auto simp: commitSuccessfulBatchNow_def Let_def split: sum.splits BatchResult.splits)
        from finish_commit_inv [OF this assms(2) open_(2,3)] x open_ show ?thesis by auto
      next
        case True
        then obtain v where v: "r = Inr (BatchConflict v)" by blast
        obtain q s1 c2 where rec: "reconcileAfterConflict env ?k x s c1 = ((q, s1), c2)" by (metis surj_pair)
        note q = reconcile_inv [OF rec assms(2)]
        obtain r2 c3 where send2: "sendBatchResult env ?k x s1 c2 = (r2, c3)" by fastforce
        show ?thesis
        proof (cases "q = Inr ReconcileAccepted")
          case True
          with assms x open_ None send v rec send2 have "finish_commit env ?k x r2 s1 = (a, s')"
            by (auto simp: commitSuccessfulBatchNow_def Let_def)
          from finish_commit_inv [OF this] q True x open_ show ?thesis by auto
        next
          case False
          with assms x open_ None send v rec q show ?thesis
            by (auto simp: commitSuccessfulBatchNow_def Let_def split: sum.splits Reconciled.splits)
        qed
      qed
    qed
  qed
qed

lemma marker_frame: "writeFinalizationMarker env required s c = ((w, s'), c') \<Longrightarrow>
    plan s' = plan s \<and> acceptedResults s' = acceptedResults s \<and> finalized s' = finalized s \<and>
    disabled s' = disabled s \<and> expectedVersion s' = expectedVersion s"
  by (auto simp: writeFinalizationMarker_def Let_def split: option.splits prod.splits sum.splits)

lemma finish_finalize_inv:
  assumes "finish_finalize env required r s c = ((a, s'), c')" "session_inv s"
    and "length (acceptedResults s) = length (workKeys (plan s))"
  shows "session_inv s' \<and> plan s' = plan s \<and>
    (\<forall>v w. a \<in> {SessionFinalized v w, SessionIdempotent v w} \<longrightarrow> finalized s' \<and> expectedVersion s' = v) \<and>
    (\<forall>ks. a \<noteq> SessionIncomplete ks)"
  using assms
  by (auto simp: finish_finalize_def session_inv_def split: sum.splits FinalizeResult.splits if_splits prod.splits
      dest!: marker_frame)

lemma reconcileFinalization_inv:
  assumes "reconcileFinalizationConflict env s c = ((r, s'), c')" "session_inv s"
  shows "session_inv s' \<and> plan s' = plan s \<and>
    (r = Inr True \<longrightarrow> length (acceptedResults s') = length (workKeys (plan s')))"
  using assms
  by (auto simp: reconcileFinalizationConflict_def split: prod.splits sum.splits RestoreResult.splits option.splits if_splits
      dest: applyRestored_inv)

lemma finalize_inv:
  assumes "finalizeNow env required s c = ((a, s'), c')" "session_inv s"
  shows "session_inv s' \<and> plan s' = plan s \<and>
    (\<forall>v w. a \<in> {SessionFinalized v w, SessionIdempotent v w} \<longrightarrow> finalized s' \<and> expectedVersion s' = v)"
proof (cases "disabled s \<or> missingWorkKeys s \<noteq> []")
  case True
  then show ?thesis using assms by (auto simp: finalizeNow_def split: if_splits)
next
  case False
  then have complete: "length (acceptedResults s) = length (workKeys (plan s))"
    using no_missing [of s] assms(2) unfolding session_inv_def by blast
  obtain r c1 where call: "call_finalize (client env) (finalize_input s) c = (r, c1)" by fastforce
  show ?thesis
  proof (cases "\<exists>v. r = Inr (FinalizeConflict v)")
    case no: False
    with False assms(1) call have "finish_finalize env required r s c1 = ((a, s'), c')"
      by (auto simp: finalizeNow_def split: sum.splits FinalizeResult.splits)
    from finish_finalize_inv [OF this assms(2) complete] show ?thesis by blast
  next
    case True
    then obtain v where v: "r = Inr (FinalizeConflict v)" by blast
    obtain q s1 c2 where rec: "reconcileFinalizationConflict env s c1 = ((q, s1), c2)" by (metis surj_pair)
    note q = reconcileFinalization_inv [OF rec assms(2)]
    obtain r2 c3 where call2: "call_finalize (client env) (finalize_input s1) c2 = (r2, c3)" by fastforce
    show ?thesis
    proof (cases "q = Inr True")
      case True
      with False assms(1) call v rec call2 have "finish_finalize env required r2 s1 c3 = ((a, s'), c')"
        by (auto simp: finalizeNow_def)
      from finish_finalize_inv [OF this] q True show ?thesis by auto
    next
      case no: False
      with False assms(1) call v rec q show ?thesis
        by (auto simp: finalizeNow_def split: sum.splits if_splits)
    qed
  qed
qed

lemma run_inv: "session_inv (fst st) \<Longrightarrow> session_inv (fst (session_run env ops st)) \<and>
    plan (fst (session_run env ops st)) = plan (fst st)"
proof (induction ops arbitrary: st)
  case (Cons op ops)
  obtain s c where st: "st = (s, c)" by fastforce
  have "session_inv (fst (perform env op st)) \<and> plan (fst (perform env op st)) = plan s"
  proof (cases op)
    case (Commit key input)
    obtain a s' c' where "commitSuccessfulBatchNow env key input s c = ((a, s'), c')" by (metis surj_pair)
    with commit_inv [OF this] Cons.prems Commit st show ?thesis by simp
  next
    case (Finalize required)
    obtain a s' c' where "finalizeNow env required s c = ((a, s'), c')" by (metis surj_pair)
    with finalize_inv [OF this] Cons.prems Finalize st show ?thesis by simp
  qed
  with Cons.IH [of "perform env op st"] st show ?case by (simp add: session_run_def)
qed (simp add: session_run_def)

lemma open_inv:
  assumes "schema_enforced parse_plan" "open_session parse_plan env input c = Inr ((Some s, w), c')"
  shows "session_inv s \<and> plan_ok (plan s) \<and> \<not> disabled s"
proof -
  from assms(2) obtain p where p: "createReviewCheckpointPlanIdentity parse_plan input = Inr p"
    by (auto simp: open_session_def res_simps)
  have ok: "plan_ok p" using createPlan_ok [OF assms(1) p] .
  then have "distinct (workKeys p)" by (simp add: plan_ok_def)
  moreover have "in_plan_order p [] = []" by (simp add: in_plan_order_def)
  ultimately show ?thesis
    using assms(2) p ok restored_ordered
    by (auto simp: open_session_def open_started_def new_session_def session_inv_def Let_def
        split: prod.splits sum.splits RestoreResult.splits StartResult.splits option.splits if_splits)
qed


section \<open>Counting the calls\<close>

text \<open>The same session talking to a client that counts the calls it gets.\<close>

definition count_call :: "('c \<Rightarrow> 'r \<times> 'c) \<Rightarrow> 'c \<times> nat \<Rightarrow> 'r \<times> 'c \<times> nat" where
  "count_call f cn = (let (r, c) = f (fst cn) in (r, c, snd cn + 1))"

definition counting :: "('c, 'p, 'i) SessionEnv \<Rightarrow> ('c \<times> nat, 'p, 'i) SessionEnv" where
  "counting env = \<lparr>client =
       \<lparr>call_restore = (\<lambda>i. count_call (call_restore (client env) i)),
        call_start = (\<lambda>v p. count_call (call_start (client env) v p)),
        call_commit = (\<lambda>i. count_call (call_commit (client env) i)),
        call_finalize = (\<lambda>i. count_call (call_finalize (client env) i))\<rparr>,
     markerWriter = map_option (\<lambda>write m cn. let (r, c) = write m (fst cn) in (r, c, snd cn)) (markerWriter env),
     has_logger = has_logger env, normalize = normalize env, matches = matches env\<rparr>"

lemma count_call_snd: "snd (snd (count_call f cn)) = snd cn + 1"
  by (simp add: count_call_def split_beta)

lemma send_counted: "snd (snd (sendBatchResult (counting env) k x s cn)) = snd cn + 1"
  by (simp add: sendBatchResult_def counting_def count_call_snd)

lemma reconcile_counted: "snd (snd (reconcileAfterConflict (counting env) k x s cn)) = snd cn + 1"
  using count_call_snd [of "call_restore (client env) (restoreInput (plan s))" cn]
  by (auto simp: reconcileAfterConflict_def counting_def split_beta
      split: sum.splits RestoreResult.splits option.splits)

lemma commit_counted: "snd (snd (commitSuccessfulBatchNow (counting env) key input s cn)) \<le> snd cn + 3"
  by (auto simp: commitSuccessfulBatchNow_def Let_def split_beta send_counted reconcile_counted
      split: sum.split option.split BatchResult.split Reconciled.split)

lemma finish_finalize_counted: "snd (snd (finish_finalize (counting env) required r s cn)) = snd cn"
  by (auto simp: finish_finalize_def writeFinalizationMarker_def counting_def Let_def split_beta
      split: sum.splits FinalizeResult.splits option.splits)

lemma reconcileFinalization_counted: "snd (snd (reconcileFinalizationConflict (counting env) s cn)) = snd cn + 1"
  using count_call_snd [of "call_restore (client env) (restoreInput (plan s))" cn]
  by (auto simp: reconcileFinalizationConflict_def counting_def split_beta
      split: sum.splits RestoreResult.splits option.splits)

lemma call_finalize_counted: "snd (snd (call_finalize (client (counting env)) i cn)) = snd cn + 1"
  by (simp add: counting_def count_call_snd)

lemma finalize_counted: "snd (snd (finalizeNow (counting env) required s cn)) \<le> snd cn + 3"
  by (auto simp: finalizeNow_def split_beta call_finalize_counted reconcileFinalization_counted finish_finalize_counted
      split: sum.split FinalizeResult.split)


section \<open>A session of the example\<close>

definition demo_key :: string where
  "demo_key = replicate 64 CHR ''a''"

definition demo_sha40 :: string where
  "demo_sha40 = replicate 40 CHR ''0''"

definition demo_plan :: PlanIdentity where
  "demo_plan = \<lparr>pullRequestNumber = 7, baseSha = demo_sha40, headSha = demo_sha40,
     compatibilityKey = demo_key, planHash = demo_key, workKeys = [demo_key]\<rparr>"

definition demo_parse :: "PlanIdentity \<Rightarrow> PlanIdentity res" where
  "demo_parse p = (if plan_schema p then Inr p else Inl (JsError ''ZodError''))"

text \<open>A service that keeps a version and acknowledges everything, except the commits that do not name
  its version.\<close>

definition demo_env :: "(int, nat, nat) SessionEnv" where
  "demo_env = \<lparr>client =
       \<lparr>call_restore = (\<lambda>i c. (Inr (RestoreMissing c), c)),
        call_start = (\<lambda>v p c. (Inr (StartAcknowledged Started (v + 1) (headSha p) (planHash p)), v + 1)),
        call_commit = (\<lambda>i c. if commit_expectedVersion i = c
          then (Inr (BatchAcknowledged BatchAccepted (c + 1) (commit_headSha i) (commit_planHash i) (commit_workKey i)), c + 1)
          else (Inr (BatchConflict c), c)),
        call_finalize = (\<lambda>i c. (Inr (FinalizeAcknowledged FinalizeFinalized (c + 1) (finalize_headSha i) (finalize_planHash i)), c + 1))\<rparr>,
     markerWriter = None, has_logger = True, normalize = Inr, matches = (=)\<rparr>"

lemma demo_digests [simp]: "js_lower demo_key = demo_key" "js_lower demo_sha40 = demo_sha40"
  "is_digest_ci 64 demo_key" "is_digest_ci 40 demo_sha40"
  by (auto simp: demo_key_def demo_sha40_def is_digest_ci_def list_all_iff is_hex_ci_def is_hex_def is_digit_def
      intro!: lower_digest [of 64] lower_digest [of 40] simp: is_digest_def)

lemma demo_parse_enforced: "schema_enforced demo_parse"
  by (simp add: schema_enforced_def demo_parse_def)

lemma demo_opened: "open_session demo_parse demo_env demo_plan 0 = Inr ((Some (new_session demo_plan 1 [] False), []), 1)"
  by (simp add: open_session_def createReviewCheckpointPlanIdentity_def demo_parse_def plan_schema_def demo_plan_def
      open_started_def demo_env_def isValidVersionAcknowledgement_def GIT_SHA_LENGTH_def HASH_LENGTH_def
      MAX_PLANNED_WORK_KEYS_def)

lemmas session_eval = commitSuccessfulBatchNow_def sendBatchResult_def finish_commit_def setAcceptedResult_def
  in_plan_order_def isValidVersionAcknowledgement_def new_session_def demo_plan_def demo_env_def finalizeNow_def
  missingWorkKeys_def finalize_input_def finish_finalize_def writeFinalizationMarker_def session_run_def

section \<open>Properties\<close>

text \<open>
  C31: whatever the service answers and whatever is committed, the accepted results of a session belong
  to planned work keys, each once and in plan order, for the plan the session was opened with; and a
  finalised session has a result for every planned key.
\<close>

theorem session_results_follow_plan:
  assumes "schema_enforced parse_plan"
    and "open_session parse_plan env input c = Inr ((Some s\<^sub>0, w), c\<^sub>0)"
    and "session_run env ops (s\<^sub>0, c\<^sub>0) = (s, c')"
  shows "plan s = plan s\<^sub>0 \<and> plan_ok (plan s) \<and>
    map fst (acceptedResults s) = filter (\<lambda>k. map_of (acceptedResults s) k \<noteq> None) (workKeys (plan s)) \<and>
    distinct (map fst (acceptedResults s)) \<and>
    (finalized s \<longrightarrow> map fst (acceptedResults s) = workKeys (plan s))"
proof -
  have opened: "session_inv s\<^sub>0" "plan_ok (plan s\<^sub>0)" using open_inv [OF assms(1,2)] by auto
  with run_inv [of "(s\<^sub>0, c\<^sub>0)" env ops] assms(3) have inv: "session_inv s" "plan s = plan s\<^sub>0" by auto
  then have order: "in_plan_order (plan s) (acceptedResults s) = acceptedResults s" "distinct (workKeys (plan s))"
    by (auto simp: session_inv_def)
  have keys: "map fst (acceptedResults s) = filter (\<lambda>k. map_of (acceptedResults s) k \<noteq> None) (workKeys (plan s))"
    using fst_in_plan_order [of "plan s" "acceptedResults s"] unfolding order(1) .
  moreover have "distinct (map fst (acceptedResults s))"
    unfolding keys using order(2) by (rule distinct_filter)
  moreover have "finalized s \<longrightarrow> map fst (acceptedResults s) = workKeys (plan s)"
    using complete_keys [of "plan s" "acceptedResults s"] inv(1) unfolding order(1) session_inv_def by blast
  ultimately show ?thesis using inv(2) opened(2) by metis
qed

definition demo_session_end :: "nat Session" where
  "demo_session_end = \<lparr>plan = demo_plan, expectedVersion = 3, acceptedResults = [(demo_key, 5)],
     finalized = True, disabled = False, warnings = []\<rparr>"

lemma demo_session_ran: "session_run demo_env [Commit demo_key 5, Finalize True] (new_session demo_plan 1 [] False, 1) =
    (demo_session_end, 3)"
  by (simp add: session_eval demo_session_end_def)

theorem session_results_follow_plan_witness:
  "plan demo_session_end = demo_plan \<and> map fst (acceptedResults demo_session_end) = workKeys demo_plan"
  using session_results_follow_plan [OF demo_parse_enforced demo_opened demo_session_ran]
  by (simp add: demo_session_end_def new_session_def demo_plan_def)

text \<open>
  A disabled session is inert: it answers \<open>Disabled\<close>, never touches the service again, and neither
  its results nor its warnings change, whatever is still committed or finalised.
\<close>

theorem disabled_session_is_inert:
  assumes "disabled s"
  shows "session_run env ops (s, c) = (s, c) \<and>
    commitSuccessfulBatchNow env key input s c = ((CommitDisabled, s), c) \<and>
    finalizeNow env required s c = ((SessionDisabled, s), c)"
proof -
  have "perform env op (s, c) = (s, c)" for op
    using assms by (cases op) (simp_all add: commitSuccessfulBatchNow_def finalizeNow_def)
  then have "session_run env ops (s, c) = (s, c)"
    by (induction ops) (simp_all add: session_run_def)
  then show ?thesis using assms by (simp add: commitSuccessfulBatchNow_def finalizeNow_def)
qed

theorem disabled_session_is_inert_witness:
  "session_run demo_env [Commit demo_key 5, Finalize True] ((new_session demo_plan 1 [] False)\<lparr>disabled := True\<rparr>, 1) =
    ((new_session demo_plan 1 [] False)\<lparr>disabled := True\<rparr>, 1)"
  using disabled_session_is_inert [of "(new_session demo_plan 1 [] False)\<lparr>disabled := True\<rparr>" demo_env
      "[Commit demo_key 5, Finalize True]" 1] by simp

text \<open>
  A commit that is answered as accepted or idempotent is in the session's results under its
  planned key, with the normalised payload or one that matches it; a finalisation that is answered as
  done left the session finalised with every planned result; an incomplete one names exactly the
  missing keys and did not touch the service.
\<close>

theorem session_answers_are_backed:
  assumes "session_inv s"
  shows "(commitSuccessfulBatchNow env key input s c = ((a, s'), c') \<and> a \<noteq> CommitDisabled \<longrightarrow>
      \<not> disabled s' \<and> js_lower key \<in> set (workKeys (plan s)) \<and>
      (\<exists>x y. normalize env input = Inr x \<and> map_of (acceptedResults s') (js_lower key) = Some y \<and> (y = x \<or> matches env y x))) \<and>
    (finalizeNow env required s c = ((SessionFinalized v m, s'), c') \<or>
     finalizeNow env required s c = ((SessionIdempotent v m, s'), c') \<longrightarrow>
      finalized s' \<and> expectedVersion s' = v \<and> map fst (acceptedResults s') = workKeys (plan s)) \<and>
    (\<not> disabled s \<and> (\<exists>k \<in> set (workKeys (plan s)). map_of (acceptedResults s) k = None) \<longrightarrow>
      finalizeNow env required s c =
        ((SessionIncomplete (filter (\<lambda>k. map_of (acceptedResults s) k = None) (workKeys (plan s))), s), c))"
proof (intro conjI impI)
  assume "commitSuccessfulBatchNow env key input s c = ((a, s'), c') \<and> a \<noteq> CommitDisabled"
  then show "\<not> disabled s'" "js_lower key \<in> set (workKeys (plan s))"
    "\<exists>x y. normalize env input = Inr x \<and> map_of (acceptedResults s') (js_lower key) = Some y \<and> (y = x \<or> matches env y x)"
    using commit_inv [of env key input s c a s' c'] assms by auto
next
  assume "finalizeNow env required s c = ((SessionFinalized v m, s'), c') \<or>
     finalizeNow env required s c = ((SessionIdempotent v m, s'), c')"
  then obtain b where "finalizeNow env required s c = ((b, s'), c')" "b \<in> {SessionFinalized v m, SessionIdempotent v m}"
    by auto
  with finalize_inv [OF this(1) assms]
  have "session_inv s'" "plan s' = plan s" and fin: "finalized s'" "expectedVersion s' = v" by blast+
  then show "finalized s'" "expectedVersion s' = v" "map fst (acceptedResults s') = workKeys (plan s)"
    using complete_keys [of "plan s'" "acceptedResults s'"] by (simp_all add: session_inv_def)
next
  assume "\<not> disabled s \<and> (\<exists>k \<in> set (workKeys (plan s)). map_of (acceptedResults s) k = None)"
  then show "finalizeNow env required s c =
      ((SessionIncomplete (filter (\<lambda>k. map_of (acceptedResults s) k = None) (workKeys (plan s))), s), c)"
    by (auto simp: finalizeNow_def missingWorkKeys_def filter_empty_conv)
qed

theorem session_answers_are_backed_witness:
  "finalizeNow demo_env True (new_session demo_plan 1 [] False) (1 :: int) =
    ((SessionIncomplete [demo_key], new_session demo_plan 1 [] False), 1)"
  using session_answers_are_backed [of "new_session demo_plan 1 [] False" demo_env demo_key 5 1 CommitDisabled
      "new_session demo_plan 1 [] False" 1 True 0 False]
  by (simp add: session_inv_def new_session_def demo_plan_def in_plan_order_def)

text \<open>
  An operation retries at most once: a commit or a finalisation makes at most three calls to the
  service (send, reconcile, send again), whatever the answers are.
\<close>

theorem session_retries_are_bounded:
  "commitSuccessfulBatchNow (counting env) key input s (c, 0) = ((a, s'), (c', n)) \<or>
   finalizeNow (counting env) required s (c, 0) = ((b, s'), (c', n)) \<Longrightarrow> n \<le> 3"
  using commit_counted [of env key input s "(c, 0)"] finalize_counted [of env required s "(c, 0)"] by auto

theorem session_retries_are_bounded_witness:
  "\<exists>a s' c' n. commitSuccessfulBatchNow (counting demo_env) demo_key 5 (new_session demo_plan 1 [] False) (1, 0) =
     ((a, s'), (c', n)) \<and> n \<le> 3"
  using session_retries_are_bounded [of demo_env demo_key 5 "new_session demo_plan 1 [] False" 1]
  by (metis surj_pair)

end
