(* ===== verification/Severity_Gate.thy ===== *)
theory Severity_Gate
  imports Canonical_Json
begin

text \<open>
  \<open>src/output/severity-gate.ts\<close>: whether the findings of a review fail the check, and the message
  that says why.  Of \<open>src/types/index.ts\<close> the model keeps what the gate reads: severities, the
  provenance counts and the lifecycle records of earlier threads (\<open>isLinkedCurrentFinding\<close> is from
  \<open>src/analysis/thread-lifecycle.ts\<close>).  The counts of a provenance are integers; a missing one is
  \<open>None\<close>.
\<close>

section \<open>Data\<close>

datatype Severity = Critical | Major | Minor

text \<open>\<open>Severity | 'off'\<close>; an undefined threshold is \<open>None\<close> of the option type.\<close>

datatype FailOnSeverity = SeverityOff | At Severity

fun severity_value :: "Severity \<Rightarrow> string" where
  "severity_value Critical = ''critical''"
| "severity_value Major = ''major''"
| "severity_value Minor = ''minor''"

fun severityRank :: "Severity \<Rightarrow> int" where
  "severityRank Critical = 3"
| "severityRank Major = 2"
| "severityRank Minor = 1"

text \<open>\<open>Object.keys(severityRank)\<close>.\<close>

definition severities :: "Severity list" where
  "severities = [Critical, Major, Minor]"

text \<open>\<open>LifecycleSeverity\<close>: \<open>None\<close> is \<open>'unknown'\<close>.\<close>

record LifecycleThreadRecord =
  target_severity :: "Severity option"
  reasonCodes :: "string list"

record ReviewFindingProvenance =
  prov_fromCurrentReview :: "Severity \<Rightarrow> int option"
  prov_carriedForward :: "Severity \<Rightarrow> int option"

text \<open>A review as the gate sees it: a finding is its severity.\<close>

record GateReview =
  findings :: "Severity list"
  findingProvenance :: "ReviewFindingProvenance option"
  previousThreads :: "LifecycleThreadRecord list option"

record BlockingFindingBreakdown =
  current :: int
  fromCurrentReview :: int
  carriedForward :: int
  unclassifiedCurrent :: int
  previousStillValid :: int
  total_blocking :: int

section \<open>Counting\<close>

definition isLinkedCurrentFinding :: "LifecycleThreadRecord \<Rightarrow> bool" where
  "isLinkedCurrentFinding r \<longleftrightarrow> ''current_finding_present'' \<in> set (reasonCodes r)"

definition countAtOrAbove :: "(Severity \<Rightarrow> int option) \<Rightarrow> int \<Rightarrow> int" where
  "countAtOrAbove counts minRank = foldl
     (\<lambda>n s. if severityRank s \<ge> minRank then n + (case counts s of Some k \<Rightarrow> k | None \<Rightarrow> 0) else n) 0 severities"

definition blocks_previous :: "int \<Rightarrow> LifecycleThreadRecord \<Rightarrow> bool" where
  "blocks_previous minRank r \<longleftrightarrow>
     (if isLinkedCurrentFinding r then False
      else case target_severity r of None \<Rightarrow> False | Some s \<Rightarrow> severityRank s \<ge> minRank)"

definition getBlockingFindingBreakdown :: "GateReview \<Rightarrow> FailOnSeverity option \<Rightarrow> BlockingFindingBreakdown" where
  "getBlockingFindingBreakdown review threshold =
     (case threshold of
        Some (At t) \<Rightarrow>
          let minRank = severityRank t;
              cur = int (length (filter (\<lambda>s. severityRank s \<ge> minRank) (findings review)));
              attributedCurrent = (case findingProvenance review of
                 Some p \<Rightarrow> countAtOrAbove (prov_fromCurrentReview p) minRank | None \<Rightarrow> cur);
              attributedCarried = (case findingProvenance review of
                 Some p \<Rightarrow> countAtOrAbove (prov_carriedForward p) minRank | None \<Rightarrow> 0);
              fromCurrent = min cur attributedCurrent;
              carried = min (cur - fromCurrent) attributedCarried;
              prev = int (length (filter (blocks_previous minRank)
                (case previousThreads review of Some rs \<Rightarrow> rs | None \<Rightarrow> [])))
          in \<lparr>current = cur, fromCurrentReview = fromCurrent, carriedForward = carried,
              unclassifiedCurrent = cur - fromCurrent - carried, previousStillValid = prev,
              total_blocking = cur + prev\<rparr>
      | _ \<Rightarrow> \<lparr>current = 0, fromCurrentReview = 0, carriedForward = 0, unclassifiedCurrent = 0,
              previousStillValid = 0, total_blocking = 0\<rparr>)"

section \<open>The message\<close>

definition pluralize :: "string \<Rightarrow> int \<Rightarrow> string" where
  "pluralize word n = (if n = 1 then word else word @ ''s'')"

text \<open>\<open>parts.join(' and ')\<close>.\<close>

fun join_and :: "string list \<Rightarrow> string" where
  "join_and [] = []"
| "join_and [x] = x"
| "join_and (x # y # xs) = x @ '' and '' @ join_and (y # xs)"

definition breakdown_parts :: "BlockingFindingBreakdown \<Rightarrow> string \<Rightarrow> string list" where
  "breakdown_parts b t =
     (if fromCurrentReview b > 0
      then [show_int (fromCurrentReview b) @ '' '' @ t @ ''+ '' @ pluralize ''finding'' (fromCurrentReview b) @
            '' produced by this review''] else []) @
     (if carriedForward b > 0
      then [show_int (carriedForward b) @ '' carried-forward '' @ t @ ''+ '' @
            pluralize ''finding'' (carriedForward b) @ '' from unchanged files''] else []) @
     (if unclassifiedCurrent b > 0
      then [show_int (unclassifiedCurrent b) @ '' active current '' @ t @ ''+ '' @
            pluralize ''finding'' (unclassifiedCurrent b) @ '' with unavailable provenance''] else []) @
     (if previousStillValid b > 0
      then [show_int (previousStillValid b) @ '' previous unresolved '' @ t @ ''+ '' @
            pluralize ''finding'' (previousStillValid b) @ '' still valid''] else [])"

definition formatBlockingFindingFailure :: "GateReview \<Rightarrow> FailOnSeverity option \<Rightarrow> string option" where
  "formatBlockingFindingFailure review threshold =
     (case threshold of
        Some (At s) \<Rightarrow>
          let b = getBlockingFindingBreakdown review threshold; t = severity_value s
          in if total_blocking b = 0 then None
             else Some (''ReviewRouter found '' @ show_int (total_blocking b) @ '' blocking '' @ t @ ''+ '' @
               pluralize ''finding'' (total_blocking b) @ '': '' @ join_and (breakdown_parts b t) @ ''.'' @
               (if fromCurrentReview b = 0
                then '' No '' @ t @ ''+ findings were produced by this review.'' else []) @
               '' Review comments were posted before failing this check.'')
      | _ \<Rightarrow> None)"

section \<open>Properties\<close>

text \<open>What blocks a check at a threshold: a finding of the review, or an earlier thread that is still
  valid, has a known severity and is not the thread of a current finding.\<close>

definition blocking :: "GateReview \<Rightarrow> Severity \<Rightarrow> bool" where
  "blocking review t \<longleftrightarrow>
     (\<exists>s \<in> set (findings review). severityRank s \<ge> severityRank t) \<or>
     (\<exists>rs. previousThreads review = Some rs \<and> (\<exists>r \<in> set rs. \<exists>s. target_severity r = Some s \<and>
        severityRank s \<ge> severityRank t \<and> ''current_finding_present'' \<notin> set (reasonCodes r)))"

lemma total_zero: "total_blocking (getBlockingFindingBreakdown review (Some (At t))) = 0 \<longleftrightarrow> \<not> blocking review t"
proof -
  have prev: "blocks_previous m r \<longleftrightarrow> (\<exists>s. target_severity r = Some s \<and>
      severityRank s \<ge> m \<and> ''current_finding_present'' \<notin> set (reasonCodes r))" for r m
    by (auto simp: blocks_previous_def isLinkedCurrentFinding_def split: option.split)
  have "int (length (filter P xs)) + int (length (filter Q ys)) = 0 \<longleftrightarrow> (\<forall>x \<in> set xs. \<not> P x) \<and> (\<forall>y \<in> set ys. \<not> Q y)"
    for P Q and xs :: "Severity list" and ys :: "LifecycleThreadRecord list"
    by (simp add: filter_empty_conv flip: of_nat_add)
  then have "total_blocking (getBlockingFindingBreakdown review (Some (At t))) = 0 \<longleftrightarrow>
      (\<forall>s \<in> set (findings review). \<not> severityRank s \<ge> severityRank t) \<and>
      (\<forall>r \<in> set (case previousThreads review of Some rs \<Rightarrow> rs | None \<Rightarrow> []). \<not> blocks_previous (severityRank t) r)"
    by (simp add: getBlockingFindingBreakdown_def Let_def)
  then show ?thesis
    by (cases "previousThreads review") (auto simp: blocking_def prev)
qed

lemma blocking_mono: "blocking review t \<Longrightarrow> severityRank t' \<le> severityRank t \<Longrightarrow> blocking review t'"
  unfolding blocking_def by (meson order_trans)

definition counts_ok :: "GateReview \<Rightarrow> bool" where
  "counts_ok review \<longleftrightarrow> (\<forall>p. findingProvenance review = Some p \<longrightarrow>
     (\<forall>s k. (prov_fromCurrentReview p s = Some k \<or> prov_carriedForward p s = Some k) \<longrightarrow> 0 \<le> k))"

lemma countAtOrAbove_nonneg: "\<forall>s k. counts s = Some k \<longrightarrow> 0 \<le> k \<Longrightarrow> 0 \<le> countAtOrAbove counts m"
  by (auto simp: countAtOrAbove_def severities_def split: option.split)

text \<open>
  The check fails exactly when something blocks at the configured severity, never when the gate is
  off or unset; the reported parts are non-negative and add up to the findings that block, and lowering the
  threshold never lets a failing check pass.
\<close>

theorem gate_fails_exactly_on_blocking_findings:
  "(formatBlockingFindingFailure review threshold \<noteq> None \<longleftrightarrow> (\<exists>t. threshold = Some (At t) \<and> blocking review t)) \<and>
   (counts_ok review \<longrightarrow> (let b = getBlockingFindingBreakdown review threshold in
      0 \<le> fromCurrentReview b \<and> 0 \<le> carriedForward b \<and> 0 \<le> unclassifiedCurrent b \<and> 0 \<le> previousStillValid b \<and>
      fromCurrentReview b + carriedForward b + unclassifiedCurrent b + previousStillValid b = total_blocking b)) \<and>
   (severityRank t' \<le> severityRank t \<and> formatBlockingFindingFailure review (Some (At t)) \<noteq> None \<longrightarrow>
      formatBlockingFindingFailure review (Some (At t')) \<noteq> None)"
proof (intro conjI impI)
  have fails: "formatBlockingFindingFailure review (Some (At t)) \<noteq> None \<longleftrightarrow> blocking review t" for t
    using total_zero by (auto simp: formatBlockingFindingFailure_def Let_def)
  then show "formatBlockingFindingFailure review threshold \<noteq> None \<longleftrightarrow> (\<exists>t. threshold = Some (At t) \<and> blocking review t)"
  proof (cases threshold)
    case (Some f)
    then show ?thesis using fails by (cases f) (auto simp: formatBlockingFindingFailure_def)
  qed (simp add: formatBlockingFindingFailure_def)
  assume "severityRank t' \<le> severityRank t \<and> formatBlockingFindingFailure review (Some (At t)) \<noteq> None"
  then show "formatBlockingFindingFailure review (Some (At t')) \<noteq> None"
    using fails blocking_mono by blast
next
  assume "counts_ok review"
  then have counts: "0 \<le> countAtOrAbove (prov_fromCurrentReview p) m" "0 \<le> countAtOrAbove (prov_carriedForward p) m"
    if "findingProvenance review = Some p" for p m
    using that by (auto simp: counts_ok_def intro!: countAtOrAbove_nonneg)
  have parts: "0 \<le> min c f \<and> 0 \<le> min (c - min c f) g \<and> 0 \<le> c - min c f - min (c - min c f) g"
    if "0 \<le> c" "0 \<le> f" "0 \<le> g" for c f g :: int
    using that by linarith
  show "let b = getBlockingFindingBreakdown review threshold in
      0 \<le> fromCurrentReview b \<and> 0 \<le> carriedForward b \<and> 0 \<le> unclassifiedCurrent b \<and> 0 \<le> previousStillValid b \<and>
      fromCurrentReview b + carriedForward b + unclassifiedCurrent b + previousStillValid b = total_blocking b"
  proof (cases "\<exists>t. threshold = Some (At t)")
    case True
    then obtain t where t: "threshold = Some (At t)" by blast
    show ?thesis
      using counts [of _ "severityRank t"] parts
      by (cases "findingProvenance review") (simp_all add: getBlockingFindingBreakdown_def Let_def t)
  next
    case False
    then show ?thesis
      by (cases threshold) (auto simp: getBlockingFindingBreakdown_def Let_def split: FailOnSeverity.split)
  qed
qed

definition demo_review :: GateReview where
  "demo_review = \<lparr>findings = [Major, Minor],
     findingProvenance = Some \<lparr>prov_fromCurrentReview = (\<lambda>s. None), prov_carriedForward = (\<lambda>s. Some 1)\<rparr>,
     previousThreads = Some [\<lparr>target_severity = Some Critical, reasonCodes = [''current_finding_present'']\<rparr>]\<rparr>"

lemma demo_blocking: "blocking demo_review Major" "counts_ok demo_review"
  by (auto simp: blocking_def counts_ok_def demo_review_def)

theorem gate_fails_exactly_on_blocking_findings_witness:
  "formatBlockingFindingFailure demo_review (Some (At Minor)) \<noteq> None \<and>
   0 \<le> unclassifiedCurrent (getBlockingFindingBreakdown demo_review (Some (At Major)))"
proof -
  note gate = gate_fails_exactly_on_blocking_findings [of demo_review "Some (At Major)" Minor Major]
  have "formatBlockingFindingFailure demo_review (Some (At Major)) \<noteq> None"
    using conjunct1 [OF gate] demo_blocking by blast
  then have "formatBlockingFindingFailure demo_review (Some (At Minor)) \<noteq> None"
    using gate by simp
  with gate demo_blocking(2) show ?thesis by (simp only: Let_def simp_thms)
qed

end
