(* ===== verification/File_Risk.thy ===== *)
theory File_Risk
  imports Prelude
begin

text \<open>
  \<open>src/review-execution/domain/file-risk-priority.ts\<close>: the order in which changed files are reviewed,
  by the risk their path suggests.  Of \<open>FileChange\<close> only the file name matters, so files are a record
  that can be extended.
\<close>

section \<open>Tiers and tokens\<close>

datatype FileRiskTier = SecurityTier | MigrationTier | PersistenceTier | PublicContractTier | NormalTier

fun TIER_ORDER :: "FileRiskTier \<Rightarrow> nat" where
  "TIER_ORDER SecurityTier = 0"
| "TIER_ORDER MigrationTier = 1"
| "TIER_ORDER PersistenceTier = 2"
| "TIER_ORDER PublicContractTier = 3"
| "TIER_ORDER NormalTier = 4"

definition SECURITY_TOKENS :: "string list" where
  "SECURITY_TOKENS = [''access'', ''auth'', ''authentication'', ''authorization'', ''authenticator'', ''authn'',
     ''authz'', ''crypto'', ''cryptography'', ''jwt'', ''oauth'', ''security'', ''session'', ''sessions'']"

definition SENSITIVE_TOKEN_CONTEXT :: "string list" where
  "SENSITIVE_TOKEN_CONTEXT = [''access'', ''api'', ''bearer'', ''credential'', ''credentials'', ''csrf'', ''identity'',
     ''keyring'', ''manager'', ''refresh'', ''secret'', ''signing'', ''storage'', ''store'', ''vault'']"

definition MIGRATION_TOKENS :: "string list" where
  "MIGRATION_TOKENS = [''migration'', ''migrations'', ''schema'', ''schemas'']"

definition PERSISTENCE_TOKENS :: "string list" where
  "PERSISTENCE_TOKENS = [''database'', ''datastore'', ''db'', ''persistence'', ''persistent'', ''repositories'',
     ''repository'', ''storage'']"

definition PUBLIC_CONTRACT_TOKENS :: "string list" where
  "PUBLIC_CONTRACT_TOKENS = [''api'', ''apis'', ''contract'', ''contracts'']"

section \<open>Splitting a path\<close>

definition is_token_char :: "char \<Rightarrow> bool" where
  "is_token_char c \<longleftrightarrow> is_lower c \<or> is_digit c"

text \<open>\<open>replace(/([a-z0-9])([A-Z])/g, '$1/$2')\<close>: a match consumes both characters.\<close>

fun split_camel :: "string \<Rightarrow> string" where
  "split_camel (c # d # cs) =
     (if is_token_char c \<and> is_upper d then c # CHR ''/'' # d # split_camel cs else c # split_camel (d # cs))"
| "split_camel cs = cs"

text \<open>\<open>split(/[^a-z0-9]+/)\<close>: the runs of token characters, with an empty string at either end of a text
  that starts or ends with a separator.\<close>

fun split_tokens :: "string \<Rightarrow> string list" where
  "split_tokens [] = [[]]"
| "split_tokens (c # cs) =
     (if is_token_char c then (case split_tokens cs of [] \<Rightarrow> [[c]] | t # ts \<Rightarrow> (c # t) # ts)
      else if cs \<noteq> [] \<and> \<not> is_token_char (hd cs) then split_tokens cs
      else [] # split_tokens cs)"

definition pathTokens :: "string \<Rightarrow> string list" where
  "pathTokens f = filter (\<lambda>t. length t > 0) (split_tokens (js_lower (split_camel f)))"

section \<open>Classification\<close>

definition includesToken :: "string list \<Rightarrow> string list \<Rightarrow> bool" where
  "includesToken tokens candidates \<longleftrightarrow> list_ex (\<lambda>t. t \<in> set candidates) tokens"

definition isSensitiveTokenPath :: "string list \<Rightarrow> bool" where
  "isSensitiveTokenPath tokens \<longleftrightarrow> (''token'' \<in> set tokens \<or> ''tokens'' \<in> set tokens) \<and>
     includesToken tokens SENSITIVE_TOKEN_CONTEXT"

definition isActionManifest :: "string \<Rightarrow> string list \<Rightarrow> bool" where
  "isActionManifest f tokens \<longleftrightarrow>
     (let basename = js_lower (last (js_split CHR ''/'' f))
      in if basename = ''action.yml'' \<or> basename = ''action.yaml'' then True
         else ''manifest'' \<in> set tokens \<and> (''action'' \<in> set tokens \<or> ''actions'' \<in> set tokens))"

definition classifyFileRisk :: "string \<Rightarrow> FileRiskTier" where
  "classifyFileRisk f =
     (let tokens = pathTokens f
      in if includesToken tokens SECURITY_TOKENS \<or> isSensitiveTokenPath tokens then SecurityTier
         else if includesToken tokens MIGRATION_TOKENS then MigrationTier
         else if includesToken tokens PERSISTENCE_TOKENS then PersistenceTier
         else if includesToken tokens PUBLIC_CONTRACT_TOKENS \<or> isActionManifest f tokens then PublicContractTier
         else NormalTier)"

section \<open>Prioritising\<close>

record FileChange =
  filename :: string

text \<open>A file with its original index and its tier.\<close>

type_synonym 'a ranked = "'a FileChange_scheme \<times> nat \<times> FileRiskTier"

definition compareRanked :: "'a ranked \<Rightarrow> 'a ranked \<Rightarrow> int" where
  "compareRanked l r =
     (let tierDifference = int (TIER_ORDER (snd (snd l))) - int (TIER_ORDER (snd (snd r)))
      in if tierDifference \<noteq> 0 then tierDifference else int (fst (snd l)) - int (fst (snd r)))"

definition rank_files :: "'a FileChange_scheme list \<Rightarrow> 'a ranked list" where
  "rank_files files = map (\<lambda>(i, f). (f, i, classifyFileRisk (filename f))) (List.enumerate 0 files)"

definition prioritizeFilesByRisk :: "'a FileChange_scheme list \<Rightarrow> 'a FileChange_scheme list" where
  "prioritizeFilesByRisk files = map fst (js_sort compareRanked (rank_files files))"

section \<open>The order\<close>

interpretation ranked: js_comparator compareRanked
proof
  fix x y z :: "'a ranked"
  show "compareRanked x y \<le> 0 \<or> compareRanked y x \<le> 0"
    by (auto simp: compareRanked_def Let_def)
  show "compareRanked x y \<le> 0 \<Longrightarrow> compareRanked y z \<le> 0 \<Longrightarrow> compareRanked x z \<le> 0"
    by (auto simp: compareRanked_def Let_def split: if_splits)
qed

abbreviation tier_of :: "'a FileChange_scheme \<Rightarrow> nat" where
  "tier_of f \<equiv> TIER_ORDER (classifyFileRisk (filename f))"

lemma rank_files_props:
  "map fst (rank_files files) = files"
  "\<And>x. x \<in> set (rank_files files) \<Longrightarrow> TIER_ORDER (snd (snd x)) = tier_of (fst x)"
  "sorted (map (fst \<circ> snd) (rank_files files))" "distinct (map (fst \<circ> snd) (rank_files files))"
  by (auto simp: rank_files_def comp_def split_beta)

lemma sorted_ranked: "sorted_wrt (\<lambda>x y. compareRanked x y \<le> 0) (js_sort compareRanked xs)"
  by (rule ranked.sorted_sort)

lemma prioritized_sorted: "sorted (map tier_of (prioritizeFilesByRisk files))"
proof -
  let ?s = "js_sort compareRanked (rank_files files)"
  have "sorted_wrt (\<lambda>x y. TIER_ORDER (snd (snd x)) \<le> TIER_ORDER (snd (snd y))) ?s"
    using sorted_ranked by (rule sorted_wrt_mono_rel [rotated]) (auto simp: compareRanked_def Let_def split: if_splits)
  then have "sorted_wrt (\<lambda>x y. tier_of (fst x) \<le> tier_of (fst y)) ?s"
  proof (rule sorted_wrt_mono_rel [rotated])
    fix x y assume "x \<in> set ?s" "y \<in> set ?s" "TIER_ORDER (snd (snd x)) \<le> TIER_ORDER (snd (snd y))"
    then show "tier_of (fst x) \<le> tier_of (fst y)"
      using rank_files_props(2) [of x files] rank_files_props(2) [of y files] by simp
  qed
  then show ?thesis by (simp add: prioritizeFilesByRisk_def sorted_map sorted_wrt_map)
qed

lemma prioritized_stable: "filter (\<lambda>f. k = tier_of f) (prioritizeFilesByRisk files) = filter (\<lambda>f. k = tier_of f) files"
proof -
  let ?r = "rank_files files" and ?P = "\<lambda>x. k = TIER_ORDER (snd (snd x))"
  have same: "filter (\<lambda>f. k = tier_of f) (map fst xs) = map fst (filter ?P xs)" if "set xs = set ?r" for xs
  proof -
    have "filter (\<lambda>x. k = tier_of (fst x)) xs = filter ?P xs"
    proof (rule filter_cong [OF refl])
      fix x assume "x \<in> set xs"
      then show "(k = tier_of (fst x)) = ?P x" using that rank_files_props(2) [of x files] by simp
    qed
    then show ?thesis by (simp add: filter_map comp_def)
  qed
  have "sorted_wrt (\<lambda>x y. fst (snd x) \<le> fst (snd y)) (filter ?P (js_sort compareRanked ?r))"
    using sorted_wrt_filter [OF sorted_ranked, of ?P]
    by (rule sorted_wrt_mono_rel [rotated]) (auto simp: compareRanked_def Let_def)
  then have "filter ?P (js_sort compareRanked ?r) = filter ?P ?r"
    using rank_files_props(3,4) [of files]
    by (intro sorted_key_unique [where f = "fst \<circ> snd"])
      (auto simp: sorted_map sorted_wrt_filter distinct_map inj_on_def)
  then have "map fst (filter ?P (js_sort compareRanked ?r)) = map fst (filter ?P ?r)" by simp
  then show ?thesis
    using same [of "js_sort compareRanked ?r"] same [of ?r] rank_files_props(1) [of files]
    by (simp add: prioritizeFilesByRisk_def)
qed

section \<open>Tokens\<close>

lemma token_runs: "\<forall>t \<in> set (pathTokens f). t \<noteq> [] \<and> list_all is_token_char t"
proof -
  have "split_tokens s \<noteq> [] \<and> (\<forall>t \<in> set (split_tokens s). list_all is_token_char t)" for s
  proof (induction s)
    case (Cons c cs)
    then show ?case by (cases "split_tokens cs") auto
  qed simp
  then show ?thesis by (auto simp: pathTokens_def)
qed

section \<open>Properties\<close>

text \<open>
  C32: prioritising only reorders the files: it is the stable sort by tier, so every file is reviewed
  exactly once, a file of a riskier tier comes before one of a less risky tier, and files of the same
  tier keep their order; a path with a security token is never ranked below another tier.
\<close>

theorem prioritize_is_the_stable_sort:
  fixes files :: "'a FileChange_scheme list"
  shows "prioritizeFilesByRisk files = sort_key (\<lambda>f. TIER_ORDER (classifyFileRisk (filename f))) files \<and>
    mset (prioritizeFilesByRisk files) = mset files \<and>
    (\<forall>p t. t \<in> set (pathTokens p) \<and> t \<in> set SECURITY_TOKENS \<longrightarrow> classifyFileRisk p = SecurityTier)"
proof -
  have perm: "mset (prioritizeFilesByRisk files) = mset files"
    by (metis mset_js_sort mset_map prioritizeFilesByRisk_def rank_files_props(1))
  have "sort_key tier_of files = prioritizeFilesByRisk files"
    by (rule properties_for_sort_key [OF perm]) (simp_all add: prioritized_sorted prioritized_stable)
  with perm show ?thesis by (auto simp: classifyFileRisk_def Let_def includesToken_def list_ex_iff)
qed

theorem prioritize_is_the_stable_sort_witness:
  "classifyFileRisk ''src/userAuth.ts'' = SecurityTier"
proof -
  have camel: "split_camel ''src/userAuth.ts'' = ''src/user/Auth.ts''"
    by (simp add: is_token_char_def char_class_defs)
  have lower: "js_lower ''src/user/Auth.ts'' = ''src/user/auth.ts''"
    by (simp add: char_class_defs char_of_def bit_0)
  have tokens: "split_tokens ''src/user/auth.ts'' = [''src'', ''user'', ''auth'', ''ts'']"
    by (simp add: is_token_char_def char_class_defs)
  have "''auth'' \<in> set (pathTokens ''src/userAuth.ts'') \<and> ''auth'' \<in> set SECURITY_TOKENS"
    unfolding pathTokens_def camel lower tokens by (simp add: SECURITY_TOKENS_def)
  with prioritize_is_the_stable_sort [of "[] :: FileChange list"] show ?thesis by blast
qed

end
