(* ===== verification/Provider_Results.thy ===== *)
theory Provider_Results
  imports Prelude
begin

text \<open>
  \<open>src/review-execution/domain/work-slot-provider-result.ts\<close>: one summary per provider from the health
  checks and the executed work slots.  Findings, revalidations and errors are only passed on, so they
  are type parameters; durations and likelihoods are exact rationals.  \<open>localeCompare\<close> belongs to the
  host: it is the parameter \<open>lc\<close>, of which the locale \<open>js_collation\<close> states that it orders strings.
\<close>

section \<open>Collation\<close>

locale js_collation =
  fixes lc :: "string \<Rightarrow> string \<Rightarrow> int"
  assumes lc_sym: "sgn (lc y x) = - sgn (lc x y)"
    and lc_trans: "lc x y \<le> 0 \<Longrightarrow> lc y z \<le> 0 \<Longrightarrow> lc x z \<le> 0"
begin

lemma lc_zero: "lc x y = 0 \<longleftrightarrow> lc y x = 0"
  by (metis lc_sym neg_equal_0_iff_equal sgn_0_0)

lemma lc_neg: "lc x y < 0 \<longleftrightarrow> 0 < lc y x"
  using lc_sym [of x y] by (simp add: sgn_if split: if_splits)

lemma lc_same: "lc x y = 0 \<Longrightarrow> lc y z \<le> 0 \<longleftrightarrow> lc x z \<le> 0"
  using lc_trans [of x y z] lc_trans [of y x z] lc_zero [of x y] by auto

end

sublocale js_collation \<subseteq> js_comparator lc
proof
  fix x y z
  show "lc x y \<le> 0 \<or> lc y x \<le> 0" using lc_neg [of x y] by linarith
  show "lc x y \<le> 0 \<Longrightarrow> lc y z \<le> 0 \<Longrightarrow> lc x z \<le> 0" by (rule lc_trans)
qed

interpretation code_point_collation: js_collation compareCodePoints
  by unfold_locales (auto simp: compareCodePoints_def split: if_splits)

section \<open>Data\<close>

datatype ProviderStatus = Success | ProviderError | Timeout | RateLimited

record TokenUsage =
  promptTokens :: int
  completionTokens :: int
  totalTokens :: int

record ('f, 'v) ReviewResult =
  content :: string
  transportAttemptCount :: "rat option"
  usage :: "TokenUsage option"
  rr_durationSeconds :: "rat option"
  rr_findings :: "'f list option"
  revalidations :: "'v list option"
  aiLikelihood :: "rat option"
  actualModel :: "string option"

record ('f, 'v, 'e) ProviderResult =
  pr_name :: string
  pr_status :: ProviderStatus
  pr_result :: "('f, 'v) ReviewResult option"
  pr_error :: "'e option"
  pr_durationSeconds :: rat
  lifecycleAssignedTargetIds :: "string list option"

record ('f, 'v, 'e) WorkSlotProviderResult =
  ws_workSlotId :: string
  providerResult :: "('f, 'v, 'e) ProviderResult"

section \<open>Operations\<close>

definition EMPTY_USAGE :: TokenUsage where
  "EMPTY_USAGE = \<lparr>promptTokens = 0, completionTokens = 0, totalTokens = 0\<rparr>"

definition add_usage :: "TokenUsage \<Rightarrow> ('f, 'v) ReviewResult \<Rightarrow> TokenUsage" where
  "add_usage t review =
     (let part = (\<lambda>field. case usage review of None \<Rightarrow> 0 | Some u \<Rightarrow> field u)
      in \<lparr>promptTokens = promptTokens t + part promptTokens,
          completionTokens = completionTokens t + part completionTokens,
          totalTokens = totalTokens t + part totalTokens\<rparr>)"

text \<open>\<open>join('\n')\<close>.\<close>

fun join_lines :: "string list \<Rightarrow> string" where
  "join_lines [] = []"
| "join_lines [s] = s"
| "join_lines (s # ss) = s @ CHR 0x0A # join_lines ss"

definition some_list :: "'a list option \<Rightarrow> 'a list" where
  "some_list xs = (case xs of None \<Rightarrow> [] | Some ys \<Rightarrow> ys)"

definition sum_positive :: "rat list \<Rightarrow> rat" where
  "sum_positive ns = foldl (\<lambda>t n. t + max 0 n) 0 ns"

definition aggregateSuccessfulReviews :: "('f, 'v) ReviewResult list \<Rightarrow> ('f, 'v) ReviewResult option" where
  "aggregateSuccessfulReviews reviews =
     (if length reviews = 0 then None
      else
        let likelihoods = concat (map (\<lambda>r. case aiLikelihood r of None \<Rightarrow> [] | Some x \<Rightarrow> [x]) reviews);
            models = js_set (concat (map (\<lambda>r. case actualModel r of
              None \<Rightarrow> [] | Some m \<Rightarrow> if m \<noteq> [] then [m] else []) reviews))
        in Some
          \<lparr>content = join_lines (filter (\<lambda>s. s \<noteq> []) (map content reviews)),
           transportAttemptCount = Some (sum_positive (map (\<lambda>r. case transportAttemptCount r of None \<Rightarrow> 0 | Some n \<Rightarrow> n) reviews)),
           usage = Some (foldl add_usage EMPTY_USAGE reviews),
           rr_durationSeconds = Some (sum_positive (map (\<lambda>r. case rr_durationSeconds r of None \<Rightarrow> 0 | Some n \<Rightarrow> n) reviews)),
           rr_findings = Some (concat (map (some_list \<circ> rr_findings) reviews)),
           revalidations = Some (concat (map (some_list \<circ> revalidations) reviews)),
           aiLikelihood = (if length likelihoods > 0
             then Some (foldl (+) 0 likelihoods / of_nat (length likelihoods)) else None),
           actualModel = (if length models = 1 then Some (hd models) else None)\<rparr>)"

definition successful_reviews :: "('f, 'v, 'e) ProviderResult list \<Rightarrow> ('f, 'v) ReviewResult list" where
  "successful_reviews results = concat (map (\<lambda>r. case pr_result r of
     Some x \<Rightarrow> if pr_status r = Success then [x] else [] | None \<Rightarrow> []) results)"

definition aggregateProvider ::
    "(string \<Rightarrow> string \<Rightarrow> int) \<Rightarrow> string \<Rightarrow> ('f, 'v, 'e) WorkSlotProviderResult list \<Rightarrow> ('f, 'v, 'e) ProviderResult" where
  "aggregateProvider lc provider scopedResults =
     (let results = map providerResult scopedResults;
          firstFailure = find (\<lambda>r. pr_status r \<noteq> Success) results
      in \<lparr>pr_name = provider,
          pr_status = (case firstFailure of None \<Rightarrow> Success | Some r \<Rightarrow> pr_status r),
          pr_result = aggregateSuccessfulReviews (successful_reviews results),
          pr_error = (case firstFailure of None \<Rightarrow> None | Some r \<Rightarrow> pr_error r),
          pr_durationSeconds = sum_positive (map pr_durationSeconds results),
          lifecycleAssignedTargetIds = Some (js_sort lc
            (js_set (concat (map (some_list \<circ> lifecycleAssignedTargetIds) results))))\<rparr>)"

definition compareScopedResults ::
    "(string \<Rightarrow> string \<Rightarrow> int) \<Rightarrow> ('f, 'v, 'e) WorkSlotProviderResult \<Rightarrow> ('f, 'v, 'e) WorkSlotProviderResult \<Rightarrow> int" where
  "compareScopedResults lc l r =
     (let c = lc (ws_workSlotId l) (ws_workSlotId r)
      in if c \<noteq> 0 then c else lc (pr_name (providerResult l)) (pr_name (providerResult r)))"

text \<open>The loop that groups the slots of each provider.\<close>

definition add_scoped :: "(string \<times> ('f, 'v, 'e) WorkSlotProviderResult list) list \<Rightarrow>
    ('f, 'v, 'e) WorkSlotProviderResult \<Rightarrow> (string \<times> ('f, 'v, 'e) WorkSlotProviderResult list) list" where
  "add_scoped m scoped =
     (let provider = pr_name (providerResult scoped);
          existing = (case map_of m provider of None \<Rightarrow> [] | Some xs \<Rightarrow> xs)
      in AList.update provider (existing @ [scoped]) m)"

definition aggregateWorkSlotProviderResults ::
    "(string \<Rightarrow> string \<Rightarrow> int) \<Rightarrow> ('f, 'v, 'e) ProviderResult list \<Rightarrow> ('f, 'v, 'e) WorkSlotProviderResult list \<Rightarrow>
     ('f, 'v, 'e) ProviderResult list" where
  "aggregateWorkSlotProviderResults lc healthResults workSlotResults =
     (let healthByProvider = foldl (\<lambda>m r. AList.update (pr_name r) r m) []
            (js_sort (\<lambda>l r. lc (pr_name l) (pr_name r)) healthResults);
          workByProvider = foldl add_scoped [] (js_sort (compareScopedResults lc) workSlotResults);
          providerNames = js_set (map fst healthByProvider @ map fst workByProvider)
      in map (\<lambda>provider. case map_of workByProvider provider of
             None \<Rightarrow> the (map_of healthByProvider provider)
           | Some scoped \<Rightarrow> if scoped = [] then the (map_of healthByProvider provider)
               else aggregateProvider lc provider scoped)
           (js_sort lc providerNames))"

section \<open>The two maps\<close>

lemma map_of_health: "map_of (foldl (\<lambda>m r. AList.update (pr_name r) r m) m rs) =
    map_of m ++ map_of (rev (map (\<lambda>r. (pr_name r, r)) rs))"
  by (induction rs arbitrary: m) (auto simp: update_conv' map_add_def fun_eq_iff split: option.splits)

lemma map_of_work: "map_of (foldl add_scoped m ws) p =
    (let mine = filter (\<lambda>s. pr_name (providerResult s) = p) ws
     in if map_of m p = None \<and> mine = [] then None
        else Some ((case map_of m p of None \<Rightarrow> [] | Some xs \<Rightarrow> xs) @ mine))"
  by (induction ws arbitrary: m) (auto simp: add_scoped_def update_conv' Let_def split: option.splits)

lemma keys_of_map: "set (map fst m) = dom (map_of m)"
  by (simp add: dom_map_of_conv_image_fst)

text \<open>The slots of one provider, in slot order, and its last health result.\<close>

definition slots_of ::
    "(string \<Rightarrow> string \<Rightarrow> int) \<Rightarrow> ('f, 'v, 'e) WorkSlotProviderResult list \<Rightarrow> string \<Rightarrow> ('f, 'v, 'e) WorkSlotProviderResult list" where
  "slots_of lc ws p = filter (\<lambda>s. pr_name (providerResult s) = p) (js_sort (compareScopedResults lc) ws)"

definition health_of ::
    "(string \<Rightarrow> string \<Rightarrow> int) \<Rightarrow> ('f, 'v, 'e) ProviderResult list \<Rightarrow> string \<Rightarrow> ('f, 'v, 'e) ProviderResult option" where
  "health_of lc rs p = map_of (rev (map (\<lambda>r. (pr_name r, r)) (js_sort (\<lambda>l r. lc (pr_name l) (pr_name r)) rs))) p"

definition known_names :: "('f, 'v, 'e) ProviderResult list \<Rightarrow> ('f, 'v, 'e) WorkSlotProviderResult list \<Rightarrow> string set" where
  "known_names rs ws = pr_name ` set rs \<union> (\<lambda>s. pr_name (providerResult s)) ` set ws"

lemma health_of_Some: "health_of lc rs p = Some r \<Longrightarrow> r \<in> set rs \<and> pr_name r = p"
  by (auto simp: health_of_def dest!: map_of_SomeD)

lemma health_of_None: "health_of lc rs p = None \<longleftrightarrow> p \<notin> pr_name ` set rs"
  by (auto simp: health_of_def map_of_eq_None_iff image_image)

lemma set_slots_of: "set (slots_of lc ws p) = {s \<in> set ws. pr_name (providerResult s) = p}"
  by (auto simp: slots_of_def)

lemma slots_of_Nil: "slots_of lc ws p = [] \<longleftrightarrow> p \<notin> (\<lambda>s. pr_name (providerResult s)) ` set ws"
  by (auto simp: slots_of_def filter_empty_conv)

lemma mset_slots_of: "mset (slots_of lc ws p) = mset (filter (\<lambda>s. pr_name (providerResult s) = p) ws)"
  by (simp add: slots_of_def mset_filter)

lemma aggregate_eq:
  "\<exists>names. distinct names \<and> set names = known_names rs ws \<and>
    aggregateWorkSlotProviderResults lc rs ws = map (\<lambda>p. if slots_of lc ws p = [] then the (health_of lc rs p)
      else aggregateProvider lc p (slots_of lc ws p)) (js_sort lc names)"
proof -
  let ?h = "foldl (\<lambda>m r. AList.update (pr_name r) r m) [] (js_sort (\<lambda>l r. lc (pr_name l) (pr_name r)) rs)"
  let ?w = "foldl add_scoped [] (js_sort (compareScopedResults lc) ws)"
  let ?names = "js_set (map fst ?h @ map fst ?w)"
  have h: "map_of ?h p = health_of lc rs p" for p
    by (simp add: map_of_health health_of_def)
  have w: "map_of ?w p = (if slots_of lc ws p = [] then None else Some (slots_of lc ws p))" for p
    by (simp add: map_of_work slots_of_def Let_def)
  have "set (map fst ?h) = pr_name ` set rs"
    unfolding keys_of_map using h health_of_None [of lc rs] by (auto simp: dom_def)
  moreover have "set (map fst ?w) = (\<lambda>s. pr_name (providerResult s)) ` set ws"
    unfolding keys_of_map by (auto simp: dom_def w slots_of_Nil)
  ultimately have "set ?names = known_names rs ws" by (simp add: known_names_def)
  then show ?thesis
    by (intro exI [of _ ?names]) (auto simp: aggregateWorkSlotProviderResults_def Let_def h w intro!: map_cong)
qed

section \<open>One provider\<close>

lemma sum_positive_eq: "sum_positive ns = (\<Sum>n\<leftarrow>ns. max 0 n)"
proof -
  have "foldl (\<lambda>t n. t + max 0 n) t ns = t + (\<Sum>n\<leftarrow>ns. max 0 n)" for t
    by (induction ns arbitrary: t) (simp_all add: add.assoc)
  then show ?thesis by (simp add: sum_positive_def)
qed

definition findings_of :: "('f, 'v, 'e) ProviderResult \<Rightarrow> 'f list" where
  "findings_of r = (case pr_result r of None \<Rightarrow> [] | Some x \<Rightarrow> some_list (rr_findings x))"

definition target_ids :: "('f, 'v, 'e) ProviderResult \<Rightarrow> string set" where
  "target_ids r = set (some_list (lifecycleAssignedTargetIds r))"

lemma findings_aggregated:
  "findings_of (aggregateProvider lc p ss) =
    concat (map findings_of (filter (\<lambda>r. pr_status r = Success) (map providerResult ss)))"
proof -
  have "findings_of (aggregateProvider lc p ss) =
      concat (map (some_list \<circ> rr_findings) (successful_reviews (map providerResult ss)))"
    by (simp add: findings_of_def aggregateProvider_def Let_def aggregateSuccessfulReviews_def some_list_def)
  also have "\<dots> = concat (map findings_of (filter (\<lambda>r. pr_status r = Success) (map providerResult ss)))"
    by (induction ss) (auto simp: successful_reviews_def findings_of_def split: option.split)
  finally show ?thesis .
qed

lemma aggregated_provider:
  "pr_name (aggregateProvider lc p ss) = p"
  "pr_status (aggregateProvider lc p ss) = Success \<longleftrightarrow> (\<forall>s \<in> set ss. pr_status (providerResult s) = Success)"
  "pr_durationSeconds (aggregateProvider lc p ss) = (\<Sum>s\<leftarrow>ss. max 0 (pr_durationSeconds (providerResult s)))"
  "target_ids (aggregateProvider lc p ss) = (\<Union>s \<in> set ss. target_ids (providerResult s))"
proof -
  have "(case find (\<lambda>r. pr_status r \<noteq> Success) rs of None \<Rightarrow> Success | Some r \<Rightarrow> pr_status r) = Success \<longleftrightarrow>
      (\<forall>r \<in> set rs. pr_status r = Success)" for rs :: "('a, 'b, 'c) ProviderResult list"
    by (induction rs) auto
  then show "pr_status (aggregateProvider lc p ss) = Success \<longleftrightarrow> (\<forall>s \<in> set ss. pr_status (providerResult s) = Success)"
    by (simp add: aggregateProvider_def Let_def)
qed (simp_all add: aggregateProvider_def Let_def sum_positive_eq comp_def target_ids_def some_list_def)

section \<open>The order of the input\<close>

context js_collation
begin

lemma scoped_comparator: "js_comparator (compareScopedResults lc)"
proof
  fix x y z :: "('f, 'v, 'e) WorkSlotProviderResult"
  let ?s = "\<lambda>x. ws_workSlotId x" and ?n = "\<lambda>x. pr_name (providerResult x)"
  show "compareScopedResults lc x y \<le> 0 \<or> compareScopedResults lc y x \<le> 0"
    using lc_neg [of "?s x" "?s y"] lc_neg [of "?n x" "?n y"] lc_zero [of "?s x" "?s y"]
    by (auto simp: compareScopedResults_def Let_def)
  assume xy: "compareScopedResults lc x y \<le> 0" and yz: "compareScopedResults lc y z \<le> 0"
  then have s: "lc (?s x) (?s y) \<le> 0" "lc (?s y) (?s z) \<le> 0"
    by (auto simp: compareScopedResults_def Let_def split: if_splits)
  then have xz: "lc (?s x) (?s z) \<le> 0" by (rule lc_trans)
  show "compareScopedResults lc x z \<le> 0"
  proof (cases "lc (?s x) (?s z) = 0")
    case True
    then have "lc (?s z) (?s y) \<le> 0" "lc (?s y) (?s x) \<le> 0"
      using s lc_trans [of "?s z" "?s x" "?s y"] lc_trans [of "?s y" "?s z" "?s x"] lc_zero [of "?s x" "?s z"] by auto
    then have "lc (?s x) (?s y) = 0" "lc (?s y) (?s z) = 0"
      using s lc_neg [of "?s x" "?s y"] lc_neg [of "?s y" "?s z"] by linarith+
    with True xy yz show ?thesis by (auto simp: compareScopedResults_def Let_def intro: lc_trans)
  next
    case False
    with xz show ?thesis by (simp add: compareScopedResults_def Let_def)
  qed
qed

lemma comparator: "js_comparator lc"
  by unfold_locales

lemma name_comparator: "js_comparator (\<lambda>l r. lc (f l) (f r))"
  by unfold_locales (use cmp_total in blast, rule lc_trans)

end

section \<open>One entry of the summary\<close>

definition entry_of ::
    "(string \<Rightarrow> string \<Rightarrow> int) \<Rightarrow> ('f, 'v, 'e) ProviderResult list \<Rightarrow> ('f, 'v, 'e) WorkSlotProviderResult list \<Rightarrow>
     string \<Rightarrow> ('f, 'v, 'e) ProviderResult" where
  "entry_of lc rs ws p = (if slots_of lc ws p = [] then the (health_of lc rs p)
     else aggregateProvider lc p (slots_of lc ws p))"

definition results_of :: "('f, 'v, 'e) WorkSlotProviderResult list \<Rightarrow> string \<Rightarrow> ('f, 'v, 'e) ProviderResult list" where
  "results_of ws p = map providerResult (filter (\<lambda>s. pr_name (providerResult s) = p) ws)"

lemma results_of_slots: "mset (map providerResult (slots_of lc ws p)) = mset (results_of ws p)"
  by (simp only: results_of_def mset_map mset_slots_of)

lemma results_of_Nil: "results_of ws p = [] \<longleftrightarrow> slots_of lc ws p = []"
  by (auto simp: results_of_def slots_of_Nil filter_empty_conv)

lemma health_known:
  assumes "p \<in> known_names rs ws" "slots_of lc ws p = []"
  shows "\<exists>r. health_of lc rs p = Some r \<and> r \<in> set rs \<and> pr_name r = p"
  using assms health_of_None [of lc rs p] health_of_Some [of lc rs p]
  by (cases "health_of lc rs p") (auto simp: known_names_def slots_of_Nil)

lemma entry_name: "p \<in> known_names rs ws \<Longrightarrow> pr_name (entry_of lc rs ws p) = p"
  using health_known [of p rs ws lc] by (auto simp: entry_of_def aggregated_provider)

lemma entry_health: "p \<in> known_names rs ws \<Longrightarrow> results_of ws p = [] \<Longrightarrow> entry_of lc rs ws p \<in> set rs"
  using health_known [of p rs ws lc] results_of_Nil [of ws p lc] by (auto simp: entry_of_def)

lemma entry_aggregated:
  assumes "results_of ws p \<noteq> []"
  shows "pr_status (entry_of lc rs ws p) = Success \<longleftrightarrow> (\<forall>m \<in> set (results_of ws p). pr_status m = Success)"
    and "pr_durationSeconds (entry_of lc rs ws p) = (\<Sum>m\<leftarrow>results_of ws p. max 0 (pr_durationSeconds m))"
    and "mset (findings_of (entry_of lc rs ws p)) =
      mset (concat (map findings_of (filter (\<lambda>m. pr_status m = Success) (results_of ws p))))"
    and "target_ids (entry_of lc rs ws p) = (\<Union>m \<in> set (results_of ws p). target_ids m)"
proof -
  have entry: "entry_of lc rs ws p = aggregateProvider lc p (slots_of lc ws p)"
    using assms results_of_Nil [of ws p lc] by (simp add: entry_of_def)
  have set: "set (results_of ws p) = providerResult ` set (slots_of lc ws p)"
    by (auto simp: results_of_def set_slots_of)
  show "pr_status (entry_of lc rs ws p) = Success \<longleftrightarrow> (\<forall>m \<in> set (results_of ws p). pr_status m = Success)"
    "target_ids (entry_of lc rs ws p) = (\<Union>m \<in> set (results_of ws p). target_ids m)"
    by (simp_all add: entry set aggregated_provider)
  show "pr_durationSeconds (entry_of lc rs ws p) = (\<Sum>m\<leftarrow>results_of ws p. max 0 (pr_durationSeconds m))"
    using sum_list_perm [OF results_of_slots, of "\<lambda>m. max 0 (pr_durationSeconds m)" lc ws p]
    by (simp add: entry aggregated_provider comp_def)
  show "mset (findings_of (entry_of lc rs ws p)) =
      mset (concat (map findings_of (filter (\<lambda>m. pr_status m = Success) (results_of ws p))))"
    unfolding entry findings_aggregated by (intro mset_concat_perm mset_filter_perm results_of_slots)
qed

lemma summary_entries:
  obtains names where "distinct names" "set names = known_names rs ws"
    "aggregateWorkSlotProviderResults lc rs ws = map (entry_of lc rs ws) (js_sort lc names)"
  using aggregate_eq [of rs ws lc] unfolding entry_of_def by blast

lemma names_of_summary:
  assumes "set names = known_names rs ws"
  shows "map pr_name (map (entry_of lc rs ws) (js_sort lc names)) = js_sort lc names"
  unfolding map_map by (rule map_idI) (simp add: entry_name assms)

section \<open>Properties\<close>

text \<open>
  The summary has exactly one entry per provider that was checked or ran a slot, in collation order;
  a provider without slots keeps one of its health results, and one with slots is successful only when
  every slot succeeded, took the sum of their times, and carries every finding of the slots that
  succeeded and every lifecycle target.
\<close>

theorem provider_summary_is_complete:
  fixes work :: "('f, 'v, 'e) WorkSlotProviderResult list"
  assumes "js_collation lc" and "out = aggregateWorkSlotProviderResults lc health work"
  shows "distinct (map pr_name out) \<and> set (map pr_name out) = known_names health work \<and>
    sorted_wrt (\<lambda>l r. lc (pr_name l) (pr_name r) \<le> 0) out \<and>
    (\<forall>r \<in> set out. let mine = results_of work (pr_name r) in
      if mine = [] then r \<in> set health
      else (pr_status r = Success \<longleftrightarrow> (\<forall>m \<in> set mine. pr_status m = Success)) \<and>
        pr_durationSeconds r = (\<Sum>m\<leftarrow>mine. max 0 (pr_durationSeconds m)) \<and>
        mset (findings_of r) = mset (concat (map findings_of (filter (\<lambda>m. pr_status m = Success) mine))) \<and>
        target_ids r = (\<Union>m \<in> set mine. target_ids m))"
proof (intro conjI ballI)
  obtain names where names: "distinct names" "set names = known_names health work"
    and out: "out = map (entry_of lc health work) (js_sort lc names)"
    using summary_entries [of health work lc] assms(2) by metis
  note out_names = names_of_summary [OF names(2), of lc, folded out]
  show "distinct (map pr_name out)" "set (map pr_name out) = known_names health work"
    unfolding out_names by (simp_all add: names)
  have "sorted_wrt (\<lambda>l r. lc l r \<le> 0) (map pr_name out)"
    unfolding out_names using js_collation.comparator [OF assms(1)] by (rule js_comparator.sorted_sort)
  then show "sorted_wrt (\<lambda>l r. lc (pr_name l) (pr_name r) \<le> 0) out" by (simp only: sorted_wrt_map)
  fix r assume "r \<in> set out"
  then obtain p where "p \<in> known_names health work" "r = entry_of lc health work p"
    unfolding out set_map set_js_sort names(2) by blast
  then show "let mine = results_of work (pr_name r) in
      if mine = [] then r \<in> set health
      else (pr_status r = Success \<longleftrightarrow> (\<forall>m \<in> set mine. pr_status m = Success)) \<and>
        pr_durationSeconds r = (\<Sum>m\<leftarrow>mine. max 0 (pr_durationSeconds m)) \<and>
        mset (findings_of r) = mset (concat (map findings_of (filter (\<lambda>m. pr_status m = Success) mine))) \<and>
        target_ids r = (\<Union>m \<in> set mine. target_ids m)"
    by (simp add: entry_name entry_health entry_aggregated Let_def)
qed

definition demo_result :: "string \<Rightarrow> ProviderStatus \<Rightarrow> rat \<Rightarrow> (nat, nat, nat) ProviderResult" where
  "demo_result p st d = \<lparr>pr_name = p, pr_status = st, pr_result = None, pr_error = None,
     pr_durationSeconds = d, lifecycleAssignedTargetIds = None\<rparr>"

definition demo_slots :: "(nat, nat, nat) WorkSlotProviderResult list" where
  "demo_slots = [\<lparr>ws_workSlotId = ''2'', providerResult = demo_result ''a'' Success 5\<rparr>,
     \<lparr>ws_workSlotId = ''1'', providerResult = demo_result ''a'' Timeout 3\<rparr>]"

theorem provider_summary_is_complete_witness:
  "distinct (map pr_name (aggregateWorkSlotProviderResults compareCodePoints [demo_result ''b'' Success 1] demo_slots)) \<and>
   set (map pr_name (aggregateWorkSlotProviderResults compareCodePoints [demo_result ''b'' Success 1] demo_slots)) = {''a'', ''b''}"
  using provider_summary_is_complete [OF code_point_collation.js_collation_axioms refl, of "[demo_result ''b'' Success 1]" demo_slots]
  by (auto simp: known_names_def demo_slots_def demo_result_def)

text \<open>
  The summary does not depend on the order in which health checks and slots were reported, as long as
  no two of them are the same for the collation.
\<close>

theorem provider_summary_ignores_order:
  fixes work work' :: "('f, 'v, 'e) WorkSlotProviderResult list"
  assumes lc: "js_collation lc" and "mset health = mset health'" "mset work = mset work'"
    and names: "\<And>p q. p \<in> known_names health work \<Longrightarrow> q \<in> known_names health work \<Longrightarrow> lc p q = 0 \<Longrightarrow> p = q"
    and "inj_on pr_name (set health)"
    and "\<And>s t. s \<in> set work \<Longrightarrow> t \<in> set work \<Longrightarrow> lc (ws_workSlotId s) (ws_workSlotId t) = 0 \<Longrightarrow>
      pr_name (providerResult s) = pr_name (providerResult t) \<Longrightarrow> s = t"
  shows "aggregateWorkSlotProviderResults lc health work = aggregateWorkSlotProviderResults lc health' work'"
proof -
  note neg = js_collation.lc_neg [OF lc]
  have zero: "lc x y \<le> 0 \<Longrightarrow> lc y x \<le> 0 \<Longrightarrow> lc x y = 0" for x y using neg [of x y] by linarith
  have known: "known_names health work = known_names health' work'"
    using mset_eq_setD [OF assms(2)] mset_eq_setD [OF assms(3)] by (simp add: known_names_def)
  have "js_sort (compareScopedResults lc) work = js_sort (compareScopedResults lc) work'"
    using assms(3)
  proof (rule js_comparator.sort_perm_on [OF js_collation.scoped_comparator [OF lc]])
    fix s t assume st: "s \<in> set work" "t \<in> set work" "compareScopedResults lc s t \<le> 0" "compareScopedResults lc t s \<le> 0"
    then have slot: "lc (ws_workSlotId s) (ws_workSlotId t) = 0"
      using neg [of "ws_workSlotId s" "ws_workSlotId t"] js_collation.lc_zero [OF lc, of "ws_workSlotId s" "ws_workSlotId t"]
      by (auto simp: compareScopedResults_def Let_def split: if_splits)
    then have "lc (pr_name (providerResult s)) (pr_name (providerResult t)) = 0"
      using st(3,4) js_collation.lc_zero [OF lc, of "ws_workSlotId s" "ws_workSlotId t"]
      by (intro zero) (simp_all add: compareScopedResults_def)
    then have "pr_name (providerResult s) = pr_name (providerResult t)"
      by (rule names [rotated 2]) (use st(1,2) in \<open>auto simp: known_names_def\<close>)
    with slot show "s = t" by (rule assms(6) [OF st(1,2)])
  qed
  moreover have "js_sort (\<lambda>l r. lc (pr_name l) (pr_name r)) health = js_sort (\<lambda>l r. lc (pr_name l) (pr_name r)) health'"
    using assms(2)
  proof (rule js_comparator.sort_perm_on [OF js_collation.name_comparator [OF lc]])
    fix r s assume rs: "r \<in> set health" "s \<in> set health" "lc (pr_name r) (pr_name s) \<le> 0" "lc (pr_name s) (pr_name r) \<le> 0"
    then have "pr_name r = pr_name s"
      by (intro names zero) (simp_all add: known_names_def)
    then show "r = s" using rs(1,2) assms(5) by (simp add: inj_on_eq_iff)
  qed
  ultimately have entries: "entry_of lc health work = entry_of lc health' work'"
    by (simp add: entry_of_def slots_of_def health_of_def fun_eq_iff)
  obtain ns where ns: "distinct ns" "set ns = known_names health work"
    "aggregateWorkSlotProviderResults lc health work = map (entry_of lc health work) (js_sort lc ns)"
    by (rule summary_entries)
  obtain ns' where ns': "distinct ns'" "set ns' = known_names health' work'"
    "aggregateWorkSlotProviderResults lc health' work' = map (entry_of lc health' work') (js_sort lc ns')"
    by (rule summary_entries)
  have "mset ns = mset ns'"
    using set_eq_iff_mset_eq_distinct [OF ns(1) ns'(1)] ns(2) ns'(2) known by simp
  then have "js_sort lc ns = js_sort lc ns'"
    by (rule js_comparator.sort_perm_on [OF js_collation.comparator [OF lc]])
      (rule names [OF _ _ zero], simp_all add: ns(2))
  then show ?thesis by (simp add: ns(3) ns'(3) entries)
qed

theorem provider_summary_ignores_order_witness:
  "aggregateWorkSlotProviderResults compareCodePoints [demo_result ''b'' Success 1] demo_slots =
   aggregateWorkSlotProviderResults compareCodePoints [demo_result ''b'' Success 1] (rev demo_slots)"
  by (rule provider_summary_ignores_order [OF code_point_collation.js_collation_axioms])
    (auto simp: compareCodePoints_eq0 demo_slots_def demo_result_def)

end
