(* ===== verification/Batch_Plan.thy ===== *)
theory Batch_Plan
  imports Canonical_Json
begin

text \<open>
  \<open>src/review-execution/domain/review-batch-plan.ts\<close>: the plan of the review batches and the digests
  that identify the plan and each batch.  The digest function is the parameter \<open>sha\<close>; the texts that are
  hashed are \<open>JSON.stringify\<close> of objects in the member order of the source.
\<close>

section \<open>Data\<close>

record FileChange =
  filename :: string
  file_status :: string
  additions :: int
  deletions :: int
  changes :: int
  patch :: "string option"
  previousFilename :: "string option"
  language :: "string option"

record CreateReviewBatchPlanInput =
  batches :: "FileChange list list"
  baseSha :: string
  headSha :: string
  compatibilityKey :: string
  providerNames :: "string list"

record PlannedReviewBatch =
  batch_id :: string
  batch_index :: nat
  batch_files :: "FileChange list"

record ReviewBatchPlan =
  plan_version :: string
  planHash :: string
  plan_baseSha :: string
  plan_headSha :: string
  plan_compatibilityKey :: string
  plan_providerNames :: "string list"
  plan_batches :: "PlannedReviewBatch list"

definition ReviewBatchPlanVersion_V1 :: string where
  "ReviewBatchPlanVersion_V1 = ''v1''"

section \<open>Operations\<close>

definition requireNonEmpty :: "string \<Rightarrow> string \<Rightarrow> js_error option" where
  "requireNonEmpty s field = check (length (js_trim s) \<noteq> 0) (field @ '' must not be empty'')"

definition null_or :: "string option \<Rightarrow> json" where
  "null_or x = (case x of None \<Rightarrow> JNull | Some s \<Rightarrow> JStr s)"

definition canonicalFile :: "FileChange \<Rightarrow> json" where
  "canonicalFile f = JObj
     [(''filename'', JStr (filename f)), (''status'', JStr (file_status f)),
      (''additions'', JNum (additions f)), (''deletions'', JNum (deletions f)),
      (''changes'', JNum (changes f)), (''patch'', null_or (patch f)),
      (''previousFilename'', null_or (previousFilename f)), (''language'', null_or (language f))]"

definition canonicalBatch :: "FileChange list \<Rightarrow> json" where
  "canonicalBatch batch = JArr (map canonicalFile batch)"

definition plan_payload :: "CreateReviewBatchPlanInput \<Rightarrow> json" where
  "plan_payload input = JObj
     [(''version'', JStr ReviewBatchPlanVersion_V1), (''baseSha'', JStr (baseSha input)),
      (''headSha'', JStr (headSha input)), (''compatibilityKey'', JStr (compatibilityKey input)),
      (''providerNames'', JArr (map JStr (js_sort compareCodePoints (providerNames input)))),
      (''batches'', JArr (map canonicalBatch (batches input)))]"

definition batch_payload :: "string \<Rightarrow> nat \<Rightarrow> FileChange list \<Rightarrow> json" where
  "batch_payload hash index batch = JObj
     [(''version'', JStr ReviewBatchPlanVersion_V1), (''planHash'', JStr hash),
      (''index'', JNum (int index)), (''files'', canonicalBatch batch)]"

definition createReviewBatchPlan ::
    "(string \<Rightarrow> string) \<Rightarrow> CreateReviewBatchPlanInput \<Rightarrow> ReviewBatchPlan res" where
  "createReviewBatchPlan sha input =
     throws (requireNonEmpty (baseSha input) ''baseSha'')
     (throws (requireNonEmpty (headSha input) ''headSha'')
     (throws (requireNonEmpty (compatibilityKey input) ''compatibilityKey'')
     (throws (first_error (\<lambda>name. requireNonEmpty name ''providerName'') (providerNames input))
     (let hash = sha (stringify (plan_payload input))
      in Inr \<lparr>plan_version = ReviewBatchPlanVersion_V1, planHash = hash,
              plan_baseSha = baseSha input, plan_headSha = headSha input,
              plan_compatibilityKey = compatibilityKey input,
              plan_providerNames = js_sort compareCodePoints (providerNames input),
              plan_batches = map (\<lambda>(index, batch).
                \<lparr>batch_id = sha (stringify (batch_payload hash index batch)),
                 batch_index = index, batch_files = batch\<rparr>)
                (List.enumerate 0 (batches input))\<rparr>))))"

section \<open>What the texts identify\<close>

lemma stringify_inj: "stringify v = stringify w \<longleftrightarrow> v = w"
  using stringify_prefix [of v "[]" w "[]"] by (auto simp: no_digit_def)

lemma null_or_inj: "null_or a = null_or b \<longleftrightarrow> a = b"
  by (auto simp: null_or_def split: option.splits)

lemma canonicalFile_inj: "canonicalFile a = canonicalFile b \<longleftrightarrow> a = b"
  by (auto simp: canonicalFile_def null_or_inj)

lemma canonicalBatch_inj: "canonicalBatch a = canonicalBatch b \<longleftrightarrow> a = b"
  using inj_map_eq_map [of canonicalFile a b] by (simp add: canonicalBatch_def inj_def canonicalFile_inj)

definition same_plan :: "CreateReviewBatchPlanInput \<Rightarrow> CreateReviewBatchPlanInput \<Rightarrow> bool" where
  "same_plan i j \<longleftrightarrow> baseSha i = baseSha j \<and> headSha i = headSha j \<and> compatibilityKey i = compatibilityKey j \<and>
     mset (providerNames i) = mset (providerNames j) \<and> batches i = batches j"

lemma plan_payload_inj: "plan_payload i = plan_payload j \<longleftrightarrow> same_plan i j"
proof -
  have "map JStr xs = map JStr ys \<longleftrightarrow> xs = ys" for xs ys by (rule inj_map_eq_map) (simp add: inj_def)
  moreover have "map canonicalBatch xs = map canonicalBatch ys \<longleftrightarrow> xs = ys" for xs ys
    by (rule inj_map_eq_map) (simp add: inj_def canonicalBatch_inj)
  moreover have "js_sort compareCodePoints xs = js_sort compareCodePoints ys \<longleftrightarrow> mset xs = mset ys" for xs ys
    by (metis code_points.sort_perm mset_js_sort)
  ultimately show ?thesis by (auto simp: plan_payload_def same_plan_def)
qed

definition fields_ok :: "CreateReviewBatchPlanInput \<Rightarrow> bool" where
  "fields_ok i \<longleftrightarrow> (\<forall>s \<in> {baseSha i, headSha i, compatibilityKey i} \<union> set (providerNames i). \<exists>c \<in> set s. \<not> is_space c)"

text \<open>The plan of an accepted input, and the texts that are hashed for it.\<close>

definition plan_hash_of :: "(string \<Rightarrow> string) \<Rightarrow> CreateReviewBatchPlanInput \<Rightarrow> string" where
  "plan_hash_of sha i = sha (stringify (plan_payload i))"

definition batch_texts :: "(string \<Rightarrow> string) \<Rightarrow> CreateReviewBatchPlanInput \<Rightarrow> string list" where
  "batch_texts sha i =
     map (\<lambda>(k, b). stringify (batch_payload (plan_hash_of sha i) k b)) (List.enumerate 0 (batches i))"

definition hashed_texts :: "(string \<Rightarrow> string) \<Rightarrow> CreateReviewBatchPlanInput \<Rightarrow> string set" where
  "hashed_texts sha i = insert (stringify (plan_payload i)) (set (batch_texts sha i))"

lemma batch_plan_Inr: "createReviewBatchPlan sha i = Inr p \<longleftrightarrow> fields_ok i \<and>
    p = \<lparr>plan_version = ReviewBatchPlanVersion_V1, planHash = plan_hash_of sha i, plan_baseSha = baseSha i,
         plan_headSha = headSha i, plan_compatibilityKey = compatibilityKey i,
         plan_providerNames = js_sort compareCodePoints (providerNames i),
         plan_batches = map (\<lambda>(index, batch).
           \<lparr>batch_id = sha (stringify (batch_payload (plan_hash_of sha i) index batch)),
            batch_index = index, batch_files = batch\<rparr>) (List.enumerate 0 (batches i))\<rparr>"
  by (auto simp: createReviewBatchPlan_def res_simps requireNonEmpty_def js_trim_Nil fields_ok_def
      plan_hash_of_def Let_def)

lemma plan_ids: "createReviewBatchPlan sha i = Inr p \<Longrightarrow>
    planHash p = plan_hash_of sha i \<and> map batch_id (plan_batches p) = map sha (batch_texts sha i) \<and>
    map batch_files (plan_batches p) = batches i"
  by (auto simp: batch_plan_Inr batch_texts_def comp_def split_beta)

lemma batch_payload_inj: "batch_payload h k b = batch_payload h' k' b' \<longleftrightarrow> h = h' \<and> k = k' \<and> b = b'"
  by (auto simp: batch_payload_def canonicalBatch_inj)

lemma distinct_batch_texts: "distinct (batch_texts sha i)"
  by (auto simp: batch_texts_def distinct_map distinct_enumerate inj_on_def stringify_inj batch_payload_inj)

lemma batch_texts_disjoint:
  "plan_hash_of sha i \<noteq> plan_hash_of sha j \<Longrightarrow> set (batch_texts sha i) \<inter> set (batch_texts sha j) = {}"
  by (auto simp: batch_texts_def stringify_inj batch_payload_inj)

section \<open>Property\<close>

text \<open>
  A batch plan exists exactly when its four kinds of names have a visible character.  Its batches are
  the given ones, in order, and when the digest function tells the texts that are hashed apart, the plan
  hash identifies the plan up to the order of the providers, and no two batches, of one plan or of two
  different plans, share an id.
\<close>

theorem batch_plan_is_identified:
  fixes sha :: "string \<Rightarrow> string"
  assumes inj: "inj_on sha (hashed_texts sha i \<union> hashed_texts sha j)"
  shows "((\<exists>p. createReviewBatchPlan sha i = Inr p) \<longleftrightarrow> fields_ok i) \<and>
    (\<forall>p. createReviewBatchPlan sha i = Inr p \<longrightarrow>
      map batch_files (plan_batches p) = batches i \<and> distinct (map batch_id (plan_batches p)) \<and>
      (\<forall>q. createReviewBatchPlan sha j = Inr q \<longrightarrow>
        (planHash p = planHash q \<longleftrightarrow> same_plan i j) \<and>
        (\<not> same_plan i j \<longrightarrow> set (map batch_id (plan_batches p)) \<inter> set (map batch_id (plan_batches q)) = {})))"
proof (intro conjI allI impI)
  show "(\<exists>p. createReviewBatchPlan sha i = Inr p) \<longleftrightarrow> fields_ok i" by (simp add: batch_plan_Inr)
  have hash: "plan_hash_of sha i = plan_hash_of sha j \<longleftrightarrow> same_plan i j"
    using inj_on_eq_iff [OF inj] plan_payload_inj [of i j] by (simp add: plan_hash_of_def hashed_texts_def stringify_inj)
  fix p assume p: "createReviewBatchPlan sha i = Inr p"
  show "map batch_files (plan_batches p) = batches i" using plan_ids [OF p] by simp
  have "inj_on sha (set (batch_texts sha i))" using inj by (rule inj_on_subset) (auto simp: hashed_texts_def)
  then show "distinct (map batch_id (plan_batches p))"
    using plan_ids [OF p] distinct_batch_texts [of sha i] by (simp add: distinct_map)
  fix q assume q: "createReviewBatchPlan sha j = Inr q"
  show "planHash p = planHash q \<longleftrightarrow> same_plan i j" using hash plan_ids [OF p] plan_ids [OF q] by simp
  assume "\<not> same_plan i j"
  then have "set (batch_texts sha i) \<inter> set (batch_texts sha j) = {}" using hash by (intro batch_texts_disjoint) simp
  then have "sha ` set (batch_texts sha i) \<inter> sha ` set (batch_texts sha j) = {}"
    using inj_on_image_Int [OF inj, of "set (batch_texts sha i)" "set (batch_texts sha j)"]
    by (auto simp: hashed_texts_def)
  then show "set (map batch_id (plan_batches p)) \<inter> set (map batch_id (plan_batches q)) = {}"
    using plan_ids [OF p] plan_ids [OF q] by (simp del: map_eq_conv)
qed

definition demo_input :: "string list \<Rightarrow> CreateReviewBatchPlanInput" where
  "demo_input names = \<lparr>batches = [[], []], baseSha = ''b'', headSha = ''h'', compatibilityKey = ''k'', providerNames = names\<rparr>"

theorem batch_plan_is_identified_witness:
  "plan_hash_of (\<lambda>s. s) (demo_input [''x'', ''y'']) = plan_hash_of (\<lambda>s. s) (demo_input [''y'', ''x''])"
proof -
  obtain p q where "createReviewBatchPlan (\<lambda>s. s) (demo_input [''x'', ''y'']) = Inr p"
    "createReviewBatchPlan (\<lambda>s. s) (demo_input [''y'', ''x'']) = Inr q"
    by (simp add: batch_plan_Inr fields_ok_def demo_input_def is_space_def)
  with batch_plan_is_identified [of "\<lambda>s. s" "demo_input [''x'', ''y'']" "demo_input [''y'', ''x'']"]
  show ?thesis using plan_ids by (fastforce simp: same_plan_def demo_input_def)
qed

end
