(* ===== verification/Js_Value.thy ===== *)
theory Js_Value
  imports Js_Number
begin

text \<open>
  Values of unknown type (\<open>unknown\<close> in the sources): what \<open>JSON.parse\<close> and object literals build, and
  \<open>Error\<close> instances.  Objects list their own members, each name once.  Validation schemas are declared in
  the sources with the \<open>zod\<close> package: a declaration is a value of \<open>schema\<close>, the package itself is the
  parameter \<open>zod\<close>, of which \<open>zod_documented\<close> says what its documentation promises of a strict schema.
\<close>

section \<open>Values\<close>

datatype js =
  Undefined | Null | Bool bool | Num jsnum | Str string | Arr "js list" | Obj "(string \<times> js) list"
| ErrorObj string string  \<comment> \<open>an \<open>Error\<close> with its name and message\<close>

type_synonym js_record = "(string \<times> js) list"

definition get :: "string \<Rightarrow> js_record \<Rightarrow> js" where
  "get key ms = (case map_of ms key of None \<Rightarrow> Undefined | Some v \<Rightarrow> v)"

text \<open>\<open>value?.key\<close> on an optional record.\<close>

definition get_opt :: "string \<Rightarrow> js_record option \<Rightarrow> js" where
  "get_opt key r = (case r of None \<Rightarrow> Undefined | Some ms \<Rightarrow> get key ms)"

definition nullish :: "js \<Rightarrow> bool" where
  "nullish v \<longleftrightarrow> v = Undefined \<or> v = Null"

text \<open>\<open>a ?? b\<close>.\<close>

definition coalesce :: "js \<Rightarrow> js \<Rightarrow> js" where
  "coalesce a b = (if nullish a then b else a)"

fun array_of :: "js \<Rightarrow> js list option" where
  "array_of (Arr vs) = Some vs"
| "array_of v = None"

fun asRecord :: "js \<Rightarrow> js_record option" where
  "asRecord (Obj ms) = Some ms"
| "asRecord (ErrorObj n m) = Some [(''name'', Str n), (''message'', Str m)]"
| "asRecord v = None"

text \<open>A member that is only written under a condition: \<open>...(c ? { key: v } : {})\<close>.\<close>

definition given :: "string \<Rightarrow> js \<Rightarrow> js_record" where
  "given key v = (if v \<noteq> Undefined then [(key, v)] else [])"

lemma get_simps [simp]:
  "get key [] = Undefined" "get key ((key, v) # ms) = v" "key \<noteq> k \<Longrightarrow> get key ((k, v) # ms) = get key ms"
  by (simp_all add: get_def)

lemma get_append: "get key (xs @ ys) = (if key \<in> fst ` set xs then get key xs else get key ys)"
  using map_of_eq_None_iff [of xs key] by (cases "map_of xs key") (simp_all add: get_def map_add_def)

lemma given_keys: "fst ` set (given key v) \<subseteq> {key}"
  by (auto simp: given_def)

lemma get_given: "get key (given key v) = v"
  by (simp add: given_def)

section \<open>Schemas\<close>

datatype schema =
  SText nat nat                  \<comment> \<open>\<open>z.string().min(a).max(b)\<close>\<close>
| SPattern "string \<Rightarrow> bool"      \<comment> \<open>\<open>z.string().regex(p)\<close>\<close>
| SInt int "int option"          \<comment> \<open>\<open>z.number().int()\<close> from a least to a greatest value\<close>
| SUnit                          \<comment> \<open>\<open>z.number().min(0).max(1)\<close>\<close>
| SBool
| SEnum "string list"            \<comment> \<open>\<open>z.nativeEnum(e)\<close> of a string enum\<close>
| SList schema nat bool          \<comment> \<open>\<open>z.array(s).max(n)\<close>, with the elements distinct when set\<close>
| SObject "(string \<times> bool \<times> schema) list"  \<comment> \<open>\<open>z.object({...}).strict()\<close>: name, optional, schema\<close>

fun is_int :: "jsnum \<Rightarrow> int option" where
  "is_int (Fin r) = (if of_int (floor r) = r then Some (floor r) else None)"
| "is_int n = None"

fun conforms :: "schema \<Rightarrow> js \<Rightarrow> bool" where
  "conforms (SText lo hi) v \<longleftrightarrow> (case v of Str s \<Rightarrow> lo \<le> length s \<and> length s \<le> hi | _ \<Rightarrow> False)"
| "conforms (SPattern p) v \<longleftrightarrow> (case v of Str s \<Rightarrow> p s | _ \<Rightarrow> False)"
| "conforms (SInt lo hi) v \<longleftrightarrow> (case v of Num n \<Rightarrow> (case is_int n of None \<Rightarrow> False
     | Some i \<Rightarrow> lo \<le> i \<and> (case hi of None \<Rightarrow> True | Some h \<Rightarrow> i \<le> h)) | _ \<Rightarrow> False)"
| "conforms SUnit v \<longleftrightarrow> (case v of Num n \<Rightarrow> num_le (Fin 0) n \<and> num_le n (Fin 1) | _ \<Rightarrow> False)"
| "conforms SBool v \<longleftrightarrow> (case v of Bool b \<Rightarrow> True | _ \<Rightarrow> False)"
| "conforms (SEnum names) v \<longleftrightarrow> (case v of Str s \<Rightarrow> s \<in> set names | _ \<Rightarrow> False)"
| "conforms (SList s n unique) v \<longleftrightarrow>
     (case v of Arr vs \<Rightarrow> length vs \<le> n \<and> list_all (conforms s) vs \<and> (unique \<longrightarrow> distinct vs) | _ \<Rightarrow> False)"
| "conforms (SObject fields) v \<longleftrightarrow>
     (case v of Obj ms \<Rightarrow> list_all (\<lambda>(key, optional, s).
         (optional \<and> get key ms = Undefined) \<or> conforms s (get key ms)) fields \<and>
         list_all (\<lambda>m. fst m \<in> set (map fst fields)) ms | _ \<Rightarrow> False)"

text \<open>The parsed value: the objects are rebuilt in the order of the schema.\<close>

fun arrange :: "schema \<Rightarrow> js \<Rightarrow> js" where
  "arrange (SList s n unique) v = (case v of Arr vs \<Rightarrow> Arr (map (arrange s) vs) | _ \<Rightarrow> v)"
| "arrange (SObject fields) v = (case v of Obj ms \<Rightarrow>
     Obj (concat (map (\<lambda>(key, optional, s). case map_of ms key of None \<Rightarrow> [] | Some x \<Rightarrow> [(key, arrange s x)]) fields))
   | _ \<Rightarrow> v)"
| "arrange s v = v"

type_synonym zod = "schema \<Rightarrow> js \<Rightarrow> js option"

definition zod_documented :: "zod \<Rightarrow> bool" where
  "zod_documented zod \<longleftrightarrow> (\<forall>s v. zod s v = (if conforms s v then Some (arrange s v) else None))"

definition zod_reference :: zod where
  "zod_reference s v = (if conforms s v then Some (arrange s v) else None)"

lemma zod_reference_documented: "zod_documented zod_reference"
  by (simp add: zod_documented_def zod_reference_def)

text \<open>\<open>schema.parse(v)\<close> throws a \<open>ZodError\<close>.\<close>

definition zod_parse :: "zod \<Rightarrow> schema \<Rightarrow> js \<Rightarrow> js res" where
  "zod_parse zod s v = (case zod s v of None \<Rightarrow> Inl (JsError ''ZodError'') | Some x \<Rightarrow> Inr x)"

section \<open>Parsed values\<close>

text \<open>Each field is declared once, and only lists of texts are required to be distinct.\<close>

fun wf_schema :: "schema \<Rightarrow> bool" where
  "wf_schema (SList s n unique) \<longleftrightarrow> wf_schema s \<and> (unique \<longrightarrow> (\<exists>lo hi. s = SText lo hi))"
| "wf_schema (SObject fields) \<longleftrightarrow> distinct (map fst fields) \<and> list_all (\<lambda>(key, optional, s). wf_schema s) fields"
| "wf_schema s \<longleftrightarrow> True"

text \<open>The texts of a value that its schema does not restrict to an enumeration or a pattern.\<close>

fun free_texts :: "schema \<Rightarrow> js \<Rightarrow> string set" where
  "free_texts (SText lo hi) v = (case v of Str s \<Rightarrow> {s} | _ \<Rightarrow> {})"
| "free_texts (SList s n unique) v = (case v of Arr vs \<Rightarrow> \<Union> (set (map (free_texts s) vs)) | _ \<Rightarrow> {})"
| "free_texts (SObject fields) v = (case v of
     Obj ms \<Rightarrow> \<Union> (set (map (\<lambda>(key, optional, s). free_texts s (get key ms)) fields)) | _ \<Rightarrow> {})"
| "free_texts s v = {}"

lemma arrange_Undefined [simp]: "arrange s Undefined = Undefined"
  by (cases s) auto

lemma free_texts_Undefined [simp]: "free_texts s Undefined = {}"
  by (cases s) auto

lemma free_texts_Str: "free_texts s (Str x) \<subseteq> {x}"
  by (cases s) auto

definition arranged :: "(string \<times> bool \<times> schema) list \<Rightarrow> js_record \<Rightarrow> js_record" where
  "arranged fields ms = concat (map (\<lambda>(key, optional, s). case map_of ms key of
     None \<Rightarrow> [] | Some x \<Rightarrow> [(key, arrange s x)]) fields)"

lemma arrange_Obj: "arrange (SObject fields) (Obj ms) = Obj (arranged fields ms)"
  by (simp add: arranged_def)

lemma arranged_keys: "fst ` set (arranged fields ms) \<subseteq> fst ` set fields"
  by (force simp: arranged_def split: option.splits)

lemma get_arranged:
  assumes "distinct (map fst fields)" "(key, optional, s) \<in> set fields"
  shows "get key (arranged fields ms) = arrange s (get key ms)"
  using assms
proof (induction fields)
  case (Cons f fields)
  obtain k o' t where f: "f = (k, o', t)" by (cases f)
  let ?first = "case map_of ms k of None \<Rightarrow> [] | Some x \<Rightarrow> [(k, arrange t x)]"
  have split: "arranged (f # fields) ms = ?first @ arranged fields ms"
    by (simp add: arranged_def f)
  show ?case
  proof (cases "key = k")
    case True
    with Cons.prems f have s: "s = t" and out: "key \<notin> fst ` set (arranged fields ms)"
      using arranged_keys [of fields ms] by (force simp: image_iff)+
    then have "get key (arranged fields ms) = Undefined"
      by (simp add: get_def map_of_eq_None_iff [THEN iffD2])
    then show ?thesis unfolding split get_append
      by (auto simp: True s get_def split: option.splits)
  next
    case False
    then have "key \<notin> fst ` set ?first" by (auto split: option.splits)
    then show ?thesis unfolding split get_append using Cons.IH Cons.prems False f by auto
  qed
qed simp

lemma conforms_arrange: "wf_schema s \<Longrightarrow> conforms s v \<Longrightarrow> conforms s (arrange s v)"
proof (induction s v rule: conforms.induct)
  case (7 s n unique v)
  then show ?case by (auto simp: list_all_iff distinct_map inj_on_def split: js.splits)
next
  case (8 fields v)
  then obtain ms where v: "v = Obj ms" by (auto split: js.splits)
  have wf: "distinct (map fst fields)" "\<And>key optional s. (key, optional, s) \<in> set fields \<Longrightarrow> wf_schema s"
    using "8.prems"(1) by (auto simp: list_all_iff)
  have field: "(optional \<and> get key (arranged fields ms) = Undefined) \<or> conforms s (get key (arranged fields ms))"
    if "(key, optional, s) \<in> set fields" for key optional s
    using "8.prems"(2) "8.IH" [OF v that refl refl] wf(2) [OF that] that
    by (auto simp: v list_all_iff get_arranged [OF wf(1) that])
  have "list_all (\<lambda>(key, optional, s). (optional \<and> get key (arranged fields ms) = Undefined) \<or>
      conforms s (get key (arranged fields ms))) fields"
    unfolding list_all_iff using field by fast
  moreover have "list_all (\<lambda>m. fst m \<in> set (map fst fields)) (arranged fields ms)"
    using arranged_keys [of fields ms] by (auto simp: list_all_iff)
  ultimately show ?case by (simp only: v arrange_Obj conforms.simps js.case)
qed auto

lemma free_texts_arrange: "wf_schema s \<Longrightarrow> free_texts s (arrange s v) = free_texts s v"
proof (induction s v rule: free_texts.induct)
  case (2 s n unique v)
  then show ?case by (auto split: js.splits)
next
  case (3 fields v)
  show ?case
  proof (cases "\<exists>ms. v = Obj ms")
    case True
    then obtain ms where v: "v = Obj ms" by blast
    have wf: "distinct (map fst fields)" "\<And>key optional s. (key, optional, s) \<in> set fields \<Longrightarrow> wf_schema s"
      using "3.prems" by (auto simp: list_all_iff)
    have "free_texts s (get key (arranged fields ms)) = free_texts s (get key ms)"
      if "(key, optional, s) \<in> set fields" for key optional s
      using "3.IH" [OF v that refl refl wf(2) [OF that]] by (simp add: get_arranged [OF wf(1) that])
    then show ?thesis unfolding v arrange_Obj by (auto simp: split_beta)
  next
    case False
    then show ?thesis by (auto split: js.splits)
  qed
qed auto

end
