(* ===== verification/Checkpoint_Payload.thy ===== *)
theory Checkpoint_Payload
  imports Js_Value
begin

text \<open>
  The payload half of \<open>src/review-execution/domain/review-checkpoint.ts\<close>: the declared schemas and the
  normalisation that turns what a batch produced, of unknown type, into the payload that is stored.  The
  schema package is the parameter \<open>zod\<close>; \<open>redactSensitiveText\<close> is the parameter \<open>redact\<close>, and nothing
  is assumed of it.
\<close>

section \<open>Limits and schemas\<close>

definition MAX_FILE_PATHS :: nat where "MAX_FILE_PATHS = 200"
definition MAX_FINDINGS :: nat where "MAX_FINDINGS = 500"
definition MAX_PROVIDER_RESULTS :: nat where "MAX_PROVIDER_RESULTS = 50"
definition MAX_LIFECYCLE_TARGETS :: nat where "MAX_LIFECYCLE_TARGETS = 200"
definition MAX_REVALIDATIONS :: nat where "MAX_REVALIDATIONS = 200"
definition MAX_REVALIDATION_EVIDENCE :: nat where "MAX_REVALIDATION_EVIDENCE = 20"
definition MAX_DURATION_MS :: int where "MAX_DURATION_MS = 24 * 60 * 60 * 1000"
definition MAX_TOKEN_COUNT :: int where "MAX_TOKEN_COUNT = 1000000000"

definition checkpoint_provider_statuses :: "string list" where
  "checkpoint_provider_statuses = [''success'', ''error'', ''timeout'', ''rate_limited'']"

definition checkpoint_severities :: "string list" where
  "checkpoint_severities = [''critical'', ''major'', ''minor'']"

definition checkpoint_verdicts :: "string list" where
  "checkpoint_verdicts = [''resolved'', ''still_valid'', ''uncertain'']"

definition positive_int :: schema where "positive_int = SInt 1 None"

definition checkpointFindingSchema :: schema where
  "checkpointFindingSchema = SObject
     [(''file'', False, SText 1 4096), (''startLine'', True, positive_int), (''line'', False, positive_int),
      (''endLine'', True, positive_int), (''severity'', False, SEnum checkpoint_severities),
      (''title'', False, SText 1 1000), (''message'', False, SText 1 20000),
      (''provider'', True, SText 1 500), (''providers'', True, SList (SText 1 500) 50 False),
      (''actualModel'', True, SText 1 500), (''providerVoteKeys'', True, SList (SText 1 500) 50 False),
      (''providerPoolSize'', True, positive_int), (''confidence'', True, SUnit),
      (''category'', True, SText 1 500), (''hasConsensus'', True, SBool)]"

definition lifecycleEvidenceSchema :: schema where
  "lifecycleEvidenceSchema = SObject
     [(''path'', False, SText 1 4096), (''startLine'', True, positive_int), (''endLine'', True, positive_int),
      (''reason'', False, SText 1 2000)]"

definition lifecycleRevalidationSchema :: schema where
  "lifecycleRevalidationSchema = SObject
     [(''targetId'', False, SText 1 500), (''fingerprint'', True, SText 1 500),
      (''verdict'', False, SEnum checkpoint_verdicts), (''confidence'', True, SUnit),
      (''evidence'', True, SList lifecycleEvidenceSchema MAX_REVALIDATION_EVIDENCE False),
      (''rationale'', True, SText 1 2000)]"

definition usageSchema :: schema where
  "usageSchema = SObject
     [(''promptTokens'', False, SInt 0 (Some MAX_TOKEN_COUNT)),
      (''completionTokens'', False, SInt 0 (Some MAX_TOKEN_COUNT)),
      (''totalTokens'', False, SInt 0 (Some MAX_TOKEN_COUNT))]"

definition checkpointProviderResultSchema :: schema where
  "checkpointProviderResultSchema = SObject
     [(''name'', False, SText 1 500), (''status'', False, SEnum checkpoint_provider_statuses),
      (''durationMs'', False, SInt 0 (Some MAX_DURATION_MS)), (''errorMessage'', True, SText 1 1000),
      (''actualModel'', True, SText 1 500), (''aiLikelihood'', True, SUnit), (''usage'', True, usageSchema),
      (''lifecycleAssignedTargetIds'', True, SList (SText 1 500) MAX_LIFECYCLE_TARGETS True),
      (''lifecycleRevalidations'', True, SList lifecycleRevalidationSchema MAX_REVALIDATIONS False)]"

definition reviewCheckpointBatchPayloadSchema :: schema where
  "reviewCheckpointBatchPayloadSchema = SObject
     [(''filePaths'', False, SList (SText 1 4096) MAX_FILE_PATHS True),
      (''findings'', False, SList checkpointFindingSchema MAX_FINDINGS False),
      (''providerResults'', False, SList checkpointProviderResultSchema MAX_PROVIDER_RESULTS False)]"

section \<open>Texts and collections\<close>

definition assertCollectionWithinLimit :: "js list \<Rightarrow> nat \<Rightarrow> string \<Rightarrow> js_error option" where
  "assertCollectionWithinLimit values maxItems field =
     check (length values \<le> maxItems) (''review_checkpoint_'' @ field @ ''_limit_exceeded'')"

definition requireNormalized :: "js option \<Rightarrow> string \<Rightarrow> js res" where
  "requireNormalized v field = (case v of
     None \<Rightarrow> Inl (JsError (''review_checkpoint_'' @ field @ ''_invalid'')) | Some x \<Rightarrow> Inr x)"

definition normalizeText :: "(string \<Rightarrow> string) \<Rightarrow> string \<Rightarrow> nat \<Rightarrow> string res" where
  "normalizeText redact s maxLength =
     (let normalized = redact s
      in throw_if (length normalized > maxLength) ''review_checkpoint_text_limit_exceeded'' (Inr normalized))"

definition normalizeRequiredText :: "(string \<Rightarrow> string) \<Rightarrow> js \<Rightarrow> nat \<Rightarrow> js res" where
  "normalizeRequiredText redact v maxLength = (case v of
     Str s \<Rightarrow> rbind (normalizeText redact s maxLength) (\<lambda>t. Inr (Str t)) | _ \<Rightarrow> Inr v)"

fun strings_of :: "js list \<Rightarrow> string list" where
  "strings_of [] = []"
| "strings_of (v # vs) = (case v of Str s \<Rightarrow> s # strings_of vs | _ \<Rightarrow> strings_of vs)"

definition normalizeStringArray :: "(string \<Rightarrow> string) \<Rightarrow> js list \<Rightarrow> nat \<Rightarrow> nat \<Rightarrow> string list res" where
  "normalizeStringArray redact values maxItems maxLength =
     throws (assertCollectionWithinLimit values maxItems ''stringArray'')
     (rbind (res_map (\<lambda>s. normalizeText redact s maxLength) (strings_of values))
       (\<lambda>ts. Inr (js_set (filter (\<lambda>t. length t > 0) ts))))"

text \<open>\<open>...(typeof v === 'string' ? { key: normalizeText(v, n) } : {})\<close>, and the same for arrays.\<close>

definition text_member :: "(string \<Rightarrow> string) \<Rightarrow> string \<Rightarrow> js \<Rightarrow> nat \<Rightarrow> js_record res" where
  "text_member redact key v maxLength = (case v of
     Str s \<Rightarrow> rbind (normalizeText redact s maxLength) (\<lambda>t. Inr [(key, Str t)]) | _ \<Rightarrow> Inr [])"

definition strings_member :: "(string \<Rightarrow> string) \<Rightarrow> string \<Rightarrow> js \<Rightarrow> nat \<Rightarrow> nat \<Rightarrow> js_record res" where
  "strings_member redact key v maxItems maxLength = (case array_of v of
     Some vs \<Rightarrow> rbind (normalizeStringArray redact vs maxItems maxLength) (\<lambda>ts. Inr [(key, Arr (map Str ts))])
   | None \<Rightarrow> Inr [])"

definition messageFromUnknown :: "js \<Rightarrow> string option" where
  "messageFromUnknown v = (case v of
     Str s \<Rightarrow> Some s
   | ErrorObj n m \<Rightarrow> Some m
   | _ \<Rightarrow> (case get_opt ''message'' (asRecord v) of Str s \<Rightarrow> Some s | _ \<Rightarrow> None))"

definition isProbability :: "js \<Rightarrow> bool" where
  "isProbability v \<longleftrightarrow> (case v of Num n \<Rightarrow> is_finite n \<and> num_le (Fin 0) n \<and> num_le n (Fin 1) | _ \<Rightarrow> False)"

section \<open>File paths\<close>

fun collect_paths :: "(string \<Rightarrow> string) \<Rightarrow> string list \<Rightarrow> js list \<Rightarrow> string list res" where
  "collect_paths redact paths [] = Inr paths"
| "collect_paths redact paths (v # vs) = (case v of
     Str s \<Rightarrow> rbind (normalizeText redact s 4096) (\<lambda>path.
       if path = [] \<or> path \<in> set paths then collect_paths redact paths vs
       else throw_if (length (paths @ [path]) > MAX_FILE_PATHS) ''review_checkpoint_filePaths_limit_exceeded''
              (collect_paths redact (paths @ [path]) vs))
   | _ \<Rightarrow> collect_paths redact paths vs)"

definition array_or_empty :: "js \<Rightarrow> js list" where
  "array_or_empty v = (case array_of v of Some vs \<Rightarrow> vs | None \<Rightarrow> [])"

definition path_values :: "js_record option \<Rightarrow> js list" where
  "path_values record = array_or_empty (get_opt ''filePaths'' record) @
     map (\<lambda>file. get_opt ''filename'' (asRecord file)) (array_or_empty (get_opt ''files'' record))"

definition normalizeFilePaths :: "(string \<Rightarrow> string) \<Rightarrow> js_record option \<Rightarrow> string list res" where
  "normalizeFilePaths redact record = collect_paths redact [] (path_values record)"

section \<open>Findings\<close>

text \<open>An object literal is a list of members, some of which may throw; it is built in order.\<close>

definition members :: "js_record res list \<Rightarrow> js_record res" where
  "members parts = rbind (res_map (\<lambda>p. p) parts) (\<lambda>ms. Inr (concat ms))"

definition required_member :: "(string \<Rightarrow> string) \<Rightarrow> string \<Rightarrow> js \<Rightarrow> nat \<Rightarrow> js_record res" where
  "required_member redact key v maxLength = rbind (normalizeRequiredText redact v maxLength) (\<lambda>x. Inr [(key, x)])"

definition finding_fields :: "(string \<Rightarrow> string) \<Rightarrow> js_record \<Rightarrow> js_record res" where
  "finding_fields redact f = members
     [required_member redact ''file'' (get ''file'' f) 4096,
      Inr (given ''startLine'' (get ''startLine'' f)),
      Inr [(''line'', get ''line'' f)],
      Inr (given ''endLine'' (get ''endLine'' f)),
      Inr [(''severity'', get ''severity'' f)],
      required_member redact ''title'' (get ''title'' f) 1000,
      required_member redact ''message'' (get ''message'' f) 20000,
      text_member redact ''provider'' (get ''provider'' f) 500,
      strings_member redact ''providers'' (get ''providers'' f) 50 500,
      text_member redact ''actualModel'' (get ''actualModel'' f) 500,
      strings_member redact ''providerVoteKeys'' (get ''providerVoteKeys'' f) 50 500,
      Inr (given ''providerPoolSize'' (get ''providerPoolSize'' f)),
      Inr (given ''confidence'' (get ''confidence'' f)),
      text_member redact ''category'' (get ''category'' f) 500,
      Inr (given ''hasConsensus'' (get ''hasConsensus'' f))]"

definition normalizeFinding :: "zod \<Rightarrow> (string \<Rightarrow> string) \<Rightarrow> js \<Rightarrow> js option res" where
  "normalizeFinding zod redact value = (case asRecord value of
     None \<Rightarrow> Inr None
   | Some f \<Rightarrow> rbind (finding_fields redact f) (\<lambda>ms. Inr (zod checkpointFindingSchema (Obj ms))))"

section \<open>Lifecycle revalidations\<close>

definition normalizeLifecycleEvidence :: "zod \<Rightarrow> (string \<Rightarrow> string) \<Rightarrow> js \<Rightarrow> js option res" where
  "normalizeLifecycleEvidence zod redact value = (case asRecord value of
     None \<Rightarrow> Inr None
   | Some e \<Rightarrow> rbind (members
       [required_member redact ''path'' (get ''path'' e) 4096,
        Inr (given ''startLine'' (get ''startLine'' e)),
        Inr (given ''endLine'' (get ''endLine'' e)),
        required_member redact ''reason'' (get ''reason'' e) 2000])
       (\<lambda>ms. Inr (zod lifecycleEvidenceSchema (Obj ms))))"

text \<open>\<open>raw.map(f).map((x) => requireNormalized(x, field))\<close>.\<close>

definition normalize_all :: "(js \<Rightarrow> js option res) \<Rightarrow> string \<Rightarrow> js list \<Rightarrow> js list res" where
  "normalize_all f field raw =
     rbind (res_map f raw) (\<lambda>rs. res_map (\<lambda>r. requireNormalized r field) rs)"

definition evidence_member :: "zod \<Rightarrow> (string \<Rightarrow> string) \<Rightarrow> js \<Rightarrow> js_record res" where
  "evidence_member zod redact v = (case array_of v of
     None \<Rightarrow> Inr []
   | Some vs \<Rightarrow>
       throws (assertCollectionWithinLimit vs MAX_REVALIDATION_EVIDENCE ''lifecycleEvidence'')
       (rbind (normalize_all (normalizeLifecycleEvidence zod redact) ''lifecycleEvidence'' vs)
         (\<lambda>es. Inr [(''evidence'', Arr es)])))"

definition normalizeLifecycleRevalidation :: "zod \<Rightarrow> (string \<Rightarrow> string) \<Rightarrow> js \<Rightarrow> js option res" where
  "normalizeLifecycleRevalidation zod redact value = (case asRecord value of
     None \<Rightarrow> Inr None
   | Some r \<Rightarrow>
       rbind (evidence_member zod redact (get ''evidence'' r)) (\<lambda>evidence.
       rbind (members
         [required_member redact ''targetId'' (get ''targetId'' r) 500,
          text_member redact ''fingerprint'' (get ''fingerprint'' r) 500,
          Inr [(''verdict'', get ''verdict'' r)],
          Inr (if isProbability (get ''confidence'' r) then [(''confidence'', get ''confidence'' r)] else []),
          Inr evidence,
          text_member redact ''rationale'' (get ''rationale'' r) 2000])
         (\<lambda>ms. Inr (zod lifecycleRevalidationSchema (Obj ms)))))"

definition raw_revalidations :: "js_record \<Rightarrow> js_record option \<Rightarrow> js list option" where
  "raw_revalidations provider result =
     (case array_of (get ''lifecycleRevalidations'' provider) of Some vs \<Rightarrow> Some vs
      | None \<Rightarrow> (case array_of (get_opt ''lifecycleRevalidations'' result) of Some vs \<Rightarrow> Some vs
      | None \<Rightarrow> array_of (get_opt ''revalidations'' result)))"

definition normalizeProviderRevalidations :: "zod \<Rightarrow> (string \<Rightarrow> string) \<Rightarrow> js_record \<Rightarrow> js_record option \<Rightarrow> js_record res" where
  "normalizeProviderRevalidations zod redact provider result =
     (case raw_revalidations provider result of
        None \<Rightarrow> Inr []
      | Some raw \<Rightarrow>
          throws (assertCollectionWithinLimit raw MAX_REVALIDATIONS ''lifecycleRevalidations'')
          (rbind (normalize_all (normalizeLifecycleRevalidation zod redact) ''lifecycleRevalidation'' raw)
            (\<lambda>rs. Inr [(''lifecycleRevalidations'', Arr rs)])))"

section \<open>Provider results\<close>

definition normalizeProviderStatus :: "js \<Rightarrow> string" where
  "normalizeProviderStatus v =
     (if v = Str ''success'' then ''success'' else if v = Str ''timeout'' then ''timeout''
      else if v = Str ''rate-limited'' \<or> v = Str ''rate_limited'' then ''rate_limited'' else ''error'')"

definition normalizeDurationMs :: "js_record \<Rightarrow> int" where
  "normalizeDurationMs provider =
     (let raw = (case get ''durationMs'' provider of Num n \<Rightarrow> n
          | _ \<Rightarrow> (case get ''durationSeconds'' provider of
                    Num (Fin r) \<Rightarrow> Fin (r * 1000) | Num n \<Rightarrow> n | _ \<Rightarrow> Fin 0))
      in case raw of Fin r \<Rightarrow> min MAX_DURATION_MS (max 0 (floor (r + 1 / 2))) | _ \<Rightarrow> 0)"

definition normalizeProviderUsage :: "zod \<Rightarrow> js_record \<Rightarrow> js_record option \<Rightarrow> js_record" where
  "normalizeProviderUsage zod provider result =
     (case (case asRecord (get ''usage'' provider) of Some u \<Rightarrow> Some u | None \<Rightarrow> asRecord (get_opt ''usage'' result)) of
        None \<Rightarrow> []
      | Some u \<Rightarrow> (case zod usageSchema (Obj u) of None \<Rightarrow> [] | Some p \<Rightarrow> [(''usage'', p)]))"

definition provider_fields :: "zod \<Rightarrow> (string \<Rightarrow> string) \<Rightarrow> js_record \<Rightarrow> string \<Rightarrow> js_record res" where
  "provider_fields zod redact provider name =
     (let result = asRecord (get ''result'' provider);
          errorMessage = messageFromUnknown (coalesce (get ''errorMessage'' provider) (get ''error'' provider));
          model = coalesce (get ''actualModel'' provider) (get_opt ''actualModel'' result);
          likelihood = coalesce (get ''aiLikelihood'' provider) (get_opt ''aiLikelihood'' result)
      in members
        [required_member redact ''name'' (Str name) 500,
         Inr [(''status'', Str (normalizeProviderStatus (get ''status'' provider)))],
         Inr [(''durationMs'', Num (Fin (of_int (normalizeDurationMs provider))))],
         (case errorMessage of Some m \<Rightarrow> if m \<noteq> [] then text_member redact ''errorMessage'' (Str m) 1000 else Inr []
          | None \<Rightarrow> Inr []),
         text_member redact ''actualModel'' model 500,
         Inr (if isProbability likelihood then [(''aiLikelihood'', likelihood)] else []),
         Inr (normalizeProviderUsage zod provider result),
         strings_member redact ''lifecycleAssignedTargetIds'' (get ''lifecycleAssignedTargetIds'' provider)
           MAX_LIFECYCLE_TARGETS 500,
         normalizeProviderRevalidations zod redact provider result])"

definition normalizeProviderResult :: "zod \<Rightarrow> (string \<Rightarrow> string) \<Rightarrow> js \<Rightarrow> js option res" where
  "normalizeProviderResult zod redact value = (case asRecord value of
     None \<Rightarrow> Inr None
   | Some provider \<Rightarrow> (case get ''name'' provider of
       Str name \<Rightarrow> rbind (provider_fields zod redact provider name)
         (\<lambda>ms. Inr (zod checkpointProviderResultSchema (Obj ms)))
     | _ \<Rightarrow> Inr None))"

section \<open>The payload\<close>

definition raw_findings :: "js_record option \<Rightarrow> js list \<Rightarrow> js list" where
  "raw_findings record rawProviderResults = (case array_of (get_opt ''findings'' record) of
     Some vs \<Rightarrow> vs
   | None \<Rightarrow> concat (map (\<lambda>r. array_or_empty
       (get_opt ''findings'' (asRecord (get_opt ''result'' (asRecord r))))) rawProviderResults))"

definition raw_provider_results :: "js \<Rightarrow> js list" where
  "raw_provider_results input = (case array_of input of
     Some vs \<Rightarrow> vs | None \<Rightarrow> array_or_empty (get_opt ''providerResults'' (asRecord input)))"

definition normalizeReviewCheckpointBatchPayload :: "zod \<Rightarrow> (string \<Rightarrow> string) \<Rightarrow> js \<Rightarrow> js res" where
  "normalizeReviewCheckpointBatchPayload zod redact input =
     (let record = asRecord input;
          rawProviderResults = raw_provider_results input
      in throws (assertCollectionWithinLimit rawProviderResults MAX_PROVIDER_RESULTS ''providerResults'')
         (rbind (normalize_all (normalizeProviderResult zod redact) ''providerResult'' rawProviderResults) (\<lambda>providerResults.
          let rawFindings = raw_findings record rawProviderResults
          in throws (assertCollectionWithinLimit rawFindings MAX_FINDINGS ''findings'')
             (rbind (normalizeFilePaths redact record) (\<lambda>paths.
              rbind (normalize_all (normalizeFinding zod redact) ''finding'' rawFindings) (\<lambda>findings.
                zod_parse zod reviewCheckpointBatchPayloadSchema (Obj
                  [(''filePaths'', Arr (map Str paths)), (''findings'', Arr findings),
                   (''providerResults'', Arr providerResults)])))))))"

definition checkpointPayloadsMatch :: "(js \<Rightarrow> string) \<Rightarrow> js \<Rightarrow> js \<Rightarrow> bool" where
  "checkpointPayloadsMatch json_stringify l r \<longleftrightarrow> json_stringify l = json_stringify r"

section \<open>Every text is redacted\<close>

named_theorems texts \<open>the texts a member of an object literal can hold\<close>

fun fields_of :: "schema \<Rightarrow> (string \<times> bool \<times> schema) list" where
  "fields_of (SObject fields) = fields"
| "fields_of s = []"

text \<open>The members written so far hold only texts of \<open>R\<close> where the schema allows any text.\<close>

definition texts_in :: "string set \<Rightarrow> schema \<Rightarrow> js_record \<Rightarrow> bool" where
  "texts_in R sc ms \<longleftrightarrow> (\<forall>(key, v) \<in> set ms. \<forall>(k, optional, s) \<in> set (fields_of sc). k = key \<longrightarrow> free_texts s v \<subseteq> R)"

definition part_texts :: "string set \<Rightarrow> schema \<Rightarrow> js_record res \<Rightarrow> bool" where
  "part_texts R sc p \<longleftrightarrow> (\<forall>q. p = Inr q \<longrightarrow> texts_in R sc q)"

lemma texts_in_simps:
  "texts_in R sc []" "texts_in R sc (concat mss) \<longleftrightarrow> (\<forall>ms \<in> set mss. texts_in R sc ms)"
  by (auto simp: texts_in_def)

lemma texts_in_record:
  assumes "zod_documented zod" "zod sc (Obj ms) = Some e" "wf_schema sc" "\<exists>fields. sc = SObject fields" "texts_in R sc ms"
  shows "free_texts sc e \<subseteq> R"
proof -
  obtain fields where sc: "sc = SObject fields" using assms(4) by blast
  have e: "e = arrange sc (Obj ms)" using assms(1,2) by (auto simp: zod_documented_def split: if_splits)
  have "free_texts s (get key ms) \<subseteq> R" if "(key, optional, s) \<in> set fields" for key optional s
  proof (cases "map_of ms key")
    case (Some v)
    then show ?thesis using assms(5) that map_of_SomeD [OF Some] by (fastforce simp: texts_in_def sc get_def)
  qed (simp add: get_def)
  then have "free_texts sc (Obj ms) \<subseteq> R" by (auto simp: sc)
  then show ?thesis by (simp add: e free_texts_arrange assms(3))
qed

lemma members_Inr: "members parts = Inr ms \<Longrightarrow> \<exists>ps. list_all2 (\<lambda>p q. p = Inr q) parts ps \<and> ms = concat ps"
  by (auto simp: members_def res_simps res_map_Inr_all2)

lemma texts_in_members:
  assumes "members parts = Inr ms" "list_all (part_texts R sc) parts"
  shows "texts_in R sc ms"
proof -
  obtain ps where ps: "list_all2 (\<lambda>p q. p = Inr q) parts ps" "ms = concat ps" using members_Inr [OF assms(1)] by blast
  have "texts_in R sc q" if q: "q \<in> set ps" for q
  proof -
    from q ps(1) have "Inr q \<in> set parts" by (force simp: list_all2_conv_all_nth in_set_conv_nth)
    then show ?thesis using assms(2) by (auto simp: list_all_iff part_texts_def)
  qed
  then show ?thesis by (simp add: ps(2) texts_in_simps)
qed

lemma normalizeText_Inr [res_simps]: "normalizeText redact s n = Inr t \<longleftrightarrow> t = redact s \<and> length t \<le> n"
  by (auto simp: normalizeText_def Let_def throw_if_def)

lemma normalizeStringArray_Inr: "normalizeStringArray redact vs m n = Inr ts \<longleftrightarrow> length vs \<le> m \<and>
    (\<forall>s \<in> set (strings_of vs). length (redact s) \<le> n) \<and> ts = js_set (filter (\<lambda>t. t \<noteq> []) (map redact (strings_of vs)))"
proof -
  have "res_map (\<lambda>s. normalizeText redact s n) (strings_of vs) = Inr xs \<longleftrightarrow>
      (\<forall>s \<in> set (strings_of vs). length (redact s) \<le> n) \<and> xs = map redact (strings_of vs)" for xs
    by (rule res_map_iff) (auto simp: res_simps)
  then show ?thesis by (auto simp: normalizeStringArray_def res_simps assertCollectionWithinLimit_def)
qed

definition is_text_field :: "schema \<Rightarrow> string \<Rightarrow> bool" where
  "is_text_field sc key \<longleftrightarrow> (\<forall>(k, optional, s) \<in> set (fields_of sc). k = key \<longrightarrow> (\<exists>lo hi. s = SText lo hi))"

definition is_plain_field :: "schema \<Rightarrow> string \<Rightarrow> bool" where
  "is_plain_field sc key \<longleftrightarrow> (\<forall>(k, optional, s) \<in> set (fields_of sc). k = key \<longrightarrow> (\<forall>v. free_texts s v = {}))"

lemma required_texts [texts]: "is_text_field sc key \<Longrightarrow> part_texts (range redact) sc (required_member redact key v n)"
  by (auto simp: part_texts_def required_member_def normalizeRequiredText_def res_simps texts_in_def is_text_field_def
      split: js.splits)

lemma text_texts [texts]: "part_texts (range redact) sc (text_member redact key v n)"
  using free_texts_Str by (fastforce simp: part_texts_def text_member_def res_simps texts_in_def split: js.splits)

lemma free_texts_strings: "free_texts s (Arr (map Str ts)) \<subseteq> set ts"
  using free_texts_Str by (cases s) fastforce+

lemma strings_texts [texts]: "part_texts (range redact) sc (strings_member redact key v m n)"
proof -
  have "texts_in (range redact) sc q" if member: "strings_member redact key v m n = Inr q" for q
  proof (cases "array_of v")
    case (Some vs)
    obtain ts where q: "q = [(key, Arr (map Str ts))]" and ts: "set ts \<subseteq> range redact"
      using member by (fastforce simp: Some strings_member_def normalizeStringArray_Inr res_simps)
    with free_texts_strings show ?thesis by (fastforce simp: texts_in_def)
  qed (use member in \<open>simp add: strings_member_def texts_in_simps\<close>)
  then show ?thesis by (simp add: part_texts_def)
qed

lemma plain_texts [texts]: "is_plain_field sc key \<Longrightarrow> part_texts R sc (Inr [(key, v)])"
  by (auto simp: part_texts_def texts_in_def is_plain_field_def)

lemma given_texts [texts]: "is_plain_field sc key \<Longrightarrow> part_texts R sc (Inr (given key v))"
  by (auto simp: part_texts_def given_def texts_in_def is_plain_field_def)

lemma optional_texts [texts]: "is_plain_field sc key \<Longrightarrow> part_texts R sc (Inr (if b then [(key, v)] else []))"
  by (auto simp: part_texts_def texts_in_def is_plain_field_def)

lemma no_texts [texts]: "part_texts R sc (Inr [])"
  by (simp add: part_texts_def texts_in_simps)

lemma normalize_all_Inr: "normalize_all f field raw = Inr es \<Longrightarrow> list_all2 (\<lambda>r e. f r = Inr (Some e)) raw es"
  by (auto simp: normalize_all_def res_simps res_map_Inr_all2 list_all2_conv_all_nth requireNormalized_def
      split: option.splits)

lemma normalize_all_elem: "normalize_all f field raw = Inr es \<Longrightarrow> e \<in> set es \<Longrightarrow> \<exists>r \<in> set raw. f r = Inr (Some e)"
  using normalize_all_Inr by (fastforce simp: list_all2_conv_all_nth in_set_conv_nth)

lemma wf_schemas:
  "wf_schema checkpointFindingSchema" "wf_schema lifecycleEvidenceSchema" "wf_schema lifecycleRevalidationSchema"
  "wf_schema usageSchema" "wf_schema checkpointProviderResultSchema" "wf_schema reviewCheckpointBatchPayloadSchema"
  by (simp_all add: checkpointFindingSchema_def lifecycleEvidenceSchema_def lifecycleRevalidationSchema_def
      usageSchema_def checkpointProviderResultSchema_def reviewCheckpointBatchPayloadSchema_def positive_int_def)

lemma object_schemas:
  "\<exists>fs. checkpointFindingSchema = SObject fs" "\<exists>fs. lifecycleEvidenceSchema = SObject fs"
  "\<exists>fs. lifecycleRevalidationSchema = SObject fs" "\<exists>fs. checkpointProviderResultSchema = SObject fs"
  "\<exists>fs. reviewCheckpointBatchPayloadSchema = SObject fs"
  by (simp_all add: checkpointFindingSchema_def lifecycleEvidenceSchema_def lifecycleRevalidationSchema_def
      checkpointProviderResultSchema_def reviewCheckpointBatchPayloadSchema_def)

lemma finding_kinds:
  "is_text_field checkpointFindingSchema ''file''" "is_text_field checkpointFindingSchema ''title''"
  "is_text_field checkpointFindingSchema ''message''" "is_plain_field checkpointFindingSchema ''startLine''"
  "is_plain_field checkpointFindingSchema ''line''" "is_plain_field checkpointFindingSchema ''endLine''"
  "is_plain_field checkpointFindingSchema ''severity''" "is_plain_field checkpointFindingSchema ''providerPoolSize''"
  "is_plain_field checkpointFindingSchema ''confidence''" "is_plain_field checkpointFindingSchema ''hasConsensus''"
  by (simp_all add: is_text_field_def is_plain_field_def checkpointFindingSchema_def positive_int_def)

lemma finding_texts:
  assumes "zod_documented zod" "normalizeFinding zod redact v = Inr (Some e)"
  shows "free_texts checkpointFindingSchema e \<subseteq> range redact"
proof -
  obtain f ms where ms: "finding_fields redact f = Inr ms" "zod checkpointFindingSchema (Obj ms) = Some e"
    using assms(2) by (auto simp: normalizeFinding_def res_simps split: option.splits)
  have "texts_in (range redact) checkpointFindingSchema ms"
    using ms(1) unfolding finding_fields_def
    by (rule texts_in_members) (simp add: texts finding_kinds)
  with assms(1) ms(2) wf_schemas(1) object_schemas(1) show ?thesis by (rule texts_in_record)
qed

lemma evidence_kinds:
  "is_text_field lifecycleEvidenceSchema ''path''" "is_text_field lifecycleEvidenceSchema ''reason''"
  "is_plain_field lifecycleEvidenceSchema ''startLine''" "is_plain_field lifecycleEvidenceSchema ''endLine''"
  by (simp_all add: is_text_field_def is_plain_field_def lifecycleEvidenceSchema_def positive_int_def)

lemma evidence_texts:
  assumes "zod_documented zod" "normalizeLifecycleEvidence zod redact v = Inr (Some e)"
  shows "free_texts lifecycleEvidenceSchema e \<subseteq> range redact"
proof -
  obtain f ms where ms: "members
       [required_member redact ''path'' (get ''path'' f) 4096,
        Inr (given ''startLine'' (get ''startLine'' f)),
        Inr (given ''endLine'' (get ''endLine'' f)),
        required_member redact ''reason'' (get ''reason'' f) 2000] = Inr ms" "zod lifecycleEvidenceSchema (Obj ms) = Some e"
    using assms(2) by (auto simp: normalizeLifecycleEvidence_def res_simps split: option.splits)
  have "texts_in (range redact) lifecycleEvidenceSchema ms"
    using ms(1) by (rule texts_in_members) (simp add: texts evidence_kinds)
  with assms(1) ms(2) wf_schemas(2) object_schemas(2) show ?thesis by (rule texts_in_record)
qed

text \<open>A list of normalised elements under a field whose elements have the schema \<open>s\<close>.\<close>

definition is_list_field :: "schema \<Rightarrow> string \<Rightarrow> schema \<Rightarrow> bool" where
  "is_list_field sc key s \<longleftrightarrow> (\<forall>(k, optional, t) \<in> set (fields_of sc). k = key \<longrightarrow>
     (case t of SList elem n u \<Rightarrow> elem = s | _ \<Rightarrow> False))"

lemma list_texts:
  assumes "is_list_field sc key s" "normalize_all f field raw = Inr es"
    and "\<And>r e. f r = Inr (Some e) \<Longrightarrow> free_texts s e \<subseteq> R"
  shows "texts_in R sc [(key, Arr es)]"
proof -
  have "free_texts s e \<subseteq> R" if "e \<in> set es" for e
    using normalize_all_elem [OF assms(2) that] assms(3) by blast
  then have "free_texts t (Arr es) \<subseteq> R" if "case t of SList elem n u \<Rightarrow> elem = s | _ \<Rightarrow> False" for t
    using that by (cases t) auto
  then show ?thesis using assms(1) by (fastforce simp: texts_in_def is_list_field_def)
qed

lemma evidence_member_texts:
  assumes "zod_documented zod" "evidence_member zod redact v = Inr q"
  shows "texts_in (range redact) lifecycleRevalidationSchema q"
proof (cases "array_of v")
  case (Some vs)
  obtain es where "q = [(''evidence'', Arr es)]"
      and es: "normalize_all (normalizeLifecycleEvidence zod redact) ''lifecycleEvidence'' vs = Inr es"
    using assms(2) Some by (auto simp: evidence_member_def res_simps)
  moreover have "is_list_field lifecycleRevalidationSchema ''evidence'' lifecycleEvidenceSchema"
    by (simp add: is_list_field_def lifecycleRevalidationSchema_def)
  ultimately show ?thesis using list_texts [OF _ es evidence_texts [OF assms(1)]] by simp
qed (use assms(2) in \<open>simp add: evidence_member_def texts_in_simps\<close>)

lemma revalidation_kinds:
  "is_text_field lifecycleRevalidationSchema ''targetId''" "is_plain_field lifecycleRevalidationSchema ''verdict''"
  "is_plain_field lifecycleRevalidationSchema ''confidence''"
  by (simp_all add: is_text_field_def is_plain_field_def lifecycleRevalidationSchema_def)

lemma revalidation_texts:
  assumes "zod_documented zod" "normalizeLifecycleRevalidation zod redact v = Inr (Some e)"
  shows "free_texts lifecycleRevalidationSchema e \<subseteq> range redact"
proof -
  obtain r evidence ms where ev: "evidence_member zod redact (get ''evidence'' r) = Inr evidence"
    and ms: "members
         [required_member redact ''targetId'' (get ''targetId'' r) 500,
          text_member redact ''fingerprint'' (get ''fingerprint'' r) 500,
          Inr [(''verdict'', get ''verdict'' r)],
          Inr (if isProbability (get ''confidence'' r) then [(''confidence'', get ''confidence'' r)] else []),
          Inr evidence,
          text_member redact ''rationale'' (get ''rationale'' r) 2000] = Inr ms"
      "zod lifecycleRevalidationSchema (Obj ms) = Some e"
    using assms(2) by (auto simp: normalizeLifecycleRevalidation_def res_simps split: option.splits)
  have "part_texts (range redact) lifecycleRevalidationSchema (Inr evidence)"
    using evidence_member_texts [OF assms(1) ev] by (simp add: part_texts_def)
  then have "texts_in (range redact) lifecycleRevalidationSchema ms"
    by (intro texts_in_members [OF ms(1)]) (simp add: texts revalidation_kinds)
  with assms(1) ms(2) wf_schemas(3) object_schemas(3) show ?thesis by (rule texts_in_record)
qed

lemma provider_kinds:
  "is_text_field checkpointProviderResultSchema ''name''" "is_plain_field checkpointProviderResultSchema ''status''"
  "is_plain_field checkpointProviderResultSchema ''durationMs''" "is_plain_field checkpointProviderResultSchema ''aiLikelihood''"
  "is_plain_field checkpointProviderResultSchema ''usage''"
  "is_list_field checkpointProviderResultSchema ''lifecycleRevalidations'' lifecycleRevalidationSchema"
  by (simp_all add: is_text_field_def is_plain_field_def is_list_field_def checkpointProviderResultSchema_def
      usageSchema_def split: js.split)

lemma revalidations_texts:
  assumes "zod_documented zod"
  shows "part_texts (range redact) checkpointProviderResultSchema (normalizeProviderRevalidations zod redact provider result)"
proof -
  have "texts_in (range redact) checkpointProviderResultSchema q"
    if member: "normalizeProviderRevalidations zod redact provider result = Inr q" for q
  proof (cases "raw_revalidations provider result")
    case (Some raw)
    then obtain rs where "q = [(''lifecycleRevalidations'', Arr rs)]"
      and rs: "normalize_all (normalizeLifecycleRevalidation zod redact) ''lifecycleRevalidation'' raw = Inr rs"
      using member by (auto simp: normalizeProviderRevalidations_def res_simps)
    then show ?thesis using list_texts [OF provider_kinds(6) rs revalidation_texts [OF assms]] by simp
  qed (use member in \<open>simp add: normalizeProviderRevalidations_def texts_in_simps\<close>)
  then show ?thesis by (simp add: part_texts_def)
qed

lemma usage_texts: "part_texts R checkpointProviderResultSchema (Inr (normalizeProviderUsage zod provider result))"
proof (cases "normalizeProviderUsage zod provider result = []")
  case False
  then obtain p where "normalizeProviderUsage zod provider result = [(''usage'', p)]"
    by (auto simp: normalizeProviderUsage_def split: option.splits)
  then show ?thesis by (simp add: texts provider_kinds)
qed (simp add: texts)

lemma error_texts: "part_texts (range redact) sc
    (case m of Some x \<Rightarrow> if x \<noteq> [] then text_member redact key (Str x) n else Inr [] | None \<Rightarrow> Inr [])"
  by (simp add: texts split: option.split)

lemma provider_texts:
  assumes "zod_documented zod" "normalizeProviderResult zod redact v = Inr (Some e)"
  shows "free_texts checkpointProviderResultSchema e \<subseteq> range redact"
proof -
  obtain provider name ms where ms: "provider_fields zod redact provider name = Inr ms"
      "zod checkpointProviderResultSchema (Obj ms) = Some e"
    using assms(2) by (auto simp: normalizeProviderResult_def res_simps split: option.splits js.splits)
  have "texts_in (range redact) checkpointProviderResultSchema ms"
    by (rule texts_in_members [OF ms(1) [unfolded provider_fields_def Let_def]])
      (simp add: texts provider_kinds usage_texts error_texts revalidations_texts [OF assms(1)] del: if_split)
  with assms(1) ms(2) wf_schemas(5) object_schemas(4) show ?thesis by (rule texts_in_record)
qed

section \<open>Paths and counts\<close>

lemma collect_paths_Inr:
  assumes "collect_paths redact paths vs = Inr out"
  shows "out = paths @ filter (\<lambda>p. p \<notin> set paths) (js_set (filter (\<lambda>p. p \<noteq> []) (map redact (strings_of vs))))"
  using assms
proof (induction vs arbitrary: paths)
  case (Cons v vs)
  show ?case
  proof (cases "\<exists>s. v = Str s")
    case True
    then obtain s where v: "v = Str s" by blast
    show ?thesis
    proof (cases "redact s = [] \<or> redact s \<in> set paths")
      case True
      then have "collect_paths redact paths vs = Inr out" using Cons.prems by (auto simp: v res_simps)
      note IH = Cons.IH [OF this]
      show ?thesis using True unfolding IH v by (auto intro!: filter_cong)
    next
      case False
      then have "collect_paths redact (paths @ [redact s]) vs = Inr out" using Cons.prems by (auto simp: v res_simps)
      note IH = Cons.IH [OF this]
      show ?thesis using False unfolding IH v by (auto intro!: filter_cong)
    qed
  next
    case False
    then show ?thesis using Cons by (cases v) auto
  qed
qed simp

section \<open>Property\<close>

definition payload_list :: "js \<Rightarrow> string \<Rightarrow> js list" where
  "payload_list p key = array_or_empty (get_opt key (asRecord p))"

text \<open>
  C33: a payload that is stored conforms to the declared schema and holds no text that was not redacted, other
  than the words of an enumeration.  Nothing is dropped silently: every finding and every provider result of
  the batch has its entry, or normalisation throws; and the file paths are the redacted paths of the batch
  without repetition, in their order.
\<close>

theorem checkpoint_payload_is_redacted_and_complete:
  assumes zod: "zod_documented zod"
    and payload: "normalizeReviewCheckpointBatchPayload zod redact input = Inr p"
  shows "conforms reviewCheckpointBatchPayloadSchema p \<and>
    free_texts reviewCheckpointBatchPayloadSchema p \<subseteq> range redact \<and>
    payload_list p ''filePaths'' =
      map Str (js_set (filter (\<lambda>t. t \<noteq> []) (map redact (strings_of (path_values (asRecord input)))))) \<and>
    length (payload_list p ''findings'') = length (raw_findings (asRecord input) (raw_provider_results input)) \<and>
    length (payload_list p ''providerResults'') = length (raw_provider_results input)"
proof -
  let ?sc = reviewCheckpointBatchPayloadSchema
  obtain results paths fs where results:
      "normalize_all (normalizeProviderResult zod redact) ''providerResult'' (raw_provider_results input) = Inr results"
    and paths: "normalizeFilePaths redact (asRecord input) = Inr paths"
    and fs: "normalize_all (normalizeFinding zod redact) ''finding'' (raw_findings (asRecord input) (raw_provider_results input)) = Inr fs"
    and parsed: "zod ?sc (Obj [(''filePaths'', Arr (map Str paths)), (''findings'', Arr fs), (''providerResults'', Arr results)]) = Some p"
      (is "zod _ (Obj ?ms) = _")
    using payload by (auto simp: normalizeReviewCheckpointBatchPayload_def Let_def res_simps zod_parse_def
        split: option.splits)
  then have conf: "conforms ?sc (Obj ?ms)" and p: "p = arrange ?sc (Obj ?ms)"
    using zod by (auto simp: zod_documented_def split: if_splits)
  have paths_eq: "paths = js_set (filter (\<lambda>t. t \<noteq> []) (map redact (strings_of (path_values (asRecord input)))))"
    using collect_paths_Inr [OF paths [unfolded normalizeFilePaths_def]] by simp
  have "texts_in (range redact) ?sc [(''filePaths'', Arr (map Str paths))]"
    using free_texts_strings [of _ paths] by (fastforce simp: texts_in_def paths_eq)
  moreover have "texts_in (range redact) ?sc [(''findings'', Arr fs)]"
    by (rule list_texts [OF _ fs finding_texts [OF zod]])
      (simp add: is_list_field_def reviewCheckpointBatchPayloadSchema_def)
  moreover have "texts_in (range redact) ?sc [(''providerResults'', Arr results)]"
    by (rule list_texts [OF _ results provider_texts [OF zod]])
      (simp add: is_list_field_def reviewCheckpointBatchPayloadSchema_def)
  ultimately have "texts_in (range redact) ?sc ?ms" by (simp add: texts_in_def)
  then have free: "free_texts ?sc p \<subseteq> range redact"
    by (rule texts_in_record [OF zod parsed wf_schemas(6) object_schemas(5)])
  have lists: "payload_list p ''filePaths'' = map Str paths" "length (payload_list p ''findings'') = length fs"
      "length (payload_list p ''providerResults'') = length results"
    by (simp_all add: p payload_list_def array_or_empty_def get_opt_def reviewCheckpointBatchPayloadSchema_def)
  have "length fs = length (raw_findings (asRecord input) (raw_provider_results input))"
      "length results = length (raw_provider_results input)"
    using normalize_all_Inr [OF fs] normalize_all_Inr [OF results] by (auto dest: list_all2_lengthD)
  with lists free conforms_arrange [OF wf_schemas(6) conf] paths_eq show ?thesis by (simp add: p)
qed

definition demo_redact :: "string \<Rightarrow> string" where
  "demo_redact s = (if s = ''key'' then ''***'' else s)"

definition demo_input :: js where
  "demo_input = Obj [(''filePaths'', Arr [Str ''a.ts'', Str ''key'', Str ''a.ts'', Null]), (''providerResults'', Arr [])]"

definition demo_payload :: js where
  "demo_payload = Obj [(''filePaths'', Arr [Str ''a.ts'', Str ''***'']), (''findings'', Arr []), (''providerResults'', Arr [])]"

lemma demo_normalized: "normalizeReviewCheckpointBatchPayload zod_reference demo_redact demo_input = Inr demo_payload"
proof -
  have raw: "raw_provider_results demo_input = []" "raw_findings (asRecord demo_input) [] = []"
    by (simp_all add: raw_provider_results_def raw_findings_def demo_input_def array_or_empty_def get_opt_def)
  have paths: "normalizeFilePaths demo_redact (asRecord demo_input) = Inr [''a.ts'', ''***'']"
    by (simp add: normalizeFilePaths_def path_values_def demo_input_def array_or_empty_def get_opt_def
        normalizeText_def Let_def throw_if_def demo_redact_def MAX_FILE_PATHS_def)
  show ?thesis
    by (simp add: normalizeReviewCheckpointBatchPayload_def Let_def raw paths normalize_all_def
        assertCollectionWithinLimit_def check_def zod_parse_def zod_reference_def demo_payload_def
        reviewCheckpointBatchPayloadSchema_def MAX_FILE_PATHS_def)
qed

theorem checkpoint_payload_is_redacted_and_complete_witness:
  "conforms reviewCheckpointBatchPayloadSchema demo_payload \<and>
   free_texts reviewCheckpointBatchPayloadSchema demo_payload \<subseteq> range demo_redact"
  using checkpoint_payload_is_redacted_and_complete [OF zod_reference_documented demo_normalized] by blast

end
