(* ===== verification/Confidence_Policy.thy ===== *)
theory Confidence_Policy
  imports Severity_Gate Js_Number
begin

text \<open>
  \<open>src/finding-revalidation/domain/resolve-confidence-policy.ts\<close>: the verdicts of a revalidation and how
  confident a provider must be to call a finding resolved.  A severity is an option, \<open>None\<close> is \<open>'unknown'\<close>;
  an override of the configuration that is missing or not a number is \<open>None\<close>.
\<close>

datatype LifecycleVerdict = Resolved | StillValid | Uncertain

definition DEFAULT_RESOLVE_CONFIDENCE :: "Severity option \<Rightarrow> rat" where
  "DEFAULT_RESOLVE_CONFIDENCE s = (case s of
     Some Critical \<Rightarrow> 9 / 10 | Some Major \<Rightarrow> 85 / 100 | Some Minor \<Rightarrow> 8 / 10 | None \<Rightarrow> 9 / 10)"

definition resolveRevalidationConfidenceThresholds :: "(Severity option \<Rightarrow> jsnum option) \<Rightarrow> Severity option \<Rightarrow> rat" where
  "resolveRevalidationConfidenceThresholds overrides s = (case overrides s of
     Some (Fin x) \<Rightarrow> if 0 \<le> x \<and> x \<le> 1 then x else DEFAULT_RESOLVE_CONFIDENCE s
   | _ \<Rightarrow> DEFAULT_RESOLVE_CONFIDENCE s)"

end
