(* ===== verification/Thread_Lifecycle.thy ===== *)
theory Thread_Lifecycle
  imports Provider_Results Confidence_Policy
begin

text \<open>
  \<open>src/analysis/thread-lifecycle.ts\<close>: what becomes of the review threads of earlier runs.  Providers vote on
  each thread; a thread may only be resolved by a quorum of valid votes.  How a finding is fingerprinted
  and when two inline comments are the same finding (\<open>src/github/comment-fingerprint.ts\<close>) are the parameters
  \<open>fp\<close> and \<open>same\<close>; nothing is assumed of them.  Arrays of findings hold objects: where the source compares
  them by identity a finding is paired with the number of its object.
\<close>

section \<open>Data\<close>

datatype LifecycleMode = ModeOff | ModeReport | ModeResolve

datatype LifecycleQuorumMode = SingleProvider | MultiProvider

datatype LifecycleReasonCode =
  Not_reviewrouter_thread | Resolved_thread_ignored | Untrusted_author | Missing_finding_marker
| Missing_old_finding_details | Human_reply | Viewer_cannot_resolve | Outside_review_scope
| Target_cap_exceeded | Provider_missing_revalidation | Provider_uncertain | Provider_parse_error
| Provider_failed | Invalid_resolved_evidence | Still_valid_vote | Insufficient_resolved_quorum
| Head_sha_changed | Thread_changed_before_mutation | Mutation_permission_denied | Mutation_rate_limited
| Mutation_failed | Resolution_comment_posted | Resolution_comment_failed | Dry_run | Already_resolved
| Thread_not_found | Inventory_failed | Pagination_incomplete | Report_mode | Stale_summary_write
| Unknown_severity | Unsafe_prompt_data | Line_mapping_insufficient | Unknown_target_id
| Missing_target_id | Duplicate_fingerprint_targets | Current_finding_present
| Provider_current_finding_present | Command_dismissed

record LifecycleEvidence =
  ev_path :: "string option"
  ev_startLine :: "int option"
  ev_endLine :: "int option"
  ev_reason :: "string option"

record Revalidation =
  raw_targetId :: "string option"
  raw_fingerprint :: "string option"
  raw_verdict :: string
  raw_confidence :: "jsnum option"
  raw_evidence :: "LifecycleEvidence list option"
  raw_rationale :: "string option"

record ResolutionMarker =
  marker_schemaVersion :: string
  marker_targetId :: string
  marker_fingerprint :: string
  marker_commentId :: string
  marker_commentUpdatedAt :: string

text \<open>\<open>LifecycleSeverity\<close>: \<open>None\<close> is \<open>'unknown'\<close>.\<close>

record LifecycleTarget =
  targetId :: string
  threadId :: string
  threadUrl :: "string option"
  target_fingerprint :: string
  target_severity :: "Severity option"
  target_title :: string
  target_message :: string
  originalPath :: string
  currentPath :: "string option"
  originalLine :: "int option"
  currentLine :: "int option"
  diffHunk :: "string option"
  parentCommentId :: string
  parentCommentDatabaseId :: "int option"
  parentCommentUpdatedAt :: string
  threadCommentCount :: int
  viewerCanResolve :: bool
  hasHumanReply :: bool
  trustedAuthor :: bool
  trustedResolutionMarker :: "ResolutionMarker option"
  target_reasonCodes :: "LifecycleReasonCode list option"

datatype ScopeStatus = InScope | OutOfScope | Capped | Unsupported

record AssignmentRecord =
  as_targetId :: string
  as_fingerprint :: string
  assignedProviderIds :: "string list"
  assignedBatchIds :: "string list"
  failedProviderIds :: "string list option"
  unassignedProviderIds :: "(string \<times> LifecycleReasonCode) list"
  scopeStatus :: ScopeStatus

record Vote =
  providerId :: string
  vote_targetId :: string
  vote_fingerprint :: "string option"
  verdict :: LifecycleVerdict
  confidence :: "jsnum option"
  evidence :: "LifecycleEvidence list"
  rationale :: string
  valid :: bool
  vote_reasonCodes :: "LifecycleReasonCode list"

record ThreadRecord =
  rec_target :: LifecycleTarget
  rec_reasonCodes :: "LifecycleReasonCode list"
  providerVotes :: "Vote list option"

record Finding =
  finding_file :: string
  finding_startLine :: "int option"
  finding_line :: int
  finding_endLine :: "int option"
  finding_severity :: Severity
  finding_title :: string
  finding_message :: string

record CommentReference =
  ref_path :: string
  ref_line :: "int option"
  ref_body :: string

record LifecycleResult =
  mode :: LifecycleMode
  quorumMode :: LifecycleQuorumMode
  plannedProviders :: "string list"
  resolvedCandidates :: "ThreadRecord list"
  resolvedByLifecycle :: "ThreadRecord list"
  previousStillValid :: "ThreadRecord list"
  previousUncertain :: "ThreadRecord list"
  manualAttention :: "ThreadRecord list"
  mutationSkipped :: "ThreadRecord list"
  mutationFailed :: "ThreadRecord list"
  skipped :: "ThreadRecord list"
  warnings :: "string list"
  inventoryFailed :: bool

type_synonym 'e ReviewedBy = "(Finding, Revalidation, 'e) ProviderResult"

record 'e AggregationInput =
  in_mode :: LifecycleMode
  targets :: "LifecycleTarget list"
  in_plannedProviders :: "string list"
  providerResults :: "'e ReviewedBy list"
  currentFindings :: "Finding list"
  assignmentRecords :: "AssignmentRecord list option"
  initialManualAttention :: "ThreadRecord list option"
  in_skipped :: "ThreadRecord list option"
  in_warnings :: "string list option"
  in_inventoryFailed :: bool
  resolveConfidence :: "Severity option \<Rightarrow> jsnum option"

section \<open>Findings that are still there\<close>

text \<open>\<open>s.trim().length > 0\<close>.\<close>

definition visible :: "string \<Rightarrow> bool" where
  "visible s \<longleftrightarrow> dropWhile is_space s \<noteq> []"

definition comment_body :: "string \<Rightarrow> string \<Rightarrow> string \<Rightarrow> string" where
  "comment_body severity title message =
     ''**'' @ severity @ '' - '' @ title @ ''**'' @ [CHR 0x0A, CHR 0x0A] @ message"

definition lifecycleTargetBody :: "LifecycleTarget \<Rightarrow> string" where
  "lifecycleTargetBody t = comment_body
     (case target_severity t of Some s \<Rightarrow> severity_value s | None \<Rightarrow> ''minor'') (target_title t) (target_message t)"

definition currentFindingMatchesTarget ::
    "(CommentReference \<Rightarrow> CommentReference \<Rightarrow> bool) \<Rightarrow> Finding \<Rightarrow> LifecycleTarget \<Rightarrow> bool" where
  "currentFindingMatchesTarget same f t =
     (let targetPath = (case currentPath t of Some p \<Rightarrow> if p \<noteq> [] then p else originalPath t | None \<Rightarrow> originalPath t);
          targetLine = (case currentLine t of Some l \<Rightarrow> Some l | None \<Rightarrow> originalLine t)
      in same \<lparr>ref_path = targetPath, ref_line = targetLine, ref_body = lifecycleTargetBody t\<rparr>
           \<lparr>ref_path = finding_file f, ref_line = Some (finding_line f),
            ref_body = comment_body (severity_value (finding_severity f)) (finding_title f) (finding_message f)\<rparr>)"

section \<open>Votes\<close>

definition hasConcreteEvidence :: "LifecycleEvidence list \<Rightarrow> bool" where
  "hasConcreteEvidence es = list_ex (\<lambda>e. (case ev_path e of None \<Rightarrow> False | Some p \<Rightarrow> visible p) \<and>
     (case ev_reason e of None \<Rightarrow> False | Some r \<Rightarrow> visible r)) es"

definition parse_verdict :: "string \<Rightarrow> LifecycleVerdict" where
  "parse_verdict v = (if v = ''resolved'' then Resolved else if v = ''still_valid'' then StillValid else Uncertain)"

definition targetsById :: "LifecycleTarget list \<Rightarrow> string \<Rightarrow> LifecycleTarget option" where
  "targetsById ts = map_of (rev (map (\<lambda>t. (targetId t, t)) ts))"

text \<open>The reason codes that make a vote invalid, in the order of the checks.\<close>

definition vote_problems :: "(Severity option \<Rightarrow> rat) \<Rightarrow> LifecycleTarget \<Rightarrow> Revalidation \<Rightarrow> LifecycleReasonCode list" where
  "vote_problems thresholds t raw =
     (let evidence = some_list (raw_evidence raw);
          rationale = (case raw_rationale raw of Some r \<Rightarrow> r | None \<Rightarrow> []);
          verdict = parse_verdict (raw_verdict raw);
          confidence = (case raw_confidence raw of Some c \<Rightarrow> c | None \<Rightarrow> Fin 0)
      in (case raw_fingerprint raw of Some f \<Rightarrow> if f \<noteq> [] \<and> f \<noteq> target_fingerprint t then [Unknown_target_id] else []
          | None \<Rightarrow> []) @
         (if verdict = Resolved \<and>
             \<not> (is_finite confidence \<and> num_le (Fin 0) confidence \<and> num_le confidence (Fin 1) \<and>
               num_le (Fin (thresholds (target_severity t))) confidence \<and> hasConcreteEvidence evidence)
          then [Invalid_resolved_evidence] else []) @
         (if verdict = StillValid \<and> \<not> visible rationale \<and> \<not> hasConcreteEvidence evidence
          then [Invalid_resolved_evidence] else []))"

definition normalizeVote ::
    "(Severity option \<Rightarrow> rat) \<Rightarrow> LifecycleTarget list \<Rightarrow> string \<Rightarrow> Revalidation \<Rightarrow> Vote option" where
  "normalizeVote thresholds ts provider raw = (case raw_targetId raw of
     Some (c # cs) \<Rightarrow> (case targetsById ts (c # cs) of
         None \<Rightarrow> None
       | Some t \<Rightarrow> Some
           \<lparr>providerId = provider, vote_targetId = c # cs, vote_fingerprint = raw_fingerprint raw,
            verdict = parse_verdict (raw_verdict raw), confidence = raw_confidence raw,
            evidence = some_list (raw_evidence raw),
            rationale = (case raw_rationale raw of Some r \<Rightarrow> r | None \<Rightarrow> []),
            valid = (vote_problems thresholds t raw = []), vote_reasonCodes = vote_problems thresholds t raw\<rparr>)
   | _ \<Rightarrow> Some
       \<lparr>providerId = provider, vote_targetId = [], vote_fingerprint = raw_fingerprint raw,
        verdict = Uncertain, confidence = raw_confidence raw, evidence = some_list (raw_evidence raw),
        rationale = (case raw_rationale raw of Some r \<Rightarrow> r | None \<Rightarrow> []), valid = False,
        vote_reasonCodes = [Missing_target_id]\<rparr>)"

definition vote_rank :: "Vote \<Rightarrow> nat" where
  "vote_rank v = (if valid v \<and> verdict v = StillValid then 3
     else if \<not> valid v \<or> verdict v = Uncertain then 2
     else if valid v \<and> verdict v = Resolved then 1 else 0)"

definition safestVote :: "Vote \<Rightarrow> Vote \<Rightarrow> Vote" where
  "safestVote l r = (if vote_rank r > vote_rank l then r else l)"

type_synonym votes = "(string \<times> (string \<times> Vote) list) list"

definition votes_of :: "string \<Rightarrow> votes \<Rightarrow> (string \<times> Vote) list" where
  "votes_of t m = (case map_of m t of None \<Rightarrow> [] | Some vs \<Rightarrow> vs)"

definition add_vote :: "votes \<Rightarrow> Vote \<Rightarrow> votes" where
  "add_vote m v =
     (let cast = votes_of (vote_targetId v) m
      in AList.update (vote_targetId v) (AList.update (providerId v)
           (case map_of cast (providerId v) of Some existing \<Rightarrow> safestVote existing v | None \<Rightarrow> v) cast) m)"

definition assigned_to :: "'e ReviewedBy \<Rightarrow> Revalidation \<Rightarrow> bool" where
  "assigned_to result raw = (case lifecycleAssignedTargetIds result of
     None \<Rightarrow> True | Some ids \<Rightarrow> (case raw_targetId raw of Some t \<Rightarrow> t | None \<Rightarrow> []) \<in> set ids)"

definition raw_votes :: "'e ReviewedBy \<Rightarrow> Revalidation list" where
  "raw_votes result = (case pr_result result of None \<Rightarrow> [] | Some r \<Rightarrow> some_list (revalidations r))"

definition collectVotes :: "'e AggregationInput \<Rightarrow> (Severity option \<Rightarrow> rat) \<Rightarrow> votes" where
  "collectVotes input thresholds = foldl (\<lambda>m result.
     if pr_name result \<notin> set (in_plannedProviders input) \<or> pr_status result \<noteq> Success then m
     else foldl (\<lambda>m raw.
       if \<not> assigned_to result raw then m
       else case normalizeVote thresholds (targets input) (pr_name result) raw of None \<Rightarrow> m | Some v \<Rightarrow> add_vote m v)
       m (raw_votes result)) [] (providerResults input)"

section \<open>Aggregation\<close>

datatype Bucket = ManualAttention | PreviousStillValid | PreviousUncertain | MutationSkipped | ResolvedCandidates

definition push_record :: "Bucket \<Rightarrow> ThreadRecord \<Rightarrow> LifecycleResult \<Rightarrow> LifecycleResult" where
  "push_record b r s = (case b of
     ManualAttention \<Rightarrow> s\<lparr>manualAttention := manualAttention s @ [r]\<rparr>
   | PreviousStillValid \<Rightarrow> s\<lparr>previousStillValid := previousStillValid s @ [r]\<rparr>
   | PreviousUncertain \<Rightarrow> s\<lparr>previousUncertain := previousUncertain s @ [r]\<rparr>
   | MutationSkipped \<Rightarrow> s\<lparr>mutationSkipped := mutationSkipped s @ [r]\<rparr>
   | ResolvedCandidates \<Rightarrow> s\<lparr>resolvedCandidates := resolvedCandidates s @ [r]\<rparr>)"

definition providerFailures :: "'e ReviewedBy list \<Rightarrow> string list" where
  "providerFailures results = js_set (map pr_name (filter (\<lambda>r. pr_status r \<noteq> Success) results))"

definition provider_findings :: "'e ReviewedBy list \<Rightarrow> Finding list" where
  "provider_findings results = concat (map (\<lambda>r. case pr_result r of
     None \<Rightarrow> [] | Some x \<Rightarrow> some_list (rr_findings x)) results)"

definition assignment_of :: "'e AggregationInput \<Rightarrow> string \<Rightarrow> AssignmentRecord option" where
  "assignment_of input t = map_of (rev (map (\<lambda>r. (as_targetId r, r)) (some_list (assignmentRecords input)))) t"

definition command_dismissed_ids :: "'e AggregationInput \<Rightarrow> string list" where
  "command_dismissed_ids input = map (targetId \<circ> rec_target)
     (filter (\<lambda>r. Command_dismissed \<in> set (rec_reasonCodes r)) (some_list (in_skipped input)))"

definition quorum_mode :: "'e AggregationInput \<Rightarrow> LifecycleQuorumMode" where
  "quorum_mode input =
     (if length (js_set (in_plannedProviders input)) \<ge> 2 then MultiProvider else SingleProvider)"

definition initial_result :: "'e AggregationInput \<Rightarrow> LifecycleResult" where
  "initial_result input =
     \<lparr>mode = in_mode input, quorumMode = quorum_mode input,
      plannedProviders = js_set (in_plannedProviders input),
      resolvedCandidates = [], resolvedByLifecycle = [], previousStillValid = [], previousUncertain = [],
      manualAttention = filter (\<lambda>r. targetId (rec_target r) \<notin> set (command_dismissed_ids input))
        (some_list (initialManualAttention input)),
      mutationSkipped = [], mutationFailed = [], skipped = some_list (in_skipped input),
      warnings = some_list (in_warnings input), inventoryFailed = in_inventoryFailed input\<rparr>"

text \<open>The body of the loop over the targets: the bucket of the target and the reason codes it adds.\<close>

definition has_quorum :: "LifecycleQuorumMode \<Rightarrow> string list \<Rightarrow> Vote list \<Rightarrow> bool" where
  "has_quorum q planned vs =
     (let resolvedVotes = filter (\<lambda>v. valid v \<and> verdict v = Resolved) vs
      in case q of SingleProvider \<Rightarrow> length resolvedVotes = 1 \<and> length planned = 1
         | MultiProvider \<Rightarrow> length resolvedVotes \<ge> 2)"

definition missing_reasons :: "'e AggregationInput \<Rightarrow> string list \<Rightarrow> AssignmentRecord option \<Rightarrow> (string \<times> Vote) list \<Rightarrow>
    LifecycleReasonCode list" where
  "missing_reasons input assigned assignment cast =
     (let planned = js_set (in_plannedProviders input);
          expected = filter (\<lambda>p. p \<in> set assigned) planned;
          failed = (case assignment of Some a \<Rightarrow> some_list (failedProviderIds a)
            | None \<Rightarrow> providerFailures (providerResults input))
      in map (\<lambda>p. Outside_review_scope) (filter (\<lambda>p. p \<notin> set assigned) planned) @
         concat (map (\<lambda>p. if p \<in> set failed then [Provider_failed]
           else if map_of cast p = None then [Provider_missing_revalidation] else []) expected))"

definition decide :: "(Finding \<Rightarrow> string) \<Rightarrow> (CommentReference \<Rightarrow> CommentReference \<Rightarrow> bool) \<Rightarrow>
    'e AggregationInput \<Rightarrow> votes \<Rightarrow> LifecycleTarget \<Rightarrow> Bucket \<times> LifecycleReasonCode list" where
  "decide fp same input votes t =
     (let planned = js_set (in_plannedProviders input);
          cast = votes_of (targetId t) votes;
          targetVotes = map snd cast;
          assignment = assignment_of input (targetId t);
          assigned = (case assignment of Some a \<Rightarrow> assignedProviderIds a | None \<Rightarrow> planned)
      in if hasHumanReply t \<or> \<not> trustedAuthor t
         then (ManualAttention, (if hasHumanReply t then [Human_reply] else []) @
                (if \<not> trustedAuthor t then [Untrusted_author] else []))
         else if target_fingerprint t \<in> set (map fp (currentFindings input)) \<or>
                 list_ex (\<lambda>f. currentFindingMatchesTarget same f t) (currentFindings input)
         then (PreviousStillValid, [Current_finding_present])
         else if list_ex (\<lambda>f. currentFindingMatchesTarget same f t) (provider_findings (providerResults input))
         then (PreviousStillValid, [Provider_current_finding_present])
         else if (case assignment of Some a \<Rightarrow> scopeStatus a \<noteq> InScope \<or> assigned = [] | None \<Rightarrow> False)
         then (PreviousUncertain, js_set
                (map (\<lambda>p. Outside_review_scope) (filter (\<lambda>p. p \<notin> set assigned) planned) @
                 [Outside_review_scope, Insufficient_resolved_quorum]))
         else if list_ex (\<lambda>v. valid v \<and> verdict v = StillValid) targetVotes
         then (PreviousStillValid, [Still_valid_vote])
         else if has_quorum (quorum_mode input) planned targetVotes
         then (if in_mode input = ModeReport then (MutationSkipped, [Report_mode]) else (ResolvedCandidates, []))
         else (PreviousUncertain, js_set
                (missing_reasons input assigned assignment cast @
                 concat (map (\<lambda>v. if valid v then [] else vote_reasonCodes v) targetVotes) @
                 (if list_ex (\<lambda>v. valid v \<and> verdict v = Uncertain) targetVotes then [Provider_uncertain] else []) @
                 [Insufficient_resolved_quorum])))"

definition thread_record :: "votes \<Rightarrow> LifecycleTarget \<Rightarrow> LifecycleReasonCode list \<Rightarrow> ThreadRecord" where
  "thread_record votes t codes =
     \<lparr>rec_target = t, rec_reasonCodes = js_set (some_list (target_reasonCodes t) @ codes),
      providerVotes = Some (map snd (votes_of (targetId t) votes))\<rparr>"

definition place :: "(Finding \<Rightarrow> string) \<Rightarrow> (CommentReference \<Rightarrow> CommentReference \<Rightarrow> bool) \<Rightarrow>
    'e AggregationInput \<Rightarrow> votes \<Rightarrow> LifecycleResult \<Rightarrow> LifecycleTarget \<Rightarrow> LifecycleResult" where
  "place fp same input votes s t = (case decide fp same input votes t of
     (b, codes) \<Rightarrow> push_record b (thread_record votes t codes) s)"

definition aggregate :: "(Finding \<Rightarrow> string) \<Rightarrow> (CommentReference \<Rightarrow> CommentReference \<Rightarrow> bool) \<Rightarrow>
    'e AggregationInput \<Rightarrow> LifecycleResult" where
  "aggregate fp same input =
     (let votes = collectVotes input (resolveRevalidationConfidenceThresholds (resolveConfidence input));
          s = initial_result input
      in if in_inventoryFailed input
         then foldl (\<lambda>s t. push_record PreviousUncertain
                \<lparr>rec_target = t, rec_reasonCodes = js_set (some_list (target_reasonCodes t) @ [Inventory_failed]),
                 providerVotes = None\<rparr> s)
                (s\<lparr>warnings := warnings s @ [''review thread lifecycle inventory failed'']\<rparr>) (targets input)
         else foldl (place fp same input votes) s (targets input))"

section \<open>What the result is used for\<close>

definition isLinkedCurrentFinding :: "ThreadRecord \<Rightarrow> bool" where
  "isLinkedCurrentFinding r \<longleftrightarrow> Current_finding_present \<in> set (rec_reasonCodes r)"

definition countPreviousStillValidBySeverity :: "LifecycleResult option \<Rightarrow> Severity \<Rightarrow> int" where
  "countPreviousStillValidBySeverity lifecycle =
     foldl (\<lambda>counts r. if isLinkedCurrentFinding r then counts
         else case target_severity (rec_target r) of
           Some s \<Rightarrow> counts(s := counts s + 1) | None \<Rightarrow> counts)
       (\<lambda>s. 0) (case lifecycle of None \<Rightarrow> [] | Some l \<Rightarrow> previousStillValid l)"

definition hasLifecycleUncertainty :: "LifecycleResult option \<Rightarrow> bool" where
  "hasLifecycleUncertainty lifecycle = (case lifecycle of None \<Rightarrow> False | Some l \<Rightarrow>
     mode l \<noteq> ModeOff \<and>
     (inventoryFailed l \<or> length (warnings l) > 0 \<or> length (previousUncertain l) > 0 \<or>
      length (manualAttention l) > 0 \<or> length (mutationSkipped l) > 0 \<or> length (mutationFailed l) > 0 \<or>
      list_ex (\<lambda>r. \<not> list_all (\<lambda>c. c = Command_dismissed) (rec_reasonCodes r)) (skipped l)))"

definition allLifecycleRecords :: "LifecycleResult \<Rightarrow> ThreadRecord list" where
  "allLifecycleRecords l = resolvedCandidates l @ resolvedByLifecycle l @ previousStillValid l @
     previousUncertain l @ manualAttention l @ mutationSkipped l @ mutationFailed l @ skipped l"

definition hasTrustedRecordedResolution :: "LifecycleTarget \<Rightarrow> bool" where
  "hasTrustedRecordedResolution t = (case trustedResolutionMarker t of None \<Rightarrow> False | Some m \<Rightarrow>
     trustedAuthor t \<and> \<not> hasHumanReply t \<and>
     marker_schemaVersion m = ''reviewrouter-lifecycle-resolution.v1'' \<and>
     marker_targetId m = targetId t \<and> marker_fingerprint m = target_fingerprint t)"

definition hasTrustedResolutionFallback :: "ThreadRecord \<Rightarrow> LifecycleResult \<Rightarrow> bool" where
  "hasTrustedResolutionFallback r l =
     (let codes = rec_reasonCodes r
      in if mode l \<noteq> ModeResolve \<or> \<not> trustedAuthor (rec_target r) \<or> hasHumanReply (rec_target r) \<or>
            Mutation_permission_denied \<notin> set codes \<or> Resolution_comment_posted \<notin> set codes \<or>
            list_ex (\<lambda>c. c \<noteq> Mutation_permission_denied \<and> c \<noteq> Resolution_comment_posted) codes
         then False
         else let resolvedProviders = js_set (map providerId
                (filter (\<lambda>v. valid v \<and> verdict v = Resolved) (some_list (providerVotes r))))
           in case quorumMode l of SingleProvider \<Rightarrow> length resolvedProviders \<ge> 1
              | MultiProvider \<Rightarrow> length resolvedProviders \<ge> 2)"

definition projectionInactiveTargets :: "LifecycleResult \<Rightarrow> LifecycleTarget list" where
  "projectionInactiveTargets l =
     map rec_target (resolvedByLifecycle l) @
     map rec_target (filter (\<lambda>r. hasTrustedResolutionFallback r l) (mutationFailed l)) @
     map rec_target (filter (\<lambda>r. hasTrustedRecordedResolution (rec_target r)) (allLifecycleRecords l))"

text \<open>The result is the pair of the fields \<open>findings\<close> and \<open>removed\<close>.\<close>

definition reconcileCarriedFindingsWithLifecycle ::
    "(CommentReference \<Rightarrow> CommentReference \<Rightarrow> bool) \<Rightarrow> (nat \<times> Finding) list \<Rightarrow> (nat \<times> Finding) list \<Rightarrow>
     LifecycleResult \<Rightarrow> (nat \<times> Finding) list \<times> (nat \<times> Finding) list" where
  "reconcileCarriedFindingsWithLifecycle same merged carried l =
     (let inactiveTargets = projectionInactiveTargets l;
          inactive = (\<lambda>f. fst f \<in> set (map fst carried) \<and>
            list_ex (currentFindingMatchesTarget same (snd f)) inactiveTargets)
      in if carried = [] \<or> inventoryFailed l then (merged, [])
         else if inactiveTargets = [] then (merged, [])
         else (filter (\<lambda>f. \<not> inactive f) merged, filter inactive merged))"

section \<open>The tally of the votes\<close>

text \<open>What the providers answered, before any tally: the answers of provider \<open>p\<close> on the target \<open>t\<close>, and the
  two kinds of answer that count.\<close>

definition raw_id :: "Revalidation \<Rightarrow> string" where
  "raw_id raw = (case raw_targetId raw of Some t \<Rightarrow> t | None \<Rightarrow> [])"

definition answers :: "'e AggregationInput \<Rightarrow> string \<Rightarrow> string \<Rightarrow> Revalidation list" where
  "answers input p t = filter (\<lambda>raw. raw_id raw = t) (concat (map (\<lambda>result. filter (assigned_to result) (raw_votes result))
     (filter (\<lambda>r. pr_name r = p \<and> pr_status r = Success) (providerResults input))))"

definition thresholds_of :: "'e AggregationInput \<Rightarrow> Severity option \<Rightarrow> rat" where
  "thresholds_of input = resolveRevalidationConfidenceThresholds (resolveConfidence input)"

definition says_resolved :: "(Severity option \<Rightarrow> rat) \<Rightarrow> LifecycleTarget \<Rightarrow> Revalidation \<Rightarrow> bool" where
  "says_resolved th t raw \<longleftrightarrow> targetId t \<noteq> [] \<and> raw_verdict raw = ''resolved'' \<and> vote_problems th t raw = []"

definition says_still_valid :: "(Severity option \<Rightarrow> rat) \<Rightarrow> LifecycleTarget \<Rightarrow> Revalidation \<Rightarrow> bool" where
  "says_still_valid th t raw \<longleftrightarrow> targetId t \<noteq> [] \<and> raw_verdict raw = ''still_valid'' \<and> vote_problems th t raw = []"

definition casts :: "'e AggregationInput \<Rightarrow> (Severity option \<Rightarrow> rat) \<Rightarrow> Vote list" where
  "casts input th = concat (map (\<lambda>result. List.map_filter (\<lambda>raw.
       if assigned_to result raw then normalizeVote th (targets input) (pr_name result) raw else None) (raw_votes result))
     (filter (\<lambda>r. pr_name r \<in> set (in_plannedProviders input) \<and> pr_status r = Success) (providerResults input)))"

lemma foldl_filter_if: "foldl (\<lambda>m x. if P x then m else f m x) m xs = foldl f m (filter (\<lambda>x. \<not> P x) xs)"
  by (induction xs arbitrary: m) auto

lemma foldl_map_filter: "foldl (\<lambda>m x. case g x of None \<Rightarrow> m | Some y \<Rightarrow> f m y) m xs = foldl f m (List.map_filter g xs)"
  by (induction xs arbitrary: m) (auto simp: List.map_filter_simps split: option.splits)

lemma foldl_concat_map: "foldl (\<lambda>m x. foldl f m (g x)) m xs = foldl f m (concat (map g xs))"
  by (induction xs arbitrary: m) auto

lemma collectVotes_casts: "collectVotes input th = foldl add_vote [] (casts input th)"
proof -
  have "(\<lambda>m raw. if \<not> assigned_to result raw then m
      else case normalizeVote th (targets input) (pr_name result) raw of None \<Rightarrow> m | Some v \<Rightarrow> add_vote m v) =
    (\<lambda>m raw. case (if assigned_to result raw then normalizeVote th (targets input) (pr_name result) raw else None)
      of None \<Rightarrow> m | Some v \<Rightarrow> add_vote m v)" for result :: "'a ReviewedBy"
    by (auto simp: fun_eq_iff)
  then show ?thesis
    by (simp add: collectVotes_def casts_def foldl_filter_if foldl_map_filter foldl_concat_map)
qed

lemma normalizeVote_id: "normalizeVote th ts p raw = Some v \<Longrightarrow> providerId v = p \<and> vote_targetId v = raw_id raw"
  by (auto simp: normalizeVote_def raw_id_def split: option.splits list.splits)

lemma targetsById_distinct:
  "distinct (map targetId ts) \<Longrightarrow> t \<in> set ts \<Longrightarrow> targetsById ts (targetId t) = Some t"
  by (auto simp: targetsById_def distinct_map rev_map [symmetric] comp_def inj_on_def intro!: map_of_is_SomeI)

lemma normalizeVote_target:
  assumes "distinct (map targetId ts)" "t \<in> set ts" "raw_id raw = targetId t"
  shows "\<exists>v. normalizeVote th ts p raw = Some v \<and>
    (valid v \<and> verdict v = Resolved \<longleftrightarrow> says_resolved th t raw) \<and>
    (valid v \<and> verdict v = StillValid \<longleftrightarrow> says_still_valid th t raw)"
proof (cases "raw_id raw")
  case Nil
  then show ?thesis using assms
    by (auto simp: normalizeVote_def raw_id_def says_resolved_def says_still_valid_def split: option.splits)
next
  case (Cons c cs)
  then have "raw_targetId raw = Some (c # cs)" "targetId t = c # cs"
    using assms(3) by (auto simp: raw_id_def split: option.splits)
  then show ?thesis using targetsById_distinct [OF assms(1,2)]
    by (simp add: normalizeVote_def says_resolved_def says_still_valid_def parse_verdict_def)
qed

lemma casts_iff: "v \<in> set (casts input th) \<longleftrightarrow> (\<exists>result \<in> set (providerResults input). \<exists>raw \<in> set (raw_votes result).
    pr_name result \<in> set (in_plannedProviders input) \<and> pr_status result = Success \<and> assigned_to result raw \<and>
    normalizeVote th (targets input) (pr_name result) raw = Some v)"
proof -
  have "set (List.map_filter g xs) = {y. \<exists>x \<in> set xs. g x = Some y}" for g :: "Revalidation \<Rightarrow> Vote option" and xs
    by (induction xs) (auto simp: List.map_filter_simps split: option.splits)
  then show ?thesis by (simp add: casts_def) (metis (lifting) option.distinct(1))
qed

lemma answers_iff: "raw \<in> set (answers input p t) \<longleftrightarrow> (\<exists>result \<in> set (providerResults input).
    raw \<in> set (raw_votes result) \<and> pr_name result = p \<and> pr_status result = Success \<and> assigned_to result raw) \<and> raw_id raw = t"
  by (auto simp: answers_def)

lemma casts_answers:
  "v \<in> set (casts input th) \<and> providerId v = p \<and> vote_targetId v = t \<longleftrightarrow>
   p \<in> set (in_plannedProviders input) \<and> (\<exists>raw \<in> set (answers input p t). normalizeVote th (targets input) p raw = Some v)"
proof
  assume "v \<in> set (casts input th) \<and> providerId v = p \<and> vote_targetId v = t"
  then show "p \<in> set (in_plannedProviders input) \<and> (\<exists>raw \<in> set (answers input p t). normalizeVote th (targets input) p raw = Some v)"
    unfolding casts_iff using answers_iff [of _ input p t] normalizeVote_id by metis
next
  assume "p \<in> set (in_plannedProviders input) \<and> (\<exists>raw \<in> set (answers input p t). normalizeVote th (targets input) p raw = Some v)"
  then show "v \<in> set (casts input th) \<and> providerId v = p \<and> vote_targetId v = t"
    unfolding casts_iff using answers_iff [of _ input p t] normalizeVote_id by metis
qed

text \<open>The invariant of the tally: one vote per provider, which is one of the votes cast and the safest of them.\<close>

definition safest :: "Vote list \<Rightarrow> string \<Rightarrow> string \<Rightarrow> Vote \<Rightarrow> bool" where
  "safest vs p t w \<longleftrightarrow> w \<in> set vs \<and> providerId w = p \<and> vote_targetId w = t \<and>
     (\<forall>c \<in> set vs. providerId c = p \<and> vote_targetId c = t \<longrightarrow> vote_rank c \<le> vote_rank w)"

definition tallies :: "votes \<Rightarrow> Vote list \<Rightarrow> bool" where
  "tallies m vs \<longleftrightarrow> (\<forall>t. distinct (map fst (votes_of t m)) \<and>
     (\<forall>p. case map_of (votes_of t m) p of Some w \<Rightarrow> safest vs p t w
        | None \<Rightarrow> \<forall>c \<in> set vs. \<not> (providerId c = p \<and> vote_targetId c = t)))"

lemma votes_of_update: "votes_of t (AList.update t' xs m) = (if t = t' then xs else votes_of t m)"
  by (simp add: votes_of_def update_conv)

lemma safestVote_cases: "safestVote l r = l \<and> vote_rank r \<le> vote_rank l \<or> safestVote l r = r \<and> vote_rank l \<le> vote_rank r"
  by (auto simp: safestVote_def)

lemma safest_snoc:
  "\<not> (providerId v = p \<and> vote_targetId v = t) \<Longrightarrow> safest (vs @ [v]) p t w \<longleftrightarrow> safest vs p t w"
  "\<forall>c \<in> set vs. \<not> (providerId c = providerId v \<and> vote_targetId c = vote_targetId v) \<Longrightarrow>
   safest (vs @ [v]) (providerId v) (vote_targetId v) v"
  by (auto simp: safest_def)

lemma safest_merge:
  assumes "safest vs (providerId v) (vote_targetId v) e"
  shows "safest (vs @ [v]) (providerId v) (vote_targetId v) (safestVote e v)"
  using safestVote_cases [of e v]
proof
  assume "safestVote e v = e \<and> vote_rank v \<le> vote_rank e"
  with assms show ?thesis by (auto simp: safest_def)
next
  assume "safestVote e v = v \<and> vote_rank e \<le> vote_rank v"
  with assms show ?thesis by (auto simp: safest_def intro: order_trans)
qed

lemma add_vote_lookup:
  "map_of (votes_of t (add_vote m v)) p =
     (if t = vote_targetId v \<and> p = providerId v
      then Some (case map_of (votes_of t m) p of Some e \<Rightarrow> safestVote e v | None \<Rightarrow> v)
      else map_of (votes_of t m) p)"
  by (simp add: add_vote_def votes_of_update update_conv Let_def)

lemma tallies_step:
  assumes "tallies m vs"
  shows "tallies (add_vote m v) (vs @ [v])"
proof (unfold tallies_def, intro allI conjI)
  fix t p
  show "distinct (map fst (votes_of t (add_vote m v)))"
    using assms by (simp add: tallies_def add_vote_def votes_of_update Let_def distinct_update)
  have inv: "case map_of (votes_of t m) p of Some w \<Rightarrow> safest vs p t w
      | None \<Rightarrow> \<forall>c \<in> set vs. \<not> (providerId c = p \<and> vote_targetId c = t)"
    using assms by (simp add: tallies_def)
  show "case map_of (votes_of t (add_vote m v)) p of Some w \<Rightarrow> safest (vs @ [v]) p t w
      | None \<Rightarrow> \<forall>c \<in> set (vs @ [v]). \<not> (providerId c = p \<and> vote_targetId c = t)"
  proof (cases "t = vote_targetId v \<and> p = providerId v")
    case True
    then show ?thesis using inv safest_merge safest_snoc(2)
      by (cases "map_of (votes_of t m) p") (simp_all add: add_vote_lookup)
  next
    case False
    then have other: "\<not> (providerId v = p \<and> vote_targetId v = t)" by blast
    have "map_of (votes_of t (add_vote m v)) p = map_of (votes_of t m) p"
      using False by (simp only: add_vote_lookup if_False)
    then show ?thesis using inv other safest_snoc(1) [OF other]
      by (cases "map_of (votes_of t m) p") simp_all
  qed
qed

lemma tallies_casts: "tallies (foldl add_vote [] vs) vs"
proof (induction vs rule: rev_induct)
  case Nil
  show ?case by (simp add: tallies_def votes_of_def)
next
  case (snoc v vs)
  then show ?case using tallies_step by simp
qed

lemma rank_cases:
  "vote_rank v \<le> 1 \<longleftrightarrow> valid v \<and> verdict v = Resolved"
  "vote_rank v = 3 \<longleftrightarrow> valid v \<and> verdict v = StillValid" "vote_rank v \<le> 3"
  by (cases "verdict v"; simp add: vote_rank_def)+

text \<open>What the tally says of a provider, in terms of its answers.\<close>

definition supports :: "'e AggregationInput \<Rightarrow> LifecycleTarget \<Rightarrow> string \<Rightarrow> bool" where
  "supports input t p \<longleftrightarrow> answers input p (targetId t) \<noteq> [] \<and>
     list_all (says_resolved (thresholds_of input) t) (answers input p (targetId t))"

definition objects :: "'e AggregationInput \<Rightarrow> LifecycleTarget \<Rightarrow> string \<Rightarrow> bool" where
  "objects input t p \<longleftrightarrow> list_ex (says_still_valid (thresholds_of input) t) (answers input p (targetId t))"

abbreviation tally :: "'e AggregationInput \<Rightarrow> votes" where
  "tally input \<equiv> collectVotes input (thresholds_of input)"

lemma tally_distinct: "distinct (map fst (votes_of t (tally input)))"
  using tallies_casts [of "casts input (thresholds_of input)"] by (simp add: tallies_def collectVotes_casts)

lemma tallies_lookup:
  "tallies m vs \<Longrightarrow> map_of (votes_of t m) p = Some w \<Longrightarrow> safest vs p t w"
  "tallies m vs \<Longrightarrow> map_of (votes_of t m) p = None \<Longrightarrow> c \<in> set vs \<Longrightarrow> \<not> (providerId c = p \<and> vote_targetId c = t)"
proof -
  assume inv: "tallies m vs"
  have "case map_of (votes_of t m) p of Some w \<Rightarrow> safest vs p t w
    | None \<Rightarrow> \<forall>c \<in> set vs. \<not> (providerId c = p \<and> vote_targetId c = t)"
    using inv by (simp add: tallies_def)
  then show "map_of (votes_of t m) p = Some w \<Longrightarrow> safest vs p t w"
    and "map_of (votes_of t m) p = None \<Longrightarrow> c \<in> set vs \<Longrightarrow> \<not> (providerId c = p \<and> vote_targetId c = t)"
    by simp_all
qed

lemma tallies_tally: "tallies (tally input) (casts input (thresholds_of input))"
  unfolding collectVotes_casts by (rule tallies_casts)

lemmas tally_lookup = tallies_lookup [OF tallies_tally]

lemma tally_None:
  assumes "map_of (votes_of (targetId t) (tally input)) p = None" "distinct (map targetId (targets input))" "t \<in> set (targets input)"
  shows "p \<notin> set (in_plannedProviders input) \<or> answers input p (targetId t) = []"
proof (rule ccontr)
  assume "\<not> ?thesis"
  then obtain raw where raw: "raw \<in> set (answers input p (targetId t))" "p \<in> set (in_plannedProviders input)"
    by (cases "answers input p (targetId t)") auto
  then have "raw_id raw = targetId t" by (simp add: answers_iff)
  then obtain v where "normalizeVote (thresholds_of input) (targets input) p raw = Some v"
    using normalizeVote_target [OF assms(2,3)] by blast
  then have "v \<in> set (casts input (thresholds_of input)) \<and> providerId v = p \<and> vote_targetId v = targetId t"
    using raw casts_answers by blast
  then show False using tally_lookup(2) [OF assms(1)] by blast
qed

lemma tally_Some:
  assumes "map_of (votes_of (targetId t) (tally input)) p = Some w"
    and ids: "distinct (map targetId (targets input))" "t \<in> set (targets input)"
  shows "p \<in> set (in_plannedProviders input)" (is ?planned)
    and "valid w \<and> verdict w = Resolved \<longleftrightarrow> supports input t p" (is ?supports)
    and "valid w \<and> verdict w = StillValid \<longleftrightarrow> objects input t p" (is ?objects)
proof -
  let ?as = "answers input p (targetId t)" and ?th = "thresholds_of input"
  have safest: "safest (casts input ?th) p (targetId t) w"
    by (rule tally_lookup(1) [OF assms(1)])
  then obtain raw0 where planned: "p \<in> set (in_plannedProviders input)" and raw0: "raw0 \<in> set ?as"
      "normalizeVote ?th (targets input) p raw0 = Some w"
    using casts_answers [of w input ?th p "targetId t"] by (auto simp: safest_def)
  have vote: "\<exists>v. vote_rank v \<le> vote_rank w \<and> (valid v \<and> verdict v = Resolved \<longleftrightarrow> says_resolved ?th t raw) \<and>
      (valid v \<and> verdict v = StillValid \<longleftrightarrow> says_still_valid ?th t raw) \<and> normalizeVote ?th (targets input) p raw = Some v"
    if raw: "raw \<in> set ?as" for raw
  proof -
    have "raw_id raw = targetId t" using raw by (simp add: answers_iff)
    then obtain v where v: "normalizeVote ?th (targets input) p raw = Some v"
        "valid v \<and> verdict v = Resolved \<longleftrightarrow> says_resolved ?th t raw" "valid v \<and> verdict v = StillValid \<longleftrightarrow> says_still_valid ?th t raw"
      using normalizeVote_target [OF ids] by blast
    then have "v \<in> set (casts input ?th) \<and> providerId v = p \<and> vote_targetId v = targetId t"
      using casts_answers raw planned by blast
    then show ?thesis using v safest by (auto simp: safest_def)
  qed
  from vote [OF raw0(1)] raw0(2)
  have w: "valid w \<and> verdict w = Resolved \<longleftrightarrow> says_resolved ?th t raw0" "valid w \<and> verdict w = StillValid \<longleftrightarrow> says_still_valid ?th t raw0"
    by auto
  show ?planned by (rule planned)
  show ?supports
  proof
    assume "valid w \<and> verdict w = Resolved"
    then have "vote_rank w \<le> 1" by (simp only: rank_cases)
    then have "says_resolved ?th t raw" if "raw \<in> set ?as" for raw
      using vote [OF that] rank_cases(1) le_trans by blast
    then show "supports input t p" using raw0(1) by (auto simp: supports_def list_all_iff)
  next
    assume "supports input t p"
    then show "valid w \<and> verdict w = Resolved" using w(1) raw0(1) by (simp add: supports_def list_all_iff)
  qed
  show ?objects
  proof
    assume "valid w \<and> verdict w = StillValid"
    then show "objects input t p" using w(2) raw0(1) by (auto simp: objects_def list_ex_iff)
  next
    assume "objects input t p"
    then obtain raw where raw: "raw \<in> set ?as" "says_still_valid ?th t raw" by (auto simp: objects_def list_ex_iff)
    then obtain v where "vote_rank v \<le> vote_rank w" "vote_rank v = 3" using vote [OF raw(1)] rank_cases(2) by blast
    then show "valid w \<and> verdict w = StillValid" using rank_cases(2,3) [of w] by linarith
  qed
qed

section \<open>The quorum\<close>

lemma tally_filter:
  assumes "distinct (map targetId (targets input))" "t \<in> set (targets input)"
    and counted: "\<And>p w. map_of (votes_of (targetId t) (tally input)) p = Some w \<Longrightarrow> P w \<longleftrightarrow> Q p"
    and answered: "\<And>p. Q p \<Longrightarrow> answers input p (targetId t) \<noteq> []"
  shows "length (filter P (map snd (votes_of (targetId t) (tally input)))) = length (filter Q (js_set (in_plannedProviders input)))"
proof -
  let ?cast = "votes_of (targetId t) (tally input)"
  have keys: "distinct (map fst ?cast)" by (rule tally_distinct)
  have mem: "(p, w) \<in> set ?cast \<longleftrightarrow> map_of ?cast p = Some w" for p w
    using keys by simp
  have "set (map fst (filter (P \<circ> snd) ?cast)) = {p \<in> set (in_plannedProviders input). Q p}"
  proof (intro set_eqI iffI)
    fix p assume "p \<in> set (map fst (filter (P \<circ> snd) ?cast))"
    then obtain w where w: "map_of ?cast p = Some w" "P w" using mem by auto
    then show "p \<in> {p \<in> set (in_plannedProviders input). Q p}"
      using tally_Some(1) [OF w(1) assms(1,2)] counted by blast
  next
    fix p assume p: "p \<in> {p \<in> set (in_plannedProviders input). Q p}"
    then obtain w where "map_of ?cast p = Some w"
      using tally_None [OF _ assms(1,2), of p] answered by (cases "map_of ?cast p") auto
    then show "p \<in> set (map fst (filter (P \<circ> snd) ?cast))"
      using p counted mem by (force intro: image_eqI [where x = "(p, w)"])
  qed
  moreover have "distinct (map fst (filter (P \<circ> snd) ?cast))" using keys by (rule distinct_map_filter)
  ultimately have "length (map fst (filter (P \<circ> snd) ?cast)) = card {p \<in> set (in_plannedProviders input). Q p}"
    using distinct_card by metis
  also have "\<dots> = length (filter Q (js_set (in_plannedProviders input)))"
    using distinct_card [of "filter Q (js_set (in_plannedProviders input))"] by simp
  finally show ?thesis by (simp add: filter_map comp_def)
qed

lemma tally_counts:
  assumes "distinct (map targetId (targets input))" "t \<in> set (targets input)"
  shows "length (filter (\<lambda>v. valid v \<and> verdict v = Resolved) (map snd (votes_of (targetId t) (tally input)))) =
      length (filter (supports input t) (js_set (in_plannedProviders input)))"
    and "list_ex (\<lambda>v. valid v \<and> verdict v = StillValid) (map snd (votes_of (targetId t) (tally input))) \<longleftrightarrow>
      list_ex (objects input t) (in_plannedProviders input)"
proof -
  show "length (filter (\<lambda>v. valid v \<and> verdict v = Resolved) (map snd (votes_of (targetId t) (tally input)))) =
      length (filter (supports input t) (js_set (in_plannedProviders input)))"
    using assms tally_Some(2) by (intro tally_filter) (auto simp: supports_def)
  have "length (filter (\<lambda>v. valid v \<and> verdict v = StillValid) (map snd (votes_of (targetId t) (tally input)))) =
      length (filter (objects input t) (js_set (in_plannedProviders input)))"
    using assms tally_Some(3) by (intro tally_filter) (auto simp: objects_def)
  then have "filter (\<lambda>v. valid v \<and> verdict v = StillValid) (map snd (votes_of (targetId t) (tally input))) = [] \<longleftrightarrow>
      filter (objects input t) (js_set (in_plannedProviders input)) = []"
    by (metis length_0_conv)
  then show "list_ex (\<lambda>v. valid v \<and> verdict v = StillValid) (map snd (votes_of (targetId t) (tally input))) \<longleftrightarrow>
      list_ex (objects input t) (in_plannedProviders input)"
    by (simp only: filter_empty_conv list_ex_iff set_js_set) blast
qed

text \<open>When a thread may be resolved, stated over the answers of the providers.\<close>

definition resolvable :: "(Finding \<Rightarrow> string) \<Rightarrow> (CommentReference \<Rightarrow> CommentReference \<Rightarrow> bool) \<Rightarrow>
    'e AggregationInput \<Rightarrow> LifecycleTarget \<Rightarrow> bool" where
  "resolvable fp same input t \<longleftrightarrow>
     (let planned = js_set (in_plannedProviders input)
      in trustedAuthor t \<and> \<not> hasHumanReply t \<and>
         target_fingerprint t \<notin> set (map fp (currentFindings input)) \<and>
         \<not> list_ex (\<lambda>f. currentFindingMatchesTarget same f t) (currentFindings input @ provider_findings (providerResults input)) \<and>
         (case assignment_of input (targetId t) of None \<Rightarrow> True
          | Some a \<Rightarrow> scopeStatus a = InScope \<and> assignedProviderIds a \<noteq> []) \<and>
         \<not> list_ex (objects input t) planned \<and>
         planned \<noteq> [] \<and> min 2 (length planned) \<le> length (filter (supports input t) planned))"

lemma quorum_iff:
  "length s \<le> length planned \<Longrightarrow> length (filter (\<lambda>v. valid v \<and> verdict v = Resolved) vs) = length s \<Longrightarrow>
   has_quorum (if length planned \<ge> 2 then MultiProvider else SingleProvider) planned vs \<longleftrightarrow>
     planned \<noteq> [] \<and> min 2 (length planned) \<le> length s"
  by (cases planned; cases "tl planned") (auto simp: has_quorum_def)

lemma decide_resolvable:
  assumes "distinct (map targetId (targets input))" "t \<in> set (targets input)"
  shows "fst (decide fp same input (tally input) t) =
      (if in_mode input = ModeReport then MutationSkipped else ResolvedCandidates) \<longleftrightarrow> resolvable fp same input t"
    and "in_mode input = ModeReport \<Longrightarrow> fst (decide fp same input (tally input) t) \<noteq> ResolvedCandidates"
    and "in_mode input \<noteq> ModeReport \<Longrightarrow> fst (decide fp same input (tally input) t) \<noteq> MutationSkipped"
proof -
  let ?planned = "js_set (in_plannedProviders input)"
  have q: "has_quorum (quorum_mode input) ?planned (map snd (votes_of (targetId t) (tally input))) \<longleftrightarrow>
      ?planned \<noteq> [] \<and> min 2 (length ?planned) \<le> length (filter (supports input t) ?planned)"
    unfolding quorum_mode_def by (rule quorum_iff [OF length_filter_le tally_counts(1) [OF assms]])
  have o: "list_ex (\<lambda>v. valid v \<and> verdict v = StillValid) (map snd (votes_of (targetId t) (tally input))) \<longleftrightarrow>
      list_ex (objects input t) ?planned"
    unfolding tally_counts(2) [OF assms] by (simp add: list_ex_iff)
  show "fst (decide fp same input (tally input) t) =
      (if in_mode input = ModeReport then MutationSkipped else ResolvedCandidates) \<longleftrightarrow> resolvable fp same input t"
    unfolding decide_def resolvable_def Let_def q o by (auto split: option.splits)
  show "in_mode input = ModeReport \<Longrightarrow> fst (decide fp same input (tally input) t) \<noteq> ResolvedCandidates"
    "in_mode input \<noteq> ModeReport \<Longrightarrow> fst (decide fp same input (tally input) t) \<noteq> MutationSkipped"
    by (simp_all add: decide_def Let_def)
qed

section \<open>Where the targets go\<close>

definition bucket_of :: "Bucket \<Rightarrow> LifecycleResult \<Rightarrow> ThreadRecord list" where
  "bucket_of b s = (case b of ManualAttention \<Rightarrow> manualAttention s | PreviousStillValid \<Rightarrow> previousStillValid s
     | PreviousUncertain \<Rightarrow> previousUncertain s | MutationSkipped \<Rightarrow> mutationSkipped s
     | ResolvedCandidates \<Rightarrow> resolvedCandidates s)"

lemma bucket_push: "bucket_of b (push_record b' r s) = bucket_of b s @ (if b = b' then [r] else [])"
  by (cases b; cases b') (simp_all add: bucket_of_def push_record_def)

lemma bucket_place: "bucket_of b (foldl (place fp same input votes) s ts) =
    bucket_of b s @ map (\<lambda>t. thread_record votes t (snd (decide fp same input votes t)))
      (filter (\<lambda>t. fst (decide fp same input votes t) = b) ts)"
  by (induction ts arbitrary: s) (simp_all add: place_def bucket_push split: prod.splits)

lemma bucket_inventory: "bucket_of b (foldl (\<lambda>s t. push_record b' (g t) s) s ts) =
    bucket_of b s @ (if b = b' then map g ts else [])"
  by (induction ts arbitrary: s) (simp_all add: bucket_push)

lemma bucket_initial: "bucket_of b (initial_result input) = (if b = ManualAttention then manualAttention (initial_result input) else [])"
  by (cases b) (simp_all add: bucket_of_def initial_result_def)

lemma bucket_warnings: "bucket_of b (s\<lparr>warnings := w\<rparr>) = bucket_of b s"
  by (cases b) (simp_all add: bucket_of_def)

text \<open>The bucket of a target, the inventory failure included.\<close>

definition final_bucket :: "(Finding \<Rightarrow> string) \<Rightarrow> (CommentReference \<Rightarrow> CommentReference \<Rightarrow> bool) \<Rightarrow>
    'e AggregationInput \<Rightarrow> LifecycleTarget \<Rightarrow> Bucket" where
  "final_bucket fp same input t = (if in_inventoryFailed input then PreviousUncertain
     else fst (decide fp same input (tally input) t))"

lemma bucket_aggregate: "map rec_target (bucket_of b (aggregate fp same input)) =
    (if b = ManualAttention then map rec_target (manualAttention (initial_result input)) else []) @
    filter (\<lambda>t. final_bucket fp same input t = b) (targets input)"
  by (simp add: aggregate_def Let_def bucket_inventory bucket_place bucket_initial bucket_warnings comp_def
      thread_record_def thresholds_of_def final_bucket_def)

lemma mset_buckets: "mset (filter (\<lambda>t. f t = ManualAttention) ts) + mset (filter (\<lambda>t. f t = PreviousStillValid) ts) +
    mset (filter (\<lambda>t. f t = PreviousUncertain) ts) + mset (filter (\<lambda>t. f t = MutationSkipped) ts) +
    mset (filter (\<lambda>t. f t = ResolvedCandidates) ts) = mset ts"
proof (induction ts)
  case (Cons t ts)
  then show ?case by (cases "f t") simp_all
qed simp

lemma aggregate_untouched:
  "resolvedByLifecycle (aggregate fp same input) = []" "mutationFailed (aggregate fp same input) = []"
  "skipped (aggregate fp same input) = some_list (in_skipped input)"
proof -
  have kept: "resolvedByLifecycle (push_record k x s) = resolvedByLifecycle s" "mutationFailed (push_record k x s) = mutationFailed s"
    "skipped (push_record k x s) = skipped s" for k x s
    by (cases k; simp add: push_record_def)+
  have fold: "resolvedByLifecycle (foldl (\<lambda>s t. push_record (k t) (g t) s) s ts) = resolvedByLifecycle s \<and>
      mutationFailed (foldl (\<lambda>s t. push_record (k t) (g t) s) s ts) = mutationFailed s \<and>
      skipped (foldl (\<lambda>s t. push_record (k t) (g t) s) s ts) = skipped s" for k g s and ts :: "LifecycleTarget list"
    by (induction ts arbitrary: s) (simp_all add: kept)
  show "resolvedByLifecycle (aggregate fp same input) = []" "mutationFailed (aggregate fp same input) = []"
    "skipped (aggregate fp same input) = some_list (in_skipped input)"
    by (simp_all add: aggregate_def Let_def place_def [abs_def] split_def fold initial_result_def)
qed

lemma buckets_of_result:
  "resolvedCandidates r = bucket_of ResolvedCandidates r" "mutationSkipped r = bucket_of MutationSkipped r"
  "previousStillValid r = bucket_of PreviousStillValid r" "previousUncertain r = bucket_of PreviousUncertain r"
  "manualAttention r = bucket_of ManualAttention r"
  by (simp_all add: bucket_of_def)

lemma aggregate_records:
  assumes "r \<in> set (allLifecycleRecords (aggregate fp same input))"
  shows "rec_target r \<in> set (targets input) \<union>
    rec_target ` set (some_list (initialManualAttention input) @ some_list (in_skipped input))"
proof (cases "r \<in> set (some_list (in_skipped input))")
  case False
  then obtain b where "r \<in> set (bucket_of b (aggregate fp same input))"
    using assms by (auto simp: allLifecycleRecords_def aggregate_untouched buckets_of_result [of "aggregate fp same input"])
  then have "rec_target r \<in> set (map rec_target (bucket_of b (aggregate fp same input)))" by simp
  then show ?thesis unfolding bucket_aggregate by (auto simp: initial_result_def split: if_splits)
qed simp

text \<open>The aggregation loses no thread and duplicates none: every target is put into exactly one of the five
  groups of the result (the records that needed manual attention from the start stay), nothing is reported as
  already resolved or failed, and after a failed inventory every target is uncertain.\<close>

theorem every_thread_has_one_outcome:
  "mset (map rec_target (resolvedCandidates (aggregate fp same input) @ mutationSkipped (aggregate fp same input) @
       previousStillValid (aggregate fp same input) @ previousUncertain (aggregate fp same input) @
       manualAttention (aggregate fp same input))) =
     mset (map rec_target (filter (\<lambda>r. targetId (rec_target r) \<notin> set (command_dismissed_ids input))
       (some_list (initialManualAttention input)))) + mset (targets input) \<and>
   resolvedByLifecycle (aggregate fp same input) = [] \<and> mutationFailed (aggregate fp same input) = [] \<and>
   skipped (aggregate fp same input) = some_list (in_skipped input) \<and>
   (if in_inventoryFailed input then map rec_target (previousUncertain (aggregate fp same input)) = targets input else True)"
proof -
  have "in_inventoryFailed input \<Longrightarrow> map rec_target (previousUncertain (aggregate fp same input)) = targets input"
    by (simp add: buckets_of_result [of "aggregate fp same input"] bucket_aggregate final_bucket_def)
  then show ?thesis
    using mset_buckets [of "final_bucket fp same input" "targets input"]
    by (simp add: buckets_of_result [of "aggregate fp same input"] bucket_aggregate aggregate_untouched initial_result_def del: mset_map) (simp add: ac_simps)
qed

text \<open>C34: Exactly which threads are candidates for resolution, in terms of the raw answers of the providers: those of a
  trusted author without a human reply, in scope, that no finding of this review matches, that no provider
  validly called still valid, and that at least two planned providers (the only one, when one is planned) support,
  where a provider supports a resolution if it answered and every one of its answers is a valid \<open>resolved\<close>.
  In report mode the same threads are only reported, and after a failed inventory there are none.\<close>

theorem resolution_needs_quorum:
  assumes "distinct (map targetId (targets input))"
  shows "map rec_target (resolvedCandidates (aggregate fp same input)) =
      (if in_inventoryFailed input \<or> in_mode input = ModeReport then [] else filter (resolvable fp same input) (targets input)) \<and>
    map rec_target (mutationSkipped (aggregate fp same input)) =
      (if in_inventoryFailed input \<or> in_mode input \<noteq> ModeReport then [] else filter (resolvable fp same input) (targets input))"
  unfolding buckets_of_result [of "aggregate fp same input"] bucket_aggregate using decide_resolvable [OF assms, of _ fp same]
  by (auto simp: final_bucket_def intro!: filter_cong)

section \<open>Carried findings\<close>

text \<open>A carried finding is dropped exactly when a resolution on record covers it; the early returns of the source
  change nothing.\<close>

definition settled_thread :: "LifecycleResult \<Rightarrow> ThreadRecord \<Rightarrow> bool" where
  "settled_thread l r \<longleftrightarrow> r \<in> set (resolvedByLifecycle l) \<or>
     r \<in> set (mutationFailed l) \<and> hasTrustedResolutionFallback r l \<or>
     r \<in> set (allLifecycleRecords l) \<and> hasTrustedRecordedResolution (rec_target r)"

lemma inactive_iff: "t \<in> set (projectionInactiveTargets l) \<longleftrightarrow> (\<exists>r. settled_thread l r \<and> rec_target r = t)"
  by (auto simp: projectionInactiveTargets_def settled_thread_def)

definition dropped ::
    "(CommentReference \<Rightarrow> CommentReference \<Rightarrow> bool) \<Rightarrow> (nat \<times> Finding) list \<Rightarrow> LifecycleResult \<Rightarrow> nat \<times> Finding \<Rightarrow> bool" where
  "dropped same carried l f \<longleftrightarrow> \<not> inventoryFailed l \<and> fst f \<in> fst ` set carried \<and>
     (\<exists>r. settled_thread l r \<and> currentFindingMatchesTarget same (snd f) (rec_target r))"

lemma list_ex_inactive: "list_ex P (projectionInactiveTargets l) \<longleftrightarrow> (\<exists>r. settled_thread l r \<and> P (rec_target r))"
  unfolding list_ex_iff by (metis inactive_iff)

lemma reconcile_exact:
  "reconcileCarriedFindingsWithLifecycle same merged carried l =
     (filter (\<lambda>f. \<not> dropped same carried l f) merged, filter (dropped same carried l) merged)"
proof (cases "carried = [] \<or> inventoryFailed l \<or> projectionInactiveTargets l = []")
  case True
  then have "\<not> dropped same carried l f" for f
    unfolding dropped_def by (metis empty_iff image_empty inactive_iff list.set(1))
  then show ?thesis using True by (auto simp: reconcileCarriedFindingsWithLifecycle_def Let_def)
next
  case False
  then show ?thesis
    by (simp add: reconcileCarriedFindingsWithLifecycle_def Let_def dropped_def [abs_def] list_ex_inactive)
qed

lemma aggregate_settled:
  assumes "settled_thread (aggregate fp same input) r"
  shows "hasTrustedRecordedResolution (rec_target r) \<and> rec_target r \<in> set (targets input) \<union>
      rec_target ` set (some_list (initialManualAttention input) @ some_list (in_skipped input))"
  using assms aggregate_records [of r fp same input] by (simp only: settled_thread_def aggregate_untouched) simp

text \<open>Between the aggregation and the resolution of the threads no carried finding disappears for a vote alone: from a
  fresh aggregation a carried finding is dropped only when the trusted author of a thread it matches, with no human
  reply, carries a resolution marker for exactly this thread and this finding; everything else is kept, in order,
  and findings that were not carried are never dropped.\<close>

theorem votes_alone_drop_no_finding:
  "fst (reconcileCarriedFindingsWithLifecycle same merged carried (aggregate fp same input)) =
     filter (\<lambda>f. f \<notin> set (snd (reconcileCarriedFindingsWithLifecycle same merged carried (aggregate fp same input)))) merged \<and>
   (\<forall>f \<in> set (snd (reconcileCarriedFindingsWithLifecycle same merged carried (aggregate fp same input))).
     f \<in> set merged \<and> fst f \<in> fst ` set carried \<and>
     (\<exists>t m. t \<in> set (targets input) \<union> rec_target ` set (some_list (initialManualAttention input) @ some_list (in_skipped input)) \<and>
       currentFindingMatchesTarget same (snd f) t \<and> trustedAuthor t \<and> \<not> hasHumanReply t \<and>
       trustedResolutionMarker t = Some m \<and> marker_targetId m = targetId t \<and> marker_fingerprint m = target_fingerprint t))"
proof (intro conjI ballI)
  let ?r = "aggregate fp same input"
  show "fst (reconcileCarriedFindingsWithLifecycle same merged carried ?r) =
      filter (\<lambda>f. f \<notin> set (snd (reconcileCarriedFindingsWithLifecycle same merged carried ?r))) merged"
    by (simp add: reconcile_exact cong: filter_cong)
  fix f
  assume f: "f \<in> set (snd (reconcileCarriedFindingsWithLifecycle same merged carried ?r))"
  then have "f \<in> set merged" and gone: "dropped same carried ?r f" by (simp_all add: reconcile_exact)
  then obtain r where r: "settled_thread ?r r" "currentFindingMatchesTarget same (snd f) (rec_target r)"
    unfolding dropped_def by blast
  note t = aggregate_settled [OF r(1)]
  then obtain m where "trustedResolutionMarker (rec_target r) = Some m" "trustedAuthor (rec_target r)" "\<not> hasHumanReply (rec_target r)"
      "marker_targetId m = targetId (rec_target r)" "marker_fingerprint m = target_fingerprint (rec_target r)"
    by (auto simp: hasTrustedRecordedResolution_def split: option.splits)
  then show "\<exists>t m. t \<in> set (targets input) \<union> rec_target ` set (some_list (initialManualAttention input) @ some_list (in_skipped input)) \<and>
      currentFindingMatchesTarget same (snd f) t \<and> trustedAuthor t \<and> \<not> hasHumanReply t \<and>
      trustedResolutionMarker t = Some m \<and> marker_targetId m = targetId t \<and> marker_fingerprint m = target_fingerprint t"
    using t r(2) by blast
  show "f \<in> set merged" "fst f \<in> fst ` set carried" using f gone by (simp_all add: reconcile_exact dropped_def)
qed

text \<open>A concrete review: one thread, three planned providers; one call failed, one provider claims another thread.\<close>

definition demo_target :: LifecycleTarget where
  "demo_target = \<lparr>targetId = ''t1'', threadId = ''h1'', threadUrl = None, target_fingerprint = ''f1'', target_severity = Some Major, target_title = ''T'',
     target_message = ''M'', originalPath = ''a.ts'', currentPath = None, originalLine = Some 3, currentLine = None,
     diffHunk = None, parentCommentId = ''p1'', parentCommentDatabaseId = None, parentCommentUpdatedAt = ''d'',
     threadCommentCount = 1, viewerCanResolve = True, hasHumanReply = False, trustedAuthor = True, trustedResolutionMarker = None, target_reasonCodes = None\<rparr>"

definition demo_answer :: "string \<Rightarrow> rat \<Rightarrow> Revalidation" where
  "demo_answer t c = \<lparr>raw_targetId = Some t, raw_fingerprint = None, raw_verdict = ''resolved'',
     raw_confidence = Some (Fin c), raw_evidence = Some [\<lparr>ev_path = Some ''a.ts'', ev_startLine = None, ev_endLine = None, ev_reason = Some ''x''\<rparr>], raw_rationale = None\<rparr>"

definition demo_result :: "string \<Rightarrow> ProviderStatus \<Rightarrow> Revalidation list \<Rightarrow> string ReviewedBy" where
  "demo_result p s rs = \<lparr>pr_name = p, pr_status = s, pr_result = Some \<lparr>content = [], transportAttemptCount = None,
       usage = None, rr_durationSeconds = None, rr_findings = None, revalidations = Some rs, aiLikelihood = None,
       actualModel = None\<rparr>, pr_error = None, pr_durationSeconds = 1, lifecycleAssignedTargetIds = None\<rparr>"

definition demo_lifecycle :: "rat \<Rightarrow> string AggregationInput" where
  "demo_lifecycle c = \<lparr>in_mode = ModeResolve, targets = [demo_target], in_plannedProviders = [''a'', ''b'', ''c'', ''a''],
     providerResults = [demo_result ''a'' Success [demo_answer ''t1'' (9 / 10)],
       demo_result ''b'' Success [demo_answer ''t1'' c, demo_answer ''t2'' 1], demo_result ''c'' Timeout []],
     currentFindings = [], assignmentRecords = None, initialManualAttention = None, in_skipped = None,
     in_warnings = None, in_inventoryFailed = False, resolveConfidence = (\<lambda>s. None)\<rparr>"

theorem resolution_needs_quorum_witness:
  "map rec_target (resolvedCandidates (aggregate finding_title (\<lambda>a b. ref_path a = ref_path b) (demo_lifecycle (43 / 50)))) = [demo_target] \<and>
   resolvedCandidates (aggregate finding_title (\<lambda>a b. ref_path a = ref_path b) (demo_lifecycle (21 / 25))) = []"
proof -
  have ids: "distinct (map targetId (targets (demo_lifecycle c)))" for c
    by (simp add: demo_lifecycle_def)
  have yes: "resolvable finding_title (\<lambda>a b. ref_path a = ref_path b) (demo_lifecycle (43 / 50)) demo_target"
    by code_simp
  have no: "\<not> resolvable finding_title (\<lambda>a b. ref_path a = ref_path b) (demo_lifecycle (21 / 25)) demo_target"
    by code_simp
  have shape: "in_inventoryFailed (demo_lifecycle c) = False" "in_mode (demo_lifecycle c) = ModeResolve"
      "targets (demo_lifecycle c) = [demo_target]" for c
    by (simp_all add: demo_lifecycle_def)
  show ?thesis
    using resolution_needs_quorum [OF ids, of finding_title "\<lambda>a b. ref_path a = ref_path b" "43 / 50"]
      resolution_needs_quorum [OF ids, of finding_title "\<lambda>a b. ref_path a = ref_path b" "21 / 25"]
    by (simp add: shape yes no)
qed

text \<open>The same thread after its trusted author left the resolution marker, and a carried finding on it.\<close>

definition demo_marked :: LifecycleTarget where
  "demo_marked = demo_target\<lparr>trustedResolutionMarker := Some
     \<lparr>marker_schemaVersion = ''reviewrouter-lifecycle-resolution.v1'', marker_targetId = ''t1'',
      marker_fingerprint = ''f1'', marker_commentId = ''c1'', marker_commentUpdatedAt = ''d''\<rparr>\<rparr>"

definition demo_carried :: "(nat \<times> Finding) list" where
  "demo_carried = [(7, \<lparr>finding_file = ''a.ts'', finding_startLine = None, finding_line = 3, finding_endLine = None,
     finding_severity = Major, finding_title = ''T'', finding_message = ''M''\<rparr>)]"

theorem votes_alone_drop_no_finding_witness:
  "\<exists>t m. t \<in> {demo_marked} \<and> trustedAuthor t \<and> \<not> hasHumanReply t \<and> trustedResolutionMarker t = Some m \<and>
     marker_fingerprint m = target_fingerprint t"
proof -
  let ?same = "\<lambda>a b. ref_path a = ref_path b" and ?input = "demo_lifecycle (9 / 10)\<lparr>targets := [demo_marked]\<rparr>"
  have in_removed: "hd demo_carried \<in> set (snd (reconcileCarriedFindingsWithLifecycle ?same demo_carried demo_carried (aggregate finding_title ?same ?input)))"
    by code_simp
  have known: "set (targets ?input) \<union> rec_target ` set (some_list (initialManualAttention ?input) @ some_list (in_skipped ?input)) = {demo_marked}"
    by (simp add: demo_lifecycle_def some_list_def)
  from votes_alone_drop_no_finding [of ?same demo_carried demo_carried finding_title ?input, THEN conjunct2, THEN bspec, OF in_removed]
  show ?thesis unfolding known by blast
qed

end
