(* ===== verification/Cache_Storage.thy ===== *)
theory Cache_Storage
  imports Prelude
begin

text \<open>
  \<open>src/cache/storage.ts\<close>: the file cache and the per-key lock of its writes.  The directory is a map from
  file names to contents, a \<open>Lock\<close> object is its number, and a call of \<open>write\<close> is a task that waits for the
  promise of a lock, writes, or has ended.  An event is a call or the end of the file operations of a
  task; the callbacks of a resolved promise run before the next event, in the order of the calls, as
  the host runs them.
\<close>

section \<open>State\<close>

datatype pc = Waiting nat | Writing | Written | WriteFailed

record write_task =
  task_key :: string
  task_value :: string
  task_pc :: pc

record CacheStorage =
  files :: "string \<rightharpoonup> string"
  locks :: "string \<rightharpoonup> nat"
  lockCount :: nat
  tasks :: "write_task list"

definition new_storage :: "(string \<rightharpoonup> string) \<Rightarrow> CacheStorage" where
  "new_storage fs = \<lparr>files = fs, locks = Map.empty, lockCount = 0, tasks = []\<rparr>"

definition file_of :: "string \<Rightarrow> string" where
  "file_of key = key @ ''.json''"

text \<open>A read that fails, also of a missing file, gives \<open>null\<close>.\<close>

definition read :: "CacheStorage \<Rightarrow> string \<Rightarrow> string option" where
  "read s key = files s (file_of key)"

section \<open>Writing\<close>

text \<open>The end of \<open>acquireLock\<close>: a new lock, whatever the key has by then.\<close>

definition set_lock :: "string \<Rightarrow> CacheStorage \<Rightarrow> CacheStorage" where
  "set_lock key s = s\<lparr>locks := (locks s)(key \<mapsto> lockCount s), lockCount := lockCount s + 1\<rparr>"

definition cacheWrite :: "CacheStorage \<Rightarrow> string \<Rightarrow> string \<Rightarrow> CacheStorage" where
  "cacheWrite s key value = (case locks s key of
     Some l \<Rightarrow> s\<lparr>tasks := tasks s @ [\<lparr>task_key = key, task_value = value, task_pc = Waiting l\<rparr>]\<rparr>
   | None \<Rightarrow> (set_lock key s)\<lparr>tasks := tasks s @ [\<lparr>task_key = key, task_value = value, task_pc = Writing\<rparr>]\<rparr>)"

definition set_pc :: "nat \<Rightarrow> pc \<Rightarrow> CacheStorage \<Rightarrow> CacheStorage" where
  "set_pc i p s = s\<lparr>tasks := (tasks s)[i := (tasks s ! i)\<lparr>task_pc := p\<rparr>]\<rparr>"

text \<open>A task behind \<open>await existingLock.promise\<close> goes on.\<close>

definition resume :: "CacheStorage \<Rightarrow> nat \<Rightarrow> CacheStorage" where
  "resume s i = set_pc i Writing (set_lock (task_key (tasks s ! i)) s)"

definition waiting_on :: "nat \<Rightarrow> CacheStorage \<Rightarrow> nat list" where
  "waiting_on l s = filter (\<lambda>i. task_pc (tasks s ! i) = Waiting l) [0..<length (tasks s)]"

definition releaseLock :: "string \<Rightarrow> CacheStorage \<Rightarrow> CacheStorage" where
  "releaseLock key s = (case locks s key of
     None \<Rightarrow> s
   | Some l \<Rightarrow> foldl resume (s\<lparr>locks := (locks s)(key := None)\<rparr>) (waiting_on l s))"

text \<open>The file operations of a task end: the value is in the file, or an error is thrown and the file has
  whatever the failed call left.  Both release the lock.\<close>

definition io_done :: "CacheStorage \<Rightarrow> nat \<Rightarrow> CacheStorage" where
  "io_done s i = (let t = tasks s ! i
     in releaseLock (task_key t) ((set_pc i Written s)\<lparr>files := (files s)(file_of (task_key t) \<mapsto> task_value t)\<rparr>))"

definition io_failed :: "CacheStorage \<Rightarrow> nat \<Rightarrow> string option \<Rightarrow> CacheStorage" where
  "io_failed s i left = (let t = tasks s ! i
     in releaseLock (task_key t) ((set_pc i WriteFailed s)\<lparr>files := (files s)(file_of (task_key t) := left)\<rparr>))"

datatype event = Call string string | IoDone nat | IoFailed nat "string option"

definition writing :: "CacheStorage \<Rightarrow> nat \<Rightarrow> bool" where
  "writing s i \<longleftrightarrow> i < length (tasks s) \<and> task_pc (tasks s ! i) = Writing"

text \<open>File operations end only for a task that has started them; other events do not happen.\<close>

fun step :: "CacheStorage \<Rightarrow> event \<Rightarrow> CacheStorage" where
  "step s (Call key value) = cacheWrite s key value"
| "step s (IoDone i) = (if writing s i then io_done s i else s)"
| "step s (IoFailed i left) = (if writing s i then io_failed s i left else s)"

definition run :: "(string \<rightharpoonup> string) \<Rightarrow> event list \<Rightarrow> CacheStorage" where
  "run fs es = foldl step (new_storage fs) es"

lemma run_events [simp]: "run fs [] = new_storage fs" "run fs (es @ [e]) = step (run fs es) e"
  by (simp_all add: run_def)

section \<open>Deleting by prefix\<close>

text \<open>The names \<open>readdir\<close> returns are a parameter (\<open>None\<close> when it or \<open>mkdir\<close> fails), and so is which
  \<open>unlink\<close> succeeds; the key of a file is its name without a final \<open>.json\<close>.\<close>

definition key_of :: "string \<Rightarrow> string" where
  "key_of file = (if drop (length file - 5) file = ''.json'' then take (length file - 5) file else file)"

definition deleteByPrefix :: "(string \<Rightarrow> bool) \<Rightarrow> string list option \<Rightarrow> CacheStorage \<Rightarrow> string \<Rightarrow> CacheStorage \<times> nat" where
  "deleteByPrefix can_unlink listing s pre = (case listing of
     None \<Rightarrow> (s, 0)
   | Some names \<Rightarrow>
       foldl (\<lambda>(s, n) file. if can_unlink file then (s\<lparr>files := (files s)(file := None)\<rparr>, n + 1) else (s, n))
         (s, 0) (filter (\<lambda>file. take (length pre) (key_of file) = pre) names))"

section \<open>The lock\<close>

definition waits :: "CacheStorage \<Rightarrow> nat \<Rightarrow> nat \<Rightarrow> bool" where
  "waits s i l \<longleftrightarrow> i < length (tasks s) \<and> task_pc (tasks s ! i) = Waiting l"

definition key_at :: "CacheStorage \<Rightarrow> nat \<Rightarrow> string" where
  "key_at s i = task_key (tasks s ! i)"

text \<open>Locks are fresh and held by a task that writes, and who waits waits for the current lock of its key.\<close>

definition lock_inv :: "CacheStorage \<Rightarrow> bool" where
  "lock_inv s \<longleftrightarrow>
     (\<forall>k l. locks s k = Some l \<longrightarrow> l < lockCount s \<and> (\<exists>i. writing s i \<and> key_at s i = k)) \<and>
     (\<forall>k k' l. locks s k = Some l \<longrightarrow> locks s k' = Some l \<longrightarrow> k = k') \<and>
     (\<forall>i l. waits s i l \<longrightarrow> locks s (key_at s i) = Some l)"

text \<open>What \<open>releaseLock\<close> does to the tasks: the waiting ones of the lock go on, the others are untouched.\<close>

lemma resume_simps [simp]:
  "length (tasks (resume s i)) = length (tasks s)" "files (resume s i) = files s" "key_at (resume s i) j = key_at s j"
  "lockCount (resume s i) = Suc (lockCount s)" "locks (resume s i) = (locks s)(key_at s i \<mapsto> lockCount s)"
  by (auto simp: resume_def set_pc_def set_lock_def key_at_def) (cases "i = j"; cases "i < length (tasks s)"; simp add: not_less list_update_beyond)

lemma resume_pc: "i < length (tasks s) \<Longrightarrow> task_pc (tasks (resume s i) ! j) = (if j = i then Writing else task_pc (tasks s ! j))"
  by (simp add: resume_def set_pc_def set_lock_def nth_list_update)

lemma resume_all:
  assumes "\<forall>i \<in> set is. i < length (tasks s) \<and> key_at s i = k"
  shows "length (tasks (foldl resume s is)) = length (tasks s) \<and> files (foldl resume s is) = files s \<and>
    (\<forall>j. key_at (foldl resume s is) j = key_at s j) \<and>
    (\<forall>j. task_pc (tasks (foldl resume s is) ! j) = (if j \<in> set is then Writing else task_pc (tasks s ! j))) \<and>
    lockCount (foldl resume s is) = lockCount s + length is \<and>
    locks (foldl resume s is) = (if is = [] then locks s else (locks s)(k \<mapsto> lockCount s + length is - 1))"
  using assms
proof (induction "is" rule: rev_induct)
  case (snoc i ks)
  then show ?case by (simp add: resume_pc) auto
qed simp

text \<open>The end of the file operations of task \<open>i\<close>: it leaves the state \<open>Writing\<close>, all the tasks that wait for
  its key enter it, and the key has a lock exactly if there were any.\<close>

definition finish :: "pc \<Rightarrow> (string \<rightharpoonup> string) \<Rightarrow> CacheStorage \<Rightarrow> nat \<Rightarrow> CacheStorage" where
  "finish p fs s i = releaseLock (key_at s i) ((set_pc i p s)\<lparr>files := fs\<rparr>)"

lemma io_finish:
  "io_done s i = finish Written ((files s)(file_of (key_at s i) \<mapsto> task_value (tasks s ! i))) s i"
  "io_failed s i left = finish WriteFailed ((files s)(file_of (key_at s i) := left)) s i"
  by (simp_all add: io_done_def io_failed_def finish_def key_at_def Let_def)

definition waits_for_key :: "CacheStorage \<Rightarrow> string \<Rightarrow> nat \<Rightarrow> bool" where
  "waits_for_key s k i \<longleftrightarrow> (\<exists>l. waits s i l) \<and> key_at s i = k"

lemma key_at_set_pc [simp]: "key_at (set_pc i p s) j = key_at s j"
  by (cases "i = j"; cases "i < length (tasks s)") (simp_all add: key_at_def set_pc_def not_less list_update_beyond)

lemma finish_effect:
  assumes inv: "lock_inv s" and i: "writing s i" and p: "p = Written \<or> p = WriteFailed"
  shows "length (tasks (finish p fs s i)) = length (tasks s)" "files (finish p fs s i) = fs"
    "key_at (finish p fs s i) j = key_at s j"
    "task_pc (tasks (finish p fs s i) ! j) =
      (if j = i then p else if waits_for_key s (key_at s i) j then Writing else task_pc (tasks s ! j))"
    "\<exists>n \<ge> lockCount s. lockCount s \<le> lockCount (finish p fs s i) \<and>
      (if \<exists>j. waits_for_key s (key_at s i) j
       then locks (finish p fs s i) = (locks s)(key_at s i \<mapsto> n) \<and> n < lockCount (finish p fs s i)
       else locks (finish p fs s i) = (locks s)(key_at s i := None))"
proof -
  let ?k = "key_at s i" and ?s = "(set_pc i p s)\<lparr>files := fs\<rparr>"
  have len: "i < length (tasks s)" "length (tasks ?s) = length (tasks s)" using i by (simp_all add: writing_def set_pc_def)
  have keys: "key_at ?s j = key_at s j" for j using key_at_set_pc [of i p s j] by (simp add: key_at_def)
  have pcs: "task_pc (tasks ?s ! j) = (if j = i then p else task_pc (tasks s ! j))" for j
    using len by (simp add: set_pc_def nth_list_update)
  have rest: "locks ?s = locks s" "lockCount ?s = lockCount s" "files ?s = fs" by (simp_all add: set_pc_def)
  have lock: "waits s j l \<Longrightarrow> locks s (key_at s j) = Some l" for j l using inv by (simp add: lock_inv_def)
  define ws where "ws = (case locks s ?k of None \<Rightarrow> [] | Some l \<Rightarrow> waiting_on l ?s)"
  have ws: "set ws = {j. waits_for_key s ?k j}"
  proof (cases "locks s ?k")
    case None
    then have "\<not> waits_for_key s ?k j" for j using lock [of j] by (auto simp: waits_for_key_def)
    with None show ?thesis by (simp add: ws_def)
  next
    case (Some l)
    have "waits s j l \<and> j \<noteq> i \<longleftrightarrow> waits_for_key s ?k j" for j
    proof
      assume w: "waits s j l \<and> j \<noteq> i"
      then obtain i' where "key_at s j = ?k" using inv Some lock [of j l] by (auto simp: lock_inv_def)
      with w show "waits_for_key s ?k j" by (auto simp: waits_for_key_def)
    next
      assume "waits_for_key s ?k j"
      then obtain l' where w: "waits s j l'" "key_at s j = ?k" by (auto simp: waits_for_key_def)
      then have "l' = l" using lock [OF w(1)] Some by simp
      then show "waits s j l \<and> j \<noteq> i" using w i by (auto simp: waits_def writing_def)
    qed
    moreover have "set ws = {j. waits s j l \<and> j \<noteq> i}"
      using Some len(2) pcs p by (auto simp: ws_def waiting_on_def waits_def)
    ultimately show ?thesis by simp
  qed
  let ?t = "?s\<lparr>locks := (locks s)(?k := None)\<rparr>"
  have fin: "finish p fs s i = foldl resume ?t ws"
  proof (cases "locks s ?k")
    case None
    then have "?t = ?s" by (simp add: set_pc_def fun_upd_idem)
    with None show ?thesis by (simp add: ws_def finish_def releaseLock_def rest)
  next
    case (Some l)
    then show ?thesis by (simp add: ws_def finish_def releaseLock_def rest)
  qed
  have "\<forall>j \<in> set ws. j < length (tasks ?t) \<and> key_at ?t j = ?k"
    using ws keys len by (auto simp: waits_for_key_def waits_def key_at_def)
  note all = resume_all [OF this, folded fin]
  show "length (tasks (finish p fs s i)) = length (tasks s)" "files (finish p fs s i) = fs"
    using all len rest by simp_all
  show "key_at (finish p fs s i) j = key_at s j"
    using all keys by (simp add: key_at_def)
  have own: "\<not> waits_for_key s ?k i" using i by (auto simp: waits_for_key_def waits_def writing_def)
  have mem: "j \<in> set ws \<longleftrightarrow> waits_for_key s ?k j" using ws by blast
  have before: "task_pc (tasks ?t ! j) = (if j = i then p else task_pc (tasks s ! j))"
    unfolding pcs [of j, symmetric] by simp
  have after: "task_pc (tasks (finish p fs s i) ! j) = (if j \<in> set ws then Writing else task_pc (tasks ?t ! j))"
    using all by blast
  show "task_pc (tasks (finish p fs s i) ! j) =
      (if j = i then p else if waits_for_key s ?k j then Writing else task_pc (tasks s ! j))"
    unfolding after before mem using own by (cases "j = i") simp_all
  have "ws = [] \<longleftrightarrow> (\<nexists>j. waits_for_key s ?k j)" unfolding set_empty [symmetric] ws by blast
  then show "\<exists>n \<ge> lockCount s. lockCount s \<le> lockCount (finish p fs s i) \<and>
      (if \<exists>j. waits_for_key s ?k j
       then locks (finish p fs s i) = (locks s)(?k \<mapsto> n) \<and> n < lockCount (finish p fs s i)
       else locks (finish p fs s i) = (locks s)(?k := None))"
    using all rest by (intro exI [of _ "lockCount s + (length ws - 1)"]) (cases ws; simp)
qed

lemma finish_tasks:
  assumes "lock_inv s" "writing s i" "p = Written \<or> p = WriteFailed"
  shows "writing (finish p fs s i) j \<longleftrightarrow> j \<noteq> i \<and> (writing s j \<or> waits_for_key s (key_at s i) j)"
    and "waits (finish p fs s i) j l \<longleftrightarrow> waits s j l \<and> key_at s j \<noteq> key_at s i"
  using assms(2,3) finish_effect(1,4) [OF assms, of fs]
  by (auto simp: writing_def waits_def waits_for_key_def split: if_splits)

lemma lock_inv_finish:
  assumes inv: "lock_inv s" and i: "writing s i" and p: "p = Written \<or> p = WriteFailed"
  shows "lock_inv (finish p fs s i)"
proof -
  let ?k = "key_at s i" and ?s = "finish p fs s i"
  note tasks = finish_tasks [OF assms, of fs] and keys = finish_effect(3) [OF assms, of fs]
  have fresh: "l < lockCount s" if "locks s k = Some l" for k l using inv that by (simp add: lock_inv_def)
  have inj: "k = k'" if "locks s k = Some l" "locks s k' = Some l" for k k' l using inv that by (auto simp: lock_inv_def)
  have held: "\<exists>j. writing s j \<and> key_at s j = k" if "locks s k = Some l" for k l using inv that by (auto simp: lock_inv_def)
  have lock: "locks s (key_at s j) = Some l" if "waits s j l" for j l using inv that by (simp add: lock_inv_def)
  obtain n where n: "lockCount s \<le> n" "lockCount s \<le> lockCount ?s"
      "if \<exists>j. waits_for_key s ?k j then locks ?s = (locks s)(?k \<mapsto> n) \<and> n < lockCount ?s
       else locks ?s = (locks s)(?k := None)"
    using finish_effect(5) [OF assms, of fs] by blast
  have other: "locks ?s k = locks s k" if "k \<noteq> ?k" for k using n(3) that by (auto split: if_splits)
  have own: "(\<exists>j. waits_for_key s ?k j) \<and> l = n \<and> n < lockCount ?s" if "locks ?s ?k = Some l" for l
    using n(3) that by (auto split: if_splits)
  have "l < lockCount ?s \<and> (\<exists>j. writing ?s j \<and> key_at ?s j = k)" if k: "locks ?s k = Some l" for k l
  proof (cases "k = ?k")
    case True
    then obtain j where "waits_for_key s ?k j" "l < lockCount ?s" using own k by blast
    moreover from this have "j \<noteq> i" using i by (auto simp: waits_for_key_def waits_def writing_def)
    ultimately show ?thesis using True tasks(1) keys by (auto simp: waits_for_key_def)
  next
    case False
    then obtain j where "writing s j" "key_at s j = k" "l < lockCount s" using other k held fresh by metis
    then show ?thesis using False tasks(1) [of j] keys n(2) by auto
  qed
  moreover have "k = k'" if "locks ?s k = Some l" "locks ?s k' = Some l" for k k' l
    using that other own fresh inj n(1) by (metis leD)
  moreover have "locks ?s (key_at ?s j) = Some l" if "waits ?s j l" for j l
    using that tasks(2) keys other lock by metis
  ultimately show ?thesis unfolding lock_inv_def by blast
qed

lemma write_effect:
  "length (tasks (cacheWrite s k v)) = Suc (length (tasks s))"
  "j < length (tasks s) \<Longrightarrow> tasks (cacheWrite s k v) ! j = tasks s ! j"
  "tasks (cacheWrite s k v) ! length (tasks s) = \<lparr>task_key = k, task_value = v,
     task_pc = (case locks s k of Some l \<Rightarrow> Waiting l | None \<Rightarrow> Writing)\<rparr>"
  "locks (cacheWrite s k v) = (if locks s k = None then (locks s)(k \<mapsto> lockCount s) else locks s)"
  "lockCount (cacheWrite s k v) = (if locks s k = None then Suc (lockCount s) else lockCount s)"
  by (auto simp: cacheWrite_def set_lock_def nth_append split: option.splits)

lemma write_tasks:
  "key_at (cacheWrite s k v) (length (tasks s)) = k" "j < length (tasks s) \<Longrightarrow> key_at (cacheWrite s k v) j = key_at s j"
  "writing (cacheWrite s k v) j \<longleftrightarrow> writing s j \<or> j = length (tasks s) \<and> locks s k = None"
  "waits (cacheWrite s k v) j l \<longleftrightarrow> waits s j l \<or> j = length (tasks s) \<and> locks s k = Some l"
  using write_effect(2) [of j s k v]
  by (auto simp: key_at_def writing_def waits_def write_effect(1,3) less_Suc_eq split: option.splits)

lemma lock_inv_write:
  assumes inv: "lock_inv s"
  shows "lock_inv (cacheWrite s k v)"
proof -
  let ?s = "cacheWrite s k v"
  have fresh: "l < lockCount s" if "locks s k = Some l" for k l using inv that by (simp add: lock_inv_def)
  have inj: "k = k'" if "locks s k = Some l" "locks s k' = Some l" for k k' l using inv that by (auto simp: lock_inv_def)
  have held: "\<exists>j. writing s j \<and> key_at s j = k" if "locks s k = Some l" for k l using inv that by (auto simp: lock_inv_def)
  have lock: "locks s (key_at s j) = Some l" if "waits s j l" for j l using inv that by (simp add: lock_inv_def)
  have old: "writing s j \<Longrightarrow> j < length (tasks s)" "waits s j l \<Longrightarrow> j < length (tasks s)" for j l
    by (simp_all add: writing_def waits_def)
  have "l < lockCount ?s \<and> (\<exists>j. writing ?s j \<and> key_at ?s j = k')" if l: "locks ?s k' = Some l" for k' l
  proof (cases "locks s k' = Some l")
    case True
    then obtain j where "writing s j" "key_at s j = k'" "l < lockCount s" using held fresh by blast
    then show ?thesis using old(1) [of j] write_tasks(2) [of j s k v] write_tasks(3) [of s k v j] write_effect(5) [of s k v] by auto
  next
    case False
    then have "k' = k" "locks s k = None" "l = lockCount s" using l by (auto simp: write_effect(4) split: if_splits)
    then show ?thesis using write_tasks(1) [of s k v] write_tasks(3) [of s k v "length (tasks s)"] write_effect(5) [of s k v] by auto
  qed
  moreover have "k1 = k2" if "locks ?s k1 = Some l" "locks ?s k2 = Some l" for k1 k2 l
    using that inj [of k1 l k2] fresh [of k1 l] fresh [of k2 l] by (auto simp: write_effect(4) split: if_splits)
  moreover have "locks ?s (key_at ?s j) = Some l" if w: "waits ?s j l" for j l
  proof (cases "waits s j l")
    case True
    then show ?thesis using lock old(2) write_tasks(2) by (auto simp: write_effect(4))
  next
    case False
    then show ?thesis using w by (auto simp: write_tasks write_effect(4))
  qed
  ultimately show ?thesis unfolding lock_inv_def by blast
qed

lemma lock_inv_step: "lock_inv s \<Longrightarrow> lock_inv (step s e)"
  by (cases e) (simp_all add: lock_inv_write lock_inv_finish io_finish)

lemma lock_inv_run: "lock_inv (run fs es)"
proof (induction es rule: rev_induct)
  case Nil
  show ?case by (simp add: lock_inv_def new_storage_def waits_def)
next
  case (snoc e es)
  then show ?case by (simp add: lock_inv_step)
qed

section \<open>What the lock gives\<close>

definition pending :: "CacheStorage \<Rightarrow> nat set" where
  "pending s = set (filter (\<lambda>i. task_pc (tasks s ! i) \<noteq> Written \<and> task_pc (tasks s ! i) \<noteq> WriteFailed) [0..<length (tasks s)])"

definition writers :: "CacheStorage \<Rightarrow> string \<Rightarrow> nat set" where
  "writers s k = set (filter (\<lambda>i. writing s i \<and> key_at s i = k) [0..<length (tasks s)])"

lemma writers_iff: "i \<in> writers s k \<longleftrightarrow> writing s i \<and> key_at s i = k"
  by (auto simp: writers_def writing_def)

lemma pending_iff: "i \<in> pending s \<longleftrightarrow> writing s i \<or> (\<exists>l. waits s i l)"
  by (cases "task_pc (tasks s ! i)") (auto simp: pending_def writing_def waits_def)

lemma finite_pending [simp]: "finite (pending s)" "finite {i \<in> pending s. P i}" "finite (writers s k)"
  by (simp_all add: pending_def writers_def)

lemma pending_finish:
  assumes "lock_inv s" "writing s i" "p = Written \<or> p = WriteFailed"
  shows "pending (finish p fs s i) = pending s - {i}"
  using finish_tasks [OF assms, of fs] by (auto simp: pending_iff waits_for_key_def)

lemma pending_progress: "lock_inv s \<Longrightarrow> i \<in> pending s \<Longrightarrow> \<exists>j. writing s j"
  by (auto simp: pending_iff lock_inv_def) blast

text \<open>C35: No write to the cache hangs.  While a write is unfinished some write is at its file operations, and whichever
  of them ends next, well or with an error, leaves one unfinished write less: after as many ends as there are
  unfinished writes all of them have returned.\<close>

theorem every_cache_write_finishes:
  assumes "i \<in> pending (run fs es)"
  shows "(\<exists>j. writing (run fs es) j) \<and>
    (\<forall>j left. writing (run fs es) j \<longrightarrow>
      pending (run fs (es @ [IoDone j])) = pending (run fs es) - {j} \<and>
      pending (run fs (es @ [IoFailed j left])) = pending (run fs es) - {j} \<and> j \<in> pending (run fs es))"
  using pending_progress [OF lock_inv_run assms] pending_finish [OF lock_inv_run]
  by (auto simp: io_finish pending_iff)

theorem every_cache_write_finishes_witness:
  "\<exists>j. writing (run Map.empty [Call ''k'' ''a'', Call ''k'' ''b'']) j"
proof -
  have "1 \<in> pending (run Map.empty [Call ''k'' ''a'', Call ''k'' ''b''])" by code_simp
  from every_cache_write_finishes [OF this] show ?thesis by blast
qed

text \<open>The lock excludes as long as at most two writes of the key are unfinished at a time.\<close>

definition exclusive :: "CacheStorage \<Rightarrow> string \<Rightarrow> bool" where
  "exclusive s k \<longleftrightarrow> card (writers s k) \<le> 1 \<and> (writers s k \<noteq> {} \<longrightarrow> locks s k \<noteq> None)"

lemma writers_write: "writers (cacheWrite s k' v) k =
    (if k = k' \<and> locks s k = None then insert (length (tasks s)) (writers s k) else writers s k)"
proof (intro set_eqI)
  fix j
  show "j \<in> writers (cacheWrite s k' v) k \<longleftrightarrow> j \<in> (if k = k' \<and> locks s k = None then insert (length (tasks s)) (writers s k) else writers s k)"
    using write_tasks(1) [of s k' v] write_tasks(2) [of j s k' v] write_tasks(3) [of s k' v j]
    by (cases "j = length (tasks s)"; cases "writing s j") (auto simp: writers_iff writing_def)
qed

lemma exclusive_write: "exclusive s k \<Longrightarrow> exclusive (cacheWrite s k' v) k"
  by (auto simp: exclusive_def writers_write write_effect(4))

lemma exclusive_finish:
  assumes inv: "lock_inv s" and i: "writing s i" and p: "p = Written \<or> p = WriteFailed"
    and ex: "exclusive s k" and two: "card {j \<in> pending s. key_at s j = k} \<le> 2"
  shows "exclusive (finish p fs s i) k"
proof (cases "key_at s i = k")
  case False
  have "writers (finish p fs s i) k = writers s k"
    using finish_tasks(1) [OF inv i p, of fs] finish_effect(3) [OF inv i p, of fs] False
    by (auto simp: writers_iff waits_for_key_def)
  moreover have "locks (finish p fs s i) k = locks s k"
    using finish_effect(5) [OF inv i p, of fs] False by (auto split: if_splits)
  ultimately show ?thesis using ex by (simp add: exclusive_def)
next
  case True
  have "i \<in> writers s k" using i True by (simp add: writers_iff)
  then have w: "writers s k = {i}" using ex card_le_Suc0_iff_eq [of "writers s k"] by (auto simp: exclusive_def)
  have ws: "writers (finish p fs s i) k = {j \<in> pending s. key_at s j = k} - {i}"
    using finish_tasks(1) [OF inv i p, of fs] finish_effect(3) [OF inv i p, of fs] w True
    by (auto simp: set_eq_iff writers_iff waits_for_key_def pending_iff)
  have "card (writers (finish p fs s i) k) \<le> 1"
    unfolding ws using two i True by (simp add: card_Diff_singleton_if pending_iff)
  moreover have "locks (finish p fs s i) k \<noteq> None" if ne: "writers (finish p fs s i) k \<noteq> {}"
  proof -
    obtain j where "waits_for_key s k j"
      using ne ws w by (auto simp: set_eq_iff pending_iff waits_for_key_def writers_iff)
    then have "\<exists>j. waits_for_key s (key_at s i) j" using True by blast
    then show ?thesis using finish_effect(5) [OF inv i p, of fs] True by auto
  qed
  ultimately show ?thesis by (simp add: exclusive_def)
qed

text \<open>Two writers exclude each other: if no more than two writes of a key were ever unfinished at the same time,
  then at no time are two of them at their file operations together.\<close>

theorem two_cache_writers_exclude_each_other:
  assumes "\<And>n. card {i \<in> pending (run fs (take n es)). key_at (run fs (take n es)) i = k} \<le> 2"
  shows "card (writers (run fs es) k) \<le> 1"
proof -
  have "exclusive (run fs (take n es)) k" for n
  proof (induction n)
    case 0
    show ?case by (simp add: exclusive_def writers_def writing_def new_storage_def)
  next
    case (Suc n)
    show ?case
    proof (cases "n < length es")
      case True
      then have "run fs (take (Suc n) es) = step (run fs (take n es)) (es ! n)"
        by (simp add: take_Suc_conv_app_nth)
      then show ?thesis using Suc assms [of n] lock_inv_run [of fs "take n es"]
        by (cases "es ! n") (simp_all add: exclusive_write exclusive_finish io_finish)
    next
      case False
      then show ?thesis using Suc by simp
    qed
  qed
  from this [of "length es"] show ?thesis by (simp add: exclusive_def)
qed

theorem two_cache_writers_exclude_each_other_witness:
  "card (writers (run Map.empty [Call ''k'' ''a'', Call ''k'' ''b'', IoDone 0]) ''k'') \<le> 1"
proof (rule two_cache_writers_exclude_each_other)
  let ?es = "[Call ''k'' ''a'', Call ''k'' ''b'', IoDone 0]"
  fix n
  have len: "length (tasks (run Map.empty (take n ?es))) \<le> 2"
    by (cases n; cases "n - 1"; cases "n - 2") (simp_all add: run_def new_storage_def cacheWrite_def set_lock_def
        writing_def io_done_def set_pc_def releaseLock_def waiting_on_def resume_def Let_def upt_rec)
  have "{i \<in> pending (run Map.empty (take n ?es)). key_at (run Map.empty (take n ?es)) i = ''k''} \<subseteq>
      {..<length (tasks (run Map.empty (take n ?es)))}"
    by (auto simp: pending_def)
  from card_mono [OF finite_lessThan this] len
  show "card {i \<in> pending (run Map.empty (take n ?es)). key_at (run Map.empty (take n ?es)) i = ''k''} \<le> 2"
    by simp
qed

text \<open>The task whose file operations an event ends.\<close>

fun ended :: "event \<Rightarrow> nat option" where
  "ended (Call key value) = None"
| "ended (IoDone i) = Some i"
| "ended (IoFailed i left) = Some i"

lemma step_finish: "ended e = Some i \<Longrightarrow> writing s i \<Longrightarrow> \<exists>p fs. (p = Written \<or> p = WriteFailed) \<and> step s e = finish p fs s i"
  by (cases e) (auto simp: io_finish)

lemma foldl_resume_count: "lockCount (foldl resume s is) = lockCount s + length is"
  by (induction "is" arbitrary: s) simp_all

text \<open>Every task that goes on after a release makes a lock.\<close>

lemma finish_locks:
  assumes "lock_inv s" "writing s i" "waits s j l" "waits s j' l" "j \<noteq> j'" "key_at s j = key_at s i"
  shows "lockCount s + 2 \<le> lockCount (finish p fs s i)"
proof -
  let ?s = "(set_pc i p s)\<lparr>files := fs\<rparr>"
  have "locks s (key_at s j) = Some l" using assms(1,3) unfolding lock_inv_def by blast
  then have lock: "locks s (key_at s i) = Some l" using assms(6) by simp
  have "j \<noteq> i" "j' \<noteq> i" using assms(2-4) by (auto simp: waits_def writing_def)
  then have "{j, j'} \<subseteq> set (waiting_on l ?s)"
    using assms(3,4) by (auto simp: waiting_on_def waits_def set_pc_def)
  from card_mono [OF _ this] have "2 \<le> length (waiting_on l ?s)"
    using assms(5) card_length [of "waiting_on l ?s"] by simp
  moreover have "locks ?s = locks s" "lockCount ?s = lockCount s" by (simp_all add: set_pc_def)
  ultimately show ?thesis using lock by (simp add: finish_def releaseLock_def foldl_resume_count)
qed

lemma overlap:
  assumes "lock_inv s" "writing s i" "waits s j l" "waits s j' l" "j \<noteq> j'" "key_at s i = k" "key_at s j = k"
    and "ended e = Some i" "ended e' = Some j"
  shows "j \<in> writers (step s e) k" "j' \<in> writers (step s e) k" "lockCount s + 2 \<le> lockCount (step s e)"
    "locks (step s e) k \<noteq> None" "j' \<in> writers (step (step s e) e') k" "locks (step (step s e) e') k = None"
proof -
  obtain p fs where p: "p = Written \<or> p = WriteFailed" and e: "step s e = finish p fs s i"
    using step_finish [OF assms(8,2)] by blast
  note tasks = finish_tasks [OF assms(1,2) p, of fs, folded e]
    and keys = finish_effect(3) [OF assms(1,2) p, of fs, folded e]
  have lock: "locks s k = Some l" "locks s (key_at s j') = Some l"
    using assms(1,3,4,7) unfolding lock_inv_def by blast+
  then have k': "key_at s j' = k" using assms(1) unfolding lock_inv_def by blast
  have waiting: "waits_for_key s k j" "waits_for_key s k j'" using assms(3,4,7) k' by (auto simp: waits_for_key_def)
  have apart: "j \<noteq> i" "j' \<noteq> i" using assms(2-4) by (auto simp: waits_def writing_def)
  show j: "j \<in> writers (step s e) k" and j': "j' \<in> writers (step s e) k"
    using waiting apart tasks(1) keys assms(6,7) k' by (auto simp: writers_iff)
  show "lockCount s + 2 \<le> lockCount (step s e)"
    using finish_locks [OF assms(1-5)] assms(6,7) by (simp add: e)
  show "locks (step s e) k \<noteq> None"
    using finish_effect(5) [OF assms(1,2) p, of fs, folded e] waiting(1) assms(6) by (auto split: if_splits)
  have inv: "lock_inv (step s e)" using assms(1) by (rule lock_inv_step)
  have wj: "writing (step s e) j" "key_at (step s e) j = k" using j by (simp_all add: writers_iff)
  obtain p' fs' where p': "p' = Written \<or> p' = WriteFailed" and e': "step (step s e) e' = finish p' fs' (step s e) j"
    using step_finish [OF assms(9) wj(1)] by blast
  show "j' \<in> writers (step (step s e) e') k"
    using finish_tasks(1) [OF inv wj(1) p', of fs'] finish_effect(3) [OF inv wj(1) p', of fs'] j' assms(5)
    by (simp add: e' writers_iff)
  have "\<not> waits_for_key (step s e) k m" for m
    using tasks(2) keys assms(6) by (auto simp: waits_for_key_def)
  then show "locks (step (step s e) e') k = None"
    using finish_effect(5) [OF inv wj(1) p', of fs'] wj(2) by (auto simp: e')
qed

text \<open>
  C36: with a third writer the lock fails, in every run and however the file operations end.  When two writes wait
  for a write of their key, its end lets both go on together, each with a lock of its own of which the key keeps
  one, so both are at the file operations of the same key; and as soon as either of them ends the key has no lock
  although the other still writes, so that the next write does not even wait.
\<close>

theorem third_cache_write_overlaps:
  assumes "writing (run fs es) i" "waits (run fs es) j l" "waits (run fs es) j' l" "j \<noteq> j'"
    and "key_at (run fs es) i = k" "key_at (run fs es) j = k" "ended e = Some i" "ended e' = Some j"
  shows "{j, j'} \<subseteq> writers (run fs (es @ [e])) k \<and>
    lockCount (run fs es) + 2 \<le> lockCount (run fs (es @ [e])) \<and> locks (run fs (es @ [e])) k \<noteq> None \<and>
    locks (run fs (es @ [e, e'])) k = None \<and>
    {j', length (tasks (run fs (es @ [e, e'])))} \<subseteq> writers (run fs (es @ [e, e', Call k d])) k"
proof -
  let ?s = "run fs es"
  have runs: "run fs (es @ [e]) = step ?s e" "run fs (es @ [e, e']) = step (step ?s e) e'"
    "run fs (es @ [e, e', Call k d]) = cacheWrite (step (step ?s e) e') k d"
    by (simp_all add: run_def)
  note shown = overlap [OF lock_inv_run assms]
  have "key_at (cacheWrite (step (step ?s e) e') k d) j' = k"
    using shown(5) write_tasks(2) [of j' "step (step ?s e) e'" k d] by (simp add: writers_iff writing_def)
  then show ?thesis
    unfolding runs using shown by (simp add: writers_iff write_tasks(1,3))
qed

lemma demo_three: "run Map.empty [Call k a, Call k b, Call k c] =
    \<lparr>files = Map.empty, locks = [k \<mapsto> 0], lockCount = 1,
     tasks = [\<lparr>task_key = k, task_value = a, task_pc = Writing\<rparr>, \<lparr>task_key = k, task_value = b, task_pc = Waiting 0\<rparr>,
       \<lparr>task_key = k, task_value = c, task_pc = Waiting 0\<rparr>]\<rparr>"
  by (simp add: run_def new_storage_def cacheWrite_def set_lock_def)

theorem third_cache_write_overlaps_witness:
  "{1, 2} \<subseteq> writers (run Map.empty ([Call ''k'' ''a'', Call ''k'' ''b'', Call ''k'' ''c''] @ [IoDone 0])) ''k'' \<and>
   {2, length (tasks (run Map.empty ([Call ''k'' ''a'', Call ''k'' ''b'', Call ''k'' ''c''] @ [IoDone 0, IoFailed 1 None])))}
     \<subseteq> writers (run Map.empty ([Call ''k'' ''a'', Call ''k'' ''b'', Call ''k'' ''c''] @
       [IoDone 0, IoFailed 1 None, Call ''k'' ''d''])) ''k''"
proof -
  let ?s = "run Map.empty [Call ''k'' ''a'', Call ''k'' ''b'', Call ''k'' ''c'']"
  have "writing ?s 0" "waits ?s 1 0" "waits ?s 2 0" "key_at ?s 0 = ''k''" "key_at ?s 1 = ''k''"
    by (simp_all add: demo_three writing_def waits_def key_at_def)
  from third_cache_write_overlaps [OF this(1-3) _ this(4,5), of "IoDone 0" "IoFailed 1 None" "''d''"]
  show ?thesis by simp
qed

section \<open>What deleting by prefix removes\<close>

lemma key_of_file_of [simp]: "key_of (file_of key) = key"
  by (simp add: key_of_def file_of_def)

lemma delete_files:
  "files (fst (foldl (\<lambda>(s, n) file. if ok file then (s\<lparr>files := (files s)(file := None)\<rparr>, n + 1) else (s, n)) (s, n) names)) f =
     (if f \<in> set names \<and> ok f then None else files s f)"
  "snd (foldl (\<lambda>(s, n) file. if ok file then (s\<lparr>files := (files s)(file := None)\<rparr>, n + 1) else (s, n)) (s, n) names) =
     n + length (filter ok names)"
  by (induction names arbitrary: s n) auto

text \<open>A key is gone after the deletion exactly if it has the prefix, was listed and could be removed, and the count is
  the number of files removed; every other key reads as before.\<close>

lemma deleteByPrefix_exact:
  "read (fst (deleteByPrefix can_unlink (Some names) s pre)) key =
     (if file_of key \<in> set names \<and> take (length pre) key = pre \<and> can_unlink (file_of key) then None else read s key)"
  "snd (deleteByPrefix can_unlink (Some names) s pre) =
     length (filter (\<lambda>file. take (length pre) (key_of file) = pre \<and> can_unlink file) names)"
  by (simp_all add: deleteByPrefix_def read_def delete_files filter_filter conj_commute cong: filter_cong)

end
