(* ===== verification/Finding_Marker.thy ===== *)
theory Finding_Marker
  imports Prelude
begin

text \<open>
  \<open>src/review-projection/domain/finding-marker.ts\<close>: the markers that tie a posted comment to a finding, how
  they are read from a comment and how marker syntax is stripped from texts that models produced.  The
  regular expressions are matchers on lists of characters: each follows its expression from left to right,
  and a global one goes on behind every match.
\<close>

section \<open>Matching\<close>

definition prefix_at :: "string \<Rightarrow> string \<Rightarrow> bool" where
  "prefix_at p s \<longleftrightarrow> take (length p) s = p"

text \<open>The flag \<open>i\<close>; the patterns are in lower case.\<close>

definition prefix_ci :: "string \<Rightarrow> string \<Rightarrow> bool" where
  "prefix_ci p s \<longleftrightarrow> js_lower (take (length p) s) = p"

definition legacy_prefix :: string where
  "legacy_prefix = ''review-router-finding:''"

definition v2_prefix :: string where
  "v2_prefix = ''reviewrouter:finding:v2:''"

text \<open>\<open>RESERVED_FINDING_MARKER_PREFIX_RE\<close> at the start of a text: the length of the match.\<close>

definition reserved_at :: "string \<Rightarrow> nat option" where
  "reserved_at s = (if prefix_ci legacy_prefix s then Some (length legacy_prefix)
     else if prefix_ci v2_prefix s then Some (length v2_prefix) else None)"

fun reserved_in :: "string \<Rightarrow> bool" where
  "reserved_in [] = (reserved_at [] \<noteq> None)"
| "reserved_in (c # cs) = (reserved_at (c # cs) \<noteq> None \<or> reserved_in cs)"

text \<open>A global match: \<open>m i s\<close> is the length of the match at offset \<open>i\<close> with the value it captures, \<open>skip\<close> the
  characters of the last match that are still to be passed.\<close>

fun match_all :: "(char option \<Rightarrow> string \<Rightarrow> (nat \<times> 'a) option) \<Rightarrow> char option \<Rightarrow> nat \<Rightarrow> nat \<Rightarrow> string \<Rightarrow> (nat \<times> nat \<times> 'a) list" where
  "match_all m before i skip [] = []"
| "match_all m before i (Suc skip) (c # cs) = match_all m (Some c) (i + 1) skip cs"
| "match_all m before i 0 (c # cs) = (case m before (c # cs) of
     Some (n, x) \<Rightarrow> (i, i + n, x) # match_all m (Some c) (i + 1) (n - 1) cs
   | None \<Rightarrow> match_all m (Some c) (i + 1) 0 cs)"

text \<open>\<open>LEGACY_FINDING_MARKER_RE\<close>.  The run of hexadecimal digits must be the whole run: \<open>\s*-->\<close> cannot start
  within it.\<close>

definition legacy_marker :: "char option \<Rightarrow> string \<Rightarrow> (nat \<times> string) option" where
  "legacy_marker before s =
     (let a = drop 4 s; b = dropWhile is_space a; c = drop (length legacy_prefix) b;
          hex = takeWhile is_hex_ci c; d = dropWhile is_space (dropWhile is_hex_ci c)
      in if prefix_at ''<!--'' s \<and> prefix_ci legacy_prefix b \<and> 24 \<le> length hex \<and> length hex \<le> 64 \<and> prefix_at ''-->'' d
         then Some (length s - length d + 3, hex) else None)"

text \<open>\<open>V2_FINDING_MARKER_RE\<close>: a blank or the start before, a blank or the end behind.\<close>

definition ends_token :: "string \<Rightarrow> bool" where
  "ends_token s = (case s of [] \<Rightarrow> True | c # cs \<Rightarrow> code c = 32 \<or> code c = 9 \<or> code c = 13 \<or> code c = 10)"

definition v2_marker :: "char option \<Rightarrow> string \<Rightarrow> (nat \<times> string) option" where
  "v2_marker before s =
     (let a = drop (length v2_prefix) s; hex = takeWhile is_hex a;
          lineage = take 36 a
      in if (case before of None \<Rightarrow> True | Some c \<Rightarrow> is_space c) \<and> prefix_at v2_prefix s
         then if prefix_at ''rrl_'' a \<and> length lineage = 36 \<and> list_all is_hex (drop 4 lineage) \<and> ends_token (drop 36 a)
              then Some (length v2_prefix + 36, lineage)
              else if 24 \<le> length hex \<and> length hex \<le> 64 \<and> ends_token (drop (length hex) a)
              then Some (length v2_prefix + length hex, hex)
              else None
         else None)"

section \<open>Reading a marker\<close>

datatype FindingMarkerParseResult = Absent | Valid string | Conflict "string list" | Malformed

definition collectMarkerMatches :: "(char option \<Rightarrow> string \<Rightarrow> (nat \<times> string) option) \<Rightarrow> string \<Rightarrow> (nat \<times> nat \<times> string) list" where
  "collectMarkerMatches pattern body = map (\<lambda>(s, e, f). (s, e, js_lower f)) (match_all pattern None 0 0 body)"

definition parseFindingMarker :: "string option \<Rightarrow> FindingMarkerParseResult" where
  "parseFindingMarker text = (case text of None \<Rightarrow> Absent | Some body \<Rightarrow>
     if body = [] then Absent
     else let offsets = map fst (match_all (\<lambda>_ s. map_option (\<lambda>n. (n, ())) (reserved_at s)) None 0 0 body);
              matches = collectMarkerMatches legacy_marker body @ collectMarkerMatches v2_marker body;
              fingerprints = js_sort compareCodePoints (js_set (map (snd \<circ> snd) matches))
          in if offsets = [] then Absent
             else if \<not> list_all (\<lambda>o'. list_ex (\<lambda>(s, e, f). s \<le> o' \<and> o' < e) matches) offsets then Malformed
             else if length fingerprints = 1 then Valid (hd fingerprints)
             else if length fingerprints > 1 then Conflict fingerprints else Malformed)"

definition findingMarkerV2 :: "string \<Rightarrow> string" where
  "findingMarkerV2 fingerprint = v2_prefix @ fingerprint"

section \<open>Stripping\<close>

text \<open>The text up to the first \<open>-->\<close>, and what is behind it.\<close>

fun until_close :: "string \<Rightarrow> (string \<times> string) option" where
  "until_close [] = None"
| "until_close (c # cs) = (if prefix_at ''-->'' (c # cs) then Some ([], drop 2 cs)
     else case until_close cs of None \<Rightarrow> None | Some (body, rest) \<Rightarrow> Some (c # body, rest))"

lemma until_close_length: "until_close s = Some (body, rest) \<Longrightarrow> length rest < length s"
  by (induction s arbitrary: body) (auto split: if_splits option.splits)

text \<open>\<open>RESERVED_FINDING_MARKER_COMMENT_RE\<close>: a closed comment with a reserved prefix inside.\<close>

function strip_comments :: "string \<Rightarrow> string" where
  "strip_comments [] = []"
| "strip_comments (c # cs) =
     (if prefix_at ''<!--'' (c # cs)
      then case until_close (drop 3 cs) of
          Some (body, rest) \<Rightarrow> if reserved_in body then strip_comments rest else c # strip_comments cs
        | None \<Rightarrow> c # strip_comments cs
      else c # strip_comments cs)"
  by pat_completeness auto
termination
  by (relation "measure length") (auto dest!: until_close_length)

text \<open>\<open>UNCLOSED_RESERVED_FINDING_MARKER_COMMENT_RE\<close>: a comment whose reserved prefix comes before any \<open>-->\<close>, with
  everything behind it.\<close>

fun reserved_before_close :: "string \<Rightarrow> bool" where
  "reserved_before_close [] = (reserved_at [] \<noteq> None)"
| "reserved_before_close (c # cs) = (reserved_at (c # cs) \<noteq> None \<or>
     \<not> prefix_at ''-->'' (c # cs) \<and> reserved_before_close cs)"

fun strip_unclosed :: "string \<Rightarrow> string" where
  "strip_unclosed [] = []"
| "strip_unclosed (c # cs) = (if prefix_at ''<!--'' (c # cs) \<and> reserved_before_close (drop 3 cs) then [] else c # strip_unclosed cs)"

text \<open>\<open>RESERVED_FINDING_MARKER_TOKEN_RE\<close>: a reserved prefix up to the next blank or \<open><\<close>.\<close>

definition in_token :: "char \<Rightarrow> bool" where
  "in_token c \<longleftrightarrow> \<not> is_space c \<and> c \<noteq> CHR ''<''"

lemma reserved_at_pos: "reserved_at s = Some n \<Longrightarrow> 0 < n"
  by (auto simp: reserved_at_def legacy_prefix_def v2_prefix_def split: if_splits)

function strip_tokens :: "string \<Rightarrow> string" where
  "strip_tokens [] = []"
| "strip_tokens (c # cs) = (case reserved_at (c # cs) of
     Some n \<Rightarrow> strip_tokens (dropWhile in_token (drop n (c # cs)))
   | None \<Rightarrow> c # strip_tokens cs)"
  by pat_completeness auto
termination
  by (relation "measure length") (auto dest!: reserved_at_pos intro!: le_less_trans [OF length_dropWhile_le])

text \<open>\<open>/<!--\s*-->/g\<close>.\<close>

function strip_empty_comments :: "string \<Rightarrow> string" where
  "strip_empty_comments [] = []"
| "strip_empty_comments (c # cs) =
     (if prefix_at ''<!--'' (c # cs) \<and> prefix_at ''-->'' (dropWhile is_space (drop 3 cs))
      then strip_empty_comments (drop 3 (dropWhile is_space (drop 3 cs)))
      else c # strip_empty_comments cs)"
  by pat_completeness auto
termination
  by (relation "measure length") (auto intro!: le_less_trans [OF diff_le_self] le_less_trans [OF length_dropWhile_le])

definition stripReservedFindingMarkerSyntax :: "string \<Rightarrow> string" where
  "stripReservedFindingMarkerSyntax body = js_trim (strip_empty_comments (strip_tokens (strip_unclosed (strip_comments body))))"

text \<open>\<open>REVIEW_LIFECYCLE_MARKER_FINGERPRINT\<close> of \<open>review-lifecycle-observation.ts\<close>: the fingerprints a marker may carry.\<close>

definition isReviewLifecycleMarkerFingerprint :: "string \<Rightarrow> bool" where
  "isReviewLifecycleMarkerFingerprint f \<longleftrightarrow>
     (take 4 f = ''rrl_'' \<and> length f = 36 \<and> list_all is_hex (drop 4 f)) \<or>
     (24 \<le> length f \<and> length f \<le> 64 \<and> list_all is_hex f)"

section \<open>What stripping leaves\<close>

lemma prefix_ci_append: "length p \<le> length s \<Longrightarrow> prefix_ci p (s @ r) = prefix_ci p s"
  by (simp add: prefix_ci_def)

lemma prefix_ci_take: "prefix_ci p (take n s) \<Longrightarrow> prefix_ci p s"
  unfolding prefix_ci_def by (metis length_js_lower length_take min.cobounded1 min_def take_take)

lemma reserved_take: "reserved_at (take n s) \<noteq> None \<Longrightarrow> reserved_at s \<noteq> None"
  by (auto simp: reserved_at_def dest: prefix_ci_take split: if_splits)

lemma reserved_at_Nil [simp]: "reserved_at [] = None"
  by (simp add: reserved_at_def prefix_ci_def legacy_prefix_def v2_prefix_def js_lower_def)

lemma reserved_in_drop: "reserved_in s \<longleftrightarrow> (\<exists>i. reserved_at (drop i s) \<noteq> None)"
proof (induction s)
  case (Cons c cs)
  have "(\<exists>i. reserved_at (drop i (c # cs)) \<noteq> None) \<longleftrightarrow> reserved_at (c # cs) \<noteq> None \<or> (\<exists>i. reserved_at (drop i cs) \<noteq> None)"
    by (metis drop0 drop_Suc_Cons not0_implies_Suc)
  then show ?case using Cons by simp
qed simp

lemma reserved_in_sublist: "reserved_in (take n (drop m s)) \<Longrightarrow> reserved_in s"
  unfolding reserved_in_drop by (metis drop_drop drop_take reserved_take)

lemma js_trim_sublist: "\<exists>m n. js_trim s = take n (drop m s)"
proof -
  have "rev (dropWhile is_space (rev (dropWhile is_space s))) = take (length (dropWhile is_space (rev (dropWhile is_space s)))) (dropWhile is_space s)"
    by (metis append_eq_conv_conj length_rev rev_append rev_rev_ident takeWhile_dropWhile_id)
  then show ?thesis unfolding js_trim_def dropWhile_eq_drop by metis
qed

text \<open>Every character of a reserved prefix can be in a token.\<close>

lemma in_token_lower: "in_token (lower_char c) \<Longrightarrow> in_token c"
  by (cases "is_upper c") (auto simp: lower_char_def in_token_def is_space_def is_upper_def)

lemma prefixes_in_token: "list_all in_token legacy_prefix" "list_all in_token v2_prefix"
  by code_simp+

lemma reserved_in_token:
  assumes "reserved_at s \<noteq> None"
  obtains p where "p = legacy_prefix \<or> p = v2_prefix" "prefix_ci p s" "list_all in_token (take (length p) s)"
proof -
  obtain p where p: "p = legacy_prefix \<or> p = v2_prefix" "prefix_ci p s"
    using assms by (auto simp: reserved_at_def split: if_splits)
  then have "list_all in_token (js_lower (take (length p) s))"
    using prefixes_in_token by (auto simp: prefix_ci_def)
  then have "list_all in_token (take (length p) s)"
    by (auto simp: js_lower_def list_all_iff dest: in_token_lower)
  with p show thesis by (rule that)
qed

lemma reserved_hd: "reserved_at (c # cs) \<noteq> None \<Longrightarrow> in_token c"
  by (erule reserved_in_token) (auto simp: legacy_prefix_def v2_prefix_def)

lemma strip_tokens_none: "reserved_at (c # cs) = None \<Longrightarrow> strip_tokens (c # cs) = c # strip_tokens cs"
  by simp

lemma strip_tokens_some:
  assumes "reserved_at s = Some n"
  shows "strip_tokens s = [] \<or> \<not> in_token (hd (strip_tokens s))"
proof -
  let ?w = "dropWhile in_token (drop n s)"
  obtain c cs where "s = c # cs" using assms by (cases s) auto
  then have w: "strip_tokens s = strip_tokens ?w" using assms by simp
  show ?thesis
  proof (cases ?w)
    case (Cons d ds)
    then have "\<not> in_token d" using hd_dropWhile [of in_token "drop n s"] by simp
    moreover have "reserved_at (d # ds) = None" using reserved_hd [of d ds] calculation by blast
    ultimately show ?thesis unfolding w Cons by simp
  next
    case Nil
    show ?thesis unfolding w Nil by simp
  qed
qed

lemma strip_tokens_prefix:
  "list_all in_token q \<Longrightarrow> take (length q) (strip_tokens s) = q \<Longrightarrow> reserved_at s = None \<Longrightarrow> take (length q) s = q"
proof (induction q arbitrary: s)
  case (Cons x q)
  then obtain c cs where s: "s = c # cs" by (cases s) auto
  then have c: "c = x" "take (length q) (strip_tokens cs) = q" using Cons.prems by (auto simp del: strip_tokens.simps simp: strip_tokens_none)
  have "take (length q) cs = q"
  proof (cases "reserved_at cs")
    case None
    then show ?thesis using Cons.IH [of cs] Cons.prems(1) c(2) by simp
  next
    case (Some n)
    have "q = []"
      using strip_tokens_some [OF Some] c(2) Cons.prems(1) by (cases q; cases "strip_tokens cs") auto
    then show ?thesis by simp
  qed
  then show ?case using s c by simp
qed simp

lemma strip_tokens_clean: "\<not> reserved_in (strip_tokens s)"
proof (induction s rule: strip_tokens.induct)
  case (2 c cs)
  show ?case
  proof (cases "reserved_at (c # cs)")
    case None
    have "reserved_at (strip_tokens (c # cs)) = None"
    proof (rule ccontr)
      assume "reserved_at (strip_tokens (c # cs)) \<noteq> None"
      then obtain p where p: "p = legacy_prefix \<or> p = v2_prefix" "prefix_ci p (strip_tokens (c # cs))"
          "list_all in_token (take (length p) (strip_tokens (c # cs)))"
        by (rule reserved_in_token)
      let ?q = "take (length p) (strip_tokens (c # cs))"
      have len: "length ?q = length p" using p(2) unfolding prefix_ci_def by (metis length_js_lower)
      have "take (length ?q) (c # cs) = ?q"
        by (rule strip_tokens_prefix [OF p(3) _ None]) (simp only: len)
      then have "prefix_ci p (c # cs)" using p(2) len unfolding prefix_ci_def by metis
      then show False using None p(1) by (auto simp: reserved_at_def split: if_splits)
    qed
    then show ?thesis using None 2 by simp
  next
    case (Some n)
    then show ?thesis using 2 by simp
  qed
qed simp

section \<open>Reading markers back\<close>

lemma match_all_skip: "length s \<le> skip \<Longrightarrow> match_all m b i skip s = []"
  by (induction s arbitrary: b i skip) (auto, case_tac skip, auto)

lemma match_all_none:
  "(\<And>j b. j < length u \<Longrightarrow> m b (drop j u @ r) = None) \<Longrightarrow>
   match_all m b i 0 (u @ r) = match_all m (if u = [] then b else Some (last u)) (i + length u) 0 r"
proof (induction u arbitrary: b i)
  case (Cons c u)
  have "m b (c # u @ r) = None" using Cons.prems [of 0 b] by simp
  moreover have "match_all m (Some c) (Suc i) 0 (u @ r) = match_all m (if u = [] then Some c else Some (last u)) (Suc i + length u) 0 r"
    using Cons.IH [of "Some c" "Suc i"] Cons.prems [of "Suc j" for j] by simp
  ultimately show ?case by simp
qed simp

lemma match_all_pass:
  "(\<And>j b. j < length v \<Longrightarrow> m b (drop j v) = None) \<Longrightarrow> match_all m b i (length u) (u @ v) = []"
proof (induction u arbitrary: b i)
  case Nil
  then show ?case using match_all_none [of v m "[]" b i] by simp
qed simp

lemma prefix_ci_char:
  assumes "prefix_ci p s" "x \<in> set p" "\<And>c. lower_char c = x \<Longrightarrow> c = x"
  shows "x \<in> set s"
proof -
  have "x \<in> set (js_lower (take (length p) s))" using assms(1,2) by (simp add: prefix_ci_def)
  then obtain c where "c \<in> set (take (length p) s)" "lower_char c = x" by (auto simp: js_lower_def)
  then show ?thesis using assms(3) by (metis in_set_takeD)
qed

lemma lower_char_fixed: "lower_char c = CHR '':'' \<Longrightarrow> c = CHR '':''" "lower_char c = CHR ''-'' \<Longrightarrow> c = CHR ''-''"
proof -
  have "code (lower_char c) = k \<Longrightarrow> k < 65 \<Longrightarrow> code c = k" for k
    by (auto simp: code_lower_char is_upper_def split: if_splits)
  note low = this [of "code (CHR '':'')"] this [of "code (CHR ''-'')"]
  show "lower_char c = CHR '':'' \<Longrightarrow> c = CHR '':''" using low(1) by (simp only: of_char_eq_iff) simp
  show "lower_char c = CHR ''-'' \<Longrightarrow> c = CHR ''-''" using low(2) by (simp only: of_char_eq_iff) simp
qed

lemma reserved_colon: "reserved_at s \<noteq> None \<Longrightarrow> CHR '':'' \<in> set s"
  by (erule reserved_in_token) (auto intro!: prefix_ci_char [of _ s "CHR '':''"] lower_char_fixed simp: legacy_prefix_def v2_prefix_def)

lemma legacy_dash: "prefix_ci legacy_prefix s \<Longrightarrow> CHR ''-'' \<in> set s"
  by (erule prefix_ci_char) (auto intro: lower_char_fixed simp: legacy_prefix_def)

lemma no_reserved_in_body:
  assumes "\<not> reserved_in u" "j < length u" "is_space (last u)"
  shows "reserved_at (drop j u @ r) = None"
proof (rule ccontr)
  assume "reserved_at (drop j u @ r) \<noteq> None"
  then obtain p where p: "p = legacy_prefix \<or> p = v2_prefix" "prefix_ci p (drop j u @ r)"
      "list_all in_token (take (length p) (drop j u @ r))"
    by (rule reserved_in_token)
  show False
  proof (cases "length p \<le> length (drop j u)")
    case True
    then have "prefix_ci p (drop j u)" using p(2) by (simp add: prefix_ci_append)
    then show False using assms(1) p(1) unfolding reserved_in_drop by (auto simp: reserved_at_def split: if_splits)
  next
    case False
    then have "last u \<in> set (take (length p) (drop j u @ r))"
      using assms(2) by (simp add: last_drop [symmetric] del: last_drop length_drop)
    then show False using p(3) assms(3) by (auto simp: list_all_iff in_token_def)
  qed
qed

lemma fingerprint_alphabet:
  assumes "isReviewLifecycleMarkerFingerprint f"
  shows "\<forall>c \<in> set f. is_hex c \<or> c = CHR ''r'' \<or> c = CHR ''l'' \<or> c = CHR ''_''"
proof -
  have "f = ''rrl_'' @ drop 4 f \<and> list_all is_hex (drop 4 f) \<or> list_all is_hex f"
    using assms append_take_drop_id [of 4 f] unfolding isReviewLifecycleMarkerFingerprint_def by metis
  then show ?thesis
  proof
    assume f: "f = ''rrl_'' @ drop 4 f \<and> list_all is_hex (drop 4 f)"
    have "set f = set (''rrl_'' @ drop 4 f)" using f by metis
    then show ?thesis using f by (auto simp: list_all_iff)
  qed (simp add: list_all_iff)
qed

lemma fingerprint_chars:
  assumes "isReviewLifecycleMarkerFingerprint f"
  shows "CHR '':'' \<notin> set f" "CHR ''-'' \<notin> set f" "js_lower f = f"
proof -
  note chars = fingerprint_alphabet [OF assms]
  have "\<not> is_hex (CHR '':'')" "\<not> is_hex (CHR ''-'')" by code_simp+
  then show "CHR '':'' \<notin> set f" "CHR ''-'' \<notin> set f" using chars by auto
  have "lower_char (CHR ''r'') = CHR ''r''" "lower_char (CHR ''l'') = CHR ''l''" "lower_char (CHR ''_'') = CHR ''_''"
    by code_simp+
  then have "\<forall>c \<in> set f. lower_char c = c" using chars by (auto simp: lower_hex)
  then show "js_lower f = f" by (simp add: js_lower_def map_idI)
qed

lemma rrl_at: "prefix_at ''rrl_'' s \<longleftrightarrow> take 4 s = ''rrl_''"
  by (simp add: prefix_at_def numeral_eq_Suc)

lemma v2_prefix_length: "length v2_prefix = 24"
  by (simp add: v2_prefix_def)

lemma v2_prefix_at: "prefix_at v2_prefix (v2_prefix @ s)"
  by (simp add: prefix_at_def)

lemma v2_marker_reads:
  assumes "isReviewLifecycleMarkerFingerprint f" "case before of None \<Rightarrow> True | Some c \<Rightarrow> is_space c"
  shows "v2_marker before (v2_prefix @ f) = Some (length v2_prefix + length f, f)"
proof (cases "take 4 f = ''rrl_'' \<and> length f = 36 \<and> list_all is_hex (drop 4 f)")
  case True
  then show ?thesis using assms(2) by (simp add: v2_marker_def rrl_at v2_prefix_at ends_token_def Let_def)
next
  case False
  then have f: "24 \<le> length f" "length f \<le> 64" "list_all is_hex f"
    using assms(1) by (auto simp: isReviewLifecycleMarkerFingerprint_def)
  then obtain c cs where "f = c # cs" "is_hex c" by (cases f) auto
  moreover have "\<not> is_hex (CHR ''r'')" by code_simp
  ultimately have "take 4 f \<noteq> ''rrl_''" by auto
  moreover have whole: "takeWhile is_hex f = f" using f(3) by (simp add: takeWhile_eq_all_conv list_all_iff)
  ultimately show ?thesis using f assms(2) by (simp add: v2_marker_def rrl_at v2_prefix_at ends_token_def Let_def whole)
qed

lemma legacy_marker_none:
  assumes "\<And>k. \<not> prefix_ci legacy_prefix (drop k s)"
  shows "legacy_marker b s = None"
proof -
  obtain k where "dropWhile is_space (drop 4 s) = drop k s" by (metis dropWhile_eq_drop drop_drop)
  then show ?thesis using assms [of k] by (simp add: legacy_marker_def Let_def)
qed

lemma parse_marker:
  assumes f: "isReviewLifecycleMarkerFingerprint f" and u: "\<not> reserved_in u" "u = [] \<or> is_space (last u)"
  shows "parseFindingMarker (Some (u @ findingMarkerV2 f)) = Valid f"
proof -
  let ?t = "u @ v2_prefix @ f"
  let ?b = "if u = [] then None else Some (last u)"
  have none_u: "reserved_at (drop j u @ r) = None" if "j < length u" for j r
    using no_reserved_in_body u that by auto
  have none_f: "reserved_at (drop j f) = None" for j
    using reserved_colon [of "drop j f"] fingerprint_chars(1) [OF f] by (meson in_set_dropD)
  obtain n where here: "reserved_at (v2_prefix @ f) = Some n" "n = length v2_prefix"
    by (simp add: reserved_at_def prefix_ci_def v2_prefix_def legacy_prefix_def js_lower_def lower_char_def is_upper_def)
  have cons: "v2_prefix @ f = CHR ''r'' # drop 1 v2_prefix @ f" "length (drop 1 v2_prefix) = length v2_prefix - 1"
    by (simp_all add: v2_prefix_def)
  have offsets: "match_all (\<lambda>_ s. map_option (\<lambda>n. (n, ())) (reserved_at s)) None 0 0 ?t = [(length u, length u + n, ())]"
  proof -
    have "match_all (\<lambda>_ s. map_option (\<lambda>n. (n, ())) (reserved_at s)) b i (length (drop 1 v2_prefix)) (drop 1 v2_prefix @ f) = []" for b i
      by (rule match_all_pass) (simp add: none_f)
    then show ?thesis
      using here by (subst match_all_none) (simp_all add: none_u cons)
  qed
  have no_legacy: "\<not> prefix_ci legacy_prefix (drop j ?t)" for j
  proof (cases "j < length u")
    case True
    then show ?thesis using none_u [of j "v2_prefix @ f"] by (auto simp: reserved_at_def)
  next
    case False
    then have "set (drop j ?t) \<subseteq> set (v2_prefix @ f)"
      using set_drop_subset [of "j - length u" "v2_prefix @ f"] by simp
    moreover have "CHR ''-'' \<notin> set v2_prefix" by (simp add: v2_prefix_def)
    ultimately show ?thesis using legacy_dash [of "drop j ?t"] fingerprint_chars(2) [OF f] by auto
  qed
  have "legacy_marker b (drop j ?t) = None" for b j
    by (rule legacy_marker_none) (unfold drop_drop, rule no_legacy)
  then have legacy: "match_all legacy_marker None 0 0 ?t = []"
    using match_all_none [of ?t legacy_marker "[]" None 0] by simp
  have before: "case ?b of None \<Rightarrow> True | Some c \<Rightarrow> is_space c" using u(2) by auto
  have v2_none: "v2_marker b (drop j u @ v2_prefix @ f) = None" if "j < length u" for b j
  proof -
    have "\<not> prefix_ci v2_prefix (drop j u @ v2_prefix @ f)"
      using none_u [OF that, of "v2_prefix @ f"] by (auto simp: reserved_at_def split: if_splits)
    moreover have "js_lower v2_prefix = v2_prefix" by code_simp
    ultimately have "\<not> prefix_at v2_prefix (drop j u @ v2_prefix @ f)" by (auto simp: prefix_at_def prefix_ci_def)
    then show ?thesis by (simp add: v2_marker_def Let_def)
  qed
  have v2: "match_all v2_marker None 0 0 ?t = [(length u, length u + (length v2_prefix + length f), f)]"
  proof -
    have "v2_marker ?b (CHR ''r'' # drop 1 v2_prefix @ f) = Some (length v2_prefix + length f, f)"
      using v2_marker_reads [OF f before] unfolding cons(1) .
    then have "match_all v2_marker ?b i 0 (CHR ''r'' # drop 1 v2_prefix @ f) = [(i, i + (length v2_prefix + length f), f)]" for i
      by (simp add: match_all_skip v2_prefix_length)
    then have "match_all v2_marker ?b i 0 (v2_prefix @ f) = [(i, i + (length v2_prefix + length f), f)]" for i
      unfolding cons(1) .
    then show ?thesis
      using match_all_none [of u v2_marker "v2_prefix @ f" None 0] v2_none by simp
  qed
  have "v2_prefix \<noteq> []" by (simp add: v2_prefix_def)
  then show ?thesis
    using fingerprint_chars(3) [OF f]
    by (simp add: parseFindingMarker_def findingMarkerV2_def Let_def offsets collectMarkerMatches_def legacy v2
        here(2) v2_prefix_length)
qed

section \<open>Properties\<close>

text \<open>C38: A marker is read back from the comment it was written to: behind any text that holds no reserved marker syntax and
  ends in a blank (or behind nothing), a marker for a fingerprint of the supported form parses as exactly this
  fingerprint.\<close>

theorem finding_marker_round_trip:
  assumes "isReviewLifecycleMarkerFingerprint fingerprint" and "\<not> reserved_in body"
    and "body = [] \<or> is_space (last body)"
  shows "parseFindingMarker (Some (body @ findingMarkerV2 fingerprint)) = Valid fingerprint"
  using assms by (rule parse_marker)

definition demo_fingerprint :: string where
  "demo_fingerprint = ''rrl_'' @ replicate 32 (CHR ''a'')"

theorem finding_marker_round_trip_witness:
  "parseFindingMarker (Some (''See line 3. '' @ findingMarkerV2 demo_fingerprint)) = Valid demo_fingerprint"
proof (rule finding_marker_round_trip)
  show "isReviewLifecycleMarkerFingerprint demo_fingerprint" "\<not> reserved_in ''See line 3. ''"
    "''See line 3. '' = [] \<or> is_space (last ''See line 3. '')"
    by code_simp+
qed

lemma parse_clean: "\<not> reserved_in body \<Longrightarrow> parseFindingMarker (Some body) = Absent"
proof -
  assume "\<not> reserved_in body"
  then have "reserved_at (drop j body) = None" for j unfolding reserved_in_drop by blast
  then have "match_all (\<lambda>_ s. map_option (\<lambda>n. (n, ())) (reserved_at s)) None 0 0 body = []"
    using match_all_none [of body "\<lambda>_ s. map_option (\<lambda>n. (n, ())) (reserved_at s)" "[]" None 0] by simp
  then show ?thesis by (simp add: parseFindingMarker_def Let_def)
qed

text \<open>C39: Stripping works as long as its last step has nothing to do: if no empty comment is left once comments and
  tokens with reserved syntax are gone, the stripped text carries no marker at all.\<close>

theorem stripped_text_carries_no_marker:
  assumes "strip_empty_comments (strip_tokens (strip_unclosed (strip_comments body))) =
    strip_tokens (strip_unclosed (strip_comments body))"
  shows "\<not> reserved_in (stripReservedFindingMarkerSyntax body) \<and>
    parseFindingMarker (Some (stripReservedFindingMarkerSyntax body)) = Absent"
proof -
  have "\<not> reserved_in (js_trim (strip_tokens (strip_unclosed (strip_comments body))))"
    using strip_tokens_clean reserved_in_sublist js_trim_sublist by metis
  then show ?thesis using parse_clean by (simp add: stripReservedFindingMarkerSyntax_def assms)
qed

theorem stripped_text_carries_no_marker_witness:
  "parseFindingMarker (Some (stripReservedFindingMarkerSyntax ''<p>a</p> <!-- Review-Router-Finding:00 --> reviewrouter:finding:v2:00 b'')) = Absent"
proof -
  have "strip_empty_comments (strip_tokens (strip_unclosed (strip_comments ''<p>a</p> <!-- Review-Router-Finding:00 --> reviewrouter:finding:v2:00 b''))) =
      strip_tokens (strip_unclosed (strip_comments ''<p>a</p> <!-- Review-Router-Finding:00 --> reviewrouter:finding:v2:00 b''))"
    by code_simp
  from stripped_text_carries_no_marker [OF this] show ?thesis by (rule conjunct2)
qed

lemma strip_no_open:
  "CHR ''<'' \<notin> set s \<Longrightarrow> strip_comments s = s" "CHR ''<'' \<notin> set s \<Longrightarrow> strip_unclosed s = s"
  "CHR ''<'' \<notin> set s \<Longrightarrow> strip_empty_comments s = s"
  by (induction s) (auto simp: prefix_at_def)

lemma strip_append:
  "CHR ''<'' \<notin> set x \<Longrightarrow> strip_comments (x @ s) = x @ strip_comments s"
  "CHR ''<'' \<notin> set x \<Longrightarrow> strip_unclosed (x @ s) = x @ strip_unclosed s"
  "CHR ''<'' \<notin> set x \<Longrightarrow> strip_empty_comments (x @ s) = x @ strip_empty_comments s"
  by (induction x) (auto simp: prefix_at_def)

lemma empty_comment:
  "strip_comments (CHR ''<'' # ''!-- -->'' @ r) = CHR ''<'' # strip_comments (''!-- -->'' @ r)"
  "strip_unclosed (CHR ''<'' # ''!-- -->'' @ r) = CHR ''<'' # strip_unclosed (''!-- -->'' @ r)"
  "strip_empty_comments (CHR ''<'' # ''!-- -->'' @ r) = strip_empty_comments r"
proof -
  have open_here: "prefix_at ''<!--'' (CHR ''<'' # ''!-- -->'' @ r)" by (simp add: prefix_at_def)
  have rest: "drop 3 (''!-- -->'' @ r) = '' -->'' @ r" by simp
  have body: "until_close ('' -->'' @ r) = Some ('' '', r)" by (simp add: prefix_at_def)
  have blank: "reserved_at (CHR '' '' # s) = None" "reserved_at (CHR ''-'' # s) = None" for s
    using reserved_hd [of "CHR '' ''" s] by (auto simp: in_token_def is_space_def reserved_at_def prefix_ci_def legacy_prefix_def v2_prefix_def
        js_lower_def lower_char_def is_upper_def)
  have "\<not> reserved_in '' ''" using blank(1) by simp
  then show "strip_comments (CHR ''<'' # ''!-- -->'' @ r) = CHR ''<'' # strip_comments (''!-- -->'' @ r)"
    unfolding strip_comments.simps(2) if_P [OF open_here] rest body by simp
  have "\<not> reserved_before_close ('' -->'' @ r)"
    using blank by (simp add: prefix_at_def)
  then show "strip_unclosed (CHR ''<'' # ''!-- -->'' @ r) = CHR ''<'' # strip_unclosed (''!-- -->'' @ r)"
    unfolding strip_unclosed.simps(2) rest by simp
  have "dropWhile is_space ('' -->'' @ r) = ''-->'' @ r" by (simp add: is_space_def)
  moreover have "prefix_at ''-->'' (''-->'' @ r)" "drop 3 (''-->'' @ r) = r" by (simp_all add: prefix_at_def)
  ultimately show "strip_empty_comments (CHR ''<'' # ''!-- -->'' @ r) = strip_empty_comments r"
    unfolding strip_empty_comments.simps(2) rest using open_here by simp
qed

lemma strip_tokens_id: "\<not> reserved_in s \<Longrightarrow> strip_tokens s = s"
  by (induction s) auto

lemma js_trim_id: "s \<noteq> [] \<Longrightarrow> \<not> is_space (hd s) \<Longrightarrow> \<not> is_space (last s) \<Longrightarrow> js_trim s = s"
proof -
  assume s: "s \<noteq> []" "\<not> is_space (hd s)" "\<not> is_space (last s)"
  then have "dropWhile is_space s = s" by (cases s) auto
  moreover have "dropWhile is_space (rev s) = rev s" using s by (cases "rev s") (auto simp: hd_rev [symmetric])
  ultimately show ?thesis by (simp add: js_trim_def)
qed

lemma fingerprint_tokens:
  assumes "isReviewLifecycleMarkerFingerprint f"
  shows "\<forall>c \<in> set f. in_token c"
proof -
  have "in_token (CHR ''r'')" "in_token (CHR ''l'')" "in_token (CHR ''_'')" by code_simp+
  moreover have "is_hex c \<Longrightarrow> in_token c" for c
    by (cases "c = CHR ''<''") (auto simp: char_class_defs in_token_def is_space_def)
  ultimately show ?thesis using fingerprint_alphabet [OF assms] by metis
qed

text \<open>C40: Stripping can assemble a marker: reserved syntax that is split by an empty comment passes every step but the
  last, which joins it.  The stripped text then is a valid marker for any fingerprint its author chose.\<close>

theorem split_marker_survives_stripping:
  assumes "isReviewLifecycleMarkerFingerprint fingerprint"
  shows "stripReservedFindingMarkerSyntax (''reviewrouter:<!-- -->finding:v2:'' @ fingerprint) = findingMarkerV2 fingerprint \<and>
    parseFindingMarker (Some (stripReservedFindingMarkerSyntax (''reviewrouter:<!-- -->finding:v2:'' @ fingerprint))) = Valid fingerprint"
proof -
  let ?a = "''reviewrouter:<!-- -->finding:v2:''"
  have chars: "CHR ''<'' \<notin> set fingerprint" "\<forall>c \<in> set fingerprint. \<not> is_space c"
    using fingerprint_tokens [OF assms] unfolding in_token_def by blast+
  have nonempty: "fingerprint \<noteq> []"
    using assms by (cases fingerprint) (simp_all add: isReviewLifecycleMarkerFingerprint_def)
  let ?open = "''reviewrouter:''" and ?close = "''finding:v2:'' @ fingerprint"
  have a: "?a @ fingerprint = ?open @ CHR ''<'' # ''!-- -->'' @ ?close" by simp
  have clean: "CHR ''<'' \<notin> set ?open" "CHR ''<'' \<notin> set (''!-- -->'' @ ?close)" "CHR ''<'' \<notin> set ?close"
    using chars(1) by simp_all
  have "strip_comments (?a @ fingerprint) = ?a @ fingerprint"
    unfolding a strip_append(1) [OF clean(1)] empty_comment(1) strip_no_open(1) [OF clean(2)] ..
  moreover have "strip_unclosed (?a @ fingerprint) = ?a @ fingerprint"
    unfolding a strip_append(2) [OF clean(1)] empty_comment(2) strip_no_open(2) [OF clean(2)] ..
  moreover have "\<not> reserved_in (?a @ fingerprint)"
  proof -
    have "reserved_at (drop j fingerprint) = None" for j
      using reserved_colon [of "drop j fingerprint"] fingerprint_chars(1) [OF assms] by (meson in_set_dropD)
    then have "\<not> reserved_in fingerprint" unfolding reserved_in_drop by simp
    then show ?thesis
      by (simp add: reserved_at_def prefix_ci_def legacy_prefix_def v2_prefix_def js_lower_def lower_char_def is_upper_def)
  qed
  moreover have "strip_empty_comments (?a @ fingerprint) = v2_prefix @ fingerprint"
    unfolding a strip_append(3) [OF clean(1)] empty_comment(3) strip_no_open(3) [OF clean(3)] by (simp add: v2_prefix_def)
  moreover have "js_trim (v2_prefix @ fingerprint) = v2_prefix @ fingerprint"
    using chars(2) nonempty by (intro js_trim_id) (simp_all add: v2_prefix_def is_space_def)
  ultimately have strip: "stripReservedFindingMarkerSyntax (?a @ fingerprint) = findingMarkerV2 fingerprint"
    using strip_tokens_id by (simp only: stripReservedFindingMarkerSyntax_def findingMarkerV2_def not_False_eq_True)
  show ?thesis using parse_marker [OF assms, of "[]"] unfolding strip by simp
qed


theorem split_marker_survives_stripping_witness:
  "parseFindingMarker (Some (stripReservedFindingMarkerSyntax (''reviewrouter:<!-- -->finding:v2:'' @ demo_fingerprint))) = Valid demo_fingerprint"
proof -
  have "isReviewLifecycleMarkerFingerprint demo_fingerprint" by code_simp
  from split_marker_survives_stripping [OF this] show ?thesis by blast
qed

end
