(* ===== verification/Projection_Data.thy ===== *)
theory Projection_Data
  imports Provider_Results Confidence_Policy
begin

text \<open>
  \<open>src/review-projection/domain/review-projection.ts\<close> and the decision types of
  \<open>application/review-projection-ports.ts\<close>: what a review of one head commit found, what is known of earlier
  findings, and the envelope that is published.  An optional property is an option, a severity that may be
  \<open>'unknown'\<close> is \<open>Severity option\<close>; line numbers and counts are integers (the parsers that produce them
  demand it), confidences are numbers.  The pull request description that a later step adds to the envelope
  is left out.
\<close>

section \<open>Enumerations\<close>

datatype ProjectionCoverageState = Complete | Partial

datatype FindingOccurrenceState =
  OccNew | OccReconfirmed | OccChanged | OccCarriedUnverified | OccResolved | OccUncertain | OccSuppressedByHuman

datatype FindingPlacementKind = InlinePlacement | FilePlacement | SummaryPlacement

datatype RevisionFileStatus = FileAdded | FileModified | FileRemoved | FileRenamed

datatype LifecycleTargetDisposition = ActiveTarget | HumanReply | CommandSuppressed

datatype LifecycleResolutionMarkerTrust = Trusted | Untrusted

datatype MergeGateConclusion = GatePass | GateFail | GateInconclusive

datatype CheckConclusion = CheckSuccess | CheckFailure | CheckNeutral

datatype ConfirmationState = ConfirmedOpen | FixConfirmedThreadOpen | Unverified | NativeResolved

datatype MutationStatus = ReportOnly | Pending | BlockedPartialReview | NotEligible | NativelyResolved

section \<open>What the review read and found\<close>

record ReviewProjectionScope =
  scope_repository :: string
  scope_pullRequest :: int
  scope_baseSha :: string
  scope_headSha :: string
  scope_revisionHash :: string

record CurrentFindingCandidate =
  cf_sourceFindingId :: string
  cf_category :: string
  cf_failureModeHash :: string
  cf_symbolAnchor :: "string option"
  cf_trustedMarker :: "string option"
  cf_anchorVerified :: "bool option"
  cf_severity :: Severity
  cf_title :: string
  cf_message :: string
  cf_suggestion :: "string option"
  cf_filePath :: string
  cf_startLine :: "int option"
  cf_line :: "int option"
  cf_endLine :: "int option"
  cf_confidence :: "jsnum option"
  cf_providerIds :: "string list"
  cf_providerVoteKeys :: "string list"
  cf_observationIds :: "string list"

record SelectedCurrentFinding = CurrentFindingCandidate +
  sf_sourceFindingIds :: "string list"

record RevisionFile =
  rf_path :: string
  rf_previousPath :: "string option"
  rf_status :: RevisionFileStatus
  rf_patch :: "string option"

record ReviewCoverageManifestFile =
  mf_path :: string
  mf_status :: string
  mf_reason :: "string option"

record ReviewCoverageFact =
  cov_state :: ProjectionCoverageState
  cov_incremental :: bool
  cov_totalFiles :: int
  cov_reviewedFiles :: int
  cov_unreviewedFiles :: int
  cov_limitations :: "string list"
  cov_files :: "ReviewCoverageManifestFile list option"

definition coverageManifestFileStatusRank :: "string \<Rightarrow> int" where
  "coverageManifestFileStatusRank status =
     (if status = ''unreviewed'' then 0 else if status = ''skipped'' then 1
      else if status = ''metadata-only'' then 2 else if status = ''compacted'' then 3
      else if status = ''full'' then 4 else 5)"

section \<open>What is known of earlier findings\<close>

record PriorLineageHint =
  hint_lineageId :: string
  hint_category :: string
  hint_failureModeHash :: string
  hint_symbolAnchor :: "string option"
  hint_trustedMarker :: "string option"
  hint_severity :: Severity
  hint_title :: string
  hint_message :: string
  hint_filePath :: string
  hint_startLine :: "int option"
  hint_line :: "int option"
  hint_endLine :: "int option"
  hint_firstSeenHeadSha :: string
  hint_lastSeenHeadSha :: string
  hint_active :: bool

record LifecycleResolutionMarker =
  rm_schemaVersion :: string
  rm_targetId :: string
  rm_fingerprint :: string
  rm_trust :: LifecycleResolutionMarkerTrust

record LiveLifecycleTarget =
  lt_targetId :: string
  lt_threadId :: string
  lt_trustedMarker :: string
  lt_title :: string
  lt_message :: string
  lt_severity :: "Severity option"
  lt_originalPath :: string
  lt_currentPath :: "string option"
  lt_originalLine :: "int option"
  lt_currentLine :: "int option"
  lt_parentCommentUpdatedAt :: string
  lt_threadCommentCount :: int
  lt_threadStateHash :: string
  lt_disposition :: LifecycleTargetDisposition
  lt_viewerCanResolve :: bool
  lt_resolutionMarker :: "LifecycleResolutionMarker option"

text \<open>A thread that was found closed.\<close>

record ResolvedObservation =
  ro_lineageId :: string
  ro_trustedMarker :: string
  ro_confirmed :: bool

record CurrentLifecycleInventory =
  inv_version :: string
  inv_loadedForHeadSha :: string
  inv_lifecycleStateHash :: string
  inv_commandLedgerWatermark :: string
  inv_complete :: bool
  inv_warnings :: "string list"
  inv_targets :: "LiveLifecycleTarget list"
  inv_resolvedObservations :: "ResolvedObservation list option"

record RevalidationEvidence =
  rve_path :: string
  rve_reason :: string
  rve_startLine :: "int option"
  rve_endLine :: "int option"

record LifecycleRevalidation =
  rv_targetId :: string
  rv_fingerprint :: "string option"
  rv_evidence :: "RevalidationEvidence list option"
  rv_providerVoteKey :: string
  rv_verdict :: LifecycleVerdict
  rv_confidence :: "jsnum option"
  rv_rationale :: "string option"

record VerificationObservation =
  ob_targetId :: string
  ob_threadId :: string
  ob_fingerprint :: string
  ob_threadStateHash :: string
  ob_parentCommentUpdatedAt :: string
  ob_reviewedHeadSha :: string
  ob_providerVoteKey :: string
  ob_observationId :: string
  ob_verdict :: LifecycleVerdict
  ob_confidence :: "jsnum option"
  ob_reasonCodes :: "string list"

text \<open>The record of reason codes per target is an association list of its own properties.\<close>

record LifecycleVerificationContext =
  ctx_plannedProviderVoteKeys :: "string list"
  ctx_resolve :: bool
  ctx_resolveConfidence :: "Severity option \<Rightarrow> jsnum option"
  ctx_targetReasonCodes :: "(string \<times> string list) list"
  ctx_observations :: "VerificationObservation list"

section \<open>Decisions\<close>

record LifecycleVerificationFact =
  vf_targetId :: string
  vf_lineageId :: "string option"
  vf_semanticVerdict :: LifecycleVerdict
  vf_confirmationState :: ConfirmationState
  vf_severity :: "Severity option"
  vf_observationIds :: "string list"
  vf_providerVoteKeys :: "string list"
  vf_reasonCodes :: "string list"
  vf_mutationStatus :: MutationStatus

record LifecycleProjectionDecision =
  dec_targetId :: string
  dec_verdict :: LifecycleVerdict
  dec_reasonCodes :: "string list"
  dec_currentSourceFindingIds :: "string list option"

record FindingPlacementDecision =
  pl_lineageId :: string
  pl_kind :: FindingPlacementKind
  pl_path :: string
  pl_startLine :: "int option"
  pl_line :: "int option"
  pl_endLine :: "int option"
  pl_body :: "string option"
  pl_reason :: "string option"

record FindingOccurrence =
  occ_lineageId :: string
  occ_sourceFindingIds :: "string list"
  occ_state :: FindingOccurrenceState
  occ_severity :: Severity
  occ_previousSeverity :: "Severity option"
  occ_category :: string
  occ_failureModeHash :: string
  occ_symbolAnchor :: "string option"
  occ_trustedMarker :: "string option"
  occ_anchorVerified :: "bool option"
  occ_title :: string
  occ_message :: string
  occ_suggestion :: "string option"
  occ_filePath :: string
  occ_startLine :: "int option"
  occ_line :: "int option"
  occ_endLine :: "int option"
  occ_placement :: FindingPlacementDecision
  occ_providerVoteKeys :: "string list"
  occ_observationIds :: "string list"
  occ_firstSeenHeadSha :: string
  occ_sourceHeadSha :: string
  occ_blocking :: bool

record MergeGateDecision =
  gate_conclusion :: MergeGateConclusion
  gate_blockingLineageIds :: "string list"
  gate_blockingTargetIds :: "string list option"
  gate_reasonCodes :: "string list"

section \<open>What is published\<close>

record ReviewProjectionSummaryFact =
  sum_marker :: string
  sum_body :: string
  sum_allClear :: bool
  sum_occurrenceCounts :: "FindingOccurrenceState \<Rightarrow> nat"

record ReviewProjectionCheckFact =
  chk_marker :: string
  chk_name :: string
  chk_title :: string
  chk_summary :: string
  chk_conclusion :: CheckConclusion

record ReviewProjectionInlineCommentFact =
  ic_lineageId :: string
  ic_marker :: string
  ic_path :: string
  ic_startLine :: "int option"
  ic_line :: int
  ic_endLine :: "int option"
  ic_body :: string

record ReviewProjectionInlineChunkFact =
  ch_chunkIndex :: nat
  ch_marker :: string
  ch_bodyHash :: string
  ch_comments :: "ReviewProjectionInlineCommentFact list"

text \<open>The verdict \<open>'suppressed_by_human'\<close> is \<open>None\<close>.\<close>

record ReviewProjectionLifecycleFact =
  lf_targetId :: string
  lf_threadId :: string
  lf_markerFingerprint :: string
  lf_threadStateHash :: string
  lf_lineageId :: "string option"
  lf_verdict :: "LifecycleVerdict option"
  lf_reasonCodes :: "string list"
  lf_mutationEligible :: bool
  lf_verification :: "LifecycleVerificationFact option"

record OccurrenceProvenanceFact =
  op_lineageId :: string
  op_state :: FindingOccurrenceState
  op_sourceHeadSha :: string
  op_firstSeenHeadSha :: string
  op_observationIds :: "string list"
  op_providerVoteKeys :: "string list"
  op_filePath :: string
  op_line :: "int option"

text \<open>\<open>LineageHintFact\<close> has the properties of \<open>PriorLineageHint\<close>.\<close>

record ReviewProjectionSnapshotFacts =
  snap_occurrenceProvenance :: "OccurrenceProvenanceFact list"
  snap_lineageHints :: "PriorLineageHint list"

record ReviewProjectionPublishingFacts =
  pub_summary :: ReviewProjectionSummaryFact
  pub_check :: ReviewProjectionCheckFact
  pub_inlineReviewChunks :: "ReviewProjectionInlineChunkFact list"
  pub_lifecycle :: "ReviewProjectionLifecycleFact list"

record ReviewProjectionEnvelopeV1 =
  env_projectionPolicyVersion :: string
  env_authoritativeObservationIds :: "string list"
  env_scope :: ReviewProjectionScope
  env_coverage :: ReviewCoverageFact
  env_lifecycleStateHash :: string
  env_commandLedgerWatermark :: string
  env_occurrences :: "FindingOccurrence list"
  env_mergeGate :: MergeGateDecision
  env_publishing :: ReviewProjectionPublishingFacts
  env_snapshot :: ReviewProjectionSnapshotFacts

section \<open>Shared helpers\<close>

text \<open>An optional string that JavaScript takes for true, and \<open>...(s ? { key: s } : {})\<close>.\<close>

definition truthy :: "string option \<Rightarrow> bool" where
  "truthy s \<longleftrightarrow> (case s of None \<Rightarrow> False | Some x \<Rightarrow> x \<noteq> [])"

definition if_truthy :: "string option \<Rightarrow> string option" where
  "if_truthy s = (if truthy s then s else None)"

definition sortedUnique :: "(string \<Rightarrow> string \<Rightarrow> int) \<Rightarrow> string list \<Rightarrow> string list" where
  "sortedUnique lc values = js_sort lc (js_set values)"

lemma set_sortedUnique [simp]: "set (sortedUnique lc xs) = set xs"
  by (simp add: sortedUnique_def)

lemma distinct_sortedUnique [simp]: "distinct (sortedUnique lc xs)"
  by (simp add: sortedUnique_def)

lemma sortedUnique_Nil [simp]: "sortedUnique lc [] = []" "sortedUnique lc xs = [] \<longleftrightarrow> xs = []"
  by (simp_all add: sortedUnique_def) (metis set_empty set_js_set)

text \<open>\<open>path.replace(/\\/g, '/').replace(/^\.\//, '').toLowerCase()\<close>.\<close>

definition projection_path :: "string \<Rightarrow> string" where
  "projection_path path =
     (let slashed = map (\<lambda>c. if c = CHR 0x5C then CHR ''/'' else c) path
      in js_lower (if take 2 slashed = ''./'' then drop 2 slashed else slashed))"

text \<open>\<open>isCurrentOccurrence\<close>.\<close>

definition isCurrentState :: "FindingOccurrenceState \<Rightarrow> bool" where
  "isCurrentState s \<longleftrightarrow> s = OccNew \<or> s = OccReconfirmed \<or> s = OccChanged"

definition assertUniqueValues :: "string \<Rightarrow> string list \<Rightarrow> js_error option" where
  "assertUniqueValues name values = check (length (js_set values) = length values) (name @ '' values must be unique'')"

lemma assertUniqueValues_None [res_simps]: "assertUniqueValues name values = None \<longleftrightarrow> distinct values"
  by (simp add: assertUniqueValues_def check_None)

text \<open>The first error of a chain of checks.\<close>

fun first_problem :: "js_error option list \<Rightarrow> js_error option" where
  "first_problem [] = None"
| "first_problem (e # es) = (case e of Some x \<Rightarrow> Some x | None \<Rightarrow> first_problem es)"

lemma first_problem_None: "first_problem es = None \<longleftrightarrow> (\<forall>e \<in> set es. e = None)"
  by (induction es) (auto split: option.splits)

lemma first_problem_steps [res_simps]:
  "first_problem [] = None" "first_problem (e # es) = None \<longleftrightarrow> e = None \<and> first_problem es = None"
  by (auto split: option.splits)

declare first_problem.simps [simp del]

lemma sole_member: "filter P xs = [v] \<Longrightarrow> v \<in> set xs \<and> P v"
proof -
  assume "filter P xs = [v]"
  then have "v \<in> set (filter P xs)" by simp
  then show ?thesis by simp
qed



lemma filter_singleton:
  "length (filter P xs) = 1 \<longleftrightarrow> (\<exists>x. filter P xs = [x])"
  by (cases "filter P xs") (auto simp: length_Suc_conv)

section \<open>Grouping\<close>

text \<open>\<open>map.set(key, [...(map.get(key) ?? []), x])\<close> over a list: the groups in the order of their first members.\<close>

definition add_to_group :: "('a \<Rightarrow> 'k) \<Rightarrow> ('k \<times> 'a list) list \<Rightarrow> 'a \<Rightarrow> ('k \<times> 'a list) list" where
  "add_to_group f m x = AList.update (f x) ((case map_of m (f x) of None \<Rightarrow> [] | Some xs \<Rightarrow> xs) @ [x]) m"

definition group_by :: "('a \<Rightarrow> 'k) \<Rightarrow> 'a list \<Rightarrow> ('k \<times> 'a list) list" where
  "group_by f xs = foldl (add_to_group f) [] xs"

lemma group_by_snoc: "group_by f (xs @ [x]) = add_to_group f (group_by f xs) x"
  by (simp add: group_by_def)

lemma group_by_Nil [simp]: "group_by f [] = []"
  by (simp add: group_by_def)

lemma group_by_lookup: "map_of (group_by f xs) k =
    (if k \<in> f ` set xs then Some (filter (\<lambda>x. f x = k) xs) else None)"
proof (induction xs arbitrary: k rule: rev_induct)
  case (snoc x xs)
  have "(case map_of (group_by f xs) k' of None \<Rightarrow> [] | Some ys \<Rightarrow> ys) = filter (\<lambda>x. f x = k') xs" for k'
    by (auto simp: snoc intro!: filter_False [symmetric])
  then show ?case
    by (auto simp: group_by_snoc add_to_group_def update_conv' snoc)
qed simp

lemma group_by_distinct: "distinct (map fst (group_by f xs))"
  by (induction xs rule: rev_induct) (simp_all add: group_by_snoc add_to_group_def distinct_update)

lemma group_by_keys: "set (map fst (group_by f xs)) = f ` set xs"
proof -
  have "set (map fst (group_by f xs)) = dom (map_of (group_by f xs))"
    by (simp add: dom_map_of_conv_image_fst)
  then show ?thesis by (auto simp: group_by_lookup dom_def)
qed

lemma group_by_member: "(k, items) \<in> set (group_by f xs) \<longleftrightarrow> k \<in> f ` set xs \<and> items = filter (\<lambda>x. f x = k) xs"
proof -
  have "(k, items) \<in> set (group_by f xs) \<longleftrightarrow> map_of (group_by f xs) k = Some items"
    by (rule map_of_eq_Some_iff [symmetric]) (rule group_by_distinct)
  then show ?thesis by (auto simp: group_by_lookup)
qed

end
