(* ===== verification/Lifecycle_Verification.thy ===== *)
theory Lifecycle_Verification
  imports Projection_Data
begin

text \<open>
  \<open>src/review-projection/domain/lifecycle-verification.ts\<close>: what the accepted observations of the providers
  say of each live review thread.  A fix counts as confirmed only by one current observation of every
  planned provider.
\<close>

section \<open>The votes on a thread\<close>

text \<open>The observation was accepted, comes from the roster and is bound to the thread as it is now.\<close>

definition is_accepted :: "LifecycleVerificationContext \<Rightarrow> CurrentLifecycleInventory \<Rightarrow> string list \<Rightarrow>
    LiveLifecycleTarget \<Rightarrow> VerificationObservation \<Rightarrow> bool" where
  "is_accepted ctx inventory ids t obs \<longleftrightarrow>
     ob_targetId obs = lt_targetId t \<and>
     ob_providerVoteKey obs \<in> set (ctx_plannedProviderVoteKeys ctx) \<and>
     ob_observationId obs \<in> set ids \<and>
     ob_reviewedHeadSha obs = inv_loadedForHeadSha inventory \<and>
     ob_threadId obs = lt_threadId t \<and>
     ob_fingerprint obs = lt_trustedMarker t \<and>
     ob_threadStateHash obs = lt_threadStateHash t \<and>
     ob_parentCommentUpdatedAt obs = lt_parentCommentUpdatedAt t"

definition accepted :: "LifecycleVerificationContext \<Rightarrow> CurrentLifecycleInventory \<Rightarrow> string list \<Rightarrow>
    LiveLifecycleTarget \<Rightarrow> VerificationObservation list" where
  "accepted ctx inventory ids t = filter (is_accepted ctx inventory ids t) (ctx_observations ctx)"

definition votes :: "LifecycleVerificationContext \<Rightarrow> CurrentLifecycleInventory \<Rightarrow> string list \<Rightarrow>
    LiveLifecycleTarget \<Rightarrow> VerificationObservation list" where
  "votes ctx inventory ids t = concat (filter (\<lambda>items. length items = 1)
     (map snd (group_by ob_providerVoteKey (accepted ctx inventory ids t))))"

section \<open>The fact of a thread\<close>

definition safe_target :: "CurrentLifecycleInventory \<Rightarrow> LiveLifecycleTarget \<Rightarrow> bool" where
  "safe_target inventory t \<longleftrightarrow> inv_complete inventory \<and> lt_disposition t = ActiveTarget"

definition resolves :: "LifecycleVerificationContext \<Rightarrow> LiveLifecycleTarget \<Rightarrow> VerificationObservation \<Rightarrow> bool" where
  "resolves ctx t vote \<longleftrightarrow> ob_verdict vote = Resolved \<and>
     num_le (Fin (resolveRevalidationConfidenceThresholds (ctx_resolveConfidence ctx) (lt_severity t)))
       (case ob_confidence vote of Some c \<Rightarrow> c | None \<Rightarrow> Fin 0)"

definition fix_confirmed :: "LifecycleVerificationContext \<Rightarrow> CurrentLifecycleInventory \<Rightarrow> string list \<Rightarrow> string list \<Rightarrow>
    LiveLifecycleTarget \<Rightarrow> bool" where
  "fix_confirmed ctx inventory ids vetoes t \<longleftrightarrow>
     (let roster = js_set (ctx_plannedProviderVoteKeys ctx)
      in safe_target inventory t \<and> lt_targetId t \<notin> set vetoes \<and> length roster > 0 \<and>
         length (votes ctx inventory ids t) = length roster \<and> list_all (resolves ctx t) (votes ctx inventory ids t))"

definition confirmed_open :: "LifecycleVerificationContext \<Rightarrow> CurrentLifecycleInventory \<Rightarrow> string list \<Rightarrow>
    LiveLifecycleTarget \<Rightarrow> bool" where
  "confirmed_open ctx inventory ids t \<longleftrightarrow>
     safe_target inventory t \<and> list_ex (\<lambda>vote. ob_verdict vote = StillValid) (votes ctx inventory ids t)"

definition fact_reasons :: "LifecycleVerificationContext \<Rightarrow> CurrentLifecycleInventory \<Rightarrow> string list \<Rightarrow> string list \<Rightarrow>
    LiveLifecycleTarget \<Rightarrow> string list" where
  "fact_reasons ctx inventory ids vetoes t =
     (case map_of (ctx_targetReasonCodes ctx) (lt_targetId t) of Some codes \<Rightarrow> codes | None \<Rightarrow> []) @
     concat (map ob_reasonCodes (votes ctx inventory ids t)) @
     (if lt_targetId t \<in> set vetoes then [''current_finding_present''] else []) @
     (if \<not> safe_target inventory t
      then [if lt_disposition t = HumanReply then ''human_reply'' else ''verification_ineligible''] else []) @
     (if \<not> fix_confirmed ctx inventory ids vetoes t \<and> \<not> confirmed_open ctx inventory ids t
      then [if votes ctx inventory ids t \<noteq> [] then ''verification_uncertain'' else ''missing_or_stale_verification''] else [])"

definition mutation_status :: "LifecycleVerificationContext \<Rightarrow> ReviewCoverageFact \<Rightarrow> LiveLifecycleTarget \<Rightarrow> MutationStatus" where
  "mutation_status ctx coverage t =
     (if cov_state coverage = Partial then BlockedPartialReview
      else if \<not> ctx_resolve ctx then ReportOnly
      else if lt_viewerCanResolve t then Pending else NotEligible)"

definition active_hints :: "PriorLineageHint list \<Rightarrow> LiveLifecycleTarget \<Rightarrow> PriorLineageHint list" where
  "active_hints hints t = filter (\<lambda>h. hint_active h \<and> hint_lineageId h = lt_trustedMarker t) hints"

definition verification_fact :: "LifecycleVerificationContext \<Rightarrow> CurrentLifecycleInventory \<Rightarrow> ReviewCoverageFact \<Rightarrow>
    PriorLineageHint list \<Rightarrow> string list \<Rightarrow> string list \<Rightarrow> LiveLifecycleTarget \<Rightarrow> LifecycleVerificationFact" where
  "verification_fact ctx inventory coverage hints ids vetoes t =
     (let vs = votes ctx inventory ids t;
          resolved = fix_confirmed ctx inventory ids vetoes t;
          open' = confirmed_open ctx inventory ids t
      in \<lparr>vf_targetId = lt_targetId t,
          vf_lineageId = (case active_hints hints t of [h] \<Rightarrow> Some (hint_lineageId h) | _ \<Rightarrow> None),
          vf_semanticVerdict = (if resolved then Resolved else if open' then StillValid else Uncertain),
          vf_confirmationState = (if resolved then FixConfirmedThreadOpen else if open' then ConfirmedOpen else Unverified),
          vf_severity = lt_severity t,
          vf_observationIds = sortedUnique compareCodePoints (map ob_observationId vs),
          vf_providerVoteKeys = sortedUnique compareCodePoints (map ob_providerVoteKey vs),
          vf_reasonCodes = sortedUnique compareCodePoints (fact_reasons ctx inventory ids vetoes t),
          vf_mutationStatus = (if resolved then mutation_status ctx coverage t else NotEligible)\<rparr>)"

definition verification_targets :: "CurrentLifecycleInventory \<Rightarrow> LiveLifecycleTarget list" where
  "verification_targets inventory = filter (\<lambda>t. lt_disposition t \<noteq> CommandSuppressed) (inv_targets inventory)"

definition roster_ok :: "string list \<Rightarrow> bool" where
  "roster_ok keys \<longleftrightarrow> length (js_set keys) = length keys \<and> \<not> list_ex (\<lambda>key. key = []) (js_set keys)"

definition projectLifecycleVerification :: "LifecycleVerificationContext \<Rightarrow> CurrentLifecycleInventory \<Rightarrow>
    ReviewCoverageFact \<Rightarrow> PriorLineageHint list \<Rightarrow> string list \<Rightarrow> string list \<Rightarrow> LifecycleVerificationFact list res" where
  "projectLifecycleVerification ctx inventory coverage hints ids vetoes =
     (if \<not> roster_ok (ctx_plannedProviderVoteKeys ctx) then Inl (JsError ''lifecycle verification roster invalid'')
      else Inr (map (verification_fact ctx inventory coverage hints ids vetoes) (verification_targets inventory)))"

section \<open>One observation per provider\<close>

lemma accepted_key: "obs \<in> set (accepted ctx inventory ids t) \<Longrightarrow> ob_providerVoteKey obs \<in> set (ctx_plannedProviderVoteKeys ctx)"
  by (simp add: accepted_def is_accepted_def)

text \<open>\<open>v\<close> is the only observation of provider \<open>k\<close>.\<close>

definition sole :: "VerificationObservation list \<Rightarrow> string \<Rightarrow> VerificationObservation \<Rightarrow> bool" where
  "sole xs k v \<longleftrightarrow> filter (\<lambda>obs. ob_providerVoteKey obs = k) xs = [v]"

lemma sole_member_key: "sole xs k v \<Longrightarrow> v \<in> set xs \<and> ob_providerVoteKey v = k"
  unfolding sole_def by (rule sole_member)

lemma sole_unique: "sole xs k v \<Longrightarrow> sole xs k w \<Longrightarrow> v = w"
  by (simp add: sole_def)

lemma sole_accepted: "sole (accepted ctx inventory ids t) k v \<Longrightarrow> k \<in> set (ctx_plannedProviderVoteKeys ctx)"
  using sole_member_key accepted_key by blast

definition sole_keys :: "VerificationObservation list \<Rightarrow> string list" where
  "sole_keys xs = map fst (filter (\<lambda>(key, items). length items = 1) (group_by ob_providerVoteKey xs))"

lemma sole_keys_distinct: "distinct (sole_keys xs)"
  using group_by_distinct [of ob_providerVoteKey xs] by (auto simp: sole_keys_def distinct_map intro: inj_on_subset)

lemma sole_group: "(k, [v]) \<in> set (group_by ob_providerVoteKey xs) \<longleftrightarrow> sole xs k v"
proof -
  have "(k, [v]) \<in> set (group_by ob_providerVoteKey xs) \<longleftrightarrow> k \<in> ob_providerVoteKey ` set xs \<and> sole xs k v"
    unfolding group_by_member sole_def by (simp only: eq_commute [of "[v]"])
  then show ?thesis using sole_member_key [of xs k v] by blast
qed

lemma set_sole_keys: "k \<in> set (sole_keys xs) \<longleftrightarrow> (\<exists>v. sole xs k v)"
proof -
  have "k \<in> set (sole_keys xs) \<longleftrightarrow> (\<exists>items. (k, items) \<in> set (group_by ob_providerVoteKey xs) \<and> length items = 1)"
    by (force simp: sole_keys_def)
  also have "\<dots> \<longleftrightarrow> (\<exists>v. (k, [v]) \<in> set (group_by ob_providerVoteKey xs))"
    by (auto simp: length_Suc_conv)
  finally show ?thesis unfolding sole_group .
qed

lemma map_key_sole: "\<forall>(k, items) \<in> set m. \<forall>x \<in> set items. f x = k \<Longrightarrow>
    map f (concat (filter (\<lambda>items. length items = 1) (map snd m))) =
    map fst (filter (\<lambda>(key, items). length items = 1) m)"
proof (induction m)
  case (Cons e m)
  then show ?case by (cases e) (auto simp: length_Suc_conv)
qed simp

lemma map_key_votes: "map ob_providerVoteKey (votes ctx inventory ids t) = sole_keys (accepted ctx inventory ids t)"
  unfolding votes_def sole_keys_def by (rule map_key_sole) (auto simp: group_by_member)

lemma concat_singletons: "v \<in> set (concat (filter (\<lambda>items. length items = 1) xss)) \<longleftrightarrow> [v] \<in> set xss"
  by (induction xss) (auto simp: length_Suc_conv)

lemma vote_is_sole: "v \<in> set (votes ctx inventory ids t) \<longleftrightarrow>
    sole (accepted ctx inventory ids t) (ob_providerVoteKey v) v"
proof -
  have "v \<in> set (votes ctx inventory ids t) \<longleftrightarrow>
      (\<exists>k. (k, [v]) \<in> set (group_by ob_providerVoteKey (accepted ctx inventory ids t)))"
    unfolding votes_def concat_singletons by force
  then show ?thesis unfolding sole_group using sole_member_key by blast
qed

text \<open>All votes are in exactly when every planned provider has one accepted observation.\<close>

lemma votes_complete: "length (votes ctx inventory ids t) = length (js_set (ctx_plannedProviderVoteKeys ctx)) \<longleftrightarrow>
    (\<forall>k \<in> set (ctx_plannedProviderVoteKeys ctx). \<exists>v. sole (accepted ctx inventory ids t) k v)"
proof -
  let ?P = "set (ctx_plannedProviderVoteKeys ctx)" and ?S = "set (sole_keys (accepted ctx inventory ids t))"
  have "length (votes ctx inventory ids t) = length (sole_keys (accepted ctx inventory ids t))"
    using map_key_votes length_map by metis
  then have len: "length (votes ctx inventory ids t) = card ?S"
    using sole_keys_distinct by (simp add: distinct_card)
  have sub: "?S \<subseteq> ?P" using set_sole_keys sole_accepted by blast
  have "card ?S = card ?P \<longleftrightarrow> ?S = ?P"
    using card_subset_eq [OF finite_set sub] by (intro iffI) simp_all
  also have "\<dots> \<longleftrightarrow> (\<forall>k \<in> ?P. k \<in> ?S)" using sub by blast
  finally show ?thesis unfolding len length_js_set set_sole_keys .
qed

lemma fix_confirmed_iff: "fix_confirmed ctx inventory ids vetoes t \<longleftrightarrow>
    safe_target inventory t \<and> lt_targetId t \<notin> set vetoes \<and> ctx_plannedProviderVoteKeys ctx \<noteq> [] \<and>
    (\<forall>k \<in> set (ctx_plannedProviderVoteKeys ctx). \<exists>v. sole (accepted ctx inventory ids t) k v \<and> resolves ctx t v)"
proof -
  let ?A = "accepted ctx inventory ids t" and ?P = "set (ctx_plannedProviderVoteKeys ctx)"
  have nonempty: "length (js_set (ctx_plannedProviderVoteKeys ctx)) > 0 \<longleftrightarrow> ctx_plannedProviderVoteKeys ctx \<noteq> []"
    by (cases "ctx_plannedProviderVoteKeys ctx") auto
  have all: "list_all (resolves ctx t) (votes ctx inventory ids t) \<longleftrightarrow> (\<forall>k v. sole ?A k v \<longrightarrow> resolves ctx t v)"
    unfolding list_all_iff Ball_def vote_is_sole using sole_member_key by blast
  have "(\<forall>k \<in> ?P. \<exists>v. sole ?A k v) \<and> (\<forall>k v. sole ?A k v \<longrightarrow> resolves ctx t v) \<longleftrightarrow>
      (\<forall>k \<in> ?P. \<exists>v. sole ?A k v \<and> resolves ctx t v)"
    using sole_unique sole_accepted by blast
  then show ?thesis
    unfolding fix_confirmed_def Let_def nonempty votes_complete all by blast
qed

lemma fix_confirmed_not_open: "fix_confirmed ctx inventory ids vetoes t \<Longrightarrow> \<not> confirmed_open ctx inventory ids t"
  by (auto simp: fix_confirmed_def confirmed_open_def Let_def list_all_iff list_ex_iff resolves_def)

lemma confirmed_open_iff: "confirmed_open ctx inventory ids t \<longleftrightarrow> safe_target inventory t \<and>
    (\<exists>k v. sole (accepted ctx inventory ids t) k v \<and> ob_verdict v = StillValid)"
  unfolding confirmed_open_def list_ex_iff Bex_def vote_is_sole using sole_member_key by blast

lemma verification_fact_simps:
  "vf_semanticVerdict (verification_fact ctx inventory coverage hints ids vetoes t) = Resolved \<longleftrightarrow> fix_confirmed ctx inventory ids vetoes t"
  "vf_confirmationState (verification_fact ctx inventory coverage hints ids vetoes t) = ConfirmedOpen \<longleftrightarrow> confirmed_open ctx inventory ids t"
  "vf_confirmationState (verification_fact ctx inventory coverage hints ids vetoes t) = FixConfirmedThreadOpen \<longleftrightarrow> fix_confirmed ctx inventory ids vetoes t"
  "vf_mutationStatus (verification_fact ctx inventory coverage hints ids vetoes t) = Pending \<longleftrightarrow>
     fix_confirmed ctx inventory ids vetoes t \<and> cov_state coverage = Complete \<and> ctx_resolve ctx \<and> lt_viewerCanResolve t"
  "vf_targetId (verification_fact ctx inventory coverage hints ids vetoes t) = lt_targetId t"
  using fix_confirmed_not_open [of ctx inventory ids vetoes t] ProjectionCoverageState.exhaust [of "cov_state coverage"]
  by (auto simp: verification_fact_def Let_def mutation_status_def)


section \<open>Properties\<close>

text \<open>
  When the roster is a set of provider identities, there is one fact for every thread that no command
  suppressed, in the order of the inventory.  A fix is confirmed exactly when the inventory is complete, the
  thread is active and not vetoed by a current finding, and every planned provider (there is one) has exactly
  one accepted observation, which says resolved with the confidence the severity asks for; a thread is
  confirmed open exactly when some provider's only accepted observation of an active thread says so, which
  excludes a confirmed fix.  A thread may be closed only for a confirmed fix under complete coverage in
  resolve mode when the viewer may resolve it.
\<close>

theorem fixes_need_every_planned_provider:
  assumes "projectLifecycleVerification ctx inventory coverage hints ids vetoes = Inr facts"
  shows "distinct (ctx_plannedProviderVoteKeys ctx) \<and> [] \<notin> set (ctx_plannedProviderVoteKeys ctx) \<and>
    list_all2 (\<lambda>t fact. vf_targetId fact = lt_targetId t \<and>
        (vf_confirmationState fact = FixConfirmedThreadOpen \<longleftrightarrow>
           inv_complete inventory \<and> lt_disposition t = ActiveTarget \<and> lt_targetId t \<notin> set vetoes \<and>
           ctx_plannedProviderVoteKeys ctx \<noteq> [] \<and>
           (\<forall>k \<in> set (ctx_plannedProviderVoteKeys ctx).
              \<exists>v. sole (accepted ctx inventory ids t) k v \<and> resolves ctx t v)) \<and>
        (vf_confirmationState fact = ConfirmedOpen \<longleftrightarrow>
           inv_complete inventory \<and> lt_disposition t = ActiveTarget \<and>
           (\<exists>k v. sole (accepted ctx inventory ids t) k v \<and> ob_verdict v = StillValid)) \<and>
        (vf_mutationStatus fact = Pending \<longleftrightarrow> vf_confirmationState fact = FixConfirmedThreadOpen \<and>
           cov_state coverage = Complete \<and> ctx_resolve ctx \<and> lt_viewerCanResolve t))
      (filter (\<lambda>t. lt_disposition t \<noteq> CommandSuppressed) (inv_targets inventory)) facts"
proof -
  have ok: "roster_ok (ctx_plannedProviderVoteKeys ctx)"
    and facts: "facts = map (verification_fact ctx inventory coverage hints ids vetoes) (verification_targets inventory)"
    using assms by (auto simp: projectLifecycleVerification_def split: if_splits)
  have "distinct (ctx_plannedProviderVoteKeys ctx)" "[] \<notin> set (ctx_plannedProviderVoteKeys ctx)"
    using ok by (auto simp: roster_ok_def list_ex_iff)
  then show ?thesis
    unfolding facts verification_targets_def
    by (simp add: list_all2_map2 list_all2_same verification_fact_simps fix_confirmed_iff confirmed_open_iff safe_target_def)
qed

definition demo_target :: "string \<Rightarrow> LiveLifecycleTarget" where
  "demo_target name = \<lparr>lt_targetId = name, lt_threadId = ''thread'', lt_trustedMarker = ''mark'', lt_title = ''t'',
     lt_message = ''m'', lt_severity = Some Minor, lt_originalPath = ''a.ts'', lt_currentPath = None,
     lt_originalLine = None, lt_currentLine = None, lt_parentCommentUpdatedAt = ''now'', lt_threadCommentCount = 1,
     lt_threadStateHash = ''hash'', lt_disposition = ActiveTarget, lt_viewerCanResolve = True, lt_resolutionMarker = None\<rparr>"

definition demo_vote :: "string \<Rightarrow> string \<Rightarrow> VerificationObservation" where
  "demo_vote target provider = \<lparr>ob_targetId = target, ob_threadId = ''thread'', ob_fingerprint = ''mark'',
     ob_threadStateHash = ''hash'', ob_parentCommentUpdatedAt = ''now'', ob_reviewedHeadSha = ''head'',
     ob_providerVoteKey = provider, ob_observationId = ''o1'', ob_verdict = Resolved, ob_confidence = Some (Fin 1),
     ob_reasonCodes = []\<rparr>"

definition demo_inventory :: "LiveLifecycleTarget list \<Rightarrow> CurrentLifecycleInventory" where
  "demo_inventory ts = \<lparr>inv_version = ''review_lifecycle_inventory.v1'', inv_loadedForHeadSha = ''head'',
     inv_lifecycleStateHash = ''h'', inv_commandLedgerWatermark = ''w'', inv_complete = True, inv_warnings = [],
     inv_targets = ts, inv_resolvedObservations = None\<rparr>"

definition demo_context :: LifecycleVerificationContext where
  "demo_context = \<lparr>ctx_plannedProviderVoteKeys = [''p'', ''q''], ctx_resolve = True,
     ctx_resolveConfidence = (\<lambda>s. None), ctx_targetReasonCodes = [],
     ctx_observations = [demo_vote ''T1'' ''p'', demo_vote ''T1'' ''q'', demo_vote ''T2'' ''p'', demo_vote ''T2'' ''p'']\<rparr>"

definition demo_coverage :: ReviewCoverageFact where
  "demo_coverage = \<lparr>cov_state = Complete, cov_incremental = False, cov_totalFiles = 1, cov_reviewedFiles = 1,
     cov_unreviewedFiles = 0, cov_limitations = [], cov_files = None\<rparr>"

definition demo_facts :: "LifecycleVerificationFact list" where
  "demo_facts = map (verification_fact demo_context (demo_inventory [demo_target ''T1'', demo_target ''T2''])
     demo_coverage [] [''o1''] []) [demo_target ''T1'', demo_target ''T2'']"

lemma demo_projected: "projectLifecycleVerification demo_context (demo_inventory [demo_target ''T1'', demo_target ''T2''])
    demo_coverage [] [''o1''] [] = Inr demo_facts"
  by (simp add: projectLifecycleVerification_def verification_targets_def demo_facts_def demo_context_def roster_ok_def
      demo_inventory_def demo_target_def)

theorem fixes_need_every_planned_provider_witness:
  "map vf_targetId demo_facts = [''T1'', ''T2''] \<and>
   map vf_confirmationState demo_facts = [FixConfirmedThreadOpen, Unverified] \<and>
   vf_mutationStatus (hd demo_facts) = Pending"
proof -
  have confirmed: "map vf_confirmationState demo_facts = [FixConfirmedThreadOpen, Unverified]" by code_simp
  have flags: "cov_state demo_coverage = Complete" "ctx_resolve demo_context" "lt_viewerCanResolve (demo_target ''T1'')"
    by (simp_all add: demo_coverage_def demo_context_def demo_target_def)
  have two: "filter (\<lambda>t. lt_disposition t \<noteq> CommandSuppressed)
      (inv_targets (demo_inventory [demo_target ''T1'', demo_target ''T2''])) = [demo_target ''T1'', demo_target ''T2'']"
    by (simp add: demo_inventory_def demo_target_def)
  note all = conjunct2 [OF conjunct2 [OF fixes_need_every_planned_provider [OF demo_projected]], unfolded two]
  obtain f g where fg: "demo_facts = [f, g]" using confirmed by auto
  have all2: "list_all2 P [x, y] [f, g] \<Longrightarrow> P x f \<and> P y g" for P and x y :: LiveLifecycleTarget by simp
  note facts = all2 [OF all [unfolded fg]]
  have "vf_targetId f = lt_targetId (demo_target ''T1'')" "vf_targetId g = lt_targetId (demo_target ''T2'')"
    using facts [THEN conjunct1, THEN conjunct1] facts [THEN conjunct2, THEN conjunct1] by this+
  moreover have "vf_mutationStatus f = Pending"
    using facts [THEN conjunct1, THEN conjunct2, THEN conjunct2, THEN conjunct2] confirmed [unfolded fg] flags by simp
  moreover have "lt_targetId (demo_target name) = name" for name by (simp add: demo_target_def)
  ultimately show ?thesis using confirmed unfolding fg by simp
qed

end
