(* ===== verification/Current_Projector.thy ===== *)
theory Current_Projector
  imports Projection_Data Canonical_Json
begin

text \<open>
  \<open>src/review-projection/domain/current-review-projector.ts\<close>: how the findings of a review continue the lineages
  of earlier ones, and what becomes of the earlier findings that were not found again.  SHA-256 (the module
  \<open>crypto\<close> of the host) is the parameter \<open>sha\<close>, \<open>localeCompare\<close> the parameter \<open>lc\<close>.
\<close>

section \<open>Lineages\<close>

text \<open>\<open>hashProjectionFact\<close> of \<open>review-projection-canonicalizer.ts\<close>.\<close>

definition hashProjectionFact :: "(string \<Rightarrow> string) \<Rightarrow> json \<Rightarrow> string" where
  "hashProjectionFact sha v = sha (canonicalJson v)"

definition lineage_fact :: "ReviewProjectionScope \<Rightarrow> SelectedCurrentFinding \<Rightarrow> json" where
  "lineage_fact scope f = JObj
     [(''scmRepositoryIdentityId'', JStr (scope_repository scope)),
      (''pullRequestNumber'', JNum (scope_pullRequest scope)),
      (''category'', JStr (cf_category f)),
      (''normalizedFailureModeHash'', JStr (cf_failureModeHash f)),
      (''symbolAnchor'', or_null (cf_symbolAnchor f)),
      (''firstSeenHeadSha'', JStr (scope_headSha scope)),
      (''trustedMarker'', or_null (cf_trustedMarker f))]"

definition createLineageId :: "(string \<Rightarrow> string) \<Rightarrow> ReviewProjectionScope \<Rightarrow> SelectedCurrentFinding \<Rightarrow> string" where
  "createLineageId sha scope f = ''rrl_'' @ take 32 (hashProjectionFact sha (lineage_fact scope f))"

definition by_marker :: "SelectedCurrentFinding \<Rightarrow> PriorLineageHint \<Rightarrow> bool" where
  "by_marker f h \<longleftrightarrow> hint_trustedMarker h = cf_trustedMarker f \<and> hint_failureModeHash h = cf_failureModeHash f"

definition by_anchor :: "SelectedCurrentFinding \<Rightarrow> PriorLineageHint \<Rightarrow> bool" where
  "by_anchor f h \<longleftrightarrow> hint_category h = cf_category f \<and> hint_failureModeHash h = cf_failureModeHash f \<and>
     truthy (hint_symbolAnchor h) \<and> hint_symbolAnchor h = cf_symbolAnchor f"

definition by_location :: "SelectedCurrentFinding \<Rightarrow> PriorLineageHint \<Rightarrow> bool" where
  "by_location f h \<longleftrightarrow> hint_category h = cf_category f \<and> hint_failureModeHash h = cf_failureModeHash f \<and>
     projection_path (hint_filePath h) = projection_path (cf_filePath f) \<and>
     (case (hint_line h, cf_line f) of (Some a, Some b) \<Rightarrow> \<bar>a - b\<bar> \<le> 2 | _ \<Rightarrow> False)"

definition matchPriorLineage :: "SelectedCurrentFinding \<Rightarrow> PriorLineageHint list \<Rightarrow> PriorLineageHint option" where
  "matchPriorLineage f hints =
     (case if truthy (cf_trustedMarker f) then filter (by_marker f) hints else [] of
        [h] \<Rightarrow> Some h
      | _ # _ # _ \<Rightarrow> None
      | [] \<Rightarrow> (case filter (by_anchor f) hints of
          [h] \<Rightarrow> Some h
        | _ # _ # _ \<Rightarrow> None
        | [] \<Rightarrow> (case filter (by_location f) hints of [h] \<Rightarrow> Some h | _ \<Rightarrow> None)))"

definition findTargetForLineage :: "string \<Rightarrow> LiveLifecycleTarget list \<Rightarrow> LiveLifecycleTarget option" where
  "findTargetForLineage lineageId targets =
     (case filter (\<lambda>t. lt_trustedMarker t = lineageId) targets of [t] \<Rightarrow> Some t | _ \<Rightarrow> None)"

definition hasValidTrustedResolutionMarker :: "LiveLifecycleTarget \<Rightarrow> bool" where
  "hasValidTrustedResolutionMarker t = (case lt_resolutionMarker t of None \<Rightarrow> False | Some m \<Rightarrow>
     rm_trust m = Trusted \<and> rm_schemaVersion m = ''reviewrouter-lifecycle-resolution.v1'' \<and>
     rm_targetId m = lt_targetId t \<and> rm_fingerprint m = lt_trustedMarker t)"

definition summaryPlacement :: "string \<Rightarrow> string \<Rightarrow> string \<Rightarrow> FindingPlacementDecision" where
  "summaryPlacement lineageId path reason =
     \<lparr>pl_lineageId = lineageId, pl_kind = SummaryPlacement, pl_path = path, pl_startLine = None, pl_line = None,
      pl_endLine = None, pl_body = None, pl_reason = Some reason\<rparr>"

section \<open>Occurrences\<close>

text \<open>A finding of this review: the body of the first loop.\<close>

definition lineage_of :: "(string \<Rightarrow> string) \<Rightarrow> ReviewProjectionScope \<Rightarrow> PriorLineageHint list \<Rightarrow> SelectedCurrentFinding \<Rightarrow> string" where
  "lineage_of sha scope hints f = (case matchPriorLineage f hints of
     Some h \<Rightarrow> hint_lineageId h | None \<Rightarrow> createLineageId sha scope f)"

definition currentOccurrenceState :: "LiveLifecycleTarget option \<Rightarrow> PriorLineageHint option \<Rightarrow> Severity \<Rightarrow> FindingOccurrenceState" where
  "currentOccurrenceState target hint severity =
     (if (case target of Some t \<Rightarrow> lt_disposition t = CommandSuppressed | None \<Rightarrow> False) then OccSuppressedByHuman
      else case hint of
        Some h \<Rightarrow> if hint_severity h = severity then OccReconfirmed else OccChanged
      | None \<Rightarrow> OccNew)"

definition current_occurrence :: "(string \<Rightarrow> string \<Rightarrow> int) \<Rightarrow> (string \<Rightarrow> string) \<Rightarrow> ReviewProjectionScope \<Rightarrow>
    PriorLineageHint list \<Rightarrow> CurrentLifecycleInventory \<Rightarrow> SelectedCurrentFinding \<Rightarrow> FindingOccurrence" where
  "current_occurrence lc sha scope hints inventory f =
     (let hint = matchPriorLineage f hints;
          lineageId = lineage_of sha scope hints f;
          target = findTargetForLineage lineageId (inv_targets inventory)
      in \<lparr>occ_lineageId = lineageId,
          occ_sourceFindingIds = sortedUnique lc (sf_sourceFindingIds f),
          occ_state = currentOccurrenceState target hint (cf_severity f),
          occ_severity = cf_severity f,
          occ_previousSeverity = (case hint of
             Some h \<Rightarrow> if hint_severity h \<noteq> cf_severity f then Some (hint_severity h) else None | None \<Rightarrow> None),
          occ_category = cf_category f,
          occ_failureModeHash = cf_failureModeHash f,
          occ_symbolAnchor = if_truthy (cf_symbolAnchor f),
          occ_trustedMarker = Some lineageId,
          occ_anchorVerified = cf_anchorVerified f,
          occ_title = cf_title f,
          occ_message = cf_message f,
          occ_suggestion = if_truthy (cf_suggestion f),
          occ_filePath = cf_filePath f,
          occ_startLine = cf_startLine f,
          occ_line = cf_line f,
          occ_endLine = cf_endLine f,
          occ_placement = summaryPlacement lineageId (cf_filePath f) ''pending'',
          occ_providerVoteKeys = sortedUnique lc (cf_providerVoteKeys f),
          occ_observationIds = sortedUnique lc (cf_observationIds f),
          occ_firstSeenHeadSha = (case hint of Some h \<Rightarrow> hint_firstSeenHeadSha h | None \<Rightarrow> scope_headSha scope),
          occ_sourceHeadSha = scope_headSha scope,
          occ_blocking = False\<rparr>)"

text \<open>An earlier finding that was not found again: the body of the second loop.\<close>

definition priorOccurrenceState :: "LiveLifecycleTarget \<Rightarrow> LifecycleVerdict option \<Rightarrow> FindingOccurrenceState" where
  "priorOccurrenceState t verdict =
     (if lt_disposition t = CommandSuppressed then OccSuppressedByHuman
      else if lt_disposition t = HumanReply then OccUncertain
      else if hasValidTrustedResolutionMarker t then OccCarriedUnverified
      else if verdict = Some Resolved then OccCarriedUnverified
      else if verdict = Some StillValid then OccCarriedUnverified
      else OccUncertain)"

definition decisionByTarget :: "LifecycleProjectionDecision list \<Rightarrow> string \<Rightarrow> LifecycleProjectionDecision option" where
  "decisionByTarget ds = map_of (rev (map (\<lambda>d. (dec_targetId d, d)) ds))"

definition confirmedClosed :: "CurrentLifecycleInventory \<Rightarrow> string \<Rightarrow> bool" where
  "confirmedClosed inventory lineageId \<longleftrightarrow>
     (let observations = filter (\<lambda>r. ro_lineageId r = lineageId \<and> ro_trustedMarker r = lineageId)
            (some_list (inv_resolvedObservations inventory))
      in inv_complete inventory \<and> \<not> list_ex (\<lambda>t. lt_trustedMarker t = lineageId) (inv_targets inventory) \<and>
         length observations = 1 \<and> ro_confirmed (hd observations))"

definition historical_state :: "CurrentLifecycleInventory \<Rightarrow> LifecycleProjectionDecision list \<Rightarrow> PriorLineageHint \<Rightarrow> FindingOccurrenceState" where
  "historical_state inventory decisions h =
     (if confirmedClosed inventory (hint_lineageId h) then OccResolved
      else case findTargetForLineage (hint_lineageId h) (inv_targets inventory) of
        Some t \<Rightarrow> priorOccurrenceState t (map_option dec_verdict (decisionByTarget decisions (lt_targetId t)))
      | None \<Rightarrow> OccCarriedUnverified)"

definition historical_occurrence :: "ReviewProjectionScope \<Rightarrow> CurrentLifecycleInventory \<Rightarrow>
    LifecycleProjectionDecision list \<Rightarrow> PriorLineageHint \<Rightarrow> FindingOccurrence" where
  "historical_occurrence scope inventory decisions h =
     (let target = findTargetForLineage (hint_lineageId h) (inv_targets inventory);
          path = (case Option.bind target lt_currentPath of Some p \<Rightarrow> p | None \<Rightarrow> hint_filePath h)
      in \<lparr>occ_lineageId = hint_lineageId h,
          occ_sourceFindingIds = [],
          occ_state = historical_state inventory decisions h,
          occ_severity = hint_severity h,
          occ_previousSeverity = None,
          occ_category = hint_category h,
          occ_failureModeHash = hint_failureModeHash h,
          occ_symbolAnchor = if_truthy (hint_symbolAnchor h),
          occ_trustedMarker = Some (hint_lineageId h),
          occ_anchorVerified = None,
          occ_title = hint_title h,
          occ_message = hint_message h,
          occ_suggestion = None,
          occ_filePath = path,
          occ_startLine = hint_startLine h,
          occ_line = (case Option.bind target lt_currentLine of Some l \<Rightarrow> Some l | None \<Rightarrow> hint_line h),
          occ_endLine = hint_endLine h,
          occ_placement = summaryPlacement (hint_lineageId h) path ''historical occurrence'',
          occ_providerVoteKeys = [],
          occ_observationIds = [],
          occ_firstSeenHeadSha = hint_firstSeenHeadSha h,
          occ_sourceHeadSha = scope_headSha scope,
          occ_blocking = False\<rparr>)"

section \<open>The order of occurrences\<close>

definition stateOrder :: "FindingOccurrenceState \<Rightarrow> int" where
  "stateOrder s = (case s of OccNew \<Rightarrow> 0 | OccChanged \<Rightarrow> 1 | OccReconfirmed \<Rightarrow> 2 | OccCarriedUnverified \<Rightarrow> 3
     | OccUncertain \<Rightarrow> 4 | OccResolved \<Rightarrow> 5 | OccSuppressedByHuman \<Rightarrow> 6)"

definition severityOrder :: "Severity \<Rightarrow> int" where
  "severityOrder s = (case s of Critical \<Rightarrow> 0 | Major \<Rightarrow> 1 | Minor \<Rightarrow> 2)"

definition or_zero :: "int option \<Rightarrow> int" where
  "or_zero l = (case l of Some n \<Rightarrow> n | None \<Rightarrow> 0)"

text \<open>\<open>a || b\<close> of two comparisons.\<close>

definition then_by :: "('a \<Rightarrow> 'a \<Rightarrow> int) \<Rightarrow> ('a \<Rightarrow> 'a \<Rightarrow> int) \<Rightarrow> 'a \<Rightarrow> 'a \<Rightarrow> int" where
  "then_by c d x y = (if c x y \<noteq> 0 then c x y else d x y)"

definition compareOccurrences :: "(string \<Rightarrow> string \<Rightarrow> int) \<Rightarrow> FindingOccurrence \<Rightarrow> FindingOccurrence \<Rightarrow> int" where
  "compareOccurrences lc =
     then_by (\<lambda>l r. stateOrder (occ_state l) - stateOrder (occ_state r))
    (then_by (\<lambda>l r. severityOrder (occ_severity l) - severityOrder (occ_severity r))
    (then_by (\<lambda>l r. lc (occ_filePath l) (occ_filePath r))
    (then_by (\<lambda>l r. or_zero (occ_line l) - or_zero (occ_line r))
             (\<lambda>l r. lc (occ_lineageId l) (occ_lineageId r)))))"

definition sortOccurrences :: "(string \<Rightarrow> string \<Rightarrow> int) \<Rightarrow> FindingOccurrence list \<Rightarrow> FindingOccurrence list" where
  "sortOccurrences lc = js_sort (compareOccurrences lc)"

definition unmatched_hints :: "SelectedCurrentFinding list \<Rightarrow> PriorLineageHint list \<Rightarrow> PriorLineageHint list" where
  "unmatched_hints selected hints =
     (let matched = map hint_lineageId (List.map_filter (\<lambda>f. matchPriorLineage f hints) selected)
      in filter (\<lambda>h. \<not> (hint_lineageId h \<in> set matched \<or> \<not> hint_active h)) hints)"

definition projectOccurrences :: "(string \<Rightarrow> string \<Rightarrow> int) \<Rightarrow> (string \<Rightarrow> string) \<Rightarrow> ReviewProjectionScope \<Rightarrow>
    SelectedCurrentFinding list \<Rightarrow> PriorLineageHint list \<Rightarrow> CurrentLifecycleInventory \<Rightarrow>
    LifecycleProjectionDecision list \<Rightarrow> FindingOccurrence list" where
  "projectOccurrences lc sha scope selected hints inventory decisions = sortOccurrences lc
     (map (current_occurrence lc sha scope hints inventory) selected @
      map (historical_occurrence scope inventory decisions) (unmatched_hints selected hints))"


section \<open>Three-way comparison\<close>

locale three_way =
  fixes cmp :: "'a \<Rightarrow> 'a \<Rightarrow> int"
  assumes cmp_sym: "sgn (cmp y x) = - sgn (cmp x y)"
    and cmp_trans_le: "cmp x y \<le> 0 \<Longrightarrow> cmp y z \<le> 0 \<Longrightarrow> cmp x z \<le> 0"
begin

lemma neg: "cmp x y < 0 \<longleftrightarrow> 0 < cmp y x"
  using cmp_sym [of x y] by (simp add: sgn_if split: if_splits)

lemma zero: "cmp x y = 0 \<longleftrightarrow> cmp y x = 0"
  using neg [of x y] neg [of y x] by linarith

lemma less_le: "cmp x y < 0 \<Longrightarrow> cmp y z \<le> 0 \<Longrightarrow> cmp x z < 0"
  using cmp_trans_le [of x y z] cmp_trans_le [of y z x] neg [of x y] neg [of x z] neg [of z x] by linarith

lemma le_less: "cmp x y \<le> 0 \<Longrightarrow> cmp y z < 0 \<Longrightarrow> cmp x z < 0"
  using cmp_trans_le [of x y z] cmp_trans_le [of z x y] neg [of y z] neg [of x z] neg [of z x] by linarith

lemma then_by_three_way:
  assumes "three_way d"
  shows "three_way (then_by cmp d)"
proof
  fix x y z
  show "sgn (then_by cmp d y x) = - sgn (then_by cmp d x y)"
  proof (cases "cmp x y = 0")
    case True
    then have "cmp y x = 0" unfolding zero [of x y] .
    then show ?thesis by (simp add: then_by_def True three_way.cmp_sym [OF assms, of y x])
  next
    case False
    then have "cmp y x \<noteq> 0" unfolding zero [of x y] .
    then show ?thesis by (simp add: then_by_def False cmp_sym [of y x])
  qed
  assume xy: "then_by cmp d x y \<le> 0" and yz: "then_by cmp d y z \<le> 0"
  have split: "then_by cmp d a b \<le> 0 \<longleftrightarrow> cmp a b < 0 \<or> cmp a b = 0 \<and> d a b \<le> 0" for a b
    by (auto simp: then_by_def)
  show "then_by cmp d x z \<le> 0"
  proof (cases "cmp x y = 0 \<and> cmp y z = 0")
    case True
    then have "cmp x z = 0"
      using cmp_trans_le [of x y z] cmp_trans_le [of z y x] zero [of x y] zero [of y z] neg [of x z] neg [of z x] by linarith
    then show ?thesis using True xy yz three_way.cmp_trans_le [OF assms, of x y z] by (simp add: split)
  next
    case False
    then have "cmp x z < 0" using xy yz less_le [of x y z] le_less [of x y z] by (auto simp: split)
    then show ?thesis by (simp add: split)
  qed
qed

lemma comparator: "js_comparator cmp"
proof
  fix x y z
  show "cmp x y \<le> 0 \<or> cmp y x \<le> 0" using neg [of x y] by linarith
  show "cmp x y \<le> 0 \<Longrightarrow> cmp y z \<le> 0 \<Longrightarrow> cmp x z \<le> 0" by (rule cmp_trans_le)
qed

end

sublocale three_way \<subseteq> js_comparator cmp
  by (rule comparator)

interpretation by_rank: three_way "\<lambda>l r. rank l - rank r"
  for rank :: "'a \<Rightarrow> int"
  by unfold_locales (auto simp: sgn_if)

lemma collation_three_way: "js_collation lc \<Longrightarrow> three_way (\<lambda>l r. lc (f l) (f r))"
  by unfold_locales (rule js_collation.lc_sym, assumption, rule js_collation.lc_trans)

lemma occurrences_three_way: "js_collation lc \<Longrightarrow> three_way (compareOccurrences lc)"
  unfolding compareOccurrences_def
  by (intro by_rank.then_by_three_way three_way.then_by_three_way collation_three_way)

sublocale js_collation \<subseteq> occurrence_order: three_way "compareOccurrences lc"
  by (rule occurrences_three_way) (rule js_collation_axioms)

text \<open>Nothing that the order does not look at can change it.\<close>

lemma compareOccurrences_cong:
  assumes "occ_state x' = occ_state x" "occ_severity x' = occ_severity x" "occ_filePath x' = occ_filePath x"
    "occ_line x' = occ_line x" "occ_lineageId x' = occ_lineageId x"
    "occ_state y' = occ_state y" "occ_severity y' = occ_severity y" "occ_filePath y' = occ_filePath y"
    "occ_line y' = occ_line y" "occ_lineageId y' = occ_lineageId y"
  shows "compareOccurrences lc x' y' = compareOccurrences lc x y"
  by (simp add: compareOccurrences_def then_by_def assms)

definition keeps_order_keys :: "(FindingOccurrence \<Rightarrow> FindingOccurrence) \<Rightarrow> bool" where
  "keeps_order_keys f \<longleftrightarrow> (\<forall>x. occ_state (f x) = occ_state x \<and> occ_severity (f x) = occ_severity x \<and>
     occ_filePath (f x) = occ_filePath x \<and> occ_line (f x) = occ_line x \<and> occ_lineageId (f x) = occ_lineageId x)"

lemma sortOccurrences_map:
  assumes "js_collation lc" "keeps_order_keys f"
  shows "sortOccurrences lc (map f (sortOccurrences lc xs)) = map f (sortOccurrences lc xs)"
proof -
  have "compareOccurrences lc (f x) (f y) = compareOccurrences lc x y" for x y
    using assms(2) by (intro compareOccurrences_cong) (simp_all add: keeps_order_keys_def)
  then have "sortOccurrences lc (map f (sortOccurrences lc xs)) = map f (sortOccurrences lc (sortOccurrences lc xs))"
    unfolding sortOccurrences_def by (rule js_sort_map)
  moreover have "sortOccurrences lc (sortOccurrences lc xs) = sortOccurrences lc xs"
    unfolding sortOccurrences_def
    using three_way.comparator [OF occurrences_three_way [OF assms(1)]]
    by (intro js_comparator.sort_sorted js_comparator.sorted_sort)
  ultimately show ?thesis by simp
qed


section \<open>Properties\<close>

lemma set_sortOccurrences [simp]: "set (sortOccurrences lc xs) = set xs"
  by (simp add: sortOccurrences_def)

lemma set_projectOccurrences: "set (projectOccurrences lc sha scope selected hints inventory decisions) =
    current_occurrence lc sha scope hints inventory ` set selected \<union>
    historical_occurrence scope inventory decisions ` set (unmatched_hints selected hints)"
  by (simp add: projectOccurrences_def)

lemma occurrence_simps [simp]:
  "occ_lineageId (current_occurrence lc sha scope hints inventory f) = lineage_of sha scope hints f"
  "occ_state (current_occurrence lc sha scope hints inventory f) =
     currentOccurrenceState (findTargetForLineage (lineage_of sha scope hints f) (inv_targets inventory))
       (matchPriorLineage f hints) (cf_severity f)"
  "occ_lineageId (historical_occurrence scope inventory decisions h) = hint_lineageId h"
  "occ_state (historical_occurrence scope inventory decisions h) = historical_state inventory decisions h"
  by (simp_all add: current_occurrence_def historical_occurrence_def Let_def)

lemma current_state_not_historical:
  "currentOccurrenceState target hint s \<noteq> OccResolved" "currentOccurrenceState target hint s \<noteq> OccUncertain"
  "currentOccurrenceState target hint s \<noteq> OccCarriedUnverified"
  by (auto simp: currentOccurrenceState_def split: option.splits)

lemma confirmedClosed_iff: "confirmedClosed inventory lineageId \<longleftrightarrow>
    inv_complete inventory \<and> lineageId \<notin> lt_trustedMarker ` set (inv_targets inventory) \<and>
    (\<exists>r. filter (\<lambda>r. ro_lineageId r = lineageId \<and> ro_trustedMarker r = lineageId)
       (some_list (inv_resolvedObservations inventory)) = [r] \<and> ro_confirmed r)"
  by (auto simp: confirmedClosed_def Let_def list_ex_iff length_Suc_conv)

lemma historical_resolved: "historical_state inventory decisions h = OccResolved \<longleftrightarrow> confirmedClosed inventory (hint_lineageId h)"
  by (auto simp: historical_state_def priorOccurrenceState_def split: option.splits)

lemma findTarget_Some: "findTargetForLineage lineageId ts = Some t \<longleftrightarrow> filter (\<lambda>t. lt_trustedMarker t = lineageId) ts = [t]"
  by (auto simp: findTargetForLineage_def split: list.splits)

lemma historical_suppressed:
  assumes "historical_state inventory decisions h = OccSuppressedByHuman"
  shows "\<exists>t. findTargetForLineage (hint_lineageId h) (inv_targets inventory) = Some t \<and> lt_disposition t = CommandSuppressed"
  using assms by (auto simp: historical_state_def priorOccurrenceState_def split: option.splits if_splits)

lemma current_suppressed:
  assumes "currentOccurrenceState target hint s = OccSuppressedByHuman"
  shows "\<exists>t. target = Some t \<and> lt_disposition t = CommandSuppressed"
  using assms by (auto simp: currentOccurrenceState_def split: option.splits if_splits)

lemma matched_lineage:
  assumes "h \<in> set hints" "hint_active h" "h \<notin> set (unmatched_hints selected hints)"
  shows "\<exists>f \<in> set selected. lineage_of sha scope hints f = hint_lineageId h"
proof -
  have "hint_lineageId h \<in> hint_lineageId ` set (List.map_filter (\<lambda>f. matchPriorLineage f hints) selected)"
    using assms by (auto simp: unmatched_hints_def)
  then obtain f h' where "f \<in> set selected" "matchPriorLineage f hints = Some h'" "hint_lineageId h' = hint_lineageId h"
    by (auto simp: map_filter_def)
  then show ?thesis by (intro bexI [of _ f]) (simp_all add: lineage_of_def)
qed

text \<open>
  C19: no earlier finding is lost and none is invented: the occurrences are one for each finding of the review
  and one for each earlier finding that is active and was not found again, so every active earlier finding is
  among them under its lineage.
\<close>

theorem earlier_findings_are_not_lost:
  "mset (map occ_lineageId (projectOccurrences lc sha scope selected hints inventory decisions)) =
     mset (map (lineage_of sha scope hints) selected) + mset (map hint_lineageId (unmatched_hints selected hints)) \<and>
   hint_lineageId ` {h \<in> set hints. hint_active h} \<subseteq>
     occ_lineageId ` set (projectOccurrences lc sha scope selected hints inventory decisions)"
proof
  show "mset (map occ_lineageId (projectOccurrences lc sha scope selected hints inventory decisions)) =
      mset (map (lineage_of sha scope hints) selected) + mset (map hint_lineageId (unmatched_hints selected hints))"
    unfolding mset_map projectOccurrences_def sortOccurrences_def mset_js_sort
    by (simp add: image_mset.compositionality comp_def)
  show "hint_lineageId ` {h \<in> set hints. hint_active h} \<subseteq>
      occ_lineageId ` set (projectOccurrences lc sha scope selected hints inventory decisions)"
  proof clarify
    fix h assume h: "h \<in> set hints" "hint_active h"
    show "hint_lineageId h \<in> occ_lineageId ` set (projectOccurrences lc sha scope selected hints inventory decisions)"
    proof (cases "h \<in> set (unmatched_hints selected hints)")
      case True
      then show ?thesis unfolding set_projectOccurrences by (auto simp: image_Un image_image)
    next
      case False
      obtain f where f: "f \<in> set selected" "hint_lineageId h = lineage_of sha scope hints f"
        using matched_lineage [OF h False, of sha scope] by metis
      show ?thesis unfolding set_projectOccurrences f(2)
        using f(1) by (intro image_eqI [of _ _ "current_occurrence lc sha scope hints inventory f"]) simp_all
    qed
  qed
qed

text \<open>
  C18: an earlier finding is reported resolved exactly when it was not found again and the complete inventory
  shows its thread closed: no live thread carries its marker and exactly one closed one does, confirmed.
  No verdict of a provider and no marker in a live thread can resolve it.  It is reported suppressed only when
  exactly one live thread carries its marker, the one a human command suppressed.
\<close>

theorem only_confirmed_closure_resolves:
  "{occ_lineageId x | x. x \<in> set (projectOccurrences lc sha scope selected hints inventory decisions) \<and> occ_state x = OccResolved} =
   {hint_lineageId h | h. h \<in> set (unmatched_hints selected hints) \<and> inv_complete inventory \<and>
      hint_lineageId h \<notin> lt_trustedMarker ` set (inv_targets inventory) \<and>
      (\<exists>r. filter (\<lambda>r. ro_lineageId r = hint_lineageId h \<and> ro_trustedMarker r = hint_lineageId h)
         (some_list (inv_resolvedObservations inventory)) = [r] \<and> ro_confirmed r)} \<and>
   {occ_lineageId x | x. x \<in> set (projectOccurrences lc sha scope selected hints inventory decisions) \<and>
      occ_state x = OccSuppressedByHuman} \<subseteq>
   {lineageId. \<exists>t. filter (\<lambda>t. lt_trustedMarker t = lineageId) (inv_targets inventory) = [t] \<and>
      lt_disposition t = CommandSuppressed}"
proof (intro conjI equalityI subsetI)
  let ?O = "projectOccurrences lc sha scope selected hints inventory decisions"
  fix l assume "l \<in> {occ_lineageId x | x. x \<in> set ?O \<and> occ_state x = OccResolved}"
  then obtain x where x: "x \<in> set ?O" "occ_state x = OccResolved" "l = occ_lineageId x" by blast
  then obtain h where "h \<in> set (unmatched_hints selected hints)" "x = historical_occurrence scope inventory decisions h"
    unfolding set_projectOccurrences using current_state_not_historical(1) by (auto simp: image_iff)
  with x show "l \<in> {hint_lineageId h | h. h \<in> set (unmatched_hints selected hints) \<and> inv_complete inventory \<and>
      hint_lineageId h \<notin> lt_trustedMarker ` set (inv_targets inventory) \<and>
      (\<exists>r. filter (\<lambda>r. ro_lineageId r = hint_lineageId h \<and> ro_trustedMarker r = hint_lineageId h)
         (some_list (inv_resolvedObservations inventory)) = [r] \<and> ro_confirmed r)}"
    using historical_resolved confirmedClosed_iff by auto
next
  let ?O = "projectOccurrences lc sha scope selected hints inventory decisions"
  fix l assume "l \<in> {hint_lineageId h | h. h \<in> set (unmatched_hints selected hints) \<and> inv_complete inventory \<and>
      hint_lineageId h \<notin> lt_trustedMarker ` set (inv_targets inventory) \<and>
      (\<exists>r. filter (\<lambda>r. ro_lineageId r = hint_lineageId h \<and> ro_trustedMarker r = hint_lineageId h)
         (some_list (inv_resolvedObservations inventory)) = [r] \<and> ro_confirmed r)}"
  then obtain h where h: "h \<in> set (unmatched_hints selected hints)" "l = hint_lineageId h"
      "confirmedClosed inventory (hint_lineageId h)"
    using confirmedClosed_iff by blast
  then have "historical_occurrence scope inventory decisions h \<in> set ?O"
      "occ_state (historical_occurrence scope inventory decisions h) = OccResolved"
    using historical_resolved by (auto simp: set_projectOccurrences)
  with h(2) show "l \<in> {occ_lineageId x | x. x \<in> set ?O \<and> occ_state x = OccResolved}"
    by (intro CollectI exI [of _ "historical_occurrence scope inventory decisions h"]) simp
next
  let ?O = "projectOccurrences lc sha scope selected hints inventory decisions"
  fix l assume "l \<in> {occ_lineageId x | x. x \<in> set ?O \<and> occ_state x = OccSuppressedByHuman}"
  then obtain x where x: "x \<in> set ?O" "occ_state x = OccSuppressedByHuman" "l = occ_lineageId x" by blast
  have "\<exists>t. findTargetForLineage l (inv_targets inventory) = Some t \<and> lt_disposition t = CommandSuppressed"
    using x historical_suppressed current_suppressed unfolding set_projectOccurrences by fastforce
  then show "l \<in> {lineageId. \<exists>t. filter (\<lambda>t. lt_trustedMarker t = lineageId) (inv_targets inventory) = [t] \<and>
      lt_disposition t = CommandSuppressed}"
    by (simp add: findTarget_Some)
qed

end
