(* ===== verification/Merge_Gate.thy ===== *)
theory Merge_Gate
  imports Projection_Data
begin

text \<open>
  The merge gate of the review projection: \<open>evaluateMergeGate\<close> of
  \<open>src/review-projection/infrastructure/legacy/legacy-review-projection-policy-adapter.ts\<close>, which decides
  with \<open>getBlockingFindingBreakdown\<close> of the severity gate, and \<open>validateGateDecision\<close> of
  \<open>application/build-current-review-projection.ts\<close>, which checks what any such policy decides.
\<close>

section \<open>Deciding\<close>

definition isCurrentOccurrence :: "FindingOccurrence \<Rightarrow> bool" where
  "isCurrentOccurrence x \<longleftrightarrow> isCurrentState (occ_state x)"

text \<open>\<open>minimalLegacyReview([toLegacyFinding(occurrence)])\<close>, as far as the severity gate reads it.\<close>

definition minimalLegacyReview :: "FindingOccurrence list \<Rightarrow> GateReview" where
  "minimalLegacyReview xs = \<lparr>findings = map occ_severity xs, findingProvenance = None, previousThreads = None\<rparr>"

definition isBlockingOccurrence :: "FindingOccurrence \<Rightarrow> Severity \<Rightarrow> bool" where
  "isBlockingOccurrence x threshold \<longleftrightarrow>
     total_blocking (getBlockingFindingBreakdown (minimalLegacyReview [x]) (Some (At threshold))) > 0"

definition isBlockingFact :: "Severity \<Rightarrow> LifecycleVerificationFact \<Rightarrow> bool" where
  "isBlockingFact threshold f \<longleftrightarrow> vf_confirmationState f = ConfirmedOpen \<and>
     (case vf_severity f of None \<Rightarrow> False | Some s \<Rightarrow> severityRank s \<ge> severityRank threshold)"

definition evaluateMergeGate :: "(string \<Rightarrow> string \<Rightarrow> int) \<Rightarrow> Severity option \<Rightarrow> FindingOccurrence list \<Rightarrow>
    ReviewCoverageFact \<Rightarrow> bool \<Rightarrow> LifecycleVerificationFact list option \<Rightarrow> MergeGateDecision" where
  "evaluateMergeGate lc failOnSeverity occurrences coverage inventoryComplete facts =
     (let eligible = filter isCurrentOccurrence occurrences;
          blockingLineageIds = (case failOnSeverity of None \<Rightarrow> []
            | Some threshold \<Rightarrow> map occ_lineageId (filter (\<lambda>x. isBlockingOccurrence x threshold) eligible));
          blockingTargetIds = (case failOnSeverity of None \<Rightarrow> []
            | Some threshold \<Rightarrow> map vf_targetId (filter (isBlockingFact threshold) (some_list facts)));
          targetBlocking = map_option (\<lambda>_. sortedUnique lc blockingTargetIds) facts;
          incomplete = (cov_state coverage = Partial \<or> \<not> inventoryComplete)
      in if length blockingLineageIds > 0 \<or> length blockingTargetIds > 0
         then \<lparr>gate_conclusion = GateFail, gate_blockingLineageIds = sortedUnique lc blockingLineageIds,
               gate_blockingTargetIds = targetBlocking,
               gate_reasonCodes =
                 (if length blockingLineageIds > 0 then [''blocking_current_findings''] else []) @
                 (if length blockingTargetIds > 0 then [''blocking_confirmed_lifecycle_targets''] else []) @
                 (if incomplete then [''partial_coverage''] else [])\<rparr>
         else if incomplete
         then \<lparr>gate_conclusion = GateInconclusive, gate_blockingLineageIds = [],
               gate_blockingTargetIds = targetBlocking, gate_reasonCodes = [''partial_coverage'']\<rparr>
         else \<lparr>gate_conclusion = GatePass, gate_blockingLineageIds = [],
               gate_blockingTargetIds = targetBlocking, gate_reasonCodes = []\<rparr>)"

section \<open>Checking a decision\<close>

definition validateGateDecision :: "FindingOccurrence list \<Rightarrow> MergeGateDecision \<Rightarrow>
    LifecycleVerificationFact list option \<Rightarrow> js_error option" where
  "validateGateDecision occurrences gate facts =
     (let lineageIds = map occ_lineageId occurrences;
          blockingTargets = some_list (gate_blockingTargetIds gate)
      in first_problem
        [assertUniqueValues ''blocking lifecycle targetId'' blockingTargets,
         first_error (\<lambda>targetId. check
             (list_ex (\<lambda>fact. vf_targetId fact = targetId \<and> vf_confirmationState fact = ConfirmedOpen) (some_list facts))
             ''merge gate references unconfirmed lifecycle target'') blockingTargets,
         check (\<not> ((length (gate_blockingLineageIds gate) > 0 \<or> length blockingTargets > 0) \<and>
             gate_conclusion gate \<noteq> GateFail)) ''blocking merge gate must fail'',
         assertUniqueValues ''blocking lineageId'' (gate_blockingLineageIds gate),
         first_error (\<lambda>lineageId. check (lineageId \<in> set lineageIds)
             (''merge gate references unknown lineage '' @ lineageId)) (gate_blockingLineageIds gate)])"

section \<open>What blocks\<close>

definition blocking_lineages :: "Severity option \<Rightarrow> FindingOccurrence list \<Rightarrow> string set" where
  "blocking_lineages threshold occurrences = occ_lineageId `
     {x \<in> set occurrences. isCurrentState (occ_state x) \<and>
        (\<exists>t. threshold = Some t \<and> severityRank (occ_severity x) \<ge> severityRank t)}"

definition blocking_targets :: "Severity option \<Rightarrow> LifecycleVerificationFact list option \<Rightarrow> string set" where
  "blocking_targets threshold facts = vf_targetId `
     {f. (\<exists>fs. facts = Some fs \<and> f \<in> set fs) \<and> vf_confirmationState f = ConfirmedOpen \<and>
        (\<exists>t s. threshold = Some t \<and> vf_severity f = Some s \<and> severityRank s \<ge> severityRank t)}"

lemma isBlockingOccurrence_iff: "isBlockingOccurrence x t \<longleftrightarrow> severityRank (occ_severity x) \<ge> severityRank t"
  by (simp add: isBlockingOccurrence_def getBlockingFindingBreakdown_def minimalLegacyReview_def Let_def)

lemma isBlockingFact_iff: "isBlockingFact t f \<longleftrightarrow> vf_confirmationState f = ConfirmedOpen \<and>
    (\<exists>s. vf_severity f = Some s \<and> severityRank s \<ge> severityRank t)"
  by (auto simp: isBlockingFact_def split: option.splits)

lemma blocking_lineages_set: "(case threshold of None \<Rightarrow> [] | Some t \<Rightarrow>
      map occ_lineageId (filter (\<lambda>x. isBlockingOccurrence x t) (filter isCurrentOccurrence xs))) = ids \<Longrightarrow>
    set ids = blocking_lineages threshold xs"
  by (cases threshold) (auto simp: blocking_lineages_def isBlockingOccurrence_iff isCurrentOccurrence_def)

lemma blocking_targets_set: "(case threshold of None \<Rightarrow> [] | Some t \<Rightarrow>
      map vf_targetId (filter (isBlockingFact t) (some_list facts))) = ids \<Longrightarrow>
    set ids = blocking_targets threshold facts"
  by (cases threshold; cases facts) (auto simp: blocking_targets_def isBlockingFact_iff some_list_def)

definition gate_shape :: "(string \<Rightarrow> string \<Rightarrow> int) \<Rightarrow> string list \<Rightarrow> string list \<Rightarrow> bool \<Rightarrow>
    LifecycleVerificationFact list option \<Rightarrow> MergeGateDecision \<Rightarrow> bool" where
  "gate_shape lc ls ts incomplete facts gate \<longleftrightarrow>
     (gate_conclusion gate = GateFail \<longleftrightarrow> ls \<noteq> [] \<or> ts \<noteq> []) \<and>
     (gate_conclusion gate = GatePass \<longleftrightarrow> ls = [] \<and> ts = [] \<and> \<not> incomplete) \<and>
     gate_blockingLineageIds gate = sortedUnique lc ls \<and>
     gate_blockingTargetIds gate = map_option (\<lambda>_. sortedUnique lc ts) facts"

lemma evaluateMergeGate_shape:
  obtains ls ts where "set ls = blocking_lineages threshold occurrences" "set ts = blocking_targets threshold facts"
    "gate_shape lc ls ts (cov_state coverage = Partial \<or> \<not> inventoryComplete) facts
       (evaluateMergeGate lc threshold occurrences coverage inventoryComplete facts)"
proof -
  let ?ls = "case threshold of None \<Rightarrow> [] | Some t \<Rightarrow>
      map occ_lineageId (filter (\<lambda>x. isBlockingOccurrence x t) (filter isCurrentOccurrence occurrences))"
  let ?ts = "case threshold of None \<Rightarrow> [] | Some t \<Rightarrow> map vf_targetId (filter (isBlockingFact t) (some_list facts))"
  have "gate_shape lc ?ls ?ts (cov_state coverage = Partial \<or> \<not> inventoryComplete) facts
      (evaluateMergeGate lc threshold occurrences coverage inventoryComplete facts)"
    unfolding gate_shape_def evaluateMergeGate_def Let_def length_greater_0_conv
    by (cases "?ls = []"; cases "?ts = []") (simp_all only: simp_thms if_True if_False MergeGateDecision.simps
        MergeGateConclusion.distinct sortedUnique_Nil, auto)
  with blocking_lineages_set [OF refl] blocking_targets_set [OF refl] show thesis by (rule that)
qed

text \<open>
  C20: the gate fails exactly when a threshold is set and a current finding, or an earlier one that the
  providers confirmed open, reaches it; it passes exactly when nothing blocks, coverage is complete and the
  inventory of threads is.  The ids it names are the blocking ones, and the projection accepts every decision
  of this policy.
\<close>

theorem merge_gate_decides_by_blocking_findings:
  "(gate_conclusion (evaluateMergeGate lc threshold occurrences coverage inventoryComplete facts) = GateFail \<longleftrightarrow>
      blocking_lineages threshold occurrences \<union> blocking_targets threshold facts \<noteq> {}) \<and>
   (gate_conclusion (evaluateMergeGate lc threshold occurrences coverage inventoryComplete facts) = GatePass \<longleftrightarrow>
      blocking_lineages threshold occurrences = {} \<and> blocking_targets threshold facts = {} \<and>
      cov_state coverage = Complete \<and> inventoryComplete) \<and>
   set (gate_blockingLineageIds (evaluateMergeGate lc threshold occurrences coverage inventoryComplete facts)) =
      blocking_lineages threshold occurrences \<and>
   set (some_list (gate_blockingTargetIds (evaluateMergeGate lc threshold occurrences coverage inventoryComplete facts))) =
      blocking_targets threshold facts \<and>
   validateGateDecision occurrences (evaluateMergeGate lc threshold occurrences coverage inventoryComplete facts) facts = None"
proof -
  let ?g = "evaluateMergeGate lc threshold occurrences coverage inventoryComplete facts"
  obtain ls ts where ls: "set ls = blocking_lineages threshold occurrences"
    and ts: "set ts = blocking_targets threshold facts"
    and g: "gate_shape lc ls ts (cov_state coverage = Partial \<or> \<not> inventoryComplete) facts ?g"
    by (rule evaluateMergeGate_shape)
  note g = g [unfolded gate_shape_def]
  have none: "ts = []" if "facts = None" using that ts by (simp add: blocking_targets_def)
  have targets: "some_list (gate_blockingTargetIds ?g) = sortedUnique lc ts"
    using g none by (cases facts) (simp_all add: some_list_def)
  have empty: "ls = [] \<longleftrightarrow> blocking_lineages threshold occurrences = {}" "ts = [] \<longleftrightarrow> blocking_targets threshold facts = {}"
    unfolding ls [symmetric] ts [symmetric] by simp_all
  have known: "\<exists>f \<in> set (some_list facts). vf_targetId f = t \<and> vf_confirmationState f = ConfirmedOpen" if "t \<in> set ts" for t
    using that unfolding ts blocking_targets_def by (auto simp: some_list_def)
  have lineage: "l \<in> occ_lineageId ` set occurrences" if "l \<in> set ls" for l
    using that unfolding ls blocking_lineages_def by auto
  have "validateGateDecision occurrences ?g facts = None"
    using g known lineage
    unfolding validateGateDecision_def Let_def targets first_problem_None
    by (auto simp: res_simps list_ex_iff)
  moreover have "cov_state coverage \<noteq> Partial \<longleftrightarrow> cov_state coverage = Complete"
    by (cases "cov_state coverage") simp_all
  ultimately show ?thesis using g targets ls ts empty by simp
qed

end
