(* ===== verification/Review_Presentation.thy ===== *)
theory Review_Presentation
  imports Projection_Data
begin

text \<open>
  \<open>src/review-projection/domain/review-presentation.ts\<close>, with the types of \<open>comparison-baseline.ts\<close>: the
  numbers a review is presented with.  Every lineage counts once; an earlier finding that was only carried over
  is taken out of the counts when the providers verified its thread.
\<close>

section \<open>Data\<close>

record AppliedReviewResolution =
  ar_lineageId :: string
  ar_targetId :: string
  ar_threadId :: string
  ar_markerFingerprint :: string
  ar_resolvedAt :: string

record ReviewComparisonBaseline =
  bl_sourceReviewedHeadSha :: string
  bl_sourceReviewRevisionHash :: string
  bl_sourceExecutionGeneration :: string
  bl_snapshotVersion :: int
  bl_projectionPolicyVersion :: string
  bl_priorLineageHints :: "PriorLineageHint list"
  bl_appliedResolutions :: "AppliedReviewResolution list"

record VerificationCounts =
  vc_confirmedOpen :: int
  vc_fixesVerified :: int
  vc_unverified :: int

record ChangeCounts =
  cc_new :: int
  cc_resolved :: int
  cc_open :: int
  cc_unverified :: int

text \<open>The count of the severity \<open>info\<close> is always zero.\<close>

record ReviewPresentation =
  rp_update :: bool
  rp_complete :: bool
  rp_severity :: "Severity \<Rightarrow> int"
  rp_coverage :: "int \<times> int"
  rp_verification :: "VerificationCounts option"
  rp_changes :: "ChangeCounts option"

text \<open>The variables of the function: the counters and the sets of what was counted.\<close>

record Tally =
  ty_severity :: "Severity \<Rightarrow> int"
  ty_changes :: ChangeCounts
  ty_verification :: VerificationCounts
  ty_replacedLineages :: "string list"
  ty_countedOpen :: "string list"
  ty_countedFixes :: "string list"
  ty_countedUnverified :: "string list"

definition empty_tally :: Tally where
  "empty_tally = \<lparr>ty_severity = (\<lambda>s. 0), ty_changes = \<lparr>cc_new = 0, cc_resolved = 0, cc_open = 0, cc_unverified = 0\<rparr>,
     ty_verification = \<lparr>vc_confirmedOpen = 0, vc_fixesVerified = 0, vc_unverified = 0\<rparr>,
     ty_replacedLineages = [], ty_countedOpen = [], ty_countedFixes = [], ty_countedUnverified = []\<rparr>"

section \<open>Counting occurrences\<close>

definition carried_over :: "FindingOccurrence \<Rightarrow> bool" where
  "carried_over x \<longleftrightarrow> occ_state x = OccCarriedUnverified \<or> occ_state x = OccUncertain"

definition bump :: "Severity \<Rightarrow> int \<Rightarrow> (Severity \<Rightarrow> int) \<Rightarrow> Severity \<Rightarrow> int" where
  "bump s n counts = counts(s := counts s + n)"

definition count_occurrence :: "(string \<Rightarrow> PriorLineageHint option) \<Rightarrow> Tally \<Rightarrow> FindingOccurrence \<Rightarrow> Tally" where
  "count_occurrence prior ty x =
     (if occ_state x = OccSuppressedByHuman then ty
      else if occ_state x = OccResolved
      then (case prior (occ_lineageId x) of
          Some h \<Rightarrow> if hint_active h then ty\<lparr>ty_changes := (ty_changes ty)\<lparr>cc_resolved := cc_resolved (ty_changes ty) + 1\<rparr>\<rparr> else ty
        | None \<Rightarrow> ty)
      else ty\<lparr>ty_severity := bump (occ_severity x) 1 (ty_severity ty),
          ty_changes := (ty_changes ty)
            \<lparr>cc_open := cc_open (ty_changes ty) + 1,
             cc_new := cc_new (ty_changes ty) +
               (if prior (occ_lineageId x) = None \<and> isCurrentState (occ_state x) then 1 else 0),
             cc_unverified := cc_unverified (ty_changes ty) + (if carried_over x then 1 else 0)\<rparr>\<rparr>)"

text \<open>\<open>new Map(xs.map((item) => [item.lineageId, item]))\<close>.\<close>

definition by_lineage :: "FindingOccurrence list \<Rightarrow> (string \<times> FindingOccurrence) list" where
  "by_lineage xs = foldl (\<lambda>m x. AList.update (occ_lineageId x) x m) [] xs"

section \<open>Counting verified threads\<close>

definition count_unverified :: "bool \<Rightarrow> string \<Rightarrow> Tally \<Rightarrow> Tally" where
  "count_unverified cur identity ty =
     ty\<lparr>ty_verification := (if \<not> cur \<and> identity \<notin> set (ty_countedUnverified ty)
          then (ty_verification ty)\<lparr>vc_unverified := vc_unverified (ty_verification ty) + 1\<rparr> else ty_verification ty),
        ty_countedUnverified := identity # ty_countedUnverified ty\<rparr>"

text \<open>The counters of the two confirmed states; the set of fixes is updated at once, the set of open ones later.\<close>

definition count_verified :: "ConfirmationState \<Rightarrow> string \<Rightarrow> Tally \<Rightarrow> Tally" where
  "count_verified cs identity ty =
     (if cs = ConfirmedOpen \<and> identity \<notin> set (ty_countedOpen ty)
      then ty\<lparr>ty_verification := (ty_verification ty)\<lparr>vc_confirmedOpen := vc_confirmedOpen (ty_verification ty) + 1\<rparr>\<rparr>
      else if cs = FixConfirmedThreadOpen
      then ty\<lparr>ty_verification := (if identity \<notin> set (ty_countedFixes ty)
               then (ty_verification ty)\<lparr>vc_fixesVerified := vc_fixesVerified (ty_verification ty) + 1\<rparr> else ty_verification ty),
             ty_countedFixes := identity # ty_countedFixes ty\<rparr>
      else ty)"

definition replace_lineage :: "FindingOccurrence option \<Rightarrow> Tally \<Rightarrow> Tally" where
  "replace_lineage occurrence ty = (case occurrence of None \<Rightarrow> ty | Some x \<Rightarrow>
     if occ_lineageId x \<notin> set (ty_replacedLineages ty) \<and> carried_over x
     then ty\<lparr>ty_severity := bump (occ_severity x) (-1) (ty_severity ty),
             ty_changes := (ty_changes ty)\<lparr>cc_open := cc_open (ty_changes ty) - 1,
               cc_unverified := cc_unverified (ty_changes ty) - 1\<rparr>,
             ty_replacedLineages := occ_lineageId x # ty_replacedLineages ty\<rparr>
     else ty)"

definition count_open :: "LifecycleVerificationFact \<Rightarrow> string \<Rightarrow> Tally \<Rightarrow> Tally" where
  "count_open f identity ty =
     (if vf_confirmationState f = ConfirmedOpen \<and> identity \<notin> set (ty_countedOpen ty)
      then ty\<lparr>ty_countedOpen := identity # ty_countedOpen ty,
             ty_severity := (case vf_severity f of Some s \<Rightarrow> bump s 1 (ty_severity ty) | None \<Rightarrow> ty_severity ty),
             ty_changes := (ty_changes ty)\<lparr>cc_open := cc_open (ty_changes ty) + 1\<rparr>\<rparr>
      else ty)"

definition count_fact :: "(string \<times> FindingOccurrence) list \<Rightarrow> Tally \<Rightarrow> LifecycleVerificationFact \<Rightarrow> Tally" where
  "count_fact occurrences ty f =
     (let identity = (case vf_lineageId f of Some l \<Rightarrow> l | None \<Rightarrow> vf_targetId f);
          occurrence = (if truthy (vf_lineageId f) then map_of occurrences (the (vf_lineageId f)) else None);
          cur = (case occurrence of Some x \<Rightarrow> isCurrentState (occ_state x) | None \<Rightarrow> False)
      in if vf_confirmationState f = Unverified then count_unverified cur identity ty
         else if vf_confirmationState f = NativeResolved then ty
         else let counted = count_verified (vf_confirmationState f) identity ty
           in if cur
              then (if vf_confirmationState f = ConfirmedOpen
                    then counted\<lparr>ty_countedOpen := identity # ty_countedOpen counted\<rparr> else counted)
              else count_open f identity (replace_lineage occurrence counted))"

section \<open>The presentation\<close>

definition relevant_baseline :: "string \<Rightarrow> ReviewComparisonBaseline option \<Rightarrow> ReviewComparisonBaseline option" where
  "relevant_baseline reviewedHeadSha baseline = (case baseline of None \<Rightarrow> None
     | Some b \<Rightarrow> if bl_sourceReviewedHeadSha b \<noteq> reviewedHeadSha then Some b else None)"

definition prior_hints :: "ReviewComparisonBaseline option \<Rightarrow> string \<Rightarrow> PriorLineageHint option" where
  "prior_hints baseline = map_of (rev (map (\<lambda>h. (hint_lineageId h, h))
     (case baseline of None \<Rightarrow> [] | Some b \<Rightarrow> bl_priorLineageHints b)))"

definition tally :: "string \<Rightarrow> ReviewComparisonBaseline option \<Rightarrow> FindingOccurrence list \<Rightarrow>
    LifecycleVerificationFact list option \<Rightarrow> Tally" where
  "tally reviewedHeadSha baseline occurrences facts =
     (let m = by_lineage occurrences
      in foldl (count_fact m)
           (foldl (count_occurrence (prior_hints (relevant_baseline reviewedHeadSha baseline))) empty_tally (map snd m))
           (some_list facts))"

definition deriveReviewPresentation :: "string \<Rightarrow> ReviewComparisonBaseline option \<Rightarrow> ReviewCoverageFact \<Rightarrow> bool \<Rightarrow>
    FindingOccurrence list \<Rightarrow> LifecycleVerificationFact list option \<Rightarrow> ReviewPresentation res" where
  "deriveReviewPresentation reviewedHeadSha baseline coverage incomplete occurrences facts =
     (let ty = tally reviewedHeadSha baseline occurrences facts;
          update = relevant_baseline reviewedHeadSha baseline \<noteq> None
      in if \<not> distinct (map vf_targetId (some_list facts)) then Inl (JsError ''duplicate lifecycle confirmation target'')
         else Inr \<lparr>rp_update = update,
           rp_complete = (\<not> (incomplete \<or> cov_state coverage \<noteq> Complete)),
           rp_severity = ty_severity ty,
           rp_coverage = (cov_reviewedFiles coverage, cov_totalFiles coverage),
           rp_verification = map_option (\<lambda>_. ty_verification ty) facts,
           rp_changes = (if update then Some (ty_changes ty) else None)\<rparr>)"


section \<open>The counts are consistent\<close>

lemma by_lineage_snoc: "by_lineage (xs @ [x]) = AList.update (occ_lineageId x) x (by_lineage xs)"
  by (simp add: by_lineage_def)

lemma by_lineage_keys: "(k, x) \<in> set (by_lineage xs) \<Longrightarrow> k = occ_lineageId x"
proof (induction xs rule: rev_induct)
  case (snoc y ys)
  have "set (AList.update a b m) \<subseteq> insert (a, b) (set m)" for a b and m :: "(string \<times> FindingOccurrence) list"
    by (induction m) auto
  with snoc show ?case unfolding by_lineage_snoc by blast
qed (simp add: by_lineage_def)

lemma by_lineage_distinct: "distinct (map fst (by_lineage xs))"
  by (induction xs rule: rev_induct) (simp_all add: by_lineage_snoc distinct_update, simp add: by_lineage_def)

lemma by_lineage_lineages: "map occ_lineageId (map snd (by_lineage xs)) = map fst (by_lineage xs)"
  using by_lineage_keys [of _ _ xs] by auto

lemma by_lineage_lookup: "map_of (by_lineage xs) l = Some x \<Longrightarrow> occ_lineageId x = l \<and> x \<in> set (map snd (by_lineage xs))"
  using by_lineage_keys [of l x xs] by (force dest: map_of_SomeD)

text \<open>The lineages that are carried over and not yet replaced are still counted.\<close>

definition carried :: "FindingOccurrence list \<Rightarrow> string list \<Rightarrow> FindingOccurrence set" where
  "carried xs replaced = {x \<in> set xs. carried_over x \<and> occ_lineageId x \<notin> set replaced}"

definition carried_at :: "FindingOccurrence list \<Rightarrow> string list \<Rightarrow> Severity \<Rightarrow> FindingOccurrence set" where
  "carried_at xs replaced s = {x \<in> carried xs replaced. occ_severity x = s}"

definition tally_ok :: "FindingOccurrence list \<Rightarrow> Tally \<Rightarrow> bool" where
  "tally_ok xs ty \<longleftrightarrow>
     (\<forall>s. int (card (carried_at xs (ty_replacedLineages ty) s)) \<le> ty_severity ty s) \<and>
     cc_unverified (ty_changes ty) = int (card (carried xs (ty_replacedLineages ty))) \<and>
     0 \<le> cc_new (ty_changes ty) \<and> 0 \<le> cc_resolved (ty_changes ty) \<and>
     cc_new (ty_changes ty) + cc_unverified (ty_changes ty) \<le> cc_open (ty_changes ty) \<and>
     ty_severity ty Critical + ty_severity ty Major + ty_severity ty Minor \<le> cc_open (ty_changes ty)"

definition verification_total :: "Tally \<Rightarrow> int" where
  "verification_total ty = vc_confirmedOpen (ty_verification ty) + vc_fixesVerified (ty_verification ty) +
     vc_unverified (ty_verification ty)"

definition verification_ok :: "Tally \<Rightarrow> bool" where
  "verification_ok ty \<longleftrightarrow> 0 \<le> vc_confirmedOpen (ty_verification ty) \<and> 0 \<le> vc_fixesVerified (ty_verification ty) \<and>
     0 \<le> vc_unverified (ty_verification ty)"

lemma finite_carried [simp]: "finite (carried xs r)" "finite (carried_at xs r s)"
  by (simp_all add: carried_def carried_at_def)

lemma bump_total: "bump s n c Critical + bump s n c Major + bump s n c Minor = c Critical + c Major + c Minor + n"
  by (cases s) (simp_all add: bump_def)

lemma carried_snoc:
  assumes "x \<notin> set xs"
  shows "card (carried (xs @ [x]) []) = card (carried xs []) + (if carried_over x then 1 else 0)"
    "card (carried_at (xs @ [x]) [] s) = card (carried_at xs [] s) + (if carried_over x \<and> occ_severity x = s then 1 else 0)"
proof -
  have "carried (xs @ [x]) [] = (if carried_over x then insert x (carried xs []) else carried xs [])"
    by (auto simp: carried_def)
  moreover have "carried_at (xs @ [x]) [] s =
      (if carried_over x \<and> occ_severity x = s then insert x (carried_at xs [] s) else carried_at xs [] s)"
    by (auto simp: carried_at_def carried_def)
  moreover have "x \<notin> carried xs []" "x \<notin> carried_at xs [] s" using assms by (auto simp: carried_def carried_at_def)
  ultimately show "card (carried (xs @ [x]) []) = card (carried xs []) + (if carried_over x then 1 else 0)"
    "card (carried_at (xs @ [x]) [] s) = card (carried_at xs [] s) + (if carried_over x \<and> occ_severity x = s then 1 else 0)"
    by simp_all
qed

lemma count_occurrence_ok:
  assumes "tally_ok xs ty" "ty_replacedLineages ty = []" "x \<notin> set xs"
  shows "tally_ok (xs @ [x]) (count_occurrence prior ty x)" "ty_replacedLineages (count_occurrence prior ty x) = []"
    "ty_verification (count_occurrence prior ty x) = ty_verification ty"
proof -
  show r: "ty_replacedLineages (count_occurrence prior ty x) = []"
    and "ty_verification (count_occurrence prior ty x) = ty_verification ty"
    using assms(2) by (simp_all add: count_occurrence_def split: option.split)
  have not: "\<not> carried_over x" if "occ_state x = OccSuppressedByHuman \<or> occ_state x = OccResolved"
    using that by (auto simp: carried_over_def)
  have cur: "\<not> (isCurrentState (occ_state x) \<and> carried_over x)"
    by (auto simp: carried_over_def isCurrentState_def)
  show "tally_ok (xs @ [x]) (count_occurrence prior ty x)"
  proof (cases "occ_state x = OccSuppressedByHuman \<or> occ_state x = OccResolved")
    case True
    with not have "\<not> carried_over x" by blast
    with True assms r show ?thesis
      by (auto simp: tally_ok_def carried_snoc [OF assms(3)] count_occurrence_def split: option.split)
  next
    case False
    have "\<forall>s. int (card (carried_at xs [] s)) \<le> ty_severity ty s" using assms(1,2) by (simp add: tally_ok_def)
    then have "int (card (carried_at xs [] s)) \<le> ty_severity ty s + 1" for s
      by (meson add_increasing2 zero_le_one)
    with False assms r cur show ?thesis
      by (auto simp: tally_ok_def carried_snoc [OF assms(3)] count_occurrence_def bump_total)
         (auto simp: bump_def)
  qed
qed


lemma count_occurrences_ok:
  assumes "distinct xs"
  shows "tally_ok xs (foldl (count_occurrence prior) empty_tally xs) \<and>
    ty_replacedLineages (foldl (count_occurrence prior) empty_tally xs) = [] \<and>
    ty_verification (foldl (count_occurrence prior) empty_tally xs) = ty_verification empty_tally"
  using assms
proof (induction xs rule: rev_induct)
  case Nil
  show ?case by (simp add: tally_ok_def empty_tally_def carried_def carried_at_def)
next
  case (snoc x xs)
  then show ?case
    using count_occurrence_ok [of xs "foldl (count_occurrence prior) empty_tally xs" x prior] by simp
qed

lemma tally_ok_cong: "ty_severity ty' = ty_severity ty \<Longrightarrow> ty_changes ty' = ty_changes ty \<Longrightarrow>
    ty_replacedLineages ty' = ty_replacedLineages ty \<Longrightarrow> tally_ok xs ty' \<longleftrightarrow> tally_ok xs ty"
  by (simp add: tally_ok_def)

lemma count_verified_same: "ty_severity (count_verified cs i ty) = ty_severity ty" "ty_changes (count_verified cs i ty) = ty_changes ty"
    "ty_replacedLineages (count_verified cs i ty) = ty_replacedLineages ty"
  by (simp_all add: count_verified_def)

lemma count_unverified_same: "ty_severity (count_unverified c i ty) = ty_severity ty" "ty_changes (count_unverified c i ty) = ty_changes ty"
    "ty_replacedLineages (count_unverified c i ty) = ty_replacedLineages ty"
  by (simp_all add: count_unverified_def)

lemma replace_lineage_ok:
  assumes "tally_ok xs ty" "distinct (map occ_lineageId xs)" "\<forall>x. occurrence = Some x \<longrightarrow> x \<in> set xs"
  shows "tally_ok xs (replace_lineage occurrence ty)"
proof (cases "\<exists>x. occurrence = Some x \<and> occ_lineageId x \<notin> set (ty_replacedLineages ty) \<and> carried_over x")
  case True
  then obtain x where x: "occurrence = Some x" "occ_lineageId x \<notin> set (ty_replacedLineages ty)" "carried_over x" by blast
  let ?r = "ty_replacedLineages ty" and ?ty = "replace_lineage occurrence ty"
  have "inj_on occ_lineageId (set xs)" "x \<in> set xs" using assms(2,3) x(1) by (auto simp: distinct_map)
  then have rest: "carried xs (occ_lineageId x # ?r) = carried xs ?r - {x}"
      "carried_at xs (occ_lineageId x # ?r) s = (if s = occ_severity x then carried_at xs ?r s - {x} else carried_at xs ?r s)"
      and "x \<in> carried xs ?r" "x \<in> carried_at xs ?r (occ_severity x)" for s
    using x by (auto simp: carried_at_def carried_def inj_on_def)
  then have pos: "0 < card (carried xs ?r)" "0 < card (carried_at xs ?r (occ_severity x))"
    by (auto simp: card_gt_0_iff)
  have cards: "int (card (carried xs (occ_lineageId x # ?r))) = int (card (carried xs ?r)) - 1"
      "int (card (carried_at xs (occ_lineageId x # ?r) s)) =
       int (card (carried_at xs ?r s)) - (if s = occ_severity x then 1 else 0)" for s
    unfolding rest using pos \<open>x \<in> carried xs ?r\<close> \<open>x \<in> carried_at xs ?r (occ_severity x)\<close>
    by (auto simp: card_Diff_singleton of_nat_diff)
  have ty: "ty_severity ?ty = bump (occ_severity x) (-1) (ty_severity ty)"
      "cc_open (ty_changes ?ty) = cc_open (ty_changes ty) - 1"
      "cc_unverified (ty_changes ?ty) = cc_unverified (ty_changes ty) - 1"
      "cc_new (ty_changes ?ty) = cc_new (ty_changes ty)" "cc_resolved (ty_changes ?ty) = cc_resolved (ty_changes ty)"
      "ty_replacedLineages ?ty = occ_lineageId x # ?r"
    using x by (simp_all add: replace_lineage_def)
  have "bump (occ_severity x) (-1) c s = c s - (if s = occ_severity x then 1 else 0)" for c s by (simp add: bump_def)
  then show ?thesis
    using assms(1) unfolding tally_ok_def ty cards bump_total by auto
next
  case False
  then have "replace_lineage occurrence ty = ty" by (auto simp: replace_lineage_def split: option.split)
  with assms(1) show ?thesis by simp
qed


lemma count_open_ok: "tally_ok xs ty \<Longrightarrow> tally_ok xs (count_open f identity ty)"
proof (cases "vf_confirmationState f = ConfirmedOpen \<and> identity \<notin> set (ty_countedOpen ty)")
  case True
  assume ok: "tally_ok xs ty"
  let ?ty = "count_open f identity ty"
  have "c s \<le> bump t 1 c s" for c s t by (simp add: bump_def)
  then have sev: "ty_severity ty s \<le> ty_severity ?ty s" for s
    using True by (simp add: count_open_def split: option.split)
  have total: "ty_severity ?ty Critical + ty_severity ?ty Major + ty_severity ?ty Minor \<le>
      ty_severity ty Critical + ty_severity ty Major + ty_severity ty Minor + 1"
    using True by (simp add: count_open_def bump_total split: option.split)
  have rest: "ty_replacedLineages ?ty = ty_replacedLineages ty" "cc_open (ty_changes ?ty) = cc_open (ty_changes ty) + 1"
      "cc_new (ty_changes ?ty) = cc_new (ty_changes ty)" "cc_resolved (ty_changes ?ty) = cc_resolved (ty_changes ty)"
      "cc_unverified (ty_changes ?ty) = cc_unverified (ty_changes ty)"
    using True by (simp_all add: count_open_def)
  have "int (card (carried_at xs (ty_replacedLineages ty) s)) \<le> ty_severity ?ty s" for s
    using ok sev [of s] unfolding tally_ok_def by (meson order_trans)
  with ok total show ?thesis unfolding tally_ok_def rest by auto
qed (auto simp: count_open_def)

lemma count_fact_ok:
  assumes "tally_ok (map snd m) ty" "distinct (map occ_lineageId (map snd m))"
    and "\<forall>l x. map_of m l = Some x \<longrightarrow> x \<in> set (map snd m)"
  shows "tally_ok (map snd m) (count_fact m ty f)"
proof -
  let ?o = "if truthy (vf_lineageId f) then map_of m (the (vf_lineageId f)) else None"
  have "\<forall>x. ?o = Some x \<longrightarrow> x \<in> set (map snd m)" using assms(3) by auto
  note replaced = replace_lineage_ok [OF _ assms(2) this]
  show ?thesis
    unfolding count_fact_def Let_def
    using assms(1) replaced count_open_ok
    by (simp add: tally_ok_cong [OF count_unverified_same] tally_ok_cong [OF count_verified_same]
        tally_ok_cong [of "_\<lparr>ty_countedOpen := _\<rparr>"])
qed

lemma count_facts_ok:
  assumes "tally_ok (map snd m) ty" "distinct (map occ_lineageId (map snd m))"
    and "\<forall>l x. map_of m l = Some x \<longrightarrow> x \<in> set (map snd m)"
  shows "tally_ok (map snd m) (foldl (count_fact m) ty fs)"
  using assms by (induction fs arbitrary: ty) (simp_all add: count_fact_ok)

lemma verification_step:
  assumes "verification_ok ty"
  shows "verification_ok (count_fact m ty f) \<and> verification_total (count_fact m ty f) \<le> verification_total ty + 1"
proof -
  have open': "ty_verification (count_open f i ty) = ty_verification ty" for i ty by (simp add: count_open_def)
  have replaced: "ty_verification (replace_lineage x ty) = ty_verification ty" for x ty
    by (simp add: replace_lineage_def split: option.split)
  show ?thesis
    using assms unfolding count_fact_def Let_def verification_ok_def verification_total_def
    by (simp add: open' replaced) (simp add: count_unverified_def count_verified_def)
qed

lemma verification_steps:
  assumes "verification_ok ty"
  shows "verification_ok (foldl (count_fact m) ty fs) \<and>
    verification_total (foldl (count_fact m) ty fs) \<le> verification_total ty + int (length fs)"
  using assms
proof (induction fs arbitrary: ty)
  case (Cons f fs)
  note step = verification_step [OF Cons.prems, of m f]
  show ?case using step Cons.IH [OF conjunct1 [OF step]] by simp
qed simp


text \<open>
  Whatever the occurrences and the verified threads are, no count of the presentation is negative; new and
  unverified findings are among the open ones and every finding counted by severity is open; each verified
  thread counts at most once; and the review is presented as complete only under complete coverage.
\<close>

theorem presentation_counts_are_consistent:
  assumes "deriveReviewPresentation head baseline coverage incomplete occurrences facts = Inr p"
  shows "0 \<le> rp_severity p s \<and>
    (case rp_changes p of None \<Rightarrow> True | Some c \<Rightarrow>
       0 \<le> cc_new c \<and> 0 \<le> cc_resolved c \<and> 0 \<le> cc_unverified c \<and> cc_new c + cc_unverified c \<le> cc_open c \<and>
       rp_severity p Critical + rp_severity p Major + rp_severity p Minor \<le> cc_open c) \<and>
    (case rp_verification p of None \<Rightarrow> facts = None | Some v \<Rightarrow>
       0 \<le> vc_confirmedOpen v \<and> 0 \<le> vc_fixesVerified v \<and> 0 \<le> vc_unverified v \<and>
       vc_confirmedOpen v + vc_fixesVerified v + vc_unverified v \<le> int (length (some_list facts))) \<and>
    (rp_complete p \<longleftrightarrow> \<not> incomplete \<and> cov_state coverage = Complete)"
proof -
  let ?m = "by_lineage occurrences" and ?ty = "tally head baseline occurrences facts"
  let ?prior = "prior_hints (relevant_baseline head baseline)"
  let ?init = "foldl (count_occurrence ?prior) empty_tally (map snd ?m)"
  have lineages: "distinct (map occ_lineageId (map snd ?m))"
    using by_lineage_distinct by (simp only: by_lineage_lineages)
  then have start: "tally_ok (map snd ?m) ?init" "ty_verification ?init = ty_verification empty_tally"
    using count_occurrences_ok [of "map snd ?m" ?prior] lineages [unfolded distinct_map [of occ_lineageId]] by blast+
  have "verification_ok ?init" "verification_total ?init = 0"
    unfolding verification_ok_def verification_total_def start(2) by (simp_all add: empty_tally_def)
  then have v: "verification_ok ?ty" "verification_total ?ty \<le> int (length (some_list facts))"
    using verification_steps [of ?init ?m "some_list facts"] by (simp_all add: tally_def Let_def)
  have "\<forall>l x. map_of ?m l = Some x \<longrightarrow> x \<in> set (map snd ?m)" using by_lineage_lookup by blast
  then have ok: "tally_ok (map snd ?m) ?ty"
    unfolding tally_def Let_def by (rule count_facts_ok [OF start(1) lineages])
  have p: "rp_severity p = ty_severity ?ty" "rp_verification p = map_option (\<lambda>_. ty_verification ?ty) facts"
      "rp_changes p = None \<or> rp_changes p = Some (ty_changes ?ty)"
      "rp_complete p \<longleftrightarrow> \<not> incomplete \<and> cov_state coverage = Complete"
    using assms by (auto simp: deriveReviewPresentation_def Let_def split: if_splits)
  have "0 \<le> ty_severity ?ty s" for s
    using ok unfolding tally_ok_def by (meson of_nat_0_le_iff order_trans)
  then show ?thesis
    using ok v p unfolding tally_ok_def verification_ok_def verification_total_def
    by (auto split: option.split)
qed

definition demo_occurrence :: "string \<Rightarrow> FindingOccurrenceState \<Rightarrow> FindingOccurrence" where
  "demo_occurrence lineage state = \<lparr>occ_lineageId = lineage, occ_sourceFindingIds = [], occ_state = state,
     occ_severity = Major, occ_previousSeverity = None, occ_category = ''bug'', occ_failureModeHash = ''h'',
     occ_symbolAnchor = None, occ_trustedMarker = Some lineage, occ_anchorVerified = None, occ_title = ''t'',
     occ_message = ''m'', occ_suggestion = None, occ_filePath = ''a.ts'', occ_startLine = None, occ_line = Some 1,
     occ_endLine = None,
     occ_placement = \<lparr>pl_lineageId = lineage, pl_kind = SummaryPlacement, pl_path = ''a.ts'', pl_startLine = None,
       pl_line = None, pl_endLine = None, pl_body = None, pl_reason = None\<rparr>,
     occ_providerVoteKeys = [], occ_observationIds = [], occ_firstSeenHeadSha = ''head'', occ_sourceHeadSha = ''head'',
     occ_blocking = False\<rparr>"

definition demo_fact :: "string \<Rightarrow> ConfirmationState \<Rightarrow> LifecycleVerificationFact" where
  "demo_fact lineage cs = \<lparr>vf_targetId = lineage, vf_lineageId = Some lineage, vf_semanticVerdict = StillValid,
     vf_confirmationState = cs, vf_severity = Some Major, vf_observationIds = [], vf_providerVoteKeys = [],
     vf_reasonCodes = [], vf_mutationStatus = NotEligible\<rparr>"

definition demo_presentation :: "ReviewPresentation res" where
  "demo_presentation = deriveReviewPresentation ''head'' None
     \<lparr>cov_state = Complete, cov_incremental = False, cov_totalFiles = 1, cov_reviewedFiles = 1,
      cov_unreviewedFiles = 0, cov_limitations = [], cov_files = None\<rparr> False
     [demo_occurrence ''a'' OccNew, demo_occurrence ''b'' OccCarriedUnverified]
     (Some [demo_fact ''b'' FixConfirmedThreadOpen])"

theorem presentation_counts_are_consistent_witness:
  "(case demo_presentation of Inl e \<Rightarrow> False | Inr p \<Rightarrow> rp_severity p Major = 1 \<and> 0 \<le> rp_severity p Minor \<and> rp_complete p)"
proof -
  have "(case demo_presentation of Inl e \<Rightarrow> False | Inr p \<Rightarrow> rp_severity p Major = 1)" by code_simp
  then obtain p where p: "demo_presentation = Inr p" "rp_severity p Major = 1" by (auto split: sum.splits)
  from presentation_counts_are_consistent [OF p(1) [unfolded demo_presentation_def], of Minor] p(2) show ?thesis
    unfolding p(1) by simp
qed

end
