(* ===== verification/Projection_Checks.thy ===== *)
theory Projection_Checks
  imports Finding_Marker Review_Presentation Canonical_Json
begin

text \<open>
  \<open>src/review-projection/domain/review-projection-limits.ts\<close> and the validations of
  \<open>application/build-current-review-projection.ts\<close>: what a projection checks of the command, the inventory
  of threads and the decisions of its policies before it uses them.  A validation is its error; the limits are
  a function of their names.
\<close>

section \<open>Limits\<close>

datatype LimitName = MaxProjectionBytes | MaxFindings | MaxReferencesPerFinding | MaxLineageHints | MaxLifecycleTargets
  | MaxRevisionFiles | MaxDiffBytes | MaxSummaryBytes | MaxCheckSummaryBytes | MaxInlineComments
  | MaxInlineCommentsPerChunk | MaxInlineChunks | MaxInlineCommentBodyBytes | MaxStringBytes

type_synonym ReviewProjectionLimits = "LimitName \<Rightarrow> int"

fun REVIEW_PROJECTION_ABSOLUTE_LIMITS :: ReviewProjectionLimits where
  "REVIEW_PROJECTION_ABSOLUTE_LIMITS MaxProjectionBytes = 2000000"
| "REVIEW_PROJECTION_ABSOLUTE_LIMITS MaxFindings = 1000"
| "REVIEW_PROJECTION_ABSOLUTE_LIMITS MaxReferencesPerFinding = 100"
| "REVIEW_PROJECTION_ABSOLUTE_LIMITS MaxLineageHints = 2000"
| "REVIEW_PROJECTION_ABSOLUTE_LIMITS MaxLifecycleTargets = 2000"
| "REVIEW_PROJECTION_ABSOLUTE_LIMITS MaxRevisionFiles = 5000"
| "REVIEW_PROJECTION_ABSOLUTE_LIMITS MaxDiffBytes = 2000000"
| "REVIEW_PROJECTION_ABSOLUTE_LIMITS MaxSummaryBytes = 65000"
| "REVIEW_PROJECTION_ABSOLUTE_LIMITS MaxCheckSummaryBytes = 65000"
| "REVIEW_PROJECTION_ABSOLUTE_LIMITS MaxInlineComments = 500"
| "REVIEW_PROJECTION_ABSOLUTE_LIMITS MaxInlineCommentsPerChunk = 50"
| "REVIEW_PROJECTION_ABSOLUTE_LIMITS MaxInlineChunks = 20"
| "REVIEW_PROJECTION_ABSOLUTE_LIMITS MaxInlineCommentBodyBytes = 65000"
| "REVIEW_PROJECTION_ABSOLUTE_LIMITS MaxStringBytes = 65000"

definition limit_names :: "LimitName list" where
  "limit_names = [MaxProjectionBytes, MaxFindings, MaxReferencesPerFinding, MaxLineageHints, MaxLifecycleTargets,
     MaxRevisionFiles, MaxDiffBytes, MaxSummaryBytes, MaxCheckSummaryBytes, MaxInlineComments,
     MaxInlineCommentsPerChunk, MaxInlineChunks, MaxInlineCommentBodyBytes, MaxStringBytes]"

fun limit_key :: "LimitName \<Rightarrow> string" where
  "limit_key MaxProjectionBytes = ''maxProjectionBytes''"
| "limit_key MaxFindings = ''maxFindings''"
| "limit_key MaxReferencesPerFinding = ''maxReferencesPerFinding''"
| "limit_key MaxLineageHints = ''maxLineageHints''"
| "limit_key MaxLifecycleTargets = ''maxLifecycleTargets''"
| "limit_key MaxRevisionFiles = ''maxRevisionFiles''"
| "limit_key MaxDiffBytes = ''maxDiffBytes''"
| "limit_key MaxSummaryBytes = ''maxSummaryBytes''"
| "limit_key MaxCheckSummaryBytes = ''maxCheckSummaryBytes''"
| "limit_key MaxInlineComments = ''maxInlineComments''"
| "limit_key MaxInlineCommentsPerChunk = ''maxInlineCommentsPerChunk''"
| "limit_key MaxInlineChunks = ''maxInlineChunks''"
| "limit_key MaxInlineCommentBodyBytes = ''maxInlineCommentBodyBytes''"
| "limit_key MaxStringBytes = ''maxStringBytes''"

text \<open>The message of a \<open>ReviewProjectionLimitError\<close>.\<close>

definition limit_error :: "LimitName \<Rightarrow> int \<Rightarrow> int \<Rightarrow> js_error" where
  "limit_error name actual maximum = JsError (''review projection '' @ limit_key name @ '' exceeded: '' @
     show_int actual @ '' is greater than '' @ show_int maximum)"

definition limit_check :: "LimitName \<Rightarrow> int \<Rightarrow> int \<Rightarrow> js_error option" where
  "limit_check name actual maximum = (if actual > maximum then Some (limit_error name actual maximum) else None)"

definition validateReviewProjectionLimits :: "ReviewProjectionLimits \<Rightarrow> ReviewProjectionLimits res" where
  "validateReviewProjectionLimits limits = throws
     (first_error (\<lambda>key. first_problem
        [check (is_safe_integer (limits key) \<and> limits key > 0)
           (''review projection '' @ limit_key key @ '' must be a positive integer''),
         limit_check key (limits key) (REVIEW_PROJECTION_ABSOLUTE_LIMITS key)]) limit_names)
     (Inr limits)"

definition assertWithinProjectionLimit :: "LimitName \<Rightarrow> int \<Rightarrow> ReviewProjectionLimits \<Rightarrow> js_error option" where
  "assertWithinProjectionLimit name actual limits = limit_check name actual (limits name)"

definition assertBytes :: "LimitName \<Rightarrow> ReviewProjectionLimits \<Rightarrow> string \<Rightarrow> js_error option" where
  "assertBytes name limits s = assertWithinProjectionLimit name (int (byte_length s)) limits"

definition assertNonEmpty :: "string \<Rightarrow> string \<Rightarrow> js_error option" where
  "assertNonEmpty name s = check (js_trim s \<noteq> []) (name @ '' must not be empty'')"

lemma limit_check_None [res_simps]: "limit_check name n m = None \<longleftrightarrow> n \<le> m"
  by (simp add: limit_check_def)

lemma assertWithin_None [res_simps]: "assertWithinProjectionLimit name n limits = None \<longleftrightarrow> n \<le> limits name"
  by (simp add: assertWithinProjectionLimit_def res_simps)

lemma assertBytes_None [res_simps]: "assertBytes name limits s = None \<longleftrightarrow> int (byte_length s) \<le> limits name"
  by (simp add: assertBytes_def res_simps)

lemma assertNonEmpty_None [res_simps]: "assertNonEmpty name s = None \<longleftrightarrow> js_trim s \<noteq> []"
  by (simp add: assertNonEmpty_def res_simps)

lemma limit_names_all: "key \<in> set limit_names"
  by (cases key) (simp_all add: limit_names_def)

lemma valid_limits: "validateReviewProjectionLimits limits = Inr l \<Longrightarrow>
    l = limits \<and> (\<forall>key. 0 < limits key \<and> limits key \<le> REVIEW_PROJECTION_ABSOLUTE_LIMITS key)"
proof -
  assume "validateReviewProjectionLimits limits = Inr l"
  then have all: "l = limits" "\<forall>key \<in> set limit_names. 0 < limits key \<and> limits key \<le> REVIEW_PROJECTION_ABSOLUTE_LIMITS key"
    unfolding validateReviewProjectionLimits_def by (auto simp: res_simps)
  then show ?thesis using limit_names_all by blast
qed

section \<open>The command\<close>

record ProviderExecutionSummaryFact =
  pe_plannedProviders :: int
  pe_succeededProviders :: int

text \<open>What is only handed on to the presentation (title and author, quota and failure notices, the causes of an
  incomplete review) is of a type \<open>'x\<close>.\<close>

record 'x ProjectionCommand =
  cmd_comparisonBaseline :: "ReviewComparisonBaseline option"
  cmd_projectionPolicyVersion :: string
  cmd_authoritativeObservationIds :: "string list"
  cmd_scope :: ReviewProjectionScope
  cmd_presentation :: 'x
  cmd_providerExecution :: ProviderExecutionSummaryFact
  cmd_currentFindings :: "CurrentFindingCandidate list"
  cmd_lifecycleVerification :: "LifecycleVerificationContext option"
  cmd_priorLineageHints :: "PriorLineageHint list"
  cmd_lifecycleRevalidations :: "LifecycleRevalidation list"
  cmd_coverage :: ReviewCoverageFact
  cmd_revisionFiles :: "RevisionFile list"
  cmd_diff :: string
  cmd_failOnSeverity :: "Severity option"

section \<open>Validations\<close>

definition some_text :: "string option \<Rightarrow> string" where
  "some_text s = (case s of Some x \<Rightarrow> x | None \<Rightarrow> [])"

definition validateProviderExecutionSummary :: "ProviderExecutionSummaryFact \<Rightarrow> js_error option" where
  "validateProviderExecutionSummary s = first_problem
     [check (is_safe_integer (pe_plannedProviders s) \<and> \<not> pe_plannedProviders s < 0)
        ''plannedProviders must be a non-negative safe integer'',
      check (is_safe_integer (pe_succeededProviders s) \<and> \<not> pe_succeededProviders s < 0 \<and>
             \<not> pe_succeededProviders s > pe_plannedProviders s)
        ''succeededProviders must be between zero and plannedProviders'']"

definition validateAuthoritativeObservationIds :: "string list \<Rightarrow> ReviewProjectionLimits \<Rightarrow> js_error option" where
  "validateAuthoritativeObservationIds ids limits = first_problem
     [first_error (\<lambda>i. first_problem
        [assertNonEmpty ''authoritative observationId'' i, assertBytes MaxStringBytes limits i]) ids,
      assertUniqueValues ''authoritative observationId'' ids]"

definition validateFinding :: "('a CurrentFindingCandidate_scheme) \<Rightarrow> ReviewProjectionLimits \<Rightarrow> js_error option" where
  "validateFinding f limits = first_problem
     [assertNonEmpty ''sourceFindingId'' (cf_sourceFindingId f),
      assertNonEmpty ''category'' (cf_category f),
      assertNonEmpty ''normalizedFailureModeHash'' (cf_failureModeHash f),
      assertNonEmpty ''title'' (cf_title f),
      assertNonEmpty ''message'' (cf_message f),
      assertNonEmpty ''filePath'' (cf_filePath f),
      first_error (assertBytes MaxStringBytes limits)
        [cf_sourceFindingId f, cf_category f, cf_failureModeHash f, some_text (cf_symbolAnchor f),
         some_text (cf_trustedMarker f), cf_title f, cf_message f, some_text (cf_suggestion f), cf_filePath f],
      first_error (\<lambda>references. first_problem
        [assertWithinProjectionLimit MaxReferencesPerFinding (int (length references)) limits,
         first_error (assertBytes MaxStringBytes limits) references])
        [cf_providerIds f, cf_providerVoteKeys f, cf_observationIds f],
      check (case cf_line f of Some l \<Rightarrow> \<not> l \<le> 0 | None \<Rightarrow> True) ''finding line must be positive when present'']"

definition validateSelectedFindings :: "CurrentFindingCandidate list \<Rightarrow> SelectedCurrentFinding list \<Rightarrow>
    ReviewProjectionLimits \<Rightarrow> js_error option" where
  "validateSelectedFindings candidates selected limits =
     (let candidateIds = map cf_sourceFindingId candidates
      in first_error (\<lambda>f. first_problem
        [validateFinding f limits,
         check (length (sf_sourceFindingIds f) \<noteq> 0) ''selected finding must retain at least one source finding'',
         assertWithinProjectionLimit MaxReferencesPerFinding (int (length (sf_sourceFindingIds f))) limits,
         assertUniqueValues ''selected sourceFindingId'' (sf_sourceFindingIds f),
         first_error (\<lambda>i. check (i \<in> set candidateIds)
            (''selected finding references unknown source '' @ i)) (sf_sourceFindingIds f)]) selected)"

definition validateLifecycleDecisions :: "CurrentLifecycleInventory \<Rightarrow> LifecycleProjectionDecision list \<Rightarrow> js_error option" where
  "validateLifecycleDecisions inventory decisions = first_problem
     [assertUniqueValues ''lifecycle decision targetId'' (map dec_targetId decisions),
      first_error (\<lambda>d. check (dec_targetId d \<in> set (map lt_targetId (inv_targets inventory)))
        (''lifecycle decision references unknown target '' @ dec_targetId d)) decisions]"

definition validateCommand :: "'x ProjectionCommand \<Rightarrow> ReviewProjectionLimits \<Rightarrow> js_error option" where
  "validateCommand command limits = first_problem
     [assertNonEmpty ''projectionPolicyVersion'' (cmd_projectionPolicyVersion command),
      validateAuthoritativeObservationIds (cmd_authoritativeObservationIds command) limits,
      validateProviderExecutionSummary (cmd_providerExecution command),
      assertNonEmpty ''scmRepositoryIdentityId'' (scope_repository (cmd_scope command)),
      assertNonEmpty ''baseSha'' (scope_baseSha (cmd_scope command)),
      assertNonEmpty ''reviewedHeadSha'' (scope_headSha (cmd_scope command)),
      assertNonEmpty ''reviewRevisionHash'' (scope_revisionHash (cmd_scope command)),
      check (is_safe_integer (scope_pullRequest (cmd_scope command))) ''pullRequestNumber must be a safe integer'',
      assertWithinProjectionLimit MaxFindings (int (length (cmd_currentFindings command))) limits,
      assertWithinProjectionLimit MaxLineageHints (int (length (cmd_priorLineageHints command))) limits,
      assertWithinProjectionLimit MaxLifecycleTargets (int (length (cmd_lifecycleRevalidations command))) limits,
      assertWithinProjectionLimit MaxRevisionFiles (int (length (cmd_revisionFiles command))) limits,
      assertBytes MaxDiffBytes limits (cmd_diff command),
      first_error (\<lambda>f. validateFinding f limits) (cmd_currentFindings command),
      assertUniqueValues ''sourceFindingId'' (map cf_sourceFindingId (cmd_currentFindings command)),
      assertUniqueValues ''prior lineageId'' (map hint_lineageId (cmd_priorLineageHints command)),
      assertUniqueValues ''revision file path'' (map (projection_path \<circ> rf_path) (cmd_revisionFiles command)),
      first_error (\<lambda>h. first_error (assertBytes MaxStringBytes limits)
        [hint_lineageId h, hint_category h, hint_failureModeHash h, some_text (hint_symbolAnchor h),
         some_text (hint_trustedMarker h), hint_title h, hint_message h, hint_filePath h])
        (cmd_priorLineageHints command)]"

definition validateInventory :: "ReviewProjectionScope \<Rightarrow> CurrentLifecycleInventory \<Rightarrow> ReviewProjectionLimits \<Rightarrow> js_error option" where
  "validateInventory scope inventory limits = first_problem
     [check (inv_version inventory = ''review_lifecycle_inventory.v1'') ''unsupported lifecycle inventory version'',
      check (inv_loadedForHeadSha inventory = scope_headSha scope)
        ''lifecycle inventory was not loaded for the reviewed head'',
      assertNonEmpty ''lifecycleStateHash'' (inv_lifecycleStateHash inventory),
      assertNonEmpty ''commandLedgerWatermark'' (inv_commandLedgerWatermark inventory),
      assertWithinProjectionLimit MaxLifecycleTargets (int (length (inv_targets inventory))) limits,
      assertUniqueValues ''lifecycle targetId'' (map lt_targetId (inv_targets inventory)),
      first_error (\<lambda>t. first_problem
        [check (isReviewLifecycleMarkerFingerprint (lt_trustedMarker t))
           ''lifecycle trustedMarker must be a supported lowercase fingerprint'',
         check (is_digest 64 (lt_threadStateHash t)) ''lifecycle threadStateHash must be lowercase sha256'',
         first_error (assertBytes MaxStringBytes limits)
           [lt_targetId t, lt_threadId t, lt_trustedMarker t, lt_title t, lt_message t, lt_originalPath t,
            some_text (lt_currentPath t), lt_threadStateHash t]])
        (inv_targets inventory)]"

definition validateRenderedText :: "string \<Rightarrow> string \<Rightarrow> string \<Rightarrow> string \<Rightarrow> ReviewProjectionInlineChunkFact list \<Rightarrow>
    ReviewProjectionLimits \<Rightarrow> js_error option" where
  "validateRenderedText summary checkName checkTitle checkSummary chunks limits = first_problem
     [assertBytes MaxSummaryBytes limits summary,
      first_error (assertBytes MaxStringBytes limits) [checkName, checkTitle],
      assertBytes MaxCheckSummaryBytes limits checkSummary,
      first_error (\<lambda>chunk. first_error (assertBytes MaxInlineCommentBodyBytes limits \<circ> ic_body) (ch_comments chunk)) chunks]"

end
