(* ===== verification/Projection_Json.thy ===== *)
theory Projection_Json
  imports Projection_Data Canonical_Json
begin

text \<open>
  The projection envelope as the JSON value that \<open>canonicalizeReviewProjection\<close> of
  \<open>src/review-projection/domain/review-projection-canonicalizer.ts\<close> serializes: the members of the interfaces
  of \<open>review-projection.ts\<close>, a member with the value \<open>undefined\<close> left out.  The keys are sorted by the
  serializer, \<open>canonicalJson\<close>.
\<close>

section \<open>Members\<close>

definition optional :: "string \<Rightarrow> ('a \<Rightarrow> json) \<Rightarrow> 'a option \<Rightarrow> (string \<times> json) list" where
  "optional key f v = (case v of None \<Rightarrow> [] | Some x \<Rightarrow> [(key, f x)])"

definition strings :: "string list \<Rightarrow> json" where
  "strings xs = JArr (map JStr xs)"

section \<open>Enumerations\<close>

fun coverage_state_value :: "ProjectionCoverageState \<Rightarrow> string" where
  "coverage_state_value Complete = ''complete''"
| "coverage_state_value Partial = ''partial''"

fun occurrence_state_value :: "FindingOccurrenceState \<Rightarrow> string" where
  "occurrence_state_value OccNew = ''new''"
| "occurrence_state_value OccReconfirmed = ''reconfirmed''"
| "occurrence_state_value OccChanged = ''changed''"
| "occurrence_state_value OccCarriedUnverified = ''carried_unverified''"
| "occurrence_state_value OccResolved = ''resolved''"
| "occurrence_state_value OccUncertain = ''uncertain''"
| "occurrence_state_value OccSuppressedByHuman = ''suppressed_by_human''"

fun placement_value :: "FindingPlacementKind \<Rightarrow> string" where
  "placement_value InlinePlacement = ''inline''"
| "placement_value FilePlacement = ''file''"
| "placement_value SummaryPlacement = ''summary''"

fun verdict_value :: "LifecycleVerdict \<Rightarrow> string" where
  "verdict_value Resolved = ''resolved''"
| "verdict_value StillValid = ''still_valid''"
| "verdict_value Uncertain = ''uncertain''"

fun gate_value :: "MergeGateConclusion \<Rightarrow> string" where
  "gate_value GatePass = ''pass''"
| "gate_value GateFail = ''fail''"
| "gate_value GateInconclusive = ''inconclusive''"

fun check_value :: "CheckConclusion \<Rightarrow> string" where
  "check_value CheckSuccess = ''success''"
| "check_value CheckFailure = ''failure''"
| "check_value CheckNeutral = ''neutral''"

fun confirmation_value :: "ConfirmationState \<Rightarrow> string" where
  "confirmation_value ConfirmedOpen = ''confirmed_open''"
| "confirmation_value FixConfirmedThreadOpen = ''fix_confirmed_thread_open''"
| "confirmation_value Unverified = ''unverified''"
| "confirmation_value NativeResolved = ''native_resolved''"

fun mutation_value :: "MutationStatus \<Rightarrow> string" where
  "mutation_value ReportOnly = ''report_only''"
| "mutation_value Pending = ''pending''"
| "mutation_value BlockedPartialReview = ''blocked_partial_review''"
| "mutation_value NotEligible = ''not_eligible''"
| "mutation_value NativelyResolved = ''native_resolved''"

definition severity_json :: "Severity option \<Rightarrow> json" where
  "severity_json s = JStr (case s of Some x \<Rightarrow> severity_value x | None \<Rightarrow> ''unknown'')"

section \<open>Facts\<close>

definition scope_json :: "ReviewProjectionScope \<Rightarrow> json" where
  "scope_json s = JObj
     [(''scmRepositoryIdentityId'', JStr (scope_repository s)), (''pullRequestNumber'', JNum (scope_pullRequest s)),
      (''baseSha'', JStr (scope_baseSha s)), (''reviewedHeadSha'', JStr (scope_headSha s)),
      (''reviewRevisionHash'', JStr (scope_revisionHash s))]"

definition manifest_file_json :: "ReviewCoverageManifestFile \<Rightarrow> json" where
  "manifest_file_json f = JObj
     ([(''path'', JStr (mf_path f)), (''status'', JStr (mf_status f))] @ optional ''reason'' JStr (mf_reason f))"

definition coverage_json :: "ReviewCoverageFact \<Rightarrow> json" where
  "coverage_json c = JObj
     ([(''state'', JStr (coverage_state_value (cov_state c))),
       (''mode'', JStr (if cov_incremental c then ''incremental'' else ''full'')),
       (''totalFiles'', JNum (cov_totalFiles c)), (''reviewedFiles'', JNum (cov_reviewedFiles c)),
       (''unreviewedFiles'', JNum (cov_unreviewedFiles c)), (''limitations'', strings (cov_limitations c))] @
      optional ''files'' (\<lambda>fs. JArr (map manifest_file_json fs)) (cov_files c))"

definition placement_json :: "FindingPlacementDecision \<Rightarrow> json" where
  "placement_json p = JObj
     ([(''lineageId'', JStr (pl_lineageId p)), (''kind'', JStr (placement_value (pl_kind p))), (''path'', JStr (pl_path p))] @
      optional ''startLine'' JNum (pl_startLine p) @ optional ''line'' JNum (pl_line p) @
      optional ''endLine'' JNum (pl_endLine p) @ optional ''body'' JStr (pl_body p) @ optional ''reason'' JStr (pl_reason p))"

definition occurrence_json :: "FindingOccurrence \<Rightarrow> json" where
  "occurrence_json x = JObj
     ([(''lineageId'', JStr (occ_lineageId x)), (''sourceFindingIds'', strings (occ_sourceFindingIds x)),
       (''state'', JStr (occurrence_state_value (occ_state x))), (''severity'', severity_json (Some (occ_severity x)))] @
      optional ''previousSeverity'' (severity_json \<circ> Some) (occ_previousSeverity x) @
      [(''category'', JStr (occ_category x)), (''normalizedFailureModeHash'', JStr (occ_failureModeHash x))] @
      optional ''symbolAnchor'' JStr (occ_symbolAnchor x) @ optional ''trustedMarker'' JStr (occ_trustedMarker x) @
      optional ''anchorVerified'' JBool (occ_anchorVerified x) @
      [(''title'', JStr (occ_title x)), (''message'', JStr (occ_message x))] @
      optional ''suggestion'' JStr (occ_suggestion x) @ [(''filePath'', JStr (occ_filePath x))] @
      optional ''startLine'' JNum (occ_startLine x) @ optional ''line'' JNum (occ_line x) @
      optional ''endLine'' JNum (occ_endLine x) @
      [(''placement'', placement_json (occ_placement x)), (''providerVoteKeys'', strings (occ_providerVoteKeys x)),
       (''observationIds'', strings (occ_observationIds x)), (''firstSeenHeadSha'', JStr (occ_firstSeenHeadSha x)),
       (''sourceHeadSha'', JStr (occ_sourceHeadSha x)), (''blocking'', JBool (occ_blocking x))])"

definition gate_json :: "MergeGateDecision \<Rightarrow> json" where
  "gate_json g = JObj
     ([(''conclusion'', JStr (gate_value (gate_conclusion g))), (''blockingLineageIds'', strings (gate_blockingLineageIds g))] @
      optional ''blockingConfirmedLifecycleTargetIds'' strings (gate_blockingTargetIds g) @
      [(''reasonCodes'', strings (gate_reasonCodes g))])"

definition summary_json :: "ReviewProjectionSummaryFact \<Rightarrow> json" where
  "summary_json s = JObj
     [(''marker'', JStr (sum_marker s)), (''body'', JStr (sum_body s)), (''allClear'', JBool (sum_allClear s)),
      (''occurrenceCounts'', JObj (map (\<lambda>st. (occurrence_state_value st, JNum (int (sum_occurrenceCounts s st))))
        [OccNew, OccReconfirmed, OccChanged, OccCarriedUnverified, OccResolved, OccUncertain, OccSuppressedByHuman]))]"

definition check_json :: "ReviewProjectionCheckFact \<Rightarrow> json" where
  "check_json c = JObj
     [(''marker'', JStr (chk_marker c)), (''name'', JStr (chk_name c)), (''title'', JStr (chk_title c)),
      (''summary'', JStr (chk_summary c)), (''conclusion'', JStr (check_value (chk_conclusion c)))]"

definition comment_json :: "ReviewProjectionInlineCommentFact \<Rightarrow> json" where
  "comment_json c = JObj
     ([(''lineageId'', JStr (ic_lineageId c)), (''marker'', JStr (ic_marker c)), (''path'', JStr (ic_path c))] @
      optional ''startLine'' JNum (ic_startLine c) @ [(''line'', JNum (ic_line c))] @
      optional ''endLine'' JNum (ic_endLine c) @ [(''body'', JStr (ic_body c))])"

definition chunk_json :: "ReviewProjectionInlineChunkFact \<Rightarrow> json" where
  "chunk_json c = JObj
     [(''chunkIndex'', JNum (int (ch_chunkIndex c))), (''marker'', JStr (ch_marker c)), (''bodyHash'', JStr (ch_bodyHash c)),
      (''comments'', JArr (map comment_json (ch_comments c)))]"

definition verification_json :: "LifecycleVerificationFact \<Rightarrow> json" where
  "verification_json f = JObj
     ([(''targetId'', JStr (vf_targetId f))] @ optional ''lineageId'' JStr (vf_lineageId f) @
      [(''semanticVerdict'', JStr (verdict_value (vf_semanticVerdict f))),
       (''confirmationState'', JStr (confirmation_value (vf_confirmationState f))),
       (''severity'', severity_json (vf_severity f)), (''observationIds'', strings (vf_observationIds f)),
       (''providerVoteKeys'', strings (vf_providerVoteKeys f)), (''reasonCodes'', strings (vf_reasonCodes f)),
       (''mutationStatus'', JStr (mutation_value (vf_mutationStatus f)))])"

definition lifecycle_json :: "ReviewProjectionLifecycleFact \<Rightarrow> json" where
  "lifecycle_json f = JObj
     ([(''targetId'', JStr (lf_targetId f)), (''threadId'', JStr (lf_threadId f)),
       (''markerFingerprint'', JStr (lf_markerFingerprint f)), (''threadStateHash'', JStr (lf_threadStateHash f))] @
      optional ''lineageId'' JStr (lf_lineageId f) @
      [(''verdict'', JStr (case lf_verdict f of Some v \<Rightarrow> verdict_value v | None \<Rightarrow> ''suppressed_by_human'')),
       (''reasonCodes'', strings (lf_reasonCodes f)), (''mutationEligible'', JBool (lf_mutationEligible f))] @
      optional ''verification'' verification_json (lf_verification f))"

definition provenance_json :: "OccurrenceProvenanceFact \<Rightarrow> json" where
  "provenance_json p = JObj
     ([(''lineageId'', JStr (op_lineageId p)), (''state'', JStr (occurrence_state_value (op_state p))),
       (''sourceHeadSha'', JStr (op_sourceHeadSha p)), (''firstSeenHeadSha'', JStr (op_firstSeenHeadSha p)),
       (''observationIds'', strings (op_observationIds p)), (''providerVoteKeys'', strings (op_providerVoteKeys p)),
       (''filePath'', JStr (op_filePath p))] @ optional ''line'' JNum (op_line p))"

definition hint_json :: "PriorLineageHint \<Rightarrow> json" where
  "hint_json h = JObj
     ([(''lineageId'', JStr (hint_lineageId h)), (''category'', JStr (hint_category h)),
       (''normalizedFailureModeHash'', JStr (hint_failureModeHash h))] @
      optional ''symbolAnchor'' JStr (hint_symbolAnchor h) @ optional ''trustedMarker'' JStr (hint_trustedMarker h) @
      [(''severity'', severity_json (Some (hint_severity h))), (''title'', JStr (hint_title h)),
       (''message'', JStr (hint_message h)), (''filePath'', JStr (hint_filePath h))] @
      optional ''startLine'' JNum (hint_startLine h) @ optional ''line'' JNum (hint_line h) @
      optional ''endLine'' JNum (hint_endLine h) @
      [(''firstSeenHeadSha'', JStr (hint_firstSeenHeadSha h)), (''lastSeenHeadSha'', JStr (hint_lastSeenHeadSha h)),
       (''active'', JBool (hint_active h))])"

section \<open>The envelope\<close>

definition publishing_json :: "ReviewProjectionPublishingFacts \<Rightarrow> json" where
  "publishing_json p = JObj
     [(''lifecycleObservationVersion'', JStr ''review_lifecycle_observation.v1''),
      (''summary'', summary_json (pub_summary p)), (''check'', check_json (pub_check p)),
      (''inlineReviewChunks'', JArr (map chunk_json (pub_inlineReviewChunks p))),
      (''lifecycle'', JArr (map lifecycle_json (pub_lifecycle p)))]"

definition envelope_json :: "ReviewProjectionEnvelopeV1 \<Rightarrow> json" where
  "envelope_json e = JObj
     [(''envelopeVersion'', JStr ''review_projection.v1''),
      (''projectionPolicyVersion'', JStr (env_projectionPolicyVersion e)),
      (''authoritativeObservationIds'', strings (env_authoritativeObservationIds e)),
      (''scope'', scope_json (env_scope e)), (''coverage'', coverage_json (env_coverage e)),
      (''lifecycleStateHash'', JStr (env_lifecycleStateHash e)),
      (''commandLedgerWatermark'', JStr (env_commandLedgerWatermark e)),
      (''occurrences'', JArr (map occurrence_json (env_occurrences e))), (''mergeGate'', gate_json (env_mergeGate e)),
      (''publishing'', publishing_json (env_publishing e)),
      (''snapshot'', JObj
        [(''occurrenceProvenance'', JArr (map provenance_json (snap_occurrenceProvenance (env_snapshot e)))),
         (''lineageHints'', JArr (map hint_json (snap_lineageHints (env_snapshot e))))])]"

definition canonicalizeReviewProjection :: "ReviewProjectionEnvelopeV1 \<Rightarrow> string" where
  "canonicalizeReviewProjection e = canonicalJson (envelope_json e)"

end
