(* ===== verification/Review_Projection.thy ===== *)
theory Review_Projection
  imports Lifecycle_Verification Current_Projector Merge_Gate Projection_Checks Projection_Json
begin

text \<open>
  \<open>src/review-projection/application/build-current-review-projection.ts\<close>: the use case that turns what the
  providers found into the envelope that is published.  Its ports (the inventory of threads, the policies that
  select findings, judge threads, decide the gate and render the presentation) are a record of functions,
  which may throw; \<open>limits\<close> are validated when the use case is built.
\<close>

section \<open>Ports\<close>

record ProjectedReviewPresentation =
  pp_summaryBody :: string
  pp_checkName :: string
  pp_checkTitle :: string
  pp_checkSummary :: string
  pp_checkConclusion :: "CheckConclusion option"
  pp_placements :: "FindingPlacementDecision list"

record 'x ProjectionPorts =
  loadCurrent :: "ReviewProjectionScope \<Rightarrow> PriorLineageHint list \<Rightarrow> AppliedReviewResolution list option \<Rightarrow>
    CurrentLifecycleInventory res"
  recurrenceVetoTargetIds :: "(CurrentFindingCandidate list \<Rightarrow> CurrentLifecycleInventory \<Rightarrow> string list) option"
  selectCurrent :: "CurrentFindingCandidate list \<Rightarrow> RevisionFile list \<Rightarrow> string \<Rightarrow> ReviewProjectionLimits \<Rightarrow>
    SelectedCurrentFinding list res"
  projectLifecycle :: "'x ProjectionCommand \<Rightarrow> SelectedCurrentFinding list \<Rightarrow> CurrentLifecycleInventory \<Rightarrow>
    string list \<Rightarrow> LifecycleProjectionDecision list res"
  mergeGate :: "Severity option \<Rightarrow> FindingOccurrence list \<Rightarrow> ReviewCoverageFact \<Rightarrow> bool \<Rightarrow>
    LifecycleVerificationFact list option \<Rightarrow> MergeGateDecision"
  projectPresentation :: "'x ProjectionCommand \<Rightarrow> ReviewPresentation \<Rightarrow> ReviewCoverageFact \<Rightarrow>
    FindingOccurrence list \<Rightarrow> LiveLifecycleTarget list \<Rightarrow> ReviewProjectionLifecycleFact list \<Rightarrow>
    ReviewProjectionLimits \<Rightarrow> ProjectedReviewPresentation res"

section \<open>Texts\<close>

text \<open>A word boundary before and behind a word.\<close>

definition is_word :: "char \<Rightarrow> bool" where
  "is_word c \<longleftrightarrow> is_alnum c \<or> c = CHR ''_''"

definition word_starts :: "char option \<Rightarrow> bool" where
  "word_starts before \<longleftrightarrow> (case before of None \<Rightarrow> True | Some c \<Rightarrow> \<not> is_word c)"

definition word_ends :: "string \<Rightarrow> bool" where
  "word_ends s \<longleftrightarrow> (case s of [] \<Rightarrow> True | c # cs \<Rightarrow> \<not> is_word c)"

text \<open>\<open>body.replace(pattern, by)\<close> with a global pattern; \<open>skip\<close> are the characters of a match still to pass.\<close>

fun replace_all :: "(char option \<Rightarrow> string \<Rightarrow> nat option) \<Rightarrow> string \<Rightarrow> char option \<Rightarrow> nat \<Rightarrow> string \<Rightarrow> string" where
  "replace_all m new_text before skip [] = []"
| "replace_all m new_text before (Suc skip) (c # cs) = replace_all m new_text (Some c) skip cs"
| "replace_all m new_text before 0 (c # cs) = (case m before (c # cs) of
     Some n \<Rightarrow> new_text @ replace_all m new_text (Some c) (n - 1) cs
   | None \<Rightarrow> c # replace_all m new_text (Some c) 0 cs)"

text \<open>\<open>/\ball[ -]?clear\b/gi\<close> and \<open>/\bno issues? found\b/gi\<close>.\<close>

definition all_clear_claim :: "char option \<Rightarrow> string \<Rightarrow> nat option" where
  "all_clear_claim before s =
     (let a = drop 3 s; b = (case a of c # cs \<Rightarrow> if c = CHR '' '' \<or> c = CHR ''-'' then cs else a | [] \<Rightarrow> a)
      in if word_starts before \<and> prefix_ci ''all'' s \<and> prefix_ci ''clear'' b \<and> word_ends (drop 5 b)
         then Some (length s - length b + 5) else None)"

definition no_issue_claim :: "char option \<Rightarrow> string \<Rightarrow> nat option" where
  "no_issue_claim before s =
     (let a = drop 8 s; b = (if prefix_ci ''s'' a then drop 1 a else a)
      in if word_starts before \<and> prefix_ci ''no issue'' s \<and> prefix_ci '' found'' b \<and> word_ends (drop 6 b)
         then Some (length s - length b + 6) else None)"

definition removeAllClearClaims :: "string \<Rightarrow> string" where
  "removeAllClearClaims body =
     replace_all no_issue_claim ''No issues found in reviewed coverage'' None 0
       (replace_all all_clear_claim ''No blocking findings in reviewed coverage'' None 0 body)"

text \<open>\<open>/Review complete(?:d)?\b/i\<close> at the start, the heading of a line and the title.\<close>

definition claims_completion :: "string \<Rightarrow> bool" where
  "claims_completion s \<longleftrightarrow> prefix_ci ''review complete'' s \<and>
     (let r = drop 15 s in if prefix_ci ''d'' r then word_ends (drop 1 r) else word_ends r)"

definition heading_claims :: "string \<Rightarrow> bool" where
  "heading_claims s \<longleftrightarrow> prefix_at ''##'' s \<and>
     (case drop 2 s of [] \<Rightarrow> False | c # cs \<Rightarrow> is_space c \<and> claims_completion (dropWhile is_space cs))"

fun completed_heading :: "bool \<Rightarrow> string \<Rightarrow> bool" where
  "completed_heading line_start [] = False"
| "completed_heading line_start (c # cs) =
     (line_start \<and> heading_claims (c # cs) \<or> completed_heading (code c = 10 \<or> code c = 13) cs)"

definition assertPartialPresentationDoesNotClaimCompletion :: "string \<Rightarrow> string \<Rightarrow> string \<Rightarrow> js_error option" where
  "assertPartialPresentationDoesNotClaimCompletion summaryBody checkTitle checkSummary =
     check (\<not> (completed_heading True summaryBody \<or> claims_completion (dropWhile is_space checkTitle) \<or>
               completed_heading True checkSummary)) ''partial review presentation must not claim completion''"

section \<open>Coverage\<close>

definition normalizeCoverage :: "(string \<Rightarrow> string \<Rightarrow> int) \<Rightarrow> ReviewCoverageFact \<Rightarrow> CurrentLifecycleInventory \<Rightarrow> ReviewCoverageFact" where
  "normalizeCoverage lc coverage inventory = coverage
     \<lparr>cov_state := (if cov_state coverage = Partial \<or> \<not> inv_complete inventory then Partial else Complete),
      cov_limitations := sortedUnique lc (cov_limitations coverage @ inv_warnings inventory @
        (if \<not> inv_complete inventory then [''lifecycle inventory incomplete''] else []))\<rparr>"

section \<open>Blocking and placement\<close>

definition set_blocking :: "string list \<Rightarrow> FindingOccurrence \<Rightarrow> FindingOccurrence" where
  "set_blocking blocked x = x\<lparr>occ_blocking := (occ_lineageId x \<in> set blocked)\<rparr>"

definition applyBlockingDecision :: "(string \<Rightarrow> string \<Rightarrow> int) \<Rightarrow> FindingOccurrence list \<Rightarrow> MergeGateDecision \<Rightarrow> FindingOccurrence list" where
  "applyBlockingDecision lc xs gate = sortOccurrences lc (map (set_blocking (gate_blockingLineageIds gate)) xs)"

fun placement_problems :: "string list \<Rightarrow> string list \<Rightarrow> FindingPlacementDecision list \<Rightarrow> js_error option" where
  "placement_problems known placed [] = None"
| "placement_problems known placed (d # ds) =
     (if pl_lineageId d \<notin> set known then Some (JsError (''placement references unknown lineage '' @ pl_lineageId d))
      else if pl_lineageId d \<in> set placed then Some (JsError (''duplicate placement for lineage '' @ pl_lineageId d))
      else placement_problems known (pl_lineageId d # placed) ds)"

definition set_placement :: "FindingPlacementDecision list \<Rightarrow> FindingOccurrence \<Rightarrow> FindingOccurrence" where
  "set_placement decisions x = x\<lparr>occ_placement :=
     (case map_of (map (\<lambda>d. (pl_lineageId d, d)) decisions) (occ_lineageId x) of
        Some d \<Rightarrow> d | None \<Rightarrow> summaryPlacement (occ_lineageId x) (occ_filePath x) ''placement unavailable'')\<rparr>"

definition applyPlacementDecisions :: "(string \<Rightarrow> string \<Rightarrow> int) \<Rightarrow> FindingOccurrence list \<Rightarrow> FindingPlacementDecision list \<Rightarrow>
    FindingOccurrence list res" where
  "applyPlacementDecisions lc xs decisions =
     throws (placement_problems (map occ_lineageId xs) [] decisions)
       (Inr (sortOccurrences lc (map (set_placement decisions) xs)))"

section \<open>Inline comments\<close>

definition has_inline_comment :: "FindingOccurrence \<Rightarrow> bool" where
  "has_inline_comment x \<longleftrightarrow> pl_kind (occ_placement x) = InlinePlacement \<and> pl_line (occ_placement x) \<noteq> None \<and>
     pl_body (occ_placement x) \<noteq> None \<and> occ_state x \<noteq> OccResolved \<and> occ_state x \<noteq> OccSuppressedByHuman"

definition inline_comment :: "FindingOccurrence \<Rightarrow> ReviewProjectionInlineCommentFact res" where
  "inline_comment x =
     (let p = occ_placement x; body = stripReservedFindingMarkerSyntax (the (pl_body p))
      in throw_if (body = []) (''inline placement body for '' @ occ_lineageId x @
           '' contained only reserved finding-marker syntax'')
         (Inr \<lparr>ic_lineageId = occ_lineageId x, ic_marker = findingMarkerV2 (occ_lineageId x), ic_path = pl_path p,
               ic_startLine = pl_startLine p, ic_line = the (pl_line p), ic_endLine = pl_endLine p, ic_body = body\<rparr>))"

definition compareComments :: "(string \<Rightarrow> string \<Rightarrow> int) \<Rightarrow> ReviewProjectionInlineCommentFact \<Rightarrow>
    ReviewProjectionInlineCommentFact \<Rightarrow> int" where
  "compareComments lc =
     then_by (\<lambda>l r. lc (ic_path l) (ic_path r))
    (then_by (\<lambda>l r. ic_line l - ic_line r) (\<lambda>l r. lc (ic_lineageId l) (ic_lineageId r)))"

definition inline_chunk :: "(string \<Rightarrow> string) \<Rightarrow> nat \<Rightarrow> ReviewProjectionInlineCommentFact list \<Rightarrow> ReviewProjectionInlineChunkFact" where
  "inline_chunk sha i comments =
     \<lparr>ch_chunkIndex = i, ch_marker = ''reviewrouter:inline-chunk:v2:'' @ show_nat i,
      ch_bodyHash = hashProjectionFact sha (JArr (map comment_json comments)), ch_comments = comments\<rparr>"

text \<open>The loop over the comments; a chunk of size zero would repeat for ever, the limits exclude it.\<close>

function chunk_comments :: "(string \<Rightarrow> string) \<Rightarrow> nat \<Rightarrow> nat \<Rightarrow> ReviewProjectionInlineCommentFact list \<Rightarrow>
    ReviewProjectionInlineChunkFact list" where
  "chunk_comments sha n i [] = []"
| "chunk_comments sha 0 i (c # cs) = []"
| "chunk_comments sha (Suc n) i (c # cs) =
     inline_chunk sha i (take (Suc n) (c # cs)) # chunk_comments sha (Suc n) (Suc i) (drop (Suc n) (c # cs))"
  by pat_completeness auto
termination
  by (relation "measure (\<lambda>(sha, n, i, cs). length cs)") auto

definition buildInlineChunks :: "(string \<Rightarrow> string \<Rightarrow> int) \<Rightarrow> (string \<Rightarrow> string) \<Rightarrow> FindingOccurrence list \<Rightarrow>
    ReviewProjectionLimits \<Rightarrow> ReviewProjectionInlineChunkFact list res" where
  "buildInlineChunks lc sha xs limits =
     rbind (res_map inline_comment (filter has_inline_comment xs)) (\<lambda>unsorted.
       let comments = js_sort (compareComments lc) unsorted;
           chunks = chunk_comments sha (nat (limits MaxInlineCommentsPerChunk)) 0 comments
       in throws (assertWithinProjectionLimit MaxInlineComments (int (length comments)) limits)
         (throws (assertWithinProjectionLimit MaxInlineChunks (int (length chunks)) limits) (Inr chunks)))"


section \<open>Lifecycle facts\<close>

definition currentOccurrencePresent :: "FindingOccurrence list \<Rightarrow> LiveLifecycleTarget \<Rightarrow> bool" where
  "currentOccurrencePresent xs t \<longleftrightarrow>
     list_ex (\<lambda>x. occ_trustedMarker x = Some (lt_trustedMarker t) \<and> isCurrentState (occ_state x)) xs"

definition trustedResolved :: "FindingOccurrence list \<Rightarrow> LifecycleVerificationFact option \<Rightarrow> LiveLifecycleTarget \<Rightarrow> bool" where
  "trustedResolved xs verification t \<longleftrightarrow> verification = None \<and> \<not> currentOccurrencePresent xs t \<and>
     lt_disposition t = ActiveTarget \<and> hasValidTrustedResolutionMarker t"

definition in_review_scope :: "RevisionFile list \<Rightarrow> LiveLifecycleTarget \<Rightarrow> bool" where
  "in_review_scope files t \<longleftrightarrow> list_ex (\<lambda>file. list_ex
     (\<lambda>path. path \<noteq> None \<and> (lt_currentPath t = path \<or> Some (lt_originalPath t) = path))
     [Some (rf_path file), rf_previousPath file]) files"

definition verification_of :: "LifecycleVerificationFact list option \<Rightarrow> LiveLifecycleTarget \<Rightarrow> LifecycleVerificationFact option" where
  "verification_of facts t = find (\<lambda>f. vf_targetId f = lt_targetId t) (some_list facts)"

definition lifecycle_reasons :: "CurrentLifecycleInventory \<Rightarrow> ReviewCoverageFact \<Rightarrow> RevisionFile list \<Rightarrow>
    LifecycleProjectionDecision option \<Rightarrow> bool \<Rightarrow> LiveLifecycleTarget \<Rightarrow> string list" where
  "lifecycle_reasons inventory coverage files decision resolved t =
     (case decision of Some d \<Rightarrow> dec_reasonCodes d | None \<Rightarrow> []) @
     (if \<not> in_review_scope files t then [''outside_review_scope''] else []) @
     (if lt_disposition t = HumanReply then [''human_reply''] else []) @
     (if lt_disposition t = CommandSuppressed then [''command_dismissed''] else []) @
     (if resolved then [''trusted_resolution_marker''] else []) @
     (if map_option rm_trust (lt_resolutionMarker t) = Some Untrusted then [''untrusted_resolution_marker_ignored''] else []) @
     (if \<not> inv_complete inventory then [''inventory_incomplete''] else []) @
     (if cov_state coverage = Partial then [''partial_coverage''] else [])"

definition mutation_eligible :: "CurrentLifecycleInventory \<Rightarrow> ReviewCoverageFact \<Rightarrow> LifecycleProjectionDecision option \<Rightarrow>
    LifecycleVerificationFact option \<Rightarrow> bool \<Rightarrow> LiveLifecycleTarget \<Rightarrow> bool" where
  "mutation_eligible inventory coverage decision verification resolved t \<longleftrightarrow>
     inv_complete inventory \<and> cov_state coverage = Complete \<and> lt_disposition t = ActiveTarget \<and>
     lt_viewerCanResolve t \<and> \<not> resolved \<and>
     (case verification of None \<Rightarrow> True | Some f \<Rightarrow> vf_mutationStatus f = Pending) \<and>
     map_option dec_verdict decision = Some Resolved"

definition lifecycle_fact :: "(string \<Rightarrow> string \<Rightarrow> int) \<Rightarrow> CurrentLifecycleInventory \<Rightarrow> LifecycleProjectionDecision list \<Rightarrow>
    PriorLineageHint list \<Rightarrow> ReviewCoverageFact \<Rightarrow> FindingOccurrence list \<Rightarrow> RevisionFile list \<Rightarrow>
    LifecycleVerificationFact list option \<Rightarrow> LiveLifecycleTarget \<Rightarrow> ReviewProjectionLifecycleFact" where
  "lifecycle_fact lc inventory decisions hints coverage xs files facts t =
     (let decision = decisionByTarget decisions (lt_targetId t);
          verification = verification_of facts t;
          resolved = trustedResolved xs verification t
      in \<lparr>lf_targetId = lt_targetId t, lf_threadId = lt_threadId t, lf_markerFingerprint = lt_trustedMarker t,
          lf_threadStateHash = lt_threadStateHash t,
          lf_lineageId = (case active_hints hints t of
             [h] \<Rightarrow> Some (hint_lineageId h) | _ \<Rightarrow> if_truthy (Option.bind verification vf_lineageId)),
          lf_verdict = (if lt_disposition t = CommandSuppressed then None
             else if resolved then Some Resolved
             else case decision of Some d \<Rightarrow> Some (dec_verdict d) | None \<Rightarrow> Some Uncertain),
          lf_reasonCodes = sortedUnique lc (lifecycle_reasons inventory coverage files decision resolved t),
          lf_mutationEligible = mutation_eligible inventory coverage decision verification resolved t,
          lf_verification = verification\<rparr>)"

definition buildLifecycleFacts :: "(string \<Rightarrow> string \<Rightarrow> int) \<Rightarrow> CurrentLifecycleInventory \<Rightarrow> LifecycleProjectionDecision list \<Rightarrow>
    PriorLineageHint list \<Rightarrow> ReviewCoverageFact \<Rightarrow> FindingOccurrence list \<Rightarrow> RevisionFile list \<Rightarrow>
    LifecycleVerificationFact list option \<Rightarrow> ReviewProjectionLifecycleFact list" where
  "buildLifecycleFacts lc inventory decisions hints coverage xs files facts =
     map (lifecycle_fact lc inventory decisions hints coverage xs files facts)
       (js_sort (\<lambda>l r. lc (lt_targetId l) (lt_targetId r)) (inv_targets inventory))"

section \<open>The snapshot for the next review\<close>

definition provenance_fact :: "FindingOccurrence \<Rightarrow> OccurrenceProvenanceFact" where
  "provenance_fact x = \<lparr>op_lineageId = occ_lineageId x, op_state = occ_state x, op_sourceHeadSha = occ_sourceHeadSha x,
     op_firstSeenHeadSha = occ_firstSeenHeadSha x, op_observationIds = occ_observationIds x,
     op_providerVoteKeys = occ_providerVoteKeys x, op_filePath = occ_filePath x, op_line = occ_line x\<rparr>"

definition lineage_hint :: "FindingOccurrence \<Rightarrow> PriorLineageHint" where
  "lineage_hint x = \<lparr>hint_lineageId = occ_lineageId x, hint_category = occ_category x,
     hint_failureModeHash = occ_failureModeHash x, hint_symbolAnchor = if_truthy (occ_symbolAnchor x),
     hint_trustedMarker = Some (occ_lineageId x), hint_severity = occ_severity x, hint_title = occ_title x,
     hint_message = occ_message x, hint_filePath = occ_filePath x, hint_startLine = occ_startLine x,
     hint_line = occ_line x, hint_endLine = occ_endLine x, hint_firstSeenHeadSha = occ_firstSeenHeadSha x,
     hint_lastSeenHeadSha = occ_sourceHeadSha x,
     hint_active = (occ_state x \<noteq> OccResolved \<and> occ_state x \<noteq> OccSuppressedByHuman)\<rparr>"

definition buildSnapshotFacts :: "FindingOccurrence list \<Rightarrow> ReviewProjectionSnapshotFacts" where
  "buildSnapshotFacts xs = \<lparr>snap_occurrenceProvenance = map provenance_fact xs, snap_lineageHints = map lineage_hint xs\<rparr>"

section \<open>Claims and conclusions\<close>

definition canClaimAllClear :: "ReviewCoverageFact \<Rightarrow> CurrentLifecycleInventory \<Rightarrow> FindingOccurrence list \<Rightarrow>
    MergeGateDecision \<Rightarrow> ReviewProjectionLifecycleFact list \<Rightarrow> bool" where
  "canClaimAllClear coverage inventory xs gate facts \<longleftrightarrow>
     cov_state coverage = Complete \<and> inv_complete inventory \<and> gate_conclusion gate = GatePass \<and>
     list_all (\<lambda>f. lf_verdict f = Some Resolved \<or> lf_verdict f = None) facts \<and>
     list_all (\<lambda>x. occ_state x = OccResolved \<or> occ_state x = OccSuppressedByHuman) xs"

definition resolveCheckConclusion :: "CheckConclusion option \<Rightarrow> MergeGateDecision \<Rightarrow> CheckConclusion" where
  "resolveCheckConclusion projected gate =
     (if gate_conclusion gate = GateFail then CheckFailure
      else if gate_conclusion gate = GateInconclusive then CheckNeutral
      else case projected of Some c \<Rightarrow> c | None \<Rightarrow> CheckSuccess)"

definition countOccurrenceStates :: "FindingOccurrence list \<Rightarrow> FindingOccurrenceState \<Rightarrow> nat" where
  "countOccurrenceStates xs = foldl (\<lambda>counts x. counts(occ_state x := counts (occ_state x) + 1)) (\<lambda>s. 0) xs"

definition publicationMarker :: "string \<Rightarrow> ReviewProjectionScope \<Rightarrow> string" where
  "publicationMarker kind scope = ''reviewrouter:'' @ kind @ '':v2:'' @ scope_revisionHash scope"

section \<open>The use case\<close>

record BuiltCurrentReviewProjection =
  built_envelope :: ReviewProjectionEnvelopeV1
  built_canonicalJson :: string
  built_projectionHash :: string
  built_byteCount :: nat
  built_findingCount :: nat

text \<open>The decisions of the verification replace those of the lifecycle policy.\<close>

definition verified_decisions :: "LifecycleVerificationFact list option \<Rightarrow> LifecycleProjectionDecision list \<Rightarrow>
    LifecycleProjectionDecision list" where
  "verified_decisions facts decisions = (case facts of None \<Rightarrow> decisions | Some fs \<Rightarrow>
     map (\<lambda>f. \<lparr>dec_targetId = vf_targetId f, dec_verdict = vf_semanticVerdict f, dec_reasonCodes = vf_reasonCodes f,
       dec_currentSourceFindingIds = Option.bind (find (\<lambda>d. dec_targetId d = vf_targetId f) decisions)
         dec_currentSourceFindingIds\<rparr>) fs)"

definition link_fact :: "LifecycleProjectionDecision list \<Rightarrow> FindingOccurrence list \<Rightarrow> LifecycleVerificationFact \<Rightarrow>
    LifecycleVerificationFact" where
  "link_fact decisions xs f =
     (if truthy (vf_lineageId f) then f
      else let sourceIds = some_list (Option.bind (find (\<lambda>d. dec_targetId d = vf_targetId f) decisions)
                 dec_currentSourceFindingIds)
        in case filter (\<lambda>x. list_ex (\<lambda>i. i \<in> set sourceIds) (occ_sourceFindingIds x)) xs of
             [x] \<Rightarrow> f\<lparr>vf_lineageId := Some (occ_lineageId x)\<rparr>
           | _ \<Rightarrow> f)"

definition linkedCurrentTargets :: "LifecycleProjectionDecision list \<Rightarrow> FindingOccurrence list \<Rightarrow> string list" where
  "linkedCurrentTargets decisions xs = map dec_targetId (filter (\<lambda>d. dec_verdict d = StillValid \<and>
     ''current_finding_present'' \<in> set (dec_reasonCodes d) \<and>
     list_ex (\<lambda>i. list_ex (\<lambda>x. i \<in> set (occ_sourceFindingIds x)) xs) (some_list (dec_currentSourceFindingIds d))) decisions)"

definition review_incomplete :: "ProviderExecutionSummaryFact \<Rightarrow> ReviewProjectionLifecycleFact list \<Rightarrow> string list \<Rightarrow>
    FindingOccurrence list \<Rightarrow> bool" where
  "review_incomplete execution facts linked xs \<longleftrightarrow>
     (pe_succeededProviders execution = 0 \<and> pe_plannedProviders execution > 0) \<or>
     list_ex (\<lambda>f. (case lf_verification f of
           Some v \<Rightarrow> vf_confirmationState v = Unverified | None \<Rightarrow> lf_verdict f \<noteq> None) \<and>
         lf_targetId f \<notin> set linked \<and>
         \<not> list_ex (\<lambda>x. occ_lineageId x =
              (case lf_lineageId f of Some l \<Rightarrow> l | None \<Rightarrow> lf_markerFingerprint f)) xs) facts"

definition partial_notice :: string where
  "partial_notice = ''ReviewRouter did not complete required coverage. Preliminary findings are preserved below; inline comments and lifecycle changes were held back.''"

text \<open>What the projection decides before anything is rendered.\<close>

record ProjectionState =
  st_inventory :: CurrentLifecycleInventory
  st_coverage :: ReviewCoverageFact
  st_facts :: "LifecycleVerificationFact list option"
  st_decisions :: "LifecycleProjectionDecision list"
  st_occurrences :: "FindingOccurrence list"
  st_gate :: MergeGateDecision
  st_lifecycle :: "ReviewProjectionLifecycleFact list"
  st_presentation :: ReviewPresentation

definition project_lifecycle_verification :: "'x ProjectionPorts \<Rightarrow> 'x ProjectionCommand \<Rightarrow> CurrentLifecycleInventory \<Rightarrow>
    ReviewCoverageFact \<Rightarrow> string list \<Rightarrow> LifecycleVerificationFact list option res" where
  "project_lifecycle_verification ports command inventory coverage vetoes =
     (case cmd_lifecycleVerification command of
        None \<Rightarrow> Inr None
      | Some ctx \<Rightarrow> rbind (projectLifecycleVerification ctx inventory coverage (cmd_priorLineageHints command)
            (cmd_authoritativeObservationIds command) vetoes) (\<lambda>facts. Inr (Some facts)))"

definition recurrence_vetoes :: "'x ProjectionPorts \<Rightarrow> 'x ProjectionCommand \<Rightarrow> CurrentLifecycleInventory \<Rightarrow> string list" where
  "recurrence_vetoes ports command inventory =
     (if cmd_lifecycleVerification command = None then []
      else case recurrenceVetoTargetIds ports of None \<Rightarrow> [] | Some f \<Rightarrow> f (cmd_currentFindings command) inventory)"

text \<open>From the findings the policy selected to the occurrences: their number and lineages are checked.\<close>

definition project_current :: "(string \<Rightarrow> string \<Rightarrow> int) \<Rightarrow> (string \<Rightarrow> string) \<Rightarrow> ReviewProjectionLimits \<Rightarrow>
    'x ProjectionCommand \<Rightarrow> CurrentLifecycleInventory \<Rightarrow> SelectedCurrentFinding list \<Rightarrow>
    LifecycleProjectionDecision list \<Rightarrow> FindingOccurrence list res" where
  "project_current lc sha limits command inventory selected decisions =
     (let xs = projectOccurrences lc sha (cmd_scope command) selected (cmd_priorLineageHints command) inventory decisions
      in throws (assertWithinProjectionLimit MaxFindings (int (length xs)) limits)
        (throws (assertUniqueValues ''occurrence lineageId'' (map occ_lineageId xs)) (Inr xs)))"

definition project_state :: "(string \<Rightarrow> string \<Rightarrow> int) \<Rightarrow> (string \<Rightarrow> string) \<Rightarrow> ReviewProjectionLimits \<Rightarrow>
    'x ProjectionPorts \<Rightarrow> 'x ProjectionCommand \<Rightarrow> ProjectionState res" where
  "project_state lc sha limits ports command =
     throws (validateCommand command limits)
    (rbind (loadCurrent ports (cmd_scope command) (cmd_priorLineageHints command)
       (map_option bl_appliedResolutions (cmd_comparisonBaseline command))) (\<lambda>inventory.
     throws (validateInventory (cmd_scope command) inventory limits)
    (let coverage = normalizeCoverage lc (cmd_coverage command) inventory;
         vetoes = recurrence_vetoes ports command inventory
     in rbind (project_lifecycle_verification ports command inventory coverage vetoes) (\<lambda>verified.
        rbind (selectCurrent ports (cmd_currentFindings command) (cmd_revisionFiles command) (cmd_diff command) limits) (\<lambda>selected.
        throws (assertWithinProjectionLimit MaxFindings (int (length selected)) limits)
       (throws (validateSelectedFindings (cmd_currentFindings command) selected limits)
       (rbind (projectLifecycle ports command selected inventory vetoes) (\<lambda>judged.
        let decisions = verified_decisions verified judged
        in throws (validateLifecycleDecisions inventory decisions)
          (rbind (project_current lc sha limits command inventory selected decisions) (\<lambda>xs.
           let facts = map_option (map (link_fact decisions xs)) verified;
               gate = mergeGate ports (cmd_failOnSeverity command) xs coverage (inv_complete inventory) facts
           in throws (validateGateDecision xs gate facts)
             (let blocked = applyBlockingDecision lc xs gate;
                  lifecycle = buildLifecycleFacts lc inventory decisions (cmd_priorLineageHints command) coverage blocked
                    (cmd_revisionFiles command) facts
              in rbind (deriveReviewPresentation (scope_headSha (cmd_scope command)) (cmd_comparisonBaseline command) coverage
                   (review_incomplete (cmd_providerExecution command) lifecycle (linkedCurrentTargets decisions blocked) blocked)
                   blocked facts) (\<lambda>presentation.
                 Inr \<lparr>st_inventory = inventory, st_coverage = coverage, st_facts = facts, st_decisions = decisions,
                   st_occurrences = blocked, st_gate = gate, st_lifecycle = lifecycle, st_presentation = presentation\<rparr>))))))))))))"

definition all_clear :: "ProjectionState \<Rightarrow> FindingOccurrence list \<Rightarrow> bool" where
  "all_clear st xs \<longleftrightarrow> \<not> cov_state (st_coverage st) = Partial \<and> rp_complete (st_presentation st) \<and>
     canClaimAllClear (st_coverage st) (st_inventory st) xs (st_gate st) (st_lifecycle st)"

definition summary_body :: "ProjectionState \<Rightarrow> FindingOccurrence list \<Rightarrow> ProjectedReviewPresentation \<Rightarrow> string" where
  "summary_body st xs p =
     (if cov_state (st_coverage st) = Partial
      then partial_notice @ [CHR 0x0A, CHR 0x0A] @ removeAllClearClaims (pp_summaryBody p)
      else if all_clear st xs then pp_summaryBody p else removeAllClearClaims (pp_summaryBody p))"

definition check_title :: "ProjectionState \<Rightarrow> FindingOccurrence list \<Rightarrow> ProjectedReviewPresentation \<Rightarrow> string" where
  "check_title st xs p =
     (if cov_state (st_coverage st) = Partial then ''Review incomplete - partial coverage''
      else if all_clear st xs then pp_checkTitle p else removeAllClearClaims (pp_checkTitle p))"

definition check_summary :: "ProjectionState \<Rightarrow> FindingOccurrence list \<Rightarrow> ProjectedReviewPresentation \<Rightarrow> string" where
  "check_summary st xs p =
     (if cov_state (st_coverage st) = Partial then summary_body st xs p
      else if all_clear st xs then pp_checkSummary p else removeAllClearClaims (pp_checkSummary p))"

definition build_envelope :: "(string \<Rightarrow> string \<Rightarrow> int) \<Rightarrow> 'x ProjectionCommand \<Rightarrow> ProjectionState \<Rightarrow>
    ProjectedReviewPresentation \<Rightarrow> FindingOccurrence list \<Rightarrow> ReviewProjectionInlineChunkFact list \<Rightarrow>
    ReviewProjectionEnvelopeV1" where
  "build_envelope lc command st p xs chunks =
     (let scope = cmd_scope command; coverageOnly = (cov_state (st_coverage st) = Partial); gate = st_gate st
      in \<lparr>env_projectionPolicyVersion = cmd_projectionPolicyVersion command,
          env_authoritativeObservationIds = js_sort compareCodePoints (cmd_authoritativeObservationIds command),
          env_scope = scope,
          env_coverage = st_coverage st,
          env_lifecycleStateHash = inv_lifecycleStateHash (st_inventory st),
          env_commandLedgerWatermark = inv_commandLedgerWatermark (st_inventory st),
          env_occurrences = xs,
          env_mergeGate = \<lparr>gate_conclusion = gate_conclusion gate,
            gate_blockingLineageIds = sortedUnique lc (gate_blockingLineageIds gate),
            gate_blockingTargetIds = map_option (sortedUnique lc) (gate_blockingTargetIds gate),
            gate_reasonCodes = sortedUnique lc (gate_reasonCodes gate)\<rparr>,
          env_publishing =
            \<lparr>pub_summary = \<lparr>sum_marker = publicationMarker ''summary'' scope, sum_body = summary_body st xs p,
               sum_allClear = all_clear st xs, sum_occurrenceCounts = countOccurrenceStates xs\<rparr>,
             pub_check = \<lparr>chk_marker = publicationMarker ''check'' scope, chk_name = pp_checkName p,
               chk_title = check_title st xs p, chk_summary = check_summary st xs p,
               chk_conclusion = (if coverageOnly then CheckNeutral else resolveCheckConclusion (pp_checkConclusion p) gate)\<rparr>,
             pub_inlineReviewChunks = chunks, pub_lifecycle = st_lifecycle st\<rparr>,
          env_snapshot = (if coverageOnly then \<lparr>snap_occurrenceProvenance = [], snap_lineageHints = []\<rparr>
            else buildSnapshotFacts xs)\<rparr>)"

definition execute :: "(string \<Rightarrow> string \<Rightarrow> int) \<Rightarrow> (string \<Rightarrow> string) \<Rightarrow> ReviewProjectionLimits \<Rightarrow>
    'x ProjectionPorts \<Rightarrow> 'x ProjectionCommand \<Rightarrow> BuiltCurrentReviewProjection res" where
  "execute lc sha limits ports command =
     rbind (project_state lc sha limits ports command) (\<lambda>st.
     rbind (projectPresentation ports command (st_presentation st) (st_coverage st) (st_occurrences st)
         (inv_targets (st_inventory st)) (st_lifecycle st) limits) (\<lambda>p.
     rbind (applyPlacementDecisions lc (st_occurrences st) (pp_placements p)) (\<lambda>xs.
     rbind (if cov_state (st_coverage st) = Partial then Inr [] else buildInlineChunks lc sha xs limits) (\<lambda>chunks.
       throws (if cov_state (st_coverage st) = Partial
               then assertPartialPresentationDoesNotClaimCompletion (summary_body st xs p) (check_title st xs p) (check_summary st xs p)
               else None)
      (throws (validateRenderedText (summary_body st xs p) (pp_checkName p) (check_title st xs p) (check_summary st xs p) chunks limits)
      (let envelope = build_envelope lc command st p xs chunks; text = canonicalizeReviewProjection envelope
       in throws (assertWithinProjectionLimit MaxProjectionBytes (int (byte_length text)) limits)
         (Inr \<lparr>built_envelope = envelope, built_canonicalJson = text, built_projectionHash = sha text,
               built_byteCount = byte_length text, built_findingCount = length xs\<rparr>)))))))"

text \<open>The constructor validates the limits.\<close>

definition buildCurrentReviewProjection :: "(string \<Rightarrow> string \<Rightarrow> int) \<Rightarrow> (string \<Rightarrow> string) \<Rightarrow> ReviewProjectionLimits \<Rightarrow>
    'x ProjectionPorts \<Rightarrow> 'x ProjectionCommand \<Rightarrow> BuiltCurrentReviewProjection res" where
  "buildCurrentReviewProjection lc sha limits ports command =
     rbind (validateReviewProjectionLimits limits) (\<lambda>valid_limits. execute lc sha valid_limits ports command)"

end
