(* ===== verification/Projection_Guarantees.thy ===== *)
theory Projection_Guarantees
  imports Review_Projection
begin

text \<open>
  What a built projection guarantees, whatever its ports return: partial coverage publishes no conclusion,
  an all-clear claim is justified by closed or suppressed threads, a thread is only offered for closing when
  every planned provider confirmed the fix, and the envelope keeps its limits.
\<close>

section \<open>The steps of a projection that succeeds\<close>

text \<open>\<open>projection_run\<close>: the values that the steps of \<open>project_state\<close> pass on.\<close>

definition projection_run :: "(string \<Rightarrow> string \<Rightarrow> int) \<Rightarrow> (string \<Rightarrow> string) \<Rightarrow> ReviewProjectionLimits \<Rightarrow>
    'x ProjectionPorts \<Rightarrow> 'x ProjectionCommand \<Rightarrow> ProjectionState \<Rightarrow> LifecycleVerificationFact list option \<Rightarrow>
    SelectedCurrentFinding list \<Rightarrow> FindingOccurrence list \<Rightarrow> bool" where
  "projection_run lc sha limits ports command st verified selected xs \<longleftrightarrow>
     validateCommand command limits = None \<and>
     loadCurrent ports (cmd_scope command) (cmd_priorLineageHints command)
       (map_option bl_appliedResolutions (cmd_comparisonBaseline command)) = Inr (st_inventory st) \<and>
     validateInventory (cmd_scope command) (st_inventory st) limits = None \<and>
     st_coverage st = normalizeCoverage lc (cmd_coverage command) (st_inventory st) \<and>
     project_lifecycle_verification ports command (st_inventory st) (st_coverage st)
       (recurrence_vetoes ports command (st_inventory st)) = Inr verified \<and>
     selectCurrent ports (cmd_currentFindings command) (cmd_revisionFiles command) (cmd_diff command) limits = Inr selected \<and>
     (\<exists>judged. st_decisions st = verified_decisions verified judged) \<and>
     project_current lc sha limits command (st_inventory st) selected (st_decisions st) = Inr xs \<and>
     st_facts st = map_option (map (link_fact (st_decisions st) xs)) verified \<and>
     st_gate st = mergeGate ports (cmd_failOnSeverity command) xs (st_coverage st) (inv_complete (st_inventory st)) (st_facts st) \<and>
     validateGateDecision xs (st_gate st) (st_facts st) = None \<and>
     st_occurrences st = applyBlockingDecision lc xs (st_gate st) \<and>
     st_lifecycle st = buildLifecycleFacts lc (st_inventory st) (st_decisions st) (cmd_priorLineageHints command)
       (st_coverage st) (st_occurrences st) (cmd_revisionFiles command) (st_facts st) \<and>
     (\<exists>incomplete. deriveReviewPresentation (scope_headSha (cmd_scope command)) (cmd_comparisonBaseline command)
       (st_coverage st) incomplete (st_occurrences st) (st_facts st) = Inr (st_presentation st))"

lemma project_state_run:
  assumes "project_state lc sha limits ports command = Inr st"
  shows "\<exists>verified selected xs. projection_run lc sha limits ports command st verified selected xs"
  using assms unfolding project_state_def projection_run_def Let_def
  by (clarsimp simp only: res_simps sum.inject) (clarsimp, blast)

lemma execute_run:
  assumes "execute lc sha limits ports command = Inr built"
  obtains st verified selected xs p placed chunks where
    "projection_run lc sha limits ports command st verified selected xs"
    "applyPlacementDecisions lc (st_occurrences st) (pp_placements p) = Inr placed"
    "(if cov_state (st_coverage st) = Partial then Inr [] else buildInlineChunks lc sha placed limits) = Inr chunks"
    "built_envelope built = build_envelope lc command st p placed chunks"
    "built_canonicalJson built = canonicalizeReviewProjection (built_envelope built)"
    "int (built_byteCount built) \<le> limits MaxProjectionBytes"
    "built_byteCount built = byte_length (built_canonicalJson built)" "built_findingCount built = length placed"
    "validateRenderedText (summary_body st placed p) (pp_checkName p) (check_title st placed p)
       (check_summary st placed p) chunks limits = None"
proof -
  obtain st p placed chunks where 1: "project_state lc sha limits ports command = Inr st"
      "applyPlacementDecisions lc (st_occurrences st) (pp_placements p) = Inr placed"
      "(if cov_state (st_coverage st) = Partial then Inr [] else buildInlineChunks lc sha placed limits) = Inr chunks"
      "built_envelope built = build_envelope lc command st p placed chunks"
      "built_canonicalJson built = canonicalizeReviewProjection (built_envelope built)"
      "int (built_byteCount built) \<le> limits MaxProjectionBytes"
      "built_byteCount built = byte_length (built_canonicalJson built)" "built_findingCount built = length placed"
      "validateRenderedText (summary_body st placed p) (pp_checkName p) (check_title st placed p)
         (check_summary st placed p) chunks limits = None"
    using assms unfolding execute_def Let_def
    by (simp only: res_simps sum.inject)
       (elim exE conjE, hypsubst, rule that, assumption, assumption, assumption, simp_all)
  from project_state_run [OF 1(1)] 1(2-) show thesis using that by blast
qed


section \<open>Occurrences on their way to the envelope\<close>

lemma set_blocking_keys [simp]: "occ_lineageId (set_blocking b x) = occ_lineageId x" "occ_state (set_blocking b x) = occ_state x"
    "occ_trustedMarker (set_blocking b x) = occ_trustedMarker x"
  by (simp_all add: set_blocking_def)

lemma set_placement_keys [simp]: "occ_lineageId (set_placement ds x) = occ_lineageId x" "occ_state (set_placement ds x) = occ_state x"
    "occ_blocking (set_placement ds x) = occ_blocking x"
  by (simp_all add: set_placement_def)

lemma placed_is: "applyPlacementDecisions lc xs ds = Inr placed \<Longrightarrow> placed = sortOccurrences lc (map (set_placement ds) xs)"
  by (simp add: applyPlacementDecisions_def res_simps)

lemma placed_occurrences:
  assumes "projection_run lc sha limits ports command st verified selected xs"
    and "applyPlacementDecisions lc (st_occurrences st) ds = Inr placed"
  shows "set placed = (\<lambda>x. set_placement ds (set_blocking (gate_blockingLineageIds (st_gate st)) x)) `
    set (projectOccurrences lc sha (cmd_scope command) selected (cmd_priorLineageHints command) (st_inventory st) (st_decisions st))"
    "set (st_occurrences st) = set_blocking (gate_blockingLineageIds (st_gate st)) `
    set (projectOccurrences lc sha (cmd_scope command) selected (cmd_priorLineageHints command) (st_inventory st) (st_decisions st))"
proof -
  have "xs = projectOccurrences lc sha (cmd_scope command) selected (cmd_priorLineageHints command) (st_inventory st) (st_decisions st)"
    and "st_occurrences st = applyBlockingDecision lc xs (st_gate st)"
    using assms(1) by (auto simp: projection_run_def project_current_def Let_def res_simps)
  then show "set (st_occurrences st) = set_blocking (gate_blockingLineageIds (st_gate st)) `
    set (projectOccurrences lc sha (cmd_scope command) selected (cmd_priorLineageHints command) (st_inventory st) (st_decisions st))"
    by (simp add: applyBlockingDecision_def)
  then show "set placed = (\<lambda>x. set_placement ds (set_blocking (gate_blockingLineageIds (st_gate st)) x)) `
    set (projectOccurrences lc sha (cmd_scope command) selected (cmd_priorLineageHints command) (st_inventory st) (st_decisions st))"
    using placed_is [OF assms(2)] by (simp add: image_image)
qed

lemma coverage_state: "cov_state (normalizeCoverage lc coverage inventory) = Partial \<longleftrightarrow>
    cov_state coverage = Partial \<or> \<not> inv_complete inventory"
  by (simp add: normalizeCoverage_def)

lemma partial_not_complete: "c = Complete \<longleftrightarrow> c \<noteq> Partial"
  by (cases c) simp_all

section \<open>Partial coverage\<close>

text \<open>
  C5: when the review did not cover what it had to, or the inventory of threads is incomplete, the projection
  concludes nothing: the check is neutral whatever the gate and the presentation say, there are no inline
  comments, no lineage is handed to the next review, no thread is offered for closing, and the summary claims
  no all-clear and begins with the notice that coverage is partial.
\<close>

theorem partial_coverage_concludes_nothing:
  assumes "execute lc sha limits ports command = Inr built"
    and "loadCurrent ports (cmd_scope command) (cmd_priorLineageHints command)
      (map_option bl_appliedResolutions (cmd_comparisonBaseline command)) = Inr inventory"
    and "cov_state (cmd_coverage command) = Partial \<or> \<not> inv_complete inventory"
  shows "let env = built_envelope built; pub = env_publishing env in
    cov_state (env_coverage env) = Partial \<and> chk_conclusion (pub_check pub) = CheckNeutral \<and>
    pub_inlineReviewChunks pub = [] \<and> snap_lineageHints (env_snapshot env) = [] \<and>
    \<not> list_ex lf_mutationEligible (pub_lifecycle pub) \<and> \<not> sum_allClear (pub_summary pub) \<and>
    take (length partial_notice) (sum_body (pub_summary pub)) = partial_notice"
proof -
  obtain st verified selected xs p placed chunks where run: "projection_run lc sha limits ports command st verified selected xs"
    and chunks: "(if cov_state (st_coverage st) = Partial then Inr [] else buildInlineChunks lc sha placed limits) = Inr chunks"
    and built: "built_envelope built = build_envelope lc command st p placed chunks"
    by (rule execute_run [OF assms(1)])
  have "st_inventory st = inventory" "st_coverage st = normalizeCoverage lc (cmd_coverage command) (st_inventory st)"
    using run assms(2) by (auto simp: projection_run_def)
  with assms(3) have partial: "cov_state (st_coverage st) = Partial" by (simp add: coverage_state)
  have "st_lifecycle st = buildLifecycleFacts lc (st_inventory st) (st_decisions st) (cmd_priorLineageHints command)
      (st_coverage st) (st_occurrences st) (cmd_revisionFiles command) (st_facts st)"
    using run by (simp add: projection_run_def)
  then have "\<not> list_ex lf_mutationEligible (st_lifecycle st)"
    using partial by (auto simp: buildLifecycleFacts_def lifecycle_fact_def mutation_eligible_def Let_def list_ex_iff)
  then show ?thesis
    using partial chunks unfolding built by (auto simp: build_envelope_def Let_def all_clear_def summary_body_def)
qed

section \<open>All clear\<close>

text \<open>
  C3: a projection that claims an all-clear is right to: the inventory is complete and the gate passed, every
  finding the policy selected lies on a thread that a human command suppressed, and every active earlier
  finding has either such a thread or a confirmed closed one and no live one.
\<close>

theorem all_clear_is_justified:
  assumes "execute lc sha limits ports command = Inr built"
    and "sum_allClear (pub_summary (env_publishing (built_envelope built)))"
  shows "\<exists>inventory selected.
    loadCurrent ports (cmd_scope command) (cmd_priorLineageHints command)
      (map_option bl_appliedResolutions (cmd_comparisonBaseline command)) = Inr inventory \<and>
    selectCurrent ports (cmd_currentFindings command) (cmd_revisionFiles command) (cmd_diff command) limits = Inr selected \<and>
    inv_complete inventory \<and> gate_conclusion (env_mergeGate (built_envelope built)) = GatePass \<and>
    (\<forall>f \<in> set selected. \<exists>t. findTargetForLineage (lineage_of sha (cmd_scope command) (cmd_priorLineageHints command) f)
        (inv_targets inventory) = Some t \<and> lt_disposition t = CommandSuppressed) \<and>
    (\<forall>h \<in> set (cmd_priorLineageHints command). hint_active h \<longrightarrow>
       confirmedClosed inventory (hint_lineageId h) \<or>
       (\<exists>t. findTargetForLineage (hint_lineageId h) (inv_targets inventory) = Some t \<and> lt_disposition t = CommandSuppressed))"
proof -
  obtain st verified selected xs p placed chunks where run: "projection_run lc sha limits ports command st verified selected xs"
    and placed: "applyPlacementDecisions lc (st_occurrences st) (pp_placements p) = Inr placed"
    and built: "built_envelope built = build_envelope lc command st p placed chunks"
    by (rule execute_run [OF assms(1)])
  let ?hints = "cmd_priorLineageHints command" and ?inventory = "st_inventory st"
  let ?xs = "projectOccurrences lc sha (cmd_scope command) selected ?hints ?inventory (st_decisions st)"
  have clear: "canClaimAllClear (st_coverage st) ?inventory placed (st_gate st) (st_lifecycle st)"
    using assms(2) unfolding built by (simp add: build_envelope_def Let_def all_clear_def)
  then have settled: "occ_state x = OccResolved \<or> occ_state x = OccSuppressedByHuman" if "x \<in> set ?xs" for x
    using that unfolding canClaimAllClear_def list_all_iff placed_occurrences(1) [OF run placed] by auto
  have current: "\<exists>t. findTargetForLineage (lineage_of sha (cmd_scope command) ?hints f) (inv_targets ?inventory) = Some t \<and>
      lt_disposition t = CommandSuppressed" if "f \<in> set selected" for f
  proof -
    have "current_occurrence lc sha (cmd_scope command) ?hints ?inventory f \<in> set ?xs"
      using that by (simp add: set_projectOccurrences)
    from settled [OF this] show ?thesis using current_state_not_historical(1) current_suppressed by auto
  qed
  have earlier: "confirmedClosed ?inventory (hint_lineageId h) \<or>
      (\<exists>t. findTargetForLineage (hint_lineageId h) (inv_targets ?inventory) = Some t \<and> lt_disposition t = CommandSuppressed)"
    if h: "h \<in> set ?hints" "hint_active h" for h
  proof (cases "h \<in> set (unmatched_hints selected ?hints)")
    case True
    then have "historical_occurrence (cmd_scope command) ?inventory (st_decisions st) h \<in> set ?xs"
      by (simp add: set_projectOccurrences)
    from settled [OF this] show ?thesis using historical_resolved historical_suppressed by auto
  next
    case False
    from matched_lineage [OF h False] obtain f where "f \<in> set selected"
        "lineage_of sha (cmd_scope command) ?hints f = hint_lineageId h" by metis
    with current [of f] show ?thesis by simp
  qed
  have "loadCurrent ports (cmd_scope command) ?hints (map_option bl_appliedResolutions (cmd_comparisonBaseline command)) = Inr ?inventory"
    "selectCurrent ports (cmd_currentFindings command) (cmd_revisionFiles command) (cmd_diff command) limits = Inr selected"
    using run by (simp_all add: projection_run_def)
  moreover have "inv_complete ?inventory" "gate_conclusion (env_mergeGate (built_envelope built)) = GatePass"
    using clear unfolding built by (simp_all add: canClaimAllClear_def build_envelope_def Let_def)
  ultimately show ?thesis using current earlier by blast
qed


section \<open>Closing threads\<close>

lemma find_by_key: "distinct (map k ts) \<Longrightarrow> t \<in> set ts \<Longrightarrow> (\<And>s. key (g s) = k s) \<Longrightarrow>
    find (\<lambda>f. key f = k t) (map g ts) = Some (g t)"
  by (induction ts) (auto simp: image_iff)

lemma link_fact_keys [simp]: "vf_targetId (link_fact ds xs f) = vf_targetId f"
    "vf_mutationStatus (link_fact ds xs f) = vf_mutationStatus f"
    "vf_confirmationState (link_fact ds xs f) = vf_confirmationState f"
  by (simp_all add: link_fact_def Let_def split: list.split)

lemma verification_of_target:
  assumes "distinct (map lt_targetId (inv_targets inventory))" "t \<in> set (inv_targets inventory)"
    and "lt_disposition t \<noteq> CommandSuppressed"
    and "projectLifecycleVerification ctx inventory coverage hints ids vetoes = Inr fs"
  shows "verification_of (Some (map (link_fact ds xs) fs)) t =
    Some (link_fact ds xs (verification_fact ctx inventory coverage hints ids vetoes t))"
proof -
  have "fs = map (verification_fact ctx inventory coverage hints ids vetoes) (verification_targets inventory)"
    using assms(4) by (auto simp: projectLifecycleVerification_def split: if_splits)
  then have fs: "map (link_fact ds xs) fs =
      map (\<lambda>t. link_fact ds xs (verification_fact ctx inventory coverage hints ids vetoes t)) (verification_targets inventory)"
    by simp
  have "distinct (map lt_targetId (verification_targets inventory))"
    using assms(1) by (auto simp: verification_targets_def distinct_map intro: inj_on_subset)
  moreover have "t \<in> set (verification_targets inventory)"
    using assms(2,3) by (simp add: verification_targets_def)
  ultimately show ?thesis
    unfolding verification_of_def some_list_def option.case fs
    by (rule find_by_key) (simp add: verification_fact_simps)
qed

text \<open>
  C4: when the providers verified earlier threads, a thread is offered for closing only if it is live, active
  and may be resolved by the viewer, the inventory is complete and coverage too, resolving is switched on, no
  current finding vetoes it, and every planned provider (there is one) has exactly one accepted observation of
  the thread as it is now, which calls the finding resolved with the confidence its severity asks for.
\<close>

theorem closing_needs_every_planned_provider:
  assumes "execute lc sha limits ports command = Inr built"
    and "cmd_lifecycleVerification command = Some ctx"
    and "f \<in> set (pub_lifecycle (env_publishing (built_envelope built)))" "lf_mutationEligible f"
  shows "\<exists>inventory t.
    loadCurrent ports (cmd_scope command) (cmd_priorLineageHints command)
      (map_option bl_appliedResolutions (cmd_comparisonBaseline command)) = Inr inventory \<and>
    t \<in> set (inv_targets inventory) \<and> lt_targetId t = lf_targetId f \<and> lt_threadStateHash t = lf_threadStateHash f \<and>
    inv_complete inventory \<and> cov_state (cmd_coverage command) = Complete \<and> ctx_resolve ctx \<and>
    lt_disposition t = ActiveTarget \<and> lt_viewerCanResolve t \<and>
    lt_targetId t \<notin> set (recurrence_vetoes ports command inventory) \<and> ctx_plannedProviderVoteKeys ctx \<noteq> [] \<and>
    (\<forall>k \<in> set (ctx_plannedProviderVoteKeys ctx).
       \<exists>v. sole (accepted ctx inventory (cmd_authoritativeObservationIds command) t) k v \<and> resolves ctx t v)"
proof -
  obtain st verified selected xs p placed chunks where run: "projection_run lc sha limits ports command st verified selected xs"
    and built: "built_envelope built = build_envelope lc command st p placed chunks"
    by (rule execute_run [OF assms(1)])
  let ?hints = "cmd_priorLineageHints command" and ?inventory = "st_inventory st" and ?coverage = "st_coverage st"
  let ?ids = "cmd_authoritativeObservationIds command" and ?vetoes = "recurrence_vetoes ports command (st_inventory st)"
  have "f \<in> set (buildLifecycleFacts lc ?inventory (st_decisions st) ?hints ?coverage (st_occurrences st)
      (cmd_revisionFiles command) (st_facts st))"
    using assms(3) run unfolding built by (simp add: build_envelope_def Let_def projection_run_def)
  then obtain t where t: "t \<in> set (inv_targets ?inventory)"
    and f: "f = lifecycle_fact lc ?inventory (st_decisions st) ?hints ?coverage (st_occurrences st)
        (cmd_revisionFiles command) (st_facts st) t"
    by (auto simp: buildLifecycleFacts_def)
  have eligible: "inv_complete ?inventory" "cov_state ?coverage = Complete" "lt_disposition t = ActiveTarget"
      "lt_viewerCanResolve t"
      "case verification_of (st_facts st) t of None \<Rightarrow> True | Some v \<Rightarrow> vf_mutationStatus v = Pending"
    using assms(4) unfolding f by (simp_all add: lifecycle_fact_def mutation_eligible_def Let_def)
  obtain fs where fs: "projectLifecycleVerification ctx ?inventory ?coverage ?hints ?ids ?vetoes = Inr fs" "verified = Some fs"
    using run assms(2) by (auto simp: projection_run_def project_lifecycle_verification_def res_simps)
  have facts: "st_facts st = Some (map (link_fact (st_decisions st) xs) fs)"
    using run fs(2) by (simp add: projection_run_def)
  have "distinct (map lt_targetId (inv_targets ?inventory))"
    using run by (simp add: projection_run_def validateInventory_def res_simps)
  from verification_of_target [OF this t _ fs(1)] eligible(3,5)
  have "vf_mutationStatus (verification_fact ctx ?inventory ?coverage ?hints ?ids ?vetoes t) = Pending"
    unfolding facts by simp
  then have confirmed: "fix_confirmed ctx ?inventory ?ids ?vetoes t" "ctx_resolve ctx"
    by (simp_all add: verification_fact_simps)
  have "cov_state (cmd_coverage command) = Complete"
    using eligible(2) run by (simp add: projection_run_def coverage_state partial_not_complete)
  moreover have "loadCurrent ports (cmd_scope command) ?hints
      (map_option bl_appliedResolutions (cmd_comparisonBaseline command)) = Inr ?inventory"
    using run by (simp add: projection_run_def)
  moreover have "lt_targetId t = lf_targetId f" "lt_threadStateHash t = lf_threadStateHash f"
    unfolding f by (simp_all add: lifecycle_fact_def Let_def)
  ultimately show ?thesis using t eligible confirmed by (auto simp: fix_confirmed_iff)
qed


section \<open>Equal texts in two places\<close>

text \<open>What the lineage of a new finding is computed from; the file and the line are not in it.\<close>

definition same_lineage_fact :: "SelectedCurrentFinding \<Rightarrow> SelectedCurrentFinding \<Rightarrow> bool" where
  "same_lineage_fact f g \<longleftrightarrow> cf_category f = cf_category g \<and> cf_failureModeHash f = cf_failureModeHash g \<and>
     cf_symbolAnchor f = cf_symbolAnchor g \<and> cf_trustedMarker f = cf_trustedMarker g"

lemma same_lineage:
  assumes "same_lineage_fact f g" "matchPriorLineage f hints = None" "matchPriorLineage g hints = None"
  shows "lineage_of sha scope hints f = lineage_of sha scope hints g"
  using assms by (simp add: lineage_of_def createLineageId_def lineage_fact_def same_lineage_fact_def)

text \<open>Every step before the occurrences are compared succeeds: the command, the inventory, what the policy selected and
  the lifecycle decisions pass their checks, and the limit on findings holds.\<close>

definition reaches_occurrences :: "(string \<Rightarrow> string \<Rightarrow> int) \<Rightarrow> ReviewProjectionLimits \<Rightarrow> 'x ProjectionPorts \<Rightarrow> 'x ProjectionCommand \<Rightarrow>
    SelectedCurrentFinding list \<Rightarrow> bool" where
  "reaches_occurrences lc limits ports command selected \<longleftrightarrow> validateCommand command limits = None \<and>
     (case loadCurrent ports (cmd_scope command) (cmd_priorLineageHints command)
         (map_option bl_appliedResolutions (cmd_comparisonBaseline command)) of
        Inl e \<Rightarrow> False
      | Inr inventory \<Rightarrow>
          let coverage = normalizeCoverage lc (cmd_coverage command) inventory;
              vetoes = recurrence_vetoes ports command inventory
          in validateInventory (cmd_scope command) inventory limits = None \<and>
            (case project_lifecycle_verification ports command inventory coverage vetoes of
               Inl e \<Rightarrow> False
             | Inr verified \<Rightarrow>
                 selectCurrent ports (cmd_currentFindings command) (cmd_revisionFiles command) (cmd_diff command) limits =
                   Inr selected \<and>
                 assertWithinProjectionLimit MaxFindings (int (length selected)) limits = None \<and>
                 validateSelectedFindings (cmd_currentFindings command) selected limits = None \<and>
                 (case projectLifecycle ports command selected inventory vetoes of
                    Inl e \<Rightarrow> False
                  | Inr judged \<Rightarrow>
                      validateLifecycleDecisions inventory (verified_decisions verified judged) = None) \<and>
                 assertWithinProjectionLimit MaxFindings
                   (int (length selected + length (unmatched_hints selected (cmd_priorLineageHints command)))) limits = None))"

lemma repeated_values: "\<not> distinct values \<Longrightarrow>
    assertUniqueValues name values = Some (JsError (name @ '' values must be unique''))"
  by (simp add: assertUniqueValues_def check_def)

lemma repeated_lineage:
  assumes "reaches_occurrences lc limits ports command selected"
    and "\<not> distinct (map (lineage_of sha (cmd_scope command) (cmd_priorLineageHints command)) selected)"
  shows "execute lc sha limits ports command =
    Inl (JsError ''occurrence lineageId values must be unique'')"
proof -
  have "project_current lc sha limits command inventory selected decisions =
      Inl (JsError ''occurrence lineageId values must be unique'')" for inventory decisions
  proof -
    let ?xs = "projectOccurrences lc sha (cmd_scope command) selected (cmd_priorLineageHints command)
      inventory decisions"
    have "assertWithinProjectionLimit MaxFindings (int (length ?xs)) limits = None"
      using assms(1)
      by (simp add: reaches_occurrences_def projectOccurrences_def sortOccurrences_def Let_def split: sum.splits)
    moreover have "\<not> distinct (map occ_lineageId ?xs)"
      using assms(2) unfolding projectOccurrences_def sortOccurrences_def distinct_map_js_sort by (simp add: comp_def)
    ultimately show ?thesis
      by (simp add: project_current_def Let_def throws_def repeated_values)
  qed
  then show ?thesis
    using assms(1)
    by (auto simp: reaches_occurrences_def execute_def project_state_def Let_def throws_def split: sum.splits)
qed

text \<open>
  C37: when the policy selects two findings that no earlier finding continues and that agree in category, hash
  of the text, symbol and marker, there is no projection, wherever the two are: the lineage of a new
  finding is computed without its file and line, the two occurrences get the same one, and the check that
  lineages are unique throws.  This is the error of every run whose earlier steps succeed.
\<close>

theorem equal_texts_block_the_projection:
  assumes "reaches_occurrences lc limits ports command (fs @ f # gs @ g # hs)"
    and "same_lineage_fact f g" "matchPriorLineage f (cmd_priorLineageHints command) = None"
      "matchPriorLineage g (cmd_priorLineageHints command) = None"
  shows "execute lc sha limits ports command =
    Inl (JsError ''occurrence lineageId values must be unique'')"
  using same_lineage [OF assms(2-4), of sha "cmd_scope command"] by (intro repeated_lineage [OF assms(1)]) simp

section \<open>Runs\<close>

lemma execute_intro:
  assumes "project_state lc sha limits ports command = Inr st"
    and "projectPresentation ports command (st_presentation st) (st_coverage st) (st_occurrences st)
      (inv_targets (st_inventory st)) (st_lifecycle st) limits = Inr p"
    and "applyPlacementDecisions lc (st_occurrences st) (pp_placements p) = Inr xs"
    and "(if cov_state (st_coverage st) = Partial then Inr [] else buildInlineChunks lc sha xs limits) = Inr chunks"
    and "cov_state (st_coverage st) = Partial \<longrightarrow> assertPartialPresentationDoesNotClaimCompletion
      (summary_body st xs p) (check_title st xs p) (check_summary st xs p) = None"
    and "validateRenderedText (summary_body st xs p) (pp_checkName p) (check_title st xs p) (check_summary st xs p)
      chunks limits = None"
    and "int (byte_length (canonicalizeReviewProjection (build_envelope lc command st p xs chunks))) \<le> limits MaxProjectionBytes"
  shows "\<exists>built. execute lc sha limits ports command = Inr built \<and> built_envelope built = build_envelope lc command st p xs chunks"
proof -
  have "assertWithinProjectionLimit MaxProjectionBytes
      (int (byte_length (canonicalizeReviewProjection (build_envelope lc command st p xs chunks)))) limits = None"
    using assms(7) by (simp add: res_simps)
  then show ?thesis unfolding execute_def Let_def using assms(1-6) by simp
qed

text \<open>What is rendered depends on the state only through these parts.\<close>

definition same_rendering :: "ProjectionState \<Rightarrow> ProjectionState \<Rightarrow> bool" where
  "same_rendering st st' \<longleftrightarrow> st_inventory st = st_inventory st' \<and> st_coverage st = st_coverage st' \<and>
     st_occurrences st = st_occurrences st' \<and> st_gate st = st_gate st' \<and> st_lifecycle st = st_lifecycle st' \<and>
     rp_complete (st_presentation st) = rp_complete (st_presentation st')"

lemma same_rendering_cong:
  assumes "same_rendering st st'"
  shows "summary_body st xs p = summary_body st' xs p" "check_title st xs p = check_title st' xs p"
    "check_summary st xs p = check_summary st' xs p"
    "build_envelope lc command st p xs chunks = build_envelope lc command st' p xs chunks"
  using assms
  by (simp_all add: same_rendering_def build_envelope_def summary_body_def check_title_def check_summary_def
      all_clear_def Let_def)

text \<open>A review without findings after an earlier one whose only finding's thread was closed.\<close>

definition demo_scope :: ReviewProjectionScope where
  "demo_scope = \<lparr>scope_repository = ''r'', scope_pullRequest = 1, scope_baseSha = ''b'', scope_headSha = ''head'',
     scope_revisionHash = ''v''\<rparr>"

definition demo_hint :: PriorLineageHint where
  "demo_hint = \<lparr>hint_lineageId = ''l'', hint_category = ''bug'', hint_failureModeHash = ''h'', hint_symbolAnchor = None,
     hint_trustedMarker = None, hint_severity = Major, hint_title = ''t'', hint_message = ''m'', hint_filePath = ''a'',
     hint_startLine = None, hint_line = Some 1, hint_endLine = None, hint_firstSeenHeadSha = ''old'',
     hint_lastSeenHeadSha = ''old'', hint_active = True\<rparr>"

definition demo_command :: "ProjectionCoverageState \<Rightarrow> LifecycleVerificationContext option \<Rightarrow> unit ProjectionCommand" where
  "demo_command state ctx = \<lparr>cmd_comparisonBaseline = None, cmd_projectionPolicyVersion = ''p'',
     cmd_authoritativeObservationIds = [''o1''], cmd_scope = demo_scope, cmd_presentation = (),
     cmd_providerExecution = \<lparr>pe_plannedProviders = 1, pe_succeededProviders = 1\<rparr>, cmd_currentFindings = [],
     cmd_lifecycleVerification = ctx, cmd_priorLineageHints = (if ctx = None then [demo_hint] else []),
     cmd_lifecycleRevalidations = [], cmd_coverage = demo_coverage\<lparr>cov_state := state\<rparr>, cmd_revisionFiles = [],
     cmd_diff = [], cmd_failOnSeverity = None\<rparr>"

definition demo_rendered :: ProjectedReviewPresentation where
  "demo_rendered = \<lparr>pp_summaryBody = ''ok'', pp_checkName = ''c'', pp_checkTitle = ''t'', pp_checkSummary = ''s'',
     pp_checkConclusion = None, pp_placements = []\<rparr>"

definition demo_ports :: "CurrentLifecycleInventory \<Rightarrow> unit ProjectionPorts" where
  "demo_ports inventory = \<lparr>loadCurrent = (\<lambda>_ _ _. Inr inventory), recurrenceVetoTargetIds = None,
     selectCurrent = (\<lambda>_ _ _ _. Inr []), projectLifecycle = (\<lambda>_ _ _ _. Inr []),
     mergeGate = evaluateMergeGate compareCodePoints, projectPresentation = (\<lambda>_ _ _ _ _ _ _. Inr demo_rendered)\<rparr>"

definition closed_inventory :: CurrentLifecycleInventory where
  "closed_inventory = (demo_inventory [])\<lparr>inv_resolvedObservations :=
     Some [\<lparr>ro_lineageId = ''l'', ro_trustedMarker = ''l'', ro_confirmed = True\<rparr>]\<rparr>"

definition closed_occurrence :: FindingOccurrence where
  "closed_occurrence = historical_occurrence demo_scope closed_inventory [] demo_hint"

definition closed_state :: "ProjectionCoverageState \<Rightarrow> ProjectionState" where
  "closed_state state = (let coverage = normalizeCoverage compareCodePoints (demo_coverage\<lparr>cov_state := state\<rparr>) closed_inventory
     in \<lparr>st_inventory = closed_inventory, st_coverage = coverage, st_facts = None, st_decisions = [],
      st_occurrences = [closed_occurrence],
      st_gate = evaluateMergeGate compareCodePoints None [closed_occurrence] coverage True None, st_lifecycle = [],
      st_presentation = \<lparr>rp_update = False, rp_complete = (state = Complete), rp_severity = (\<lambda>s. 0), rp_coverage = (1, 1),
        rp_verification = None, rp_changes = None\<rparr>\<rparr>)"

text \<open>The limit of the text is exactly what the envelopes of the examples need.\<close>

definition example_limits :: "ReviewProjectionEnvelopeV1 \<Rightarrow> ReviewProjectionLimits" where
  "example_limits e key = (if key = MaxProjectionBytes then int (byte_length (canonicalizeReviewProjection e))
     else REVIEW_PROJECTION_ABSOLUTE_LIMITS key)"

definition closed_envelope :: "ProjectionCoverageState \<Rightarrow> ReviewProjectionEnvelopeV1" where
  "closed_envelope state = build_envelope compareCodePoints (demo_command state None) (closed_state state) demo_rendered
     [set_placement [] closed_occurrence] []"

definition closed_run :: "ProjectionCoverageState \<Rightarrow> BuiltCurrentReviewProjection res" where
  "closed_run state = execute compareCodePoints id (example_limits (closed_envelope state)) (demo_ports closed_inventory)
     (demo_command state None)"

lemma closed_states:
  "case project_state compareCodePoints id (example_limits (closed_envelope Complete)) (demo_ports closed_inventory)
     (demo_command Complete None) of Inl e \<Rightarrow> False | Inr st \<Rightarrow> same_rendering st (closed_state Complete)"
  "case project_state compareCodePoints id (example_limits (closed_envelope Partial)) (demo_ports closed_inventory)
     (demo_command Partial None) of Inl e \<Rightarrow> False | Inr st \<Rightarrow> same_rendering st (closed_state Partial)"
  by code_simp+


lemma example_run:
  assumes "project_state compareCodePoints id (example_limits e) (demo_ports inventory) command = Inr st"
    and "same_rendering st st'" "e = build_envelope compareCodePoints command st' demo_rendered placed []"
    and "applyPlacementDecisions compareCodePoints (st_occurrences st') (pp_placements demo_rendered) = Inr placed"
    and "buildInlineChunks compareCodePoints id placed (example_limits e) = Inr []"
    and "cov_state (st_coverage st') = Partial \<longrightarrow> assertPartialPresentationDoesNotClaimCompletion
      (summary_body st' placed demo_rendered) (check_title st' placed demo_rendered) (check_summary st' placed demo_rendered) = None"
    and "validateRenderedText (summary_body st' placed demo_rendered) (pp_checkName demo_rendered)
      (check_title st' placed demo_rendered) (check_summary st' placed demo_rendered) [] (example_limits e) = None"
  shows "\<exists>built. execute compareCodePoints id (example_limits e) (demo_ports inventory) command = Inr built \<and>
    built_envelope built = e"
proof -
  note cong = same_rendering_cong [OF assms(2)]
  have st: "st_coverage st = st_coverage st'" "st_occurrences st = st_occurrences st'"
    using assms(2) by (simp_all add: same_rendering_def)
  have "\<exists>built. execute compareCodePoints id (example_limits e) (demo_ports inventory) command = Inr built \<and>
      built_envelope built = build_envelope compareCodePoints command st demo_rendered placed []"
  proof (rule execute_intro [OF assms(1)])
    show "projectPresentation (demo_ports inventory) command (st_presentation st) (st_coverage st) (st_occurrences st)
        (inv_targets (st_inventory st)) (st_lifecycle st) (example_limits e) = Inr demo_rendered"
      by (simp add: demo_ports_def)
    show "int (byte_length (canonicalizeReviewProjection (build_envelope compareCodePoints command st demo_rendered placed [])))
        \<le> example_limits e MaxProjectionBytes"
      unfolding cong assms(3) [symmetric] by (simp add: example_limits_def)
  qed (use assms(4-) in \<open>simp_all only: cong st if_cancel simp_thms\<close>)
  then show ?thesis unfolding cong assms(3) [symmetric] .
qed

lemma closed_rendering:
  assumes "state = Complete \<or> state = Partial"
  shows "\<exists>built. closed_run state = Inr built \<and> built_envelope built = closed_envelope state"
proof -
  let ?limits = "example_limits (closed_envelope state)"
  let ?placed = "[set_placement [] closed_occurrence]" and ?st' = "closed_state state"
  obtain st where st: "project_state compareCodePoints id ?limits (demo_ports closed_inventory) (demo_command state None) = Inr st"
    and same: "same_rendering st ?st'"
    using closed_states assms by (auto split: sum.splits)
  have texts: "state = Complete \<Longrightarrow> validateRenderedText (summary_body ?st' ?placed demo_rendered) (pp_checkName demo_rendered)
        (check_title ?st' ?placed demo_rendered) (check_summary ?st' ?placed demo_rendered) [] ?limits = None"
    "state = Partial \<Longrightarrow> validateRenderedText (summary_body ?st' ?placed demo_rendered) (pp_checkName demo_rendered)
        (check_title ?st' ?placed demo_rendered) (check_summary ?st' ?placed demo_rendered) [] ?limits = None"
    "state = Partial \<Longrightarrow> assertPartialPresentationDoesNotClaimCompletion (summary_body ?st' ?placed demo_rendered)
        (check_title ?st' ?placed demo_rendered) (check_summary ?st' ?placed demo_rendered) = None"
    by (simp only:, code_simp)+
  have coverage: "cov_state (st_coverage ?st') = state"
    using assms by (auto simp: closed_state_def Let_def normalizeCoverage_def closed_inventory_def demo_inventory_def)
  show ?thesis unfolding closed_run_def
  proof (rule example_run [OF st same closed_envelope_def])
    show "applyPlacementDecisions compareCodePoints (st_occurrences ?st') (pp_placements demo_rendered) = Inr ?placed"
      by (simp add: closed_state_def Let_def applyPlacementDecisions_def demo_rendered_def sortOccurrences_def)
    show "buildInlineChunks compareCodePoints id ?placed ?limits = Inr []"
      by (simp add: buildInlineChunks_def has_inline_comment_def set_placement_def summaryPlacement_def Let_def
          example_limits_def assertWithinProjectionLimit_def limit_check_def)
  qed (use texts assms in \<open>auto simp only: coverage\<close>)
qed

text \<open>A run in which the only planned provider confirmed the fix of the only thread.\<close>

definition fixed_target :: LiveLifecycleTarget where
  "fixed_target = (demo_target ''T1'')\<lparr>lt_trustedMarker := replicate 24 CHR ''a'', lt_threadStateHash := replicate 64 CHR ''a''\<rparr>"

definition fixed_context :: LifecycleVerificationContext where
  "fixed_context = demo_context\<lparr>ctx_plannedProviderVoteKeys := [''p''], ctx_observations :=
     [(demo_vote ''T1'' ''p'')\<lparr>ob_fingerprint := replicate 24 CHR ''a'', ob_threadStateHash := replicate 64 CHR ''a''\<rparr>]\<rparr>"

definition fixed_facts :: "LifecycleVerificationFact list option" where
  "fixed_facts = Some [verification_fact fixed_context (demo_inventory [fixed_target]) demo_coverage [] [''o1''] [] fixed_target]"

definition fixed_state :: ProjectionState where
  "fixed_state = (let inventory = demo_inventory [fixed_target]; decisions = verified_decisions fixed_facts []
     in \<lparr>st_inventory = inventory, st_coverage = demo_coverage, st_facts = fixed_facts, st_decisions = decisions,
      st_occurrences = [], st_gate = evaluateMergeGate compareCodePoints None [] demo_coverage True fixed_facts,
      st_lifecycle = [lifecycle_fact compareCodePoints inventory decisions [] demo_coverage [] [] fixed_facts fixed_target],
      st_presentation = \<lparr>rp_update = False, rp_complete = True, rp_severity = (\<lambda>s. 0), rp_coverage = (1, 1),
        rp_verification = None, rp_changes = None\<rparr>\<rparr>)"

definition fixed_envelope :: ReviewProjectionEnvelopeV1 where
  "fixed_envelope = build_envelope compareCodePoints (demo_command Complete (Some fixed_context)) fixed_state demo_rendered [] []"

definition fixed_run :: "BuiltCurrentReviewProjection res" where
  "fixed_run = execute compareCodePoints id (example_limits fixed_envelope) (demo_ports (demo_inventory [fixed_target]))
     (demo_command Complete (Some fixed_context))"

lemma fixed_states:
  "case project_state compareCodePoints id (example_limits fixed_envelope) (demo_ports (demo_inventory [fixed_target]))
     (demo_command Complete (Some fixed_context)) of Inl e \<Rightarrow> False | Inr st \<Rightarrow> same_rendering st fixed_state"
  by code_simp

lemma fixed_rendering: "\<exists>built. fixed_run = Inr built \<and> built_envelope built = fixed_envelope"
proof -
  obtain st where st: "project_state compareCodePoints id (example_limits fixed_envelope)
      (demo_ports (demo_inventory [fixed_target])) (demo_command Complete (Some fixed_context)) = Inr st"
    and same: "same_rendering st fixed_state"
    using fixed_states by (auto split: sum.splits)
  have texts: "validateRenderedText (summary_body fixed_state [] demo_rendered) (pp_checkName demo_rendered)
      (check_title fixed_state [] demo_rendered) (check_summary fixed_state [] demo_rendered) []
      (example_limits fixed_envelope) = None"
    by code_simp
  have state: "cov_state (st_coverage fixed_state) \<noteq> Partial" "st_occurrences fixed_state = []"
    by (simp_all add: fixed_state_def Let_def demo_coverage_def)
  show ?thesis unfolding fixed_run_def
  proof (rule example_run [OF st same fixed_envelope_def])
    show "buildInlineChunks compareCodePoints id [] (example_limits fixed_envelope) = Inr []"
      by (simp add: buildInlineChunks_def Let_def example_limits_def assertWithinProjectionLimit_def limit_check_def)
    show "applyPlacementDecisions compareCodePoints (st_occurrences fixed_state) (pp_placements demo_rendered) = Inr []"
      by (simp add: state applyPlacementDecisions_def demo_rendered_def sortOccurrences_def)
  qed (use texts state in simp_all)
qed


section \<open>Witnesses\<close>

theorem partial_coverage_concludes_nothing_witness:
  "\<exists>built. closed_run Partial = Inr built \<and>
     chk_conclusion (pub_check (env_publishing (built_envelope built))) = CheckNeutral \<and>
     snap_lineageHints (env_snapshot (built_envelope built)) = []"
proof -
  obtain built where built: "closed_run Partial = Inr built" using closed_rendering by blast
  have loaded: "loadCurrent (demo_ports closed_inventory) (cmd_scope (demo_command Partial None))
      (cmd_priorLineageHints (demo_command Partial None))
      (map_option bl_appliedResolutions (cmd_comparisonBaseline (demo_command Partial None))) = Inr closed_inventory"
    by (simp add: demo_ports_def)
  have partial: "cov_state (cmd_coverage (demo_command Partial None)) = Partial \<or> \<not> inv_complete closed_inventory"
    by (simp add: demo_command_def)
  from partial_coverage_concludes_nothing [OF built [unfolded closed_run_def] loaded partial] built
  show ?thesis by (auto simp: Let_def)
qed

theorem all_clear_is_justified_witness:
  "\<exists>built. closed_run Complete = Inr built \<and> sum_allClear (pub_summary (env_publishing (built_envelope built))) \<and>
     gate_conclusion (env_mergeGate (built_envelope built)) = GatePass"
proof -
  obtain built where built: "closed_run Complete = Inr built" "built_envelope built = closed_envelope Complete"
    using closed_rendering by blast
  have "sum_allClear (pub_summary (env_publishing (closed_envelope Complete)))" by code_simp
  then have clear: "sum_allClear (pub_summary (env_publishing (built_envelope built)))" unfolding built(2) .
  from all_clear_is_justified [OF built(1) [unfolded closed_run_def] clear] built clear show ?thesis by blast
qed

theorem closing_needs_every_planned_provider_witness:
  "\<exists>built. fixed_run = Inr built \<and> list_ex lf_mutationEligible (pub_lifecycle (env_publishing (built_envelope built))) \<and>
     ctx_resolve fixed_context"
proof -
  obtain built where built: "fixed_run = Inr built" "built_envelope built = fixed_envelope"
    using fixed_rendering by blast
  have "list_ex lf_mutationEligible (pub_lifecycle (env_publishing fixed_envelope))" by code_simp
  then have eligible: "list_ex lf_mutationEligible (pub_lifecycle (env_publishing (built_envelope built)))"
    unfolding built(2) .
  then obtain f where f: "f \<in> set (pub_lifecycle (env_publishing (built_envelope built)))" "lf_mutationEligible f"
    by (auto simp: list_ex_iff)
  have planned: "cmd_lifecycleVerification (demo_command Complete (Some fixed_context)) = Some fixed_context"
    by (simp add: demo_command_def)
  from closing_needs_every_planned_provider [OF built(1) [unfolded fixed_run_def] planned f] built eligible
  show ?thesis by blast
qed

definition twin_finding :: "string \<Rightarrow> SelectedCurrentFinding" where
  "twin_finding path = \<lparr>cf_sourceFindingId = path, cf_category = ''bug'', cf_failureModeHash = ''h'', cf_symbolAnchor = None,
     cf_trustedMarker = None, cf_anchorVerified = None, cf_severity = Major, cf_title = ''t'', cf_message = ''m'',
     cf_suggestion = None, cf_filePath = path, cf_startLine = None, cf_line = Some 1, cf_endLine = None,
     cf_confidence = None, cf_providerIds = [], cf_providerVoteKeys = [], cf_observationIds = [],
     sf_sourceFindingIds = [path]\<rparr>"

text \<open>Two providers' findings with the same text in two files, selected as they are.\<close>

definition twin_ports :: "unit ProjectionPorts" where
  "twin_ports = (demo_ports closed_inventory)\<lparr>selectCurrent := (\<lambda>_ _ _ _. Inr [twin_finding ''a'', twin_finding ''b''])\<rparr>"

definition twin_command :: "string list \<Rightarrow> unit ProjectionCommand" where
  "twin_command paths = (demo_command Complete None)\<lparr>cmd_priorLineageHints := [],
     cmd_currentFindings := map (CurrentFindingCandidate.truncate \<circ> twin_finding) paths\<rparr>"

lemma twins_reach: "reaches_occurrences compareCodePoints REVIEW_PROJECTION_ABSOLUTE_LIMITS twin_ports (twin_command [''a'', ''b''])
    [twin_finding ''a'', twin_finding ''b'']"
  by code_simp

theorem equal_texts_block_the_projection_witness:
  "cf_filePath (twin_finding ''a'') \<noteq> cf_filePath (twin_finding ''b'') \<and>
   map cf_filePath (cmd_currentFindings (twin_command [''a'', ''b''])) = [''a'', ''b''] \<and>
   execute compareCodePoints id REVIEW_PROJECTION_ABSOLUTE_LIMITS twin_ports (twin_command [''a'', ''b'']) =
     Inl (JsError ''occurrence lineageId values must be unique'')"
proof -
  have reach: "reaches_occurrences compareCodePoints REVIEW_PROJECTION_ABSOLUTE_LIMITS twin_ports (twin_command [''a'', ''b''])
      ([] @ twin_finding ''a'' # [] @ twin_finding ''b'' # [])"
    using twins_reach by simp
  have same: "same_lineage_fact (twin_finding ''a'') (twin_finding ''b'')"
    by (simp add: same_lineage_fact_def twin_finding_def)
  have new: "matchPriorLineage (twin_finding x) (cmd_priorLineageHints (twin_command [''a'', ''b''])) = None" for x
    by (simp add: matchPriorLineage_def twin_command_def)
  from equal_texts_block_the_projection [OF reach same new new, of id]
  show ?thesis by (simp add: twin_finding_def twin_command_def CurrentFindingCandidate.truncate_def)
qed

end
