(* ===== verification/Investigation_Data.thy ===== *)
theory Investigation_Data
  imports Canonical_Json Js_Number
begin

text \<open>
  The data of a review investigation, \<open>src/review-investigation\<close>: the enums and types of
  \<open>domain/investigation-state.ts\<close>, \<open>domain/runtime-profile.ts\<close> and \<open>domain/turn-observation.ts\<close>, and the
  requests, leases and errors of the ports in \<open>application/\<close>.  A TypeScript class of errors is a constructor of
  \<open>exn\<close>, so that \<open>error instanceof C\<close> is a case distinction.
\<close>

section \<open>Agents and their profiles\<close>

datatype ReviewAgentProviderKind = Codex | ClaudeCode

datatype ReviewAgentExecutionProfile = GatewayAttestedAgentV1 | InvestigationGatewayV1 | OrchestratedToolLoopV1
  | PreassembledContextV1 | PromptOnlyV1 | AgenticUnboundedV1

datatype ReviewAgentToolTransport = McpStdio | OrchestratedFunctions | Preassembled | NativeTools | NoTools

datatype ReviewAgentStructuredOutputSupport = JsonSchema | ProviderValidatedJson | NoStructuredOutput

datatype ReviewAgentEventStreamSupport = JsonLines | SingleEnvelope | NoEventStream

datatype ReviewAgentContinuationMechanism = DurableDossier | ProviderSessionOptional | ProviderSessionRequired

datatype ReviewAgentConfinementStrength = GatewayOnly | OrchestratorOnly | PreassembledOnly | Unbounded

datatype ReviewAgentAttributionStrength = Observed | RequestedOnly | AttributionUnavailable

datatype ReviewAgentCancellationSupport = ProcessGroupFenced | ProcessFenced | CancellationUnsupported

record ReviewAgentRuntimeProfile =
  prof_providerKind :: ReviewAgentProviderKind
  prof_executionProfile :: ReviewAgentExecutionProfile
  prof_toolTransport :: ReviewAgentToolTransport
  prof_structuredOutput :: ReviewAgentStructuredOutputSupport
  prof_eventStream :: ReviewAgentEventStreamSupport
  prof_continuation :: ReviewAgentContinuationMechanism
  prof_confinement :: ReviewAgentConfinementStrength
  prof_actualModelAttribution :: ReviewAgentAttributionStrength
  prof_usageAttribution :: ReviewAgentAttributionStrength
  prof_cancellation :: ReviewAgentCancellationSupport
  prof_maxPromptBytes :: int
  prof_maxOutputBytes :: int
  prof_maxToolCalls :: int
  prof_maxTurns :: int

record ReviewAgentProtocolRequirements =
  req_providerKind :: ReviewAgentProviderKind
  req_executionProfile :: ReviewAgentExecutionProfile
  req_minimumConfinement :: ReviewAgentConfinementStrength
  req_requireActualModelAttribution :: bool
  req_requireUsageAttribution :: bool
  req_requireFencedCancellation :: bool
  req_minimumMaxTurns :: int

section \<open>The investigation\<close>

datatype ReviewTurnPurpose = Discovery | Critic

datatype ReviewTurnObligationKind = InventoryWitness | ChangedContent | BaseContent | RelatedManifest
  | DirectReferenceSearch | DirectCaller | DirectCallee | TestEvidence | SchemaContract | ConfigurationContract
  | MigrationContract | GeneratedSource | DependencyContract | SideEffectParity | ExternalContract | BinaryArtifact
  | ContextCritic

datatype ReviewInvestigationObligationOrigin = CoverageContract | DeterministicExpansion | AgentProposal
  | CriticProposal

datatype ReviewInvestigationState = Provisional | AwaitingTurn | TurnLeased | AwaitingCritic | ReadyToConclude
  | Concluded | Inconclusive | InvestigationSuperseded | InvestigationExpired

datatype ReviewInvestigationNextAction = RunTurn | RunCritic | AwaitCapacity | Conclude | Terminal

datatype ReviewInvestigationConclusion = VerifiedClean | Findings | InconclusiveConclusion

datatype ReviewInvestigationAbortReason = AbortCapacityUnavailable | AbortAuthenticationUnavailable
  | RetryableInfrastructureFailure | AbortTimeout | AbortCancelled | AbortConfinementViolation
  | AbortSchemaInvalidOutput | StaleExecution | SupersededExecution

record TurnObligation =
  obl_obligationId :: string
  obl_kind :: ReviewTurnObligationKind
  obl_canonicalSubject :: string
  obl_canonicalRequirement :: string
  obl_riskPriority :: int
  obl_origin :: ReviewInvestigationObligationOrigin

record ReviewInvestigationTurnBrief =
  brief_investigationId :: string
  brief_investigationVersion :: int
  brief_dossierDigest :: string
  brief_turnId :: string
  brief_purpose :: ReviewTurnPurpose
  brief_maximumSemanticRiskPriority :: int
  brief_obligations :: "TurnObligation list"

record ReviewInvestigationTurn =
  turn_turnId :: string
  turn_purpose :: ReviewTurnPurpose
  turn_leasedAtVersion :: int
  turn_dossierDigest :: string
  turn_obligationIds :: "string list"
  turn_semanticTurnOrdinal :: int
  turn_criticCycleOrdinal :: int
  turn_leasedAt :: string
  turn_expiresAt :: string
  turn_turnCapability :: string
  turn_brief :: "ReviewInvestigationTurnBrief option"

record ReviewInvestigationSnapshot =
  snap_investigationId :: string
  snap_version :: int
  snap_state :: ReviewInvestigationState
  snap_dossierDigest :: string
  snap_openObligationCount :: int
  snap_satisfiedObligationCount :: int
  snap_unresolvableObligationCount :: int
  snap_findingCount :: int
  snap_semanticTurns :: int
  snap_operationalAttempts :: int
  snap_criticCycles :: int
  snap_nextEligibleAt :: "string option"
  snap_nextAction :: ReviewInvestigationNextAction
  snap_turn :: "ReviewInvestigationTurn option"
  snap_certificateId :: "string option"
  snap_certificateHash :: "string option"
  snap_terminalProviderKind :: "ReviewAgentProviderKind option"
  snap_terminalActualModel :: "string option"
  snap_terminalObservationCanonicalJson :: "string option"
  snap_terminalOutcomeHash :: "string option"
  snap_conclusion :: "ReviewInvestigationConclusion option"

datatype ReviewInvestigationRunStatus = Completed | Parked | Superseded | RecoveryRequired
  | TransitionBudgetExhausted

record ReviewInvestigationRunResult =
  run_status :: ReviewInvestigationRunStatus
  run_snapshot :: ReviewInvestigationSnapshot

section \<open>What an agent observed in a turn\<close>

datatype ReviewTurnFindingSeverity = SevCritical | SevMajor | SevMinor

datatype ReviewTurnCriticDecision = CriticAccept | CriticVeto | CriticAbstain

record TurnFinding =
  tf_severity :: ReviewTurnFindingSeverity
  tf_title :: string
  tf_body :: string
  tf_path :: string
  tf_line :: "int option"
  tf_evidenceOperationReceiptIds :: "string list"

record ReviewTurnObligationProposal =
  prop_kind :: ReviewTurnObligationKind
  prop_canonicalSubject :: string
  prop_canonicalRequirement :: string
  prop_riskPriority :: int

record ClosureClaim =
  closure_obligationId :: string
  closure_operationReceiptIds :: "string list"

record DiscoveryClaim =
  disc_sourceObligationId :: string
  disc_query :: string
  disc_operationReceiptIds :: "string list"

record UnresolvableClaim =
  unres_obligationId :: string
  unres_reason :: string
  unres_evidenceOperationReceiptIds :: "string list"

record ReviewAgentTurnOutput =
  out_findings :: "TurnFinding list"
  out_obligationProposals :: "ReviewTurnObligationProposal list"
  out_closureClaims :: "ClosureClaim list"
  out_operationBackedDiscoveryClaims :: "DiscoveryClaim list"
  out_unresolvableClaims :: "UnresolvableClaim list"
  out_criticDecision :: "ReviewTurnCriticDecision option"

record ReviewTurnUsage =
  usage_inputTokens :: int
  usage_cachedInputTokens :: int
  usage_outputTokens :: int
  usage_reasoningOutputTokens :: int
  usage_totalTokens :: int

record ReviewTurnObservation = ReviewAgentTurnOutput +
  obs_invocationId :: string
  obs_turnId :: string
  obs_dossierVersion :: int
  obs_purpose :: ReviewTurnPurpose
  obs_actualProviderKind :: ReviewAgentProviderKind
  obs_actualModel :: string
  obs_runtimeProfile :: ReviewAgentExecutionProfile
  obs_usage :: ReviewTurnUsage
  obs_durationMs :: int
  obs_contextAttestationReference :: "string option"

subsection \<open>The enum values and the JSON of an observation\<close>

fun purpose_text :: "ReviewTurnPurpose \<Rightarrow> string" where
  "purpose_text Discovery = ''discovery''"
| "purpose_text Critic = ''critic''"

fun provider_text :: "ReviewAgentProviderKind \<Rightarrow> string" where
  "provider_text Codex = ''codex''"
| "provider_text ClaudeCode = ''claude_code''"

fun profile_text :: "ReviewAgentExecutionProfile \<Rightarrow> string" where
  "profile_text GatewayAttestedAgentV1 = ''gateway_attested_agent_v1''"
| "profile_text InvestigationGatewayV1 = ''investigation_gateway_v1''"
| "profile_text OrchestratedToolLoopV1 = ''orchestrated_tool_loop_v1''"
| "profile_text PreassembledContextV1 = ''preassembled_context_v1''"
| "profile_text PromptOnlyV1 = ''prompt_only_v1''"
| "profile_text AgenticUnboundedV1 = ''agentic_unbounded_v1''"

fun turn_severity_text :: "ReviewTurnFindingSeverity \<Rightarrow> string" where
  "turn_severity_text SevCritical = ''critical''"
| "turn_severity_text SevMajor = ''major''"
| "turn_severity_text SevMinor = ''minor''"

fun critic_text :: "ReviewTurnCriticDecision \<Rightarrow> string" where
  "critic_text CriticAccept = ''accept''"
| "critic_text CriticVeto = ''veto''"
| "critic_text CriticAbstain = ''abstain''"

fun obligation_kind_text :: "ReviewTurnObligationKind \<Rightarrow> string" where
  "obligation_kind_text InventoryWitness = ''inventory_witness''"
| "obligation_kind_text ChangedContent = ''changed_content''"
| "obligation_kind_text BaseContent = ''base_content''"
| "obligation_kind_text RelatedManifest = ''related_manifest''"
| "obligation_kind_text DirectReferenceSearch = ''direct_reference_search''"
| "obligation_kind_text DirectCaller = ''direct_caller''"
| "obligation_kind_text DirectCallee = ''direct_callee''"
| "obligation_kind_text TestEvidence = ''test_evidence''"
| "obligation_kind_text SchemaContract = ''schema_contract''"
| "obligation_kind_text ConfigurationContract = ''configuration_contract''"
| "obligation_kind_text MigrationContract = ''migration_contract''"
| "obligation_kind_text GeneratedSource = ''generated_source''"
| "obligation_kind_text DependencyContract = ''dependency_contract''"
| "obligation_kind_text SideEffectParity = ''side_effect_parity''"
| "obligation_kind_text ExternalContract = ''external_contract''"
| "obligation_kind_text BinaryArtifact = ''binary_artifact''"
| "obligation_kind_text ContextCritic = ''context_critic''"

definition json_strings :: "string list \<Rightarrow> json" where
  "json_strings xs = JArr (map JStr xs)"

definition finding_json :: "TurnFinding \<Rightarrow> json" where
  "finding_json f = JObj [(''severity'', JStr (turn_severity_text (tf_severity f))), (''title'', JStr (tf_title f)),
     (''body'', JStr (tf_body f)), (''path'', JStr (tf_path f)),
     (''line'', (case tf_line f of None \<Rightarrow> JNull | Some n \<Rightarrow> JNum n)),
     (''evidenceOperationReceiptIds'', json_strings (tf_evidenceOperationReceiptIds f))]"

definition proposal_json :: "ReviewTurnObligationProposal \<Rightarrow> json" where
  "proposal_json p = JObj [(''kind'', JStr (obligation_kind_text (prop_kind p))),
     (''canonicalSubject'', JStr (prop_canonicalSubject p)),
     (''canonicalRequirement'', JStr (prop_canonicalRequirement p)), (''riskPriority'', JNum (prop_riskPriority p))]"

definition closure_json :: "ClosureClaim \<Rightarrow> json" where
  "closure_json c = JObj [(''obligationId'', JStr (closure_obligationId c)),
     (''operationReceiptIds'', json_strings (closure_operationReceiptIds c))]"

definition discovery_json :: "DiscoveryClaim \<Rightarrow> json" where
  "discovery_json c = JObj [(''sourceObligationId'', JStr (disc_sourceObligationId c)),
     (''query'', JStr (disc_query c)), (''operationReceiptIds'', json_strings (disc_operationReceiptIds c))]"

definition unresolvable_json :: "UnresolvableClaim \<Rightarrow> json" where
  "unresolvable_json c = JObj [(''obligationId'', JStr (unres_obligationId c)), (''reason'', JStr (unres_reason c)),
     (''evidenceOperationReceiptIds'', json_strings (unres_evidenceOperationReceiptIds c))]"

definition usage_json :: "ReviewTurnUsage \<Rightarrow> json" where
  "usage_json u = JObj [(''inputTokens'', JNum (usage_inputTokens u)),
     (''cachedInputTokens'', JNum (usage_cachedInputTokens u)), (''outputTokens'', JNum (usage_outputTokens u)),
     (''reasoningOutputTokens'', JNum (usage_reasoningOutputTokens u)), (''totalTokens'', JNum (usage_totalTokens u))]"

text \<open>The observation as an object: both versions are 2, both completeness flags are \<open>true\<close>.\<close>

definition observation_json :: "ReviewTurnObservation \<Rightarrow> json" where
  "observation_json x = JObj [(''outputVersion'', JNum 2),
     (''findings'', JArr (map finding_json (out_findings x))),
     (''obligationProposals'', JArr (map proposal_json (out_obligationProposals x))),
     (''closureClaims'', JArr (map closure_json (out_closureClaims x))),
     (''operationBackedDiscoveryClaims'', JArr (map discovery_json (out_operationBackedDiscoveryClaims x))),
     (''unresolvableClaims'', JArr (map unresolvable_json (out_unresolvableClaims x))),
     (''criticDecision'', or_null (map_option critic_text (out_criticDecision x))),
     (''observationVersion'', JNum 2), (''invocationId'', JStr (obs_invocationId x)),
     (''turnId'', JStr (obs_turnId x)), (''dossierVersion'', JNum (obs_dossierVersion x)),
     (''purpose'', JStr (purpose_text (obs_purpose x))),
     (''actualProviderKind'', JStr (provider_text (obs_actualProviderKind x))),
     (''actualModel'', JStr (obs_actualModel x)),
     (''runtimeProfile'', JStr (profile_text (obs_runtimeProfile x))), (''usage'', usage_json (obs_usage x)),
     (''durationMs'', JNum (obs_durationMs x)), (''schemaComplete'', JBool True), (''streamComplete'', JBool True),
     (''contextAttestationReference'', or_null (obs_contextAttestationReference x))]"

section \<open>Leases, requests and failures\<close>

record ReviewInvestigationLease =
  lease_leaseId :: string
  lease_attemptId :: string
  lease_leaseCapability :: string
  lease_fencingToken :: string
  lease_expiresAt :: string
  lease_resultReportUntil :: string

datatype ReviewInvestigationLeaseAcquireResult = Acquired ReviewInvestigationLease | Busy | AttemptBudgetExhausted
  | NotRunnable

datatype ReviewInvestigationCurrency = CurrencyCurrent | CurrencySuperseded | CurrencyStale

record AcceptedInvestigationAttestation =
  att_attestationId :: string
  att_attestationHash :: string

record ReviewTurnRequest =
  rq_invocationId :: string
  rq_fencingToken :: string
  rq_turnId :: string
  rq_dossierVersion :: int
  rq_dossierDigest :: string
  rq_purpose :: ReviewTurnPurpose
  rq_allowedObligationIds :: "string list"
  rq_prompt :: string
  rq_workspaceRoot :: string
  rq_requestedModel :: string
  rq_timeoutMs :: int
  rq_maxTurns :: int

text \<open>\<open>executionAuthority\<close>, as far as the turn compares it.\<close>

record ExecutionAuthority =
  auth_providerKind :: ReviewAgentProviderKind
  auth_requestedModel :: string

record ReviewAgentSelectionRequest =
  sr_primaryProviderKind :: ReviewAgentProviderKind
  sr_primaryRequestedModel :: string
  sr_executionAuthority :: ExecutionAuthority
  sr_purpose :: ReviewTurnPurpose
  sr_maximumSemanticRiskPriority :: int

record ReviewAgentSelection =
  sel_providerKind :: ReviewAgentProviderKind
  sel_requestedModel :: string

datatype ReviewAgentFailureClass = CapabilityUnavailable | AuthenticationUnavailable | QuotaUnavailable
  | CapacityUnavailable | StartupFailure | ProcessFailure | Timeout | Cancelled | SchemaInvalidOutput
  | StreamIncomplete | ModelAttributionMissing | UsageAttributionMissing | ConfinementViolation

datatype ReviewInvestigationControlPlaneFailureClass = AmbiguousOutcome | CapacityLimited | Conflict
  | StalePrecondition | CapabilityDisabled | ProviderOutputInvalid | Rejected | Unavailable | InvalidResponse

datatype ReviewInvestigationOperationalFailurePhase = AgentPreflight | AgentCancel | AgentExecution
  | GatewayCleanup | GatewayOpen | GatewaySeal

record ReviewInvestigationOperationalDiagnostic =
  diag_investigationId :: string
  diag_turnId :: string
  diag_phase :: ReviewInvestigationOperationalFailurePhase
  diag_failureClass :: ReviewAgentFailureClass
  diag_code :: string
  diag_detailCode :: "string option"
  diag_retryAfterMs :: "int option"

datatype ReviewInvestigationLegacyFallbackReason = CapabilityDisabledBeforeOpen
  | InfrastructureUnavailableBeforeOpen | RecordOnlyDeferred | RecordOnlyBudgetExhausted

text \<open>What the code throws: the classes the modules tell apart, and every other \<open>Error\<close> by its message.  The
  signal of a legacy fallback, which only the work slot constructs, is an outcome of its own there.\<close>

datatype exn =
    ReviewAgentExecutionError ReviewAgentFailureClass "jsnum option" string
  | ReviewInvestigationControlPlaneError ReviewInvestigationControlPlaneFailureClass string
  | ReviewInvestigationGatewayConfigurationError
  | OtherError string

end
