(* ===== verification/Port_Effects.thy ===== *)
theory Port_Effects
  imports Investigation_Data
begin

text \<open>
  How the asynchronous code of \<open>src/review-investigation/application\<close> is modelled.  A routine is a function of
  the state of the run; what it returns is a value or what it throws, with the state it leaves.  Every call of a
  port is an event with its arguments and its answer; the ports are arbitrary functions of the events so far, so
  that a theorem about all \<open>ports\<close> speaks of every behaviour of the control plane, the gateway and the agents.
  Arguments that do not change during a run (tokens, ids and budgets of the input) are not repeated in the events.

  While a call is pending, the renewal loop of \<open>superviseLease\<close> (\<open>run-investigation-work-slot.ts\<close>) may run:
  \<open>port_ticks\<close> are the rounds it completes meanwhile, each with the clock it reads and the answer of the
  renewal, and \<open>port_pending\<close> is the round under way when the supervised operation ends.  They change \<open>currentLease\<close>, which the routine reads after the call.

  A call is sent when the routine reaches it and its answer comes later: \<open>issue\<close> and \<open>settle\<close>; \<open>await\<close> is one after
  the other.  Where the source returns a promise without awaiting it, the routine returns what is left of the
  promise, a \<open>pending\<close> routine, and a \<open>finally\<close> block starts before that has run (\<open>finally_pending\<close>).  A port answers with
  a promise and does not throw before it has one.  When such a promise rejects while the \<open>finally\<close> block is still
  waiting, nothing handles the rejection yet; runs in which the host ends the process for that are not modelled.
\<close>

named_theorems wp_simps \<open>the routine's combinators under a postcondition\<close>

section \<open>Routines\<close>

type_synonym ('s, 'a) run = "'s \<Rightarrow> (exn + 'a) \<times> 's"

definition return :: "'a \<Rightarrow> ('s, 'a) run" where
  "return x = (\<lambda>s. (Inr x, s))"

definition throw :: "exn \<Rightarrow> ('s, 'a) run" where
  "throw e = (\<lambda>s. (Inl e, s))"

definition result :: "exn + 'a \<Rightarrow> ('s, 'a) run" where
  "result r = (\<lambda>s. (r, s))"

definition bind :: "('s, 'a) run \<Rightarrow> ('a \<Rightarrow> ('s, 'b) run) \<Rightarrow> ('s, 'b) run" where
  "bind m f = (\<lambda>s. case m s of (Inl e, t) \<Rightarrow> (Inl e, t) | (Inr x, t) \<Rightarrow> f x t)"

text \<open>\<open>try { m } catch (error) { h(error) }\<close>, when nothing follows the statement in its block; with a
  continuation \<open>k\<close> that is outside the \<open>try\<close>, \<open>try_then\<close>.\<close>

definition try_then :: "('s, 'a) run \<Rightarrow> (exn \<Rightarrow> ('s, 'b) run) \<Rightarrow> ('a \<Rightarrow> ('s, 'b) run) \<Rightarrow> ('s, 'b) run" where
  "try_then m h k = (\<lambda>s. case m s of (Inl e, t) \<Rightarrow> h e t | (Inr x, t) \<Rightarrow> k x t)"

definition reads :: "('s \<Rightarrow> 'a) \<Rightarrow> ('s, 'a) run" where
  "reads f = (\<lambda>s. (Inr (f s), s))"

text \<open>The states and outcomes a routine may end with: \<open>Q\<close> for what it returns, \<open>E\<close> for what it throws.\<close>

definition wp :: "('s, 'a) run \<Rightarrow> ('a \<Rightarrow> 's \<Rightarrow> bool) \<Rightarrow> (exn \<Rightarrow> 's \<Rightarrow> bool) \<Rightarrow> 's \<Rightarrow> bool" where
  "wp m Q E s = (case m s of (Inl e, t) \<Rightarrow> E e t | (Inr x, t) \<Rightarrow> Q x t)"

lemma wp_return [wp_simps]: "wp (return x) Q E s = Q x s"
  by (simp add: wp_def return_def)

lemma wp_throw [wp_simps]: "wp (throw e) Q E s = E e s"
  by (simp add: wp_def throw_def)

lemma wp_result [wp_simps]: "wp (result r) Q E s = (case r of Inl e \<Rightarrow> E e s | Inr x \<Rightarrow> Q x s)"
  by (simp add: wp_def result_def)

lemma wp_bind [wp_simps]: "wp (bind m f) Q E s = wp m (\<lambda>x. wp (f x) Q E) E s"
  by (auto simp: wp_def bind_def split: prod.splits sum.splits)

lemma wp_try_then [wp_simps]: "wp (try_then m h k) Q E s = wp m (\<lambda>x. wp (k x) Q E) (\<lambda>e. wp (h e) Q E) s"
  by (auto simp: wp_def try_then_def split: prod.splits sum.splits)

lemma wp_reads [wp_simps]: "wp (reads f) Q E s = Q (f s) s"
  by (simp add: wp_def reads_def)

lemma wp_if [wp_simps]: "wp (if b then m else n) Q E s = (if b then wp m Q E s else wp n Q E s)"
  by simp

lemma wp_mono: "wp m Q E s \<Longrightarrow> (\<And>x t. Q x t \<Longrightarrow> Q' x t) \<Longrightarrow> (\<And>e t. E e t \<Longrightarrow> E' e t) \<Longrightarrow> wp m Q' E' s"
  by (auto simp: wp_def split: prod.splits sum.splits)

lemma wp_conj: "wp m Q E s \<Longrightarrow> wp m Q' E' s \<Longrightarrow> wp m (\<lambda>x t. Q x t \<and> Q' x t) (\<lambda>e t. E e t \<and> E' e t) s"
  by (auto simp: wp_def split: prod.splits sum.splits)

lemma wp_returns: "wp m Q E s \<Longrightarrow> m s = (Inr x, t) \<Longrightarrow> Q x t"
  by (simp add: wp_def)

lemma wp_throws: "wp m Q E s \<Longrightarrow> m s = (Inl e, t) \<Longrightarrow> E e t"
  by (simp add: wp_def)

section \<open>The ports\<close>

datatype event =
    Resolved ReviewAgentSelectionRequest "exn + ReviewAgentSelection"
  | Negotiated ReviewAgentProtocolRequirements "exn + unit"
  | Checked "exn + ReviewInvestigationCurrency"
  | Opened_Gateway string ReviewInvestigationLease "exn + unit"
  | Executed ReviewTurnRequest "exn + ReviewTurnObservation"
  | Cancelled_Agent string string "exn + unit"
  | Sealed string string "exn + AcceptedInvestigationAttestation"
  | Disposed "exn + unit"
  | Recorded ReviewInvestigationOperationalDiagnostic "exn + unit"
  | Opened "exn + ReviewInvestigationSnapshot"
  | Restored "exn + ReviewInvestigationSnapshot option"
  | Planned ReviewInvestigationSnapshot "exn + ReviewInvestigationSnapshot"
  | Committed_Turn ReviewInvestigationSnapshot ReviewInvestigationLease AcceptedInvestigationAttestation
      ReviewTurnObservation "exn + ReviewInvestigationSnapshot"
  | Aborted_Turn ReviewInvestigationSnapshot ReviewInvestigationLease ReviewInvestigationAbortReason "string option"
      "exn + ReviewInvestigationSnapshot"
  | Concluded_Investigation ReviewInvestigationSnapshot "exn + ReviewInvestigationSnapshot"
  | Acquired_Lease ReviewInvestigationSnapshot string "exn + ReviewInvestigationLeaseAcquireResult"
  | Renewed_Lease ReviewInvestigationLease "exn + ReviewInvestigationLease"
  | Released_Lease string string ReviewInvestigationLease "exn + unit"
  | Slept int "exn + unit"
  | Replayed "exn + ReviewInvestigationSnapshot option"

text \<open>A round of the renewal loop: the clock at its start and the answer to the renewal it may send.\<close>

record tick =
  tick_now :: int
  tick_renewal :: "exn + ReviewInvestigationLease"

text \<open>
  The dependencies of the routines.  \<open>port_aborted\<close> is the state of the run's \<open>AbortSignal\<close>: the reason
  when it is aborted.  \<open>port_parse\<close> is \<open>Date.parse\<close> (\<open>None\<close> for NaN), whose value on texts that are not in the
  ISO format is left to the implementation.  \<open>port_sha256\<close> is the digest of the crypto library.  \<open>port_cleanupFirst\<close>
  tells, when a promise and a clean-up are pending at the same time, whether the clean-up goes on first.
  \<open>gateway.open\<close> gets the accessor of the current lease; the event has the lease it gives at that moment.
\<close>

record ports =
  port_resolve :: "event list \<Rightarrow> ReviewAgentSelectionRequest \<Rightarrow> exn + ReviewAgentSelection"
  port_negotiate :: "event list \<Rightarrow> ReviewAgentProtocolRequirements \<Rightarrow> exn + unit"
  port_check :: "event list \<Rightarrow> exn + ReviewInvestigationCurrency"
  port_gatewayOpen :: "event list \<Rightarrow> string \<Rightarrow> ReviewInvestigationLease \<Rightarrow> exn + unit"
  port_executeTurn :: "event list \<Rightarrow> ReviewTurnRequest \<Rightarrow> exn + ReviewTurnObservation"
  port_cancel :: "event list \<Rightarrow> string \<Rightarrow> string \<Rightarrow> exn + unit"
  port_seal :: "event list \<Rightarrow> string \<Rightarrow> string \<Rightarrow> exn + AcceptedInvestigationAttestation"
  port_dispose :: "event list \<Rightarrow> exn + unit"
  port_record :: "(event list \<Rightarrow> ReviewInvestigationOperationalDiagnostic \<Rightarrow> exn + unit) option"
  port_open :: "event list \<Rightarrow> exn + ReviewInvestigationSnapshot"
  port_restore :: "event list \<Rightarrow> exn + ReviewInvestigationSnapshot option"
  port_planTurn :: "event list \<Rightarrow> ReviewInvestigationSnapshot \<Rightarrow> exn + ReviewInvestigationSnapshot"
  port_commitTurn :: "event list \<Rightarrow> ReviewInvestigationSnapshot \<Rightarrow> ReviewInvestigationLease \<Rightarrow>
    AcceptedInvestigationAttestation \<Rightarrow> ReviewTurnObservation \<Rightarrow> exn + ReviewInvestigationSnapshot"
  port_abortTurn :: "event list \<Rightarrow> ReviewInvestigationSnapshot \<Rightarrow> ReviewInvestigationLease \<Rightarrow>
    ReviewInvestigationAbortReason \<Rightarrow> string option \<Rightarrow> exn + ReviewInvestigationSnapshot"
  port_conclude :: "event list \<Rightarrow> ReviewInvestigationSnapshot \<Rightarrow> exn + ReviewInvestigationSnapshot"
  port_acquire :: "event list \<Rightarrow> ReviewInvestigationSnapshot \<Rightarrow> string \<Rightarrow> exn + ReviewInvestigationLeaseAcquireResult"
  port_release :: "event list \<Rightarrow> string \<Rightarrow> string \<Rightarrow> ReviewInvestigationLease \<Rightarrow> exn + unit"
  port_sleep :: "event list \<Rightarrow> int \<Rightarrow> exn + unit"
  port_replay :: "(event list \<Rightarrow> exn + ReviewInvestigationSnapshot option) option"
  port_authority :: ExecutionAuthority
  port_now :: "event list \<Rightarrow> int"
  port_aborted :: "event list \<Rightarrow> exn option"
  port_parse :: "string \<Rightarrow> int option"
  port_sha256 :: "string \<Rightarrow> string"
  port_ticks :: "event list \<Rightarrow> tick list"
  port_pending :: "event list \<Rightarrow> tick option"
  port_cleanupFirst :: "event list \<Rightarrow> bool"

section \<open>The state of a run and the renewal of its lease\<close>

text \<open>\<open>currentLease\<close>, whether the renewal loop is running, and what \<open>failLease\<close> rejected with.\<close>

record run_state =
  events :: "event list"
  current :: ReviewInvestigationLease
  renewing :: bool
  lease_failure :: "exn option"

definition push :: "event \<Rightarrow> run_state \<Rightarrow> run_state" where
  "push x s = s\<lparr>events := events s @ [x]\<rparr>"

definition requireLeaseValidity :: "(string \<Rightarrow> int option) \<Rightarrow> ReviewInvestigationLease \<Rightarrow> string \<Rightarrow> exn option" where
  "requireLeaseValidity parse lease errorCode =
     (if lease_leaseId lease = [] \<or> lease_attemptId lease = [] \<or> lease_leaseCapability lease = [] \<or>
         lease_fencingToken lease = [] \<or>
         (case (parse (lease_expiresAt lease), parse (lease_resultReportUntil lease)) of
            (Some expiresAt, Some resultReportUntil) \<Rightarrow> expiresAt > resultReportUntil
          | _ \<Rightarrow> True)
      then Some (OtherError errorCode) else None)"

definition requireLeaseRenewalContinuity :: "(string \<Rightarrow> int option) \<Rightarrow> ReviewInvestigationLease \<Rightarrow>
    ReviewInvestigationLease \<Rightarrow> exn option" where
  "requireLeaseRenewalContinuity parse previous renewed =
     (case requireLeaseValidity parse renewed ''review_investigation_lease_renewal_drift'' of
        Some e \<Rightarrow> Some e
      | None \<Rightarrow>
          if lease_leaseId renewed \<noteq> lease_leaseId previous \<or> lease_attemptId renewed \<noteq> lease_attemptId previous \<or>
             lease_fencingToken renewed \<noteq> lease_fencingToken previous \<or>
             lease_resultReportUntil renewed \<noteq> lease_resultReportUntil previous \<or>
             lease_leaseCapability renewed = [] \<or>
             lease_leaseCapability renewed = lease_leaseCapability previous \<or>
             (case (parse (lease_expiresAt renewed), parse (lease_expiresAt previous)) of
                (Some r, Some p) \<Rightarrow> r \<le> p | _ \<Rightarrow> False)
          then Some (OtherError ''review_investigation_lease_renewal_drift'') else None)"

text \<open>\<open>failLease\<close>: nothing when the supervision has stopped or the run was aborted before.\<close>

definition failLease :: "ports \<Rightarrow> exn \<Rightarrow> run_state \<Rightarrow> run_state" where
  "failLease ports e s = s\<lparr>renewing := False,
     lease_failure := (if port_aborted ports (events s) = None then Some e else lease_failure s)\<rparr>"

definition acceptRenewal :: "ports \<Rightarrow> exn + ReviewInvestigationLease \<Rightarrow> run_state \<Rightarrow> exn + run_state" where
  "acceptRenewal ports answer s =
     (let s' = push (Renewed_Lease (current s) answer) s
      in case answer of
           Inl e \<Rightarrow> Inl e
         | Inr renewed \<Rightarrow>
             (case requireLeaseRenewalContinuity (port_parse ports) (current s) renewed of
                Some e \<Rightarrow> Inl e
              | None \<Rightarrow> Inr (s'\<lparr>current := renewed\<rparr>)))"

text \<open>
  A round of \<open>renewLoop\<close>: an expired lease, or one at the ceiling \<open>resultReportUntil\<close> once it has run out,
  fails; otherwise the lease is renewed.
\<close>

definition can_renew :: "ports \<Rightarrow> tick \<Rightarrow> run_state \<Rightarrow> bool" where
  "can_renew ports t s =
     (case (port_parse ports (lease_expiresAt (current s)), port_parse ports (lease_resultReportUntil (current s))) of
        (None, _) \<Rightarrow> False
      | (Some x, None) \<Rightarrow> x - tick_now t > 0
      | (Some x, Some u) \<Rightarrow> x - tick_now t > 0 \<and> \<not> x \<ge> u)"

definition renew_round :: "ports \<Rightarrow> tick \<Rightarrow> run_state \<Rightarrow> run_state" where
  "renew_round ports t s =
     (if \<not> renewing s then s
      else if \<not> can_renew ports t s
      then failLease ports (OtherError ''review_investigation_lease_expired'') s
      else case acceptRenewal ports (tick_renewal t) s of
             Inl e \<Rightarrow> failLease ports e (push (Renewed_Lease (current s) (tick_renewal t)) s)
           | Inr s' \<Rightarrow> s')"

text \<open>The round that is under way when the operation has ended: a renewal that was sent is still awaited and its
  lease accepted, but nothing fails any more.\<close>

definition last_round :: "ports \<Rightarrow> run_state \<Rightarrow> run_state" where
  "last_round ports s =
     (case port_pending ports (events s) of
        None \<Rightarrow> s
      | Some t \<Rightarrow>
          if \<not> renewing s \<or> \<not> can_renew ports t s then s
          else case acceptRenewal ports (tick_renewal t) s of
                 Inl e \<Rightarrow> push (Renewed_Lease (current s) (tick_renewal t)) s
               | Inr s' \<Rightarrow> s')"

definition renewals :: "ports \<Rightarrow> event list \<Rightarrow> run_state \<Rightarrow> run_state" where
  "renewals ports h s = fold (renew_round ports) (port_ticks ports h) s"

text \<open>A call of a port is recorded with the answer it will get; while the routine waits for the answer, rounds of the
  renewal loop are completed.\<close>

definition issue :: "(event list \<Rightarrow> exn + 'a) \<Rightarrow> (exn + 'a \<Rightarrow> event) \<Rightarrow> (run_state, exn + 'a) run" where
  "issue port ev = (\<lambda>s. let answer = port (events s) in (Inr answer, push (ev answer) s))"

definition settle :: "ports \<Rightarrow> exn + 'a \<Rightarrow> (run_state, 'a) run" where
  "settle ports answer = (\<lambda>s. (answer, renewals ports (events s) s))"

definition await :: "ports \<Rightarrow> (event list \<Rightarrow> exn + 'a) \<Rightarrow> (exn + 'a \<Rightarrow> event) \<Rightarrow> (run_state, 'a) run" where
  "await ports port ev = bind (issue port ev) (settle ports)"

text \<open>What is left of a promise, and its result when it is awaited.\<close>

type_synonym 'a pending = "(run_state, 'a) run"

definition awaited :: "(run_state, 'a pending) run \<Rightarrow> (run_state, 'a) run" where
  "awaited m = bind m (\<lambda>rest. rest)"

text \<open>
  \<open>try { m; return p } finally { await c }\<close>, where \<open>p\<close> is a promise that is not awaited.  When \<open>m\<close> throws, the
  clean-up runs and the error is thrown on.  Otherwise \<open>c\<close> is started while \<open>p\<close> is pending, the two go on in either
  order, and both run to their end; what the clean-up throws replaces the outcome of \<open>p\<close>.
\<close>

definition finally_pending :: "ports \<Rightarrow> (run_state, 'a pending) run \<Rightarrow> (run_state, unit pending) run \<Rightarrow>
    (run_state, 'a) run" where
  "finally_pending ports m c =
     try_then m
       (\<lambda>e. bind (awaited c) (\<lambda>_. throw e))
       (\<lambda>rest. bind c (\<lambda>cleanup.
         bind (reads (\<lambda>s. port_cleanupFirst ports (events s))) (\<lambda>first.
         if first
         then try_then cleanup (\<lambda>e. try_then rest (\<lambda>_. throw e) (\<lambda>_. throw e)) (\<lambda>_. rest)
         else try_then rest (\<lambda>e. bind cleanup (\<lambda>_. throw e)) (\<lambda>x. bind cleanup (\<lambda>_. return x)))))"

lemma wp_issue: "wp (issue port ev) Q E s = (let answer = port (events s) in Q answer (push (ev answer) s))"
  by (simp add: wp_def issue_def Let_def)

lemma wp_settle: "wp (settle ports answer) Q E s =
    (case answer of Inl e \<Rightarrow> E e (renewals ports (events s) s) | Inr x \<Rightarrow> Q x (renewals ports (events s) s))"
  by (simp add: wp_def settle_def)

lemma wp_awaited: "wp (awaited m) Q E s = wp m (\<lambda>rest. wp rest Q E) E s"
  by (simp add: awaited_def wp_bind)

section \<open>What the renewals leave alone\<close>

fun is_renewal :: "event \<Rightarrow> bool" where
  "is_renewal (Renewed_Lease l a) = True"
| "is_renewal _ = False"

text \<open>The calls of the routine itself, and what identifies a lease to the control plane.\<close>

definition calls :: "run_state \<Rightarrow> event list" where
  "calls s = filter (\<lambda>x. \<not> is_renewal x) (events s)"

definition fence :: "ReviewInvestigationLease \<Rightarrow> string \<times> string \<times> string \<times> string" where
  "fence l = (lease_leaseId l, lease_attemptId l, lease_fencingToken l, lease_resultReportUntil l)"

lemma calls_push [simp]: "calls (push x s) = calls s @ (if is_renewal x then [] else [x])"
  by (simp add: calls_def push_def)

lemma current_push [simp]: "current (push x s) = current s"
  by (simp add: push_def)

lemma calls_update [simp]: "calls (s\<lparr>renewing := b\<rparr>) = calls s" "calls (s\<lparr>lease_failure := f\<rparr>) = calls s"
    "calls (s\<lparr>current := l\<rparr>) = calls s"
  by (simp_all add: calls_def)

lemma failLease_view [simp]: "calls (failLease ports e s) = calls s" "current (failLease ports e s) = current s"
  by (simp_all add: failLease_def calls_def)

lemma continuity_fence: "requireLeaseRenewalContinuity parse l l' = None \<Longrightarrow> fence l' = fence l"
  by (auto simp: requireLeaseRenewalContinuity_def fence_def split: option.splits if_splits)

lemma acceptRenewal_view: "acceptRenewal ports a s = Inr t \<Longrightarrow> calls t = calls s \<and> fence (current t) = fence (current s)"
  by (auto simp: acceptRenewal_def Let_def continuity_fence split: sum.splits option.splits)

lemma renew_round_view: "calls (renew_round ports x s) = calls s \<and> fence (current (renew_round ports x s)) = fence (current s)"
  unfolding renew_round_def Let_def by (auto split: sum.splits dest: acceptRenewal_view)

lemma last_round_view [simp]: "calls (last_round ports s) = calls s" "fence (current (last_round ports s)) = fence (current s)"
  unfolding last_round_def by (auto split: sum.splits option.split dest: acceptRenewal_view)

lemma fold_renew_view: "calls (fold (renew_round ports) ts s) = calls s \<and>
    fence (current (fold (renew_round ports) ts s)) = fence (current s)"
  by (induction ts arbitrary: s) (simp_all add: renew_round_view)

lemma renewals_view [simp]: "calls (renewals ports h s) = calls s" "fence (current (renewals ports h s)) = fence (current s)"
  using fold_renew_view by (simp_all add: renewals_def)

lemma wp_issueI:
  assumes "\<And>a. \<not> is_renewal (ev a)"
    and "\<And>a t. calls t = calls s @ [ev a] \<Longrightarrow> current t = current s \<Longrightarrow> Q a t"
  shows "wp (issue port ev) Q E s"
  using assms by (simp add: wp_issue Let_def)

lemma wp_settleI:
  assumes "\<And>e t. answer = Inl e \<Longrightarrow> calls t = calls s \<Longrightarrow> fence (current t) = fence (current s) \<Longrightarrow> E e t"
    and "\<And>x t. answer = Inr x \<Longrightarrow> calls t = calls s \<Longrightarrow> fence (current t) = fence (current s) \<Longrightarrow> Q x t"
  shows "wp (settle ports answer) Q E s"
  using assms by (simp add: wp_settle split: sum.split)

lemma wp_awaitI:
  assumes "\<And>a. \<not> is_renewal (ev a)"
    and "\<And>e t. calls t = calls s @ [ev (Inl e)] \<Longrightarrow> fence (current t) = fence (current s) \<Longrightarrow> E e t"
    and "\<And>x t. calls t = calls s @ [ev (Inr x)] \<Longrightarrow> fence (current t) = fence (current s) \<Longrightarrow> Q x t"
  shows "wp (await ports port ev) Q E s"
  unfolding await_def wp_bind
  using assms by (intro wp_issueI wp_settleI) simp_all

text \<open>
  \<open>conducts m R s\<close>: from \<open>s\<close> the routine \<open>m\<close> makes calls that \<open>R\<close> relates to its outcome, under a lease that keeps
  its identity.
\<close>

definition conducts :: "(run_state, 'a) run \<Rightarrow> (event list \<Rightarrow> exn + 'a \<Rightarrow> bool) \<Rightarrow> run_state \<Rightarrow> bool" where
  "conducts m R s \<longleftrightarrow> fence (current (snd (m s))) = fence (current s) \<and>
     (\<exists>new. calls (snd (m s)) = calls s @ new \<and> R new (fst (m s)))"

lemma conductsI: "wp m (\<lambda>x t. fence (current t) = fence (current s) \<and> (\<exists>new. calls t = calls s @ new \<and> R new (Inr x)))
    (\<lambda>e t. fence (current t) = fence (current s) \<and> (\<exists>new. calls t = calls s @ new \<and> R new (Inl e))) s \<Longrightarrow>
    conducts m R s"
  by (auto simp: wp_def conducts_def split: prod.splits sum.splits)

lemma wp_conducts:
  assumes "conducts m R s"
    and "\<And>x t new. calls t = calls s @ new \<Longrightarrow> fence (current t) = fence (current s) \<Longrightarrow> R new (Inr x) \<Longrightarrow> Q x t"
    and "\<And>e t new. calls t = calls s @ new \<Longrightarrow> fence (current t) = fence (current s) \<Longrightarrow> R new (Inl e) \<Longrightarrow> E e t"
  shows "wp m Q E s"
  using assms by (auto simp: wp_def conducts_def split: prod.splits sum.splits)

lemma conducts_run: "conducts m R s \<Longrightarrow> m s = (r, t) \<Longrightarrow>
    fence (current t) = fence (current s) \<and> (\<exists>new. calls t = calls s @ new \<and> R new r)"
  by (simp add: conducts_def)

lemma conducts_mono: "conducts m R s \<Longrightarrow> (\<And>new r. R new r \<Longrightarrow> R' new r) \<Longrightarrow> conducts m R' s"
  by (auto simp: conducts_def)

text \<open>
  \<open>starts m P s\<close>: from \<open>s\<close> the routine \<open>m\<close> makes some calls and leaves the rest pending, which may go on later from any
  state: \<open>P\<close> relates the calls made now, those made later and the outcome.
\<close>

definition starts :: "(run_state, 'a pending) run \<Rightarrow> (event list \<Rightarrow> event list \<Rightarrow> exn + 'a \<Rightarrow> bool) \<Rightarrow> run_state \<Rightarrow> bool" where
  "starts m P s \<longleftrightarrow> conducts m
     (\<lambda>new r. case r of Inl e \<Rightarrow> P new [] (Inl e) | Inr rest \<Rightarrow> \<forall>t. conducts rest (P new) t) s"

lemma wp_starts:
  assumes "starts m P s"
    and "\<And>rest t new. calls t = calls s @ new \<Longrightarrow> fence (current t) = fence (current s) \<Longrightarrow>
      (\<And>u. conducts rest (P new) u) \<Longrightarrow> Q rest t"
    and "\<And>e t new. calls t = calls s @ new \<Longrightarrow> fence (current t) = fence (current s) \<Longrightarrow> P new [] (Inl e) \<Longrightarrow> E e t"
  shows "wp m Q E s"
  using assms(1) unfolding starts_def by (rule wp_conducts) (auto intro: assms(2,3))

lemma startsI: "wp m
    (\<lambda>rest t. fence (current t) = fence (current s) \<and> (\<exists>new. calls t = calls s @ new \<and> (\<forall>u. conducts rest (P new) u)))
    (\<lambda>e t. fence (current t) = fence (current s) \<and> (\<exists>new. calls t = calls s @ new \<and> P new [] (Inl e))) s \<Longrightarrow>
    starts m P s"
  unfolding starts_def by (rule conductsI) simp

lemma conducts_awaited: "starts m P s \<Longrightarrow> conducts (awaited m) (\<lambda>new r. \<exists>now later. new = now @ later \<and> P now later r) s"
proof (rule conductsI, unfold wp_awaited, rule wp_starts [of m P s], assumption)
  fix rest :: "'a pending" and t :: run_state and new :: "event list"
  assume t: "calls t = calls s @ new" "fence (current t) = fence (current s)"
    and rest: "\<And>u. conducts rest (P new) u"
  show "wp rest
      (\<lambda>x t. fence (current t) = fence (current s) \<and>
        (\<exists>new. calls t = calls s @ new \<and> (\<exists>now later. new = now @ later \<and> P now later (Inr x))))
      (\<lambda>e t. fence (current t) = fence (current s) \<and>
        (\<exists>new. calls t = calls s @ new \<and> (\<exists>now later. new = now @ later \<and> P now later (Inl e)))) t"
    by (rule wp_conducts [OF rest]) (use t in auto)
qed auto

text \<open>
  A routine with a clean-up that does not throw: the calls of the routine, those that start the clean-up, and then
  what is left of both, one after the other.
\<close>

definition either_order :: "event list \<Rightarrow> event list \<Rightarrow> event list \<Rightarrow> bool" where
  "either_order xs ys zs \<longleftrightarrow> zs = xs @ ys \<or> zs = ys @ xs"

definition cleaned :: "(event list \<Rightarrow> event list \<Rightarrow> exn + 'a \<Rightarrow> bool) \<Rightarrow> (event list \<Rightarrow> event list \<Rightarrow> bool) \<Rightarrow>
    event list \<Rightarrow> exn + 'a \<Rightarrow> bool" where
  "cleaned P C new r \<longleftrightarrow> (\<exists>now later start cleanup tail. new = now @ start @ tail \<and> P now later r \<and> C start cleanup \<and>
     either_order later cleanup tail)"

lemma cleanedI: "P now later r \<Longrightarrow> C start cleanup \<Longrightarrow> cleaned P C (now @ start @ later @ cleanup) r"
    "P now later r \<Longrightarrow> C start cleanup \<Longrightarrow> cleaned P C (now @ start @ cleanup @ later) r"
  unfolding cleaned_def either_order_def by blast+

lemma conducts_finally:
  assumes m: "starts m P s"
    and c: "\<And>t. starts c (\<lambda>now later r. C now later \<and> r = Inr ()) t"
  shows "conducts (finally_pending ports m c) (cleaned P C) s"
proof (rule conductsI)
  let ?Q = "\<lambda>x t. fence (current t) = fence (current s) \<and> (\<exists>new. calls t = calls s @ new \<and> cleaned P C new (Inr x))"
  let ?E = "\<lambda>e t. fence (current t) = fence (current s) \<and> (\<exists>new. calls t = calls s @ new \<and> cleaned P C new (Inl e))"
  have thrown: "wp (bind (awaited c) (\<lambda>_. throw e)) ?Q ?E t"
    if t: "calls t = calls s @ new" "fence (current t) = fence (current s)" "P new [] (Inl e)" for e t new
    unfolding wp_simps wp_awaited
  proof (rule wp_starts [OF c])
    fix rest :: "unit pending" and u start
    assume u: "calls u = calls t @ start" "fence (current u) = fence (current t)"
      and rest: "\<And>v. conducts rest (\<lambda>later r. C start later \<and> r = Inr ()) v"
    show "wp rest (\<lambda>x. ?E e) ?E u"
      by (rule wp_conducts [OF rest]) (use t u cleanedI(1) [of P new "[]" "Inl e" C start] in auto)
  qed simp
  have pending: "wp (bind c (\<lambda>cleanup. bind (reads (\<lambda>s. port_cleanupFirst ports (events s))) (\<lambda>first.
         if first
         then try_then cleanup (\<lambda>e. try_then rest (\<lambda>_. throw e) (\<lambda>_. throw e)) (\<lambda>_. rest)
         else try_then rest (\<lambda>e. bind cleanup (\<lambda>_. throw e)) (\<lambda>x. bind cleanup (\<lambda>_. return x))))) ?Q ?E t"
    if t: "calls t = calls s @ new" "fence (current t) = fence (current s)" and rest: "\<And>u. conducts rest (P new) u"
    for rest t new
    unfolding wp_simps
  proof (rule wp_starts [OF c])
    fix cleanup :: "unit pending" and u start
    assume u: "calls u = calls t @ start" "fence (current u) = fence (current t)"
      and cleanup: "\<And>v. conducts cleanup (\<lambda>later r. C start later \<and> r = Inr ()) v"
    have first: "wp cleanup (\<lambda>_. wp rest ?Q ?E) E' u" for E'
      by (rule wp_conducts [OF cleanup], rule wp_conducts [OF rest])
        (use t u cleanedI(2) [of P new _ _ C start] in auto)
    have last: "wp rest (\<lambda>x. wp cleanup (\<lambda>_. ?Q x) ?E) (\<lambda>e. wp cleanup (\<lambda>_. ?E e) ?E) u"
      by (rule wp_conducts [OF rest]; rule wp_conducts [OF cleanup])
        (use t u cleanedI(1) [of P new _ _ C start] in auto)
    show "if port_cleanupFirst ports (events u) then wp cleanup (\<lambda>_. wp rest ?Q ?E)
          (\<lambda>e. wp rest (\<lambda>_. ?E e) (\<lambda>_. ?E e)) u
        else wp rest (\<lambda>x. wp cleanup (\<lambda>_. ?Q x) ?E) (\<lambda>e. wp cleanup (\<lambda>_. ?E e) ?E) u"
      using first last by simp
  qed simp
  show "wp (finally_pending ports m c) ?Q ?E s"
    unfolding finally_pending_def wp_try_then
    by (rule wp_starts [OF m]; rule pending thrown; assumption)
qed

end
