(* ===== verification/Investigation_Turn.thy ===== *)
theory Investigation_Turn
  imports Port_Effects
begin

text \<open>
  One turn of an investigation: \<open>RunInvestigationTurn\<close> of
  \<open>src/review-investigation/application/run-investigation-turn.ts\<close>, on the routines of \<open>Port_Effects\<close>.  The
  main results are about the events of a turn: a commit is preceded by two currency checks and a sealed
  attestation of the very observation, every gateway session that was opened is disposed of once, after everything
  that was done with it, and the status of the turn tells what became of it.

  An \<open>async\<close> method that another one returns without awaiting is a routine that starts it and returns what is left:
  inside the \<open>try\<close> block of the session an abort, or the reading back of an open outcome, is still pending when the
  \<open>finally\<close> block disposes of the session.
\<close>

section \<open>Dates\<close>

text \<open>\<open>new Date(t).toISOString()\<close>: the date of a day counted from 1970-01-01, in the proleptic Gregorian
  calendar.\<close>

definition civil_date :: "int \<Rightarrow> int \<times> int \<times> int" where
  "civil_date day =
     (let z = day + 719468; era = z div 146097; doe = z mod 146097;
          yoe = (doe - doe div 1460 + doe div 36524 - doe div 146096) div 365;
          doy = doe - (365 * yoe + yoe div 4 - yoe div 100);
          mp = (5 * doy + 2) div 153;
          month = (if mp < 10 then mp + 3 else mp - 9)
      in (yoe + era * 400 + (if month \<le> 2 then 1 else 0), month, doy - (153 * mp + 2) div 5 + 1))"

definition padded :: "nat \<Rightarrow> int \<Rightarrow> string" where
  "padded width n = (let digits = show_int n in replicate (width - length digits) (CHR ''0'') @ digits)"

definition iso_year :: "int \<Rightarrow> string" where
  "iso_year y = (if 0 \<le> y \<and> y \<le> 9999 then padded 4 y
     else (if y < 0 then ''-'' else ''+'') @ padded 6 \<bar>y\<bar>)"

definition toISOString :: "int \<Rightarrow> exn + string" where
  "toISOString t =
     (if \<bar>t\<bar> > 8640000000000000 then Inl (OtherError ''Invalid time value'')
      else let (year, month, day) = civil_date (t div 86400000); ms = t mod 86400000
           in Inr (iso_year year @ ''-'' @ padded 2 month @ ''-'' @ padded 2 day @ ''T'' @
                padded 2 (ms div 3600000) @ '':'' @ padded 2 (ms div 60000 mod 60) @ '':'' @
                padded 2 (ms div 1000 mod 60) @ ''.'' @ padded 3 (ms mod 1000) @ ''Z''))"

section \<open>Failures\<close>

datatype RunInvestigationTurnStatus = TurnCommitted | TurnAborted | TurnSuperseded | TurnRecoveryRequired

record RunInvestigationTurnResult =
  tr_status :: RunInvestigationTurnStatus
  tr_snapshot :: ReviewInvestigationSnapshot

text \<open>The input of \<open>execute\<close>, without the identities that do not change during a run.\<close>

record turn_input =
  in_requestedModel :: string
  in_providerKind :: ReviewAgentProviderKind
  in_prompt :: string
  in_workingDirectory :: string
  in_timeoutMs :: int
  in_maxTurns :: int
  in_minimumCapacityParkMs :: int
  in_snapshot :: ReviewInvestigationSnapshot

definition MAX_SAFE_RETRY_AFTER_MS :: int where
  "MAX_SAFE_RETRY_AFTER_MS = 7 * 24 * 60 * 60 * 1000"

fun boundedRetryAfterMs :: "jsnum option \<Rightarrow> int option" where
  "boundedRetryAfterMs (Some (Fin q)) =
     (if q = of_int \<lfloor>q\<rfloor> \<and> is_safe_integer \<lfloor>q\<rfloor> \<and> \<lfloor>q\<rfloor> \<ge> 0 \<and> \<lfloor>q\<rfloor> \<le> MAX_SAFE_RETRY_AFTER_MS then Some \<lfloor>q\<rfloor> else None)"
| "boundedRetryAfterMs _ = None"

fun abortReason :: "ReviewAgentFailureClass \<Rightarrow> ReviewInvestigationAbortReason" where
  "abortReason AuthenticationUnavailable = AbortAuthenticationUnavailable"
| "abortReason QuotaUnavailable = AbortCapacityUnavailable"
| "abortReason CapacityUnavailable = AbortCapacityUnavailable"
| "abortReason Timeout = AbortTimeout"
| "abortReason Cancelled = AbortCancelled"
| "abortReason ConfinementViolation = AbortConfinementViolation"
| "abortReason SchemaInvalidOutput = AbortSchemaInvalidOutput"
| "abortReason StreamIncomplete = AbortSchemaInvalidOutput"
| "abortReason ModelAttributionMissing = AbortSchemaInvalidOutput"
| "abortReason UsageAttributionMissing = AbortSchemaInvalidOutput"
| "abortReason CapabilityUnavailable = RetryableInfrastructureFailure"
| "abortReason StartupFailure = RetryableInfrastructureFailure"
| "abortReason ProcessFailure = RetryableInfrastructureFailure"

definition requiresBoundedParking :: "ReviewAgentFailureClass \<Rightarrow> bool" where
  "requiresBoundedParking failure \<longleftrightarrow>
     failure \<in> {AuthenticationUnavailable, QuotaUnavailable, CapacityUnavailable, CapabilityUnavailable}"

definition isNonRetryableProviderOutputFailure :: "ReviewAgentFailureClass \<Rightarrow> bool" where
  "isNonRetryableProviderOutputFailure failure \<longleftrightarrow>
     failure \<in> {SchemaInvalidOutput, StreamIncomplete, ModelAttributionMissing, UsageAttributionMissing}"

definition abort_status :: "ReviewAgentFailureClass \<Rightarrow> RunInvestigationTurnStatus" where
  "abort_status failure =
     (if isNonRetryableProviderOutputFailure failure then TurnRecoveryRequired else TurnAborted)"

fun phase_text :: "ReviewInvestigationOperationalFailurePhase \<Rightarrow> string" where
  "phase_text AgentPreflight = ''agent_preflight''"
| "phase_text AgentCancel = ''agent_cancel''"
| "phase_text AgentExecution = ''agent_execution''"
| "phase_text GatewayCleanup = ''gateway_cleanup''"
| "phase_text GatewayOpen = ''gateway_open''"
| "phase_text GatewaySeal = ''gateway_seal''"

text \<open>\<open>operationalFailureCodes[phase]\<close>: both texts of a phase are built from its name.\<close>

definition operationalFailureCode :: "ReviewInvestigationOperationalFailurePhase \<Rightarrow> bool \<Rightarrow> string" where
  "operationalFailureCode phase confinement =
     ''review_investigation_'' @ phase_text phase @ (if confinement then ''_confinement_failure'' else ''_failure'')"

fun failure_class :: "exn \<Rightarrow> ReviewAgentFailureClass" where
  "failure_class (ReviewAgentExecutionError c r m) = c"
| "failure_class _ = ProcessFailure"

fun failure_retry :: "exn \<Rightarrow> jsnum option" where
  "failure_retry (ReviewAgentExecutionError c r m) = r"
| "failure_retry _ = None"

definition operationalFailure :: "exn \<Rightarrow> ReviewInvestigationOperationalFailurePhase \<Rightarrow> exn" where
  "operationalFailure e phase = ReviewAgentExecutionError (failure_class e) (failure_retry e)
     (operationalFailureCode phase (failure_class e = ConfinementViolation))"

text \<open>The pattern \<open>/^review_agent_[a-z0-9_]{1,160}$/u\<close>.\<close>

definition is_detail_code :: "string \<Rightarrow> bool" where
  "is_detail_code m \<longleftrightarrow> take 13 m = ''review_agent_'' \<and> 1 \<le> length (drop 13 m) \<and> length (drop 13 m) \<le> 160 \<and>
     list_all (\<lambda>c. is_lower c \<or> is_digit c \<or> c = CHR ''_'') (drop 13 m)"

fun operationalDetailCode :: "exn \<Rightarrow> string option" where
  "operationalDetailCode (ReviewAgentExecutionError c r m) = (if is_detail_code m then Some m else None)"
| "operationalDetailCode _ = None"

fun failure_message :: "exn \<Rightarrow> string" where
  "failure_message (ReviewAgentExecutionError c r m) = m"
| "failure_message _ = []"

text \<open>What the recording of a failure throws is dropped.\<close>

definition ignore_failure :: "('s, unit) run \<Rightarrow> ('s, unit) run" where
  "ignore_failure m = try_then m (\<lambda>_. return ()) return"

definition recordOperationalFailure :: "ports \<Rightarrow> turn_input \<Rightarrow> exn \<Rightarrow> ReviewInvestigationOperationalFailurePhase \<Rightarrow>
    (run_state, exn) run" where
  "recordOperationalFailure ports input e phase =
     (let failure = operationalFailure e phase;
          diagnostic = \<lparr>diag_investigationId = snap_investigationId (in_snapshot input),
            diag_turnId = (case snap_turn (in_snapshot input) of None \<Rightarrow> ''turn-unavailable'' | Some t \<Rightarrow> turn_turnId t),
            diag_phase = phase, diag_failureClass = failure_class failure, diag_code = failure_message failure,
            diag_detailCode = operationalDetailCode e,
            diag_retryAfterMs = boundedRetryAfterMs (failure_retry failure)\<rparr>
      in bind (case port_record ports of None \<Rightarrow> return ()
               | Some record \<Rightarrow> ignore_failure (await ports (\<lambda>h. record h diagnostic) (Recorded diagnostic)))
           (\<lambda>_. return failure))"

section \<open>Aborting and reconciling\<close>

definition turn_result :: "RunInvestigationTurnStatus \<Rightarrow> ReviewInvestigationSnapshot \<Rightarrow>
    (run_state, RunInvestigationTurnResult) run" where
  "turn_result status snapshot = return \<lparr>tr_status = status, tr_snapshot = snapshot\<rparr>"

definition turn_moved_on :: "ReviewInvestigationSnapshot \<Rightarrow> ReviewInvestigationSnapshot \<Rightarrow> bool" where
  "turn_moved_on restored previous \<longleftrightarrow> snap_version restored > snap_version previous \<and>
     map_option turn_turnId (snap_turn restored) \<noteq> map_option turn_turnId (snap_turn previous)"

fun is_ambiguous :: "exn \<Rightarrow> bool" where
  "is_ambiguous (ReviewInvestigationControlPlaneError c m) \<longleftrightarrow> c = AmbiguousOutcome \<or> c = Rejected"
| "is_ambiguous _ \<longleftrightarrow> False"

definition reconcileAmbiguous :: "ports \<Rightarrow> turn_input \<Rightarrow> exn \<Rightarrow> RunInvestigationTurnStatus \<Rightarrow>
    (run_state, RunInvestigationTurnResult pending) run" where
  "reconcileAmbiguous ports input e acceptedStatus =
     (if \<not> is_ambiguous e then return (throw e)
      else bind (issue (port_restore ports) Restored) (\<lambda>answer. return (bind (settle ports answer) (\<lambda>restored.
        case restored of
          None \<Rightarrow> throw e
        | Some snapshot \<Rightarrow> turn_result
            (if turn_moved_on snapshot (in_snapshot input) then acceptedStatus else TurnRecoveryRequired) snapshot))))"

definition abort_turn :: "ports \<Rightarrow> turn_input \<Rightarrow> ReviewInvestigationAbortReason \<Rightarrow> string option \<Rightarrow>
    RunInvestigationTurnStatus \<Rightarrow> (run_state, RunInvestigationTurnResult pending) run" where
  "abort_turn ports input reason nextEligibleAt status =
     bind (reads current) (\<lambda>lease.
     bind (issue (\<lambda>h. port_abortTurn ports h (in_snapshot input) lease reason nextEligibleAt)
         (Aborted_Turn (in_snapshot input) lease reason nextEligibleAt)) (\<lambda>answer.
     return (try_then (settle ports answer)
       (\<lambda>e. awaited (reconcileAmbiguous ports input e status))
       (turn_result status))))"

definition parking_delay :: "turn_input \<Rightarrow> ReviewAgentFailureClass \<Rightarrow> int option \<Rightarrow> int option" where
  "parking_delay input failure retryAfterMs =
     (if retryAfterMs = None \<and> \<not> requiresBoundedParking failure then None
      else Some (max (case retryAfterMs of None \<Rightarrow> in_minimumCapacityParkMs input | Some ms \<Rightarrow> ms)
             (in_minimumCapacityParkMs input)))"

text \<open>A date that cannot be written rejects the promise of the method.\<close>

definition abortProviderFailure :: "ports \<Rightarrow> turn_input \<Rightarrow> exn \<Rightarrow>
    (run_state, RunInvestigationTurnResult pending) run" where
  "abortProviderFailure ports input e =
     (let failure = failure_class e;
          delay = parking_delay input failure (boundedRetryAfterMs (failure_retry e))
      in bind (reads (\<lambda>s. case delay of
             None \<Rightarrow> Inr None
           | Some ms \<Rightarrow> (case toISOString (port_now ports (events s) + ms) of Inl e' \<Rightarrow> Inl e' | Inr text \<Rightarrow> Inr (Some text))))
         (\<lambda>date. case date of
             Inl e' \<Rightarrow> return (throw e')
           | Inr nextEligibleAt \<Rightarrow> abort_turn ports input (abortReason failure) nextEligibleAt (abort_status failure)))"

definition abortSuperseded :: "ports \<Rightarrow> turn_input \<Rightarrow> (run_state, RunInvestigationTurnResult pending) run" where
  "abortSuperseded ports input = abort_turn ports input SupersededExecution None TurnSuperseded"

text \<open>The \<open>catch\<close> block of a failure: it is recorded, and then the abort is started.\<close>

definition fail_turn :: "ports \<Rightarrow> turn_input \<Rightarrow> ReviewInvestigationOperationalFailurePhase \<Rightarrow> exn \<Rightarrow>
    (run_state, RunInvestigationTurnResult pending) run" where
  "fail_turn ports input phase e =
     bind (recordOperationalFailure ports input e phase) (abortProviderFailure ports input)"

section \<open>The turn\<close>

definition requireTurnBrief :: "ReviewInvestigationTurnBrief option \<Rightarrow> exn + ReviewInvestigationTurnBrief" where
  "requireTurnBrief brief = (case brief of
     None \<Rightarrow> Inl (ReviewAgentExecutionError CapabilityUnavailable None ''review_investigation_turn_brief_missing'')
   | Some b \<Rightarrow> Inr b)"

definition requireAuthorizedSelection :: "ReviewAgentSelection \<Rightarrow> ExecutionAuthority \<Rightarrow> ReviewTurnPurpose \<Rightarrow> exn + unit" where
  "requireAuthorizedSelection selection authority purpose =
     (if sel_providerKind selection = auth_providerKind authority \<and>
         sel_requestedModel selection = auth_requestedModel authority then Inr ()
      else Inl (ReviewAgentExecutionError ConfinementViolation None
        (if purpose = Critic then ''review_agent_critic_execution_authority_unavailable''
         else ''review_agent_execution_authority_mismatch'')))"

text \<open>\<open>agents.resolve\<close> answers at once: no renewal can run meanwhile.\<close>

definition resolve_agent :: "ports \<Rightarrow> ReviewAgentSelectionRequest \<Rightarrow> (run_state, ReviewAgentSelection) run" where
  "resolve_agent ports request = (\<lambda>s. let answer = port_resolve ports (events s) request
     in (answer, push (Resolved request answer) s))"

definition preflight :: "ports \<Rightarrow> turn_input \<Rightarrow> ReviewInvestigationTurn \<Rightarrow>
    (run_state, ReviewInvestigationTurnBrief \<times> ReviewAgentSelection) run" where
  "preflight ports input turn =
     bind (result (requireTurnBrief (turn_brief turn))) (\<lambda>brief.
     bind (resolve_agent ports \<lparr>sr_primaryProviderKind = in_providerKind input,
         sr_primaryRequestedModel = in_requestedModel input, sr_executionAuthority = port_authority ports,
         sr_purpose = turn_purpose turn,
         sr_maximumSemanticRiskPriority = brief_maximumSemanticRiskPriority brief\<rparr>) (\<lambda>selection.
     bind (result (requireAuthorizedSelection selection (port_authority ports) (turn_purpose turn))) (\<lambda>_.
     let requirements = \<lparr>req_providerKind = sel_providerKind selection,
           req_executionProfile = GatewayAttestedAgentV1, req_minimumConfinement = GatewayOnly,
           req_requireActualModelAttribution = True, req_requireUsageAttribution = True,
           req_requireFencedCancellation = True, req_minimumMaxTurns = in_maxTurns input\<rparr>
     in bind (await ports (\<lambda>h. port_negotiate ports h requirements) (Negotiated requirements)) (\<lambda>_.
     return (brief, selection)))))"

definition hashObservation :: "ports \<Rightarrow> ReviewTurnObservation \<Rightarrow> string" where
  "hashObservation ports observation =
     port_sha256 ports (canonicalJson (observation_json (observation\<lparr>obs_contextAttestationReference := None\<rparr>)))"

definition turn_request :: "turn_input \<Rightarrow> ReviewInvestigationTurn \<Rightarrow> ReviewInvestigationTurnBrief \<Rightarrow>
    ReviewAgentSelection \<Rightarrow> string \<Rightarrow> string \<Rightarrow> ReviewTurnRequest" where
  "turn_request input turn brief selection invocationId fencingToken =
     \<lparr>rq_invocationId = invocationId, rq_fencingToken = fencingToken, rq_turnId = turn_turnId turn,
      rq_dossierVersion = snap_version (in_snapshot input), rq_dossierDigest = snap_dossierDigest (in_snapshot input),
      rq_purpose = turn_purpose turn, rq_allowedObligationIds = map obl_obligationId (brief_obligations brief),
      rq_prompt = in_prompt input, rq_workspaceRoot = in_workingDirectory input,
      rq_requestedModel = sel_requestedModel selection, rq_timeoutMs = in_timeoutMs input,
      rq_maxTurns = in_maxTurns input\<rparr>"

definition checkCurrency :: "ports \<Rightarrow> (run_state, ReviewInvestigationCurrency) run" where
  "checkCurrency ports = await ports (port_check ports) Checked"

text \<open>\<open>cancelPreservingSemanticOutcome\<close> and \<open>disposePreservingSemanticOutcome\<close>.\<close>

definition cancel_agent :: "ports \<Rightarrow> turn_input \<Rightarrow> string \<Rightarrow> (run_state, unit) run" where
  "cancel_agent ports input invocationId =
     bind (reads (\<lambda>s. lease_fencingToken (current s))) (\<lambda>fencingToken.
     try_then (await ports (\<lambda>h. port_cancel ports h invocationId fencingToken) (Cancelled_Agent invocationId fencingToken))
       (\<lambda>e. bind (recordOperationalFailure ports input e AgentCancel) (\<lambda>_. return ())) return)"

definition dispose_session :: "ports \<Rightarrow> turn_input \<Rightarrow> (run_state, unit pending) run" where
  "dispose_session ports input =
     bind (issue (port_dispose ports) Disposed) (\<lambda>answer. return (try_then (settle ports answer)
       (\<lambda>e. bind (recordOperationalFailure ports input e GatewayCleanup) (\<lambda>_. return ())) return))"

fun is_invalid_output :: "exn \<Rightarrow> bool" where
  "is_invalid_output (ReviewInvestigationControlPlaneError c m) \<longleftrightarrow> c = ProviderOutputInvalid"
| "is_invalid_output _ \<longleftrightarrow> False"

definition commit_turn :: "ports \<Rightarrow> turn_input \<Rightarrow> AcceptedInvestigationAttestation \<Rightarrow> ReviewTurnObservation \<Rightarrow>
    (run_state, RunInvestigationTurnResult pending) run" where
  "commit_turn ports input accepted observation =
     bind (reads current) (\<lambda>lease.
     try_then (await ports (\<lambda>h. port_commitTurn ports h (in_snapshot input) lease accepted observation)
         (Committed_Turn (in_snapshot input) lease accepted observation))
       (\<lambda>e. if is_invalid_output e then abort_turn ports input AbortSchemaInvalidOutput None TurnRecoveryRequired
             else reconcileAmbiguous ports input e TurnCommitted)
       (\<lambda>snapshot. return (turn_result TurnCommitted snapshot)))"

text \<open>The body of the \<open>try\<close> whose \<open>finally\<close> disposes of the session: what it returns may still be pending.\<close>

definition run_session :: "ports \<Rightarrow> turn_input \<Rightarrow> ReviewInvestigationTurn \<Rightarrow> ReviewInvestigationTurnBrief \<Rightarrow>
    ReviewAgentSelection \<Rightarrow> string \<Rightarrow> (run_state, RunInvestigationTurnResult pending) run" where
  "run_session ports input turn brief selection invocationId =
     bind (reads (\<lambda>s. turn_request input turn brief selection invocationId (lease_fencingToken (current s)))) (\<lambda>request.
     try_then (await ports (\<lambda>h. port_executeTurn ports h request) (Executed request))
       (fail_turn ports input AgentExecution)
       (\<lambda>observation.
         bind (checkCurrency ports) (\<lambda>currency.
         if currency \<noteq> CurrencyCurrent
         then bind (cancel_agent ports input invocationId) (\<lambda>_. abortSuperseded ports input)
         else let terminalOutcomeHash = hashObservation ports observation in
           try_then (await ports (\<lambda>h. port_seal ports h (obs_actualModel observation) terminalOutcomeHash)
               (Sealed (obs_actualModel observation) terminalOutcomeHash))
             (fail_turn ports input GatewaySeal)
             (\<lambda>accepted. commit_turn ports input accepted
                (observation\<lparr>obs_contextAttestationReference := Some (att_attestationId accepted)\<rparr>)))))"

definition execute_turn :: "ports \<Rightarrow> turn_input \<Rightarrow> (run_state, RunInvestigationTurnResult) run" where
  "execute_turn ports input =
     (case snap_turn (in_snapshot input) of
        None \<Rightarrow> throw (OtherError ''investigation_turn_missing'')
      | Some turn \<Rightarrow>
          try_then (preflight ports input turn)
            (\<lambda>e. awaited (fail_turn ports input AgentPreflight e))
            (\<lambda>(brief, selection).
              bind (reads (\<lambda>s. snap_investigationId (in_snapshot input) @ '':'' @ turn_turnId turn @ '':'' @
                  lease_attemptId (current s))) (\<lambda>invocationId.
              bind (checkCurrency ports) (\<lambda>currency.
              if currency \<noteq> CurrencyCurrent then awaited (abortSuperseded ports input)
              else bind (reads current) (\<lambda>lease.
                try_then (await ports (\<lambda>h. port_gatewayOpen ports h (turn_turnId turn) lease)
                    (Opened_Gateway (turn_turnId turn) lease))
                (\<lambda>e. if e = ReviewInvestigationGatewayConfigurationError then throw e
                      else awaited (fail_turn ports input GatewayOpen e))
                (\<lambda>_. finally_pending ports (run_session ports input turn brief selection invocationId)
                       (dispose_session ports input)))))))"


section \<open>The protocol of a turn\<close>

text \<open>
  Which calls a turn may make, in which order, and with what outcome: a specification without ports, renewals or
  state.  The routines are shown to follow it.
\<close>

fun is_recording :: "event \<Rightarrow> bool" where
  "is_recording (Recorded d a) = True"
| "is_recording _ = False"

abbreviation turn_answer :: "RunInvestigationTurnStatus \<Rightarrow> ReviewInvestigationSnapshot \<Rightarrow>
    exn + RunInvestigationTurnResult" where
  "turn_answer status x \<equiv> Inr \<lparr>tr_status = status, tr_snapshot = x\<rparr>"

text \<open>An outcome the control plane left open is read back.\<close>

inductive reconciles :: "turn_input \<Rightarrow> exn \<Rightarrow> RunInvestigationTurnStatus \<Rightarrow> event list \<Rightarrow>
    exn + RunInvestigationTurnResult \<Rightarrow> bool" for input e status where
  rc_clear: "\<not> is_ambiguous e \<Longrightarrow> reconciles input e status [] (Inl e)"
| rc_failed: "is_ambiguous e \<Longrightarrow> reconciles input e status [Restored (Inl e')] (Inl e')"
| rc_nothing: "is_ambiguous e \<Longrightarrow> reconciles input e status [Restored (Inr None)] (Inl e)"
| rc_restored: "is_ambiguous e \<Longrightarrow> reconciles input e status [Restored (Inr (Some x))]
    (turn_answer (if turn_moved_on x (in_snapshot input) then status else TurnRecoveryRequired) x)"

type_synonym lease_identity = "string \<times> string \<times> string \<times> string"

fun identity_token :: "lease_identity \<Rightarrow> string" where
  "identity_token (leaseId, attemptId, fencingToken, until) = fencingToken"

lemma identity_token_fence [simp]: "identity_token (fence l) = lease_fencingToken l"
  by (simp add: fence_def)

text \<open>
  Of the calls of an abort, a failure, a commit and a session the first list has those that are sent before the method
  returns, the second those that are sent later, while it is pending.
\<close>

inductive aborts :: "lease_identity \<Rightarrow> turn_input \<Rightarrow> ReviewInvestigationAbortReason \<Rightarrow> RunInvestigationTurnStatus \<Rightarrow> event list \<Rightarrow>
    event list \<Rightarrow> exn + RunInvestigationTurnResult \<Rightarrow> bool" for k input reason status where
  ab_accepted: "fence lease = k \<Longrightarrow>
    aborts k input reason status [Aborted_Turn (in_snapshot input) lease reason nextEligibleAt (Inr x)] [] (turn_answer status x)"
| ab_failed: "fence lease = k \<Longrightarrow> reconciles input e status later r \<Longrightarrow>
    aborts k input reason status [Aborted_Turn (in_snapshot input) lease reason nextEligibleAt (Inl e)] later r"

text \<open>A failure is recorded and the turn aborted, unless the date of the next attempt cannot be written.\<close>

inductive fails :: "lease_identity \<Rightarrow> turn_input \<Rightarrow> exn \<Rightarrow> event list \<Rightarrow> event list \<Rightarrow>
    exn + RunInvestigationTurnResult \<Rightarrow> bool" for k input e where
  fl_aborted: "list_all is_recording records \<Longrightarrow>
    aborts k input (abortReason (failure_class e)) (abort_status (failure_class e)) now later r \<Longrightarrow>
    fails k input e (records @ now) later r"
| fl_date: "list_all is_recording records \<Longrightarrow> fails k input e records [] (Inl e')"

inductive commits :: "lease_identity \<Rightarrow> turn_input \<Rightarrow> AcceptedInvestigationAttestation \<Rightarrow> ReviewTurnObservation \<Rightarrow> event list \<Rightarrow>
    event list \<Rightarrow> exn + RunInvestigationTurnResult \<Rightarrow> bool" for k input accepted observation where
  cm_accepted: "fence lease = k \<Longrightarrow>
    commits k input accepted observation
    [Committed_Turn (in_snapshot input) lease accepted observation (Inr x)] [] (turn_answer TurnCommitted x)"
| cm_invalid: "fence lease = k \<Longrightarrow> is_invalid_output e \<Longrightarrow>
    aborts k input AbortSchemaInvalidOutput TurnRecoveryRequired now later r \<Longrightarrow>
    commits k input accepted observation
      (Committed_Turn (in_snapshot input) lease accepted observation (Inl e) # now) later r"
| cm_open: "fence lease = k \<Longrightarrow> \<not> is_invalid_output e \<Longrightarrow> reconciles input e TurnCommitted now r \<Longrightarrow>
    commits k input accepted observation
      (Committed_Turn (in_snapshot input) lease accepted observation (Inl e) # now) [] r"

definition attested :: "ReviewTurnObservation \<Rightarrow> AcceptedInvestigationAttestation \<Rightarrow> ReviewTurnObservation" where
  "attested observation accepted =
     observation\<lparr>obs_contextAttestationReference := Some (att_attestationId accepted)\<rparr>"

text \<open>The calls between the opening of the gateway and its disposal, and those that follow the disposal.\<close>

inductive converses :: "lease_identity \<Rightarrow> (ReviewTurnObservation \<Rightarrow> string) \<Rightarrow> turn_input \<Rightarrow> event list \<Rightarrow> event list \<Rightarrow>
    exn + RunInvestigationTurnResult \<Rightarrow> bool" for k hash input where
  cv_agent: "rq_fencingToken request = identity_token k \<Longrightarrow> fails k input e now later r \<Longrightarrow>
    converses k hash input (Executed request (Inl e) # now) later r"
| cv_check: "rq_fencingToken request = identity_token k \<Longrightarrow>
    converses k hash input [Executed request (Inr x), Checked (Inl e)] [] (Inl e)"
| cv_moved: "token = identity_token k \<Longrightarrow> rq_fencingToken request = identity_token k \<Longrightarrow>
    currency \<noteq> CurrencyCurrent \<Longrightarrow> list_all is_recording records \<Longrightarrow>
    aborts k input SupersededExecution TurnSuperseded now later r \<Longrightarrow>
    converses k hash input
      (Executed request (Inr x) # Checked (Inr currency) # Cancelled_Agent i token a # records @ now) later r"
| cv_seal: "rq_fencingToken request = identity_token k \<Longrightarrow>
    fails k input e now later r \<Longrightarrow>
    converses k hash input (Executed request (Inr x) # Checked (Inr CurrencyCurrent) #
      Sealed (obs_actualModel x) (hash x) (Inl e) # now) later r"
| cv_commit: "rq_fencingToken request = identity_token k \<Longrightarrow>
    commits k input accepted (attested x accepted) now later r \<Longrightarrow>
    converses k hash input (Executed request (Inr x) # Checked (Inr CurrencyCurrent) #
      Sealed (obs_actualModel x) (hash x) (Inr accepted) # now) later r"

text \<open>A preparation that ends with an error, and one that lets the turn start.\<close>

inductive prepares :: "event list \<Rightarrow> exn option \<Rightarrow> bool" where
  pp_none: "prepares [] (Some e)"
| pp_unresolved: "prepares [Resolved request a] (Some e)"
| pp_refused: "prepares [Resolved request (Inr selection), Negotiated requirements (Inl e)] (Some e)"
| pp_ready: "prepares [Resolved request (Inr selection), Negotiated requirements (Inr ())] None"

inductive turn_protocol :: "lease_identity \<Rightarrow> (ReviewTurnObservation \<Rightarrow> string) \<Rightarrow> turn_input \<Rightarrow> event list \<Rightarrow>
    exn + RunInvestigationTurnResult \<Rightarrow> bool" for k hash input where
  tp_missing: "snap_turn (in_snapshot input) = None \<Longrightarrow>
    turn_protocol k hash input [] (Inl (OtherError ''investigation_turn_missing''))"
| tp_preflight: "prepares ready (Some e) \<Longrightarrow> fails k input e now later r \<Longrightarrow>
    turn_protocol k hash input (ready @ now @ later) r"
| tp_check: "prepares ready None \<Longrightarrow> turn_protocol k hash input (ready @ [Checked (Inl e)]) (Inl e)"
| tp_superseded: "prepares ready None \<Longrightarrow> currency \<noteq> CurrencyCurrent \<Longrightarrow>
    aborts k input SupersededExecution TurnSuperseded now later r \<Longrightarrow>
    turn_protocol k hash input (ready @ Checked (Inr currency) # now @ later) r"
| tp_configuration: "prepares ready None \<Longrightarrow> fence lease = k \<Longrightarrow>
    turn_protocol k hash input
      (ready @ [Checked (Inr CurrencyCurrent), Opened_Gateway i lease (Inl ReviewInvestigationGatewayConfigurationError)])
      (Inl ReviewInvestigationGatewayConfigurationError)"
| tp_gateway: "prepares ready None \<Longrightarrow> fence lease = k \<Longrightarrow> e \<noteq> ReviewInvestigationGatewayConfigurationError \<Longrightarrow>
    fails k input e now later r \<Longrightarrow>
    turn_protocol k hash input (ready @ Checked (Inr CurrencyCurrent) # Opened_Gateway i lease (Inl e) # now @ later) r"
| tp_session: "prepares ready None \<Longrightarrow> fence lease = k \<Longrightarrow> converses k hash input now later r \<Longrightarrow>
    list_all is_recording records \<Longrightarrow> either_order later records tail \<Longrightarrow>
    turn_protocol k hash input
      (ready @ Checked (Inr CurrencyCurrent) # Opened_Gateway i lease (Inr ()) # now @ Disposed a # tail) r"


section \<open>The turn follows its protocol\<close>

lemma conducts_record: "conducts (recordOperationalFailure ports input e phase)
    (\<lambda>new r. list_all is_recording new \<and> r = Inr (operationalFailure e phase)) s"
  unfolding recordOperationalFailure_def Let_def ignore_failure_def
  by (rule conductsI) (auto simp: wp_simps intro!: wp_awaitI split: option.split)

lemma starts_reconcile: "starts (reconcileAmbiguous ports input e status)
    (\<lambda>now later r. later = [] \<and> reconciles input e status now r) s"
proof -
  have rest: "conducts (bind (settle ports answer) (\<lambda>restored. case restored of
          None \<Rightarrow> throw e
        | Some snapshot \<Rightarrow> turn_result
            (if turn_moved_on snapshot (in_snapshot input) then status else TurnRecoveryRequired) snapshot))
      (\<lambda>later r. later = [] \<and> reconciles input e status [Restored answer] r) u" if "is_ambiguous e" for answer u
    unfolding turn_result_def
    by (rule conductsI) (auto simp: wp_simps that reconciles.simps intro!: wp_settleI split: option.split)
  have clear: "conducts (throw e) (\<lambda>later r. later = [] \<and> reconciles input e status [] r) u" if "\<not> is_ambiguous e" for u
    by (rule conductsI) (auto simp: wp_simps that intro: rc_clear)
  show ?thesis
    unfolding reconcileAmbiguous_def
    by (rule startsI) (auto simp: wp_simps clear rest intro!: wp_issueI)
qed

lemma conducts_reconcile: "conducts (awaited (reconcileAmbiguous ports input e status)) (reconciles input e status) s"
  by (rule conducts_mono [OF conducts_awaited [OF starts_reconcile]]) auto

lemma starts_abort: "starts (abort_turn ports input reason nextEligibleAt status)
    (aborts (fence (current s)) input reason status) s"
proof -
  have rest: "conducts (try_then (settle ports answer) (\<lambda>e. awaited (reconcileAmbiguous ports input e status)) (turn_result status))
      (aborts (fence lease) input reason status [Aborted_Turn (in_snapshot input) lease reason nextEligibleAt answer]) u"
    for answer lease u
    unfolding turn_result_def
    by (rule conductsI, simp only: wp_simps, rule wp_settleI)
      (auto simp: wp_simps intro!: wp_conducts [OF conducts_reconcile] intro: ab_accepted ab_failed)
  show ?thesis
    unfolding abort_turn_def
    by (rule startsI) (auto simp: wp_simps intro!: wp_issueI rest)
qed

text \<open>A routine that starts another one after some calls of its own.\<close>

lemma starts_after: "(\<And>u. conducts rest R u) \<Longrightarrow> (\<And>later r. R later r \<Longrightarrow> R' later r) \<Longrightarrow> \<forall>u. conducts rest R' u"
  by (auto intro: conducts_mono)

text \<open>A routine under \<open>wp\<close> that starts another one as its last step.\<close>

lemma wp_starts_after:
  assumes "starts m P t" "fence (current t) = fence (current s)"
    and "\<exists>before. calls t = calls s @ before \<and> (\<forall>now later r. P now later r \<longrightarrow> P' (before @ now) later r)"
  shows "wp m
    (\<lambda>rest u. fence (current u) = fence (current s) \<and> (\<exists>new. calls u = calls s @ new \<and> (\<forall>v. conducts rest (P' new) v)))
    (\<lambda>e u. fence (current u) = fence (current s) \<and> (\<exists>new. calls u = calls s @ new \<and> P' new [] (Inl e))) t"
proof -
  obtain before where t: "calls t = calls s @ before" and shift: "\<And>now later r. P now later r \<Longrightarrow> P' (before @ now) later r"
    using assms(3) by blast
  from assms(1) show ?thesis
  proof (rule wp_starts)
    fix rest u now
    assume u: "calls u = calls t @ now" "fence (current u) = fence (current t)"
      and rest: "\<And>v. conducts rest (P now) v"
    have "\<forall>v. conducts rest (P' (before @ now)) v" by (intro starts_after [OF rest] shift)
    then show "fence (current u) = fence (current s) \<and> (\<exists>new. calls u = calls s @ new \<and> (\<forall>v. conducts rest (P' new) v))"
      using u t assms(2) by auto
  next
    fix e u now assume "calls u = calls t @ now" "fence (current u) = fence (current t)" "P now [] (Inl e)"
    then show "fence (current u) = fence (current s) \<and> (\<exists>new. calls u = calls s @ new \<and> P' new [] (Inl e))"
      using t assms(2) shift by auto
  qed
qed

lemma starts_failure: "starts (fail_turn ports input phase e) (fails (fence (current s)) input e) s"
  unfolding fail_turn_def
proof (rule startsI, simp only: wp_simps, rule wp_conducts [OF conducts_record])
  fix failure t new
  assume t: "calls t = calls s @ new" "fence (current t) = fence (current s)"
    and new: "list_all is_recording new \<and> Inr failure = (Inr (operationalFailure e phase) :: exn + exn)"
  have failure: "failure_class failure = failure_class e" using new by (simp add: operationalFailure_def)
  have date: "conducts (throw e') (fails (fence (current s)) input e new) u" for e' u
    by (rule conductsI) (use new in \<open>auto simp: wp_simps intro: fl_date\<close>)
  let ?Q = "\<lambda>rest t. fence (current t) = fence (current s) \<and>
      (\<exists>new. calls t = calls s @ new \<and> (\<forall>u. conducts rest (fails (fence (current s)) input e new) u))"
  let ?E = "\<lambda>e' t. fence (current t) = fence (current s) \<and>
      (\<exists>new. calls t = calls s @ new \<and> fails (fence (current s)) input e new [] (Inl e'))"
  have abort: "wp (abort_turn ports input (abortReason (failure_class e)) nextEligibleAt (abort_status (failure_class e))) ?Q ?E t"
    for nextEligibleAt
    using new t by (intro wp_starts_after [OF starts_abort t(2)]) (auto intro: fl_aborted)
  show "wp (abortProviderFailure ports input failure) ?Q ?E t"
    unfolding abortProviderFailure_def Let_def failure
    using t date by (auto simp: wp_simps abort split: sum.split)
qed simp

lemma conducts_failure: "conducts (awaited (fail_turn ports input phase e))
    (\<lambda>new r. \<exists>now later. new = now @ later \<and> fails (fence (current s)) input e now later r) s"
  by (rule conducts_awaited [OF starts_failure])

lemma starts_superseded: "starts (abortSuperseded ports input)
    (aborts (fence (current s)) input SupersededExecution TurnSuperseded) s"
  unfolding abortSuperseded_def by (rule starts_abort)

lemma conducts_superseded: "conducts (awaited (abortSuperseded ports input))
    (\<lambda>new r. \<exists>now later. new = now @ later \<and>
      aborts (fence (current s)) input SupersededExecution TurnSuperseded now later r) s"
  by (rule conducts_awaited [OF starts_superseded])

lemma starts_commit: "starts (commit_turn ports input accepted observation)
    (commits (fence (current s)) input accepted observation) s"
proof -
  let ?P = "commits (fence (current s)) input accepted observation"
  let ?Q = "\<lambda>rest t. fence (current t) = fence (current s) \<and>
      (\<exists>new. calls t = calls s @ new \<and> (\<forall>u. conducts rest (?P new) u))"
  let ?E = "\<lambda>e t. fence (current t) = fence (current s) \<and> (\<exists>new. calls t = calls s @ new \<and> ?P new [] (Inl e))"
  let ?commit = "Committed_Turn (in_snapshot input) (current s) accepted observation"
  have refused: "wp (if is_invalid_output e then abort_turn ports input AbortSchemaInvalidOutput None TurnRecoveryRequired
      else reconcileAmbiguous ports input e TurnCommitted) ?Q ?E t"
    if t: "calls t = calls s @ [?commit (Inl e)]" "fence (current t) = fence (current s)" for e t
  proof (cases "is_invalid_output e")
    case True
    have "wp (abort_turn ports input AbortSchemaInvalidOutput None TurnRecoveryRequired) ?Q ?E t"
      using True t by (intro wp_starts_after [OF starts_abort t(2)]) (auto intro: cm_invalid)
    then show ?thesis using True by simp
  next
    case False
    have "wp (reconcileAmbiguous ports input e TurnCommitted) ?Q ?E t"
      using False t by (intro wp_starts_after [OF starts_reconcile t(2)]) (auto intro: cm_open)
    then show ?thesis using False by simp
  qed
  have accepted: "conducts (turn_result TurnCommitted x) (?P [?commit (Inr x)]) u" for x u
    unfolding turn_result_def by (rule conductsI) (auto simp: wp_simps intro: cm_accepted)
  show ?thesis
    unfolding commit_turn_def
    by (rule startsI, simp only: wp_simps, rule wp_awaitI)
      (simp, rule refused, assumption, assumption, auto simp: wp_simps accepted)
qed

lemma conducts_check: "conducts (checkCurrency ports) (\<lambda>new r. new = [Checked r]) s"
  unfolding checkCurrency_def by (rule conductsI) (auto intro!: wp_awaitI)

lemma conducts_cancel: "conducts (cancel_agent ports input i)
    (\<lambda>new r. (\<exists>a records. new = Cancelled_Agent i (lease_fencingToken (current s)) a # records \<and> list_all is_recording records) \<and> r = Inr ()) s"
  unfolding cancel_agent_def
  by (rule conductsI) (auto simp: wp_simps intro!: wp_awaitI wp_conducts [OF conducts_record])

lemma starts_dispose: "starts (dispose_session ports input)
    (\<lambda>now later r. ((\<exists>a. now = [Disposed a]) \<and> list_all is_recording later) \<and> r = Inr ()) s"
proof -
  have rest: "conducts (try_then (settle ports answer)
      (\<lambda>e. bind (recordOperationalFailure ports input e GatewayCleanup) (\<lambda>_. return ())) return)
      (\<lambda>later r. ((\<exists>a. [Disposed answer] = [Disposed a]) \<and> list_all is_recording later) \<and> r = Inr ()) u" for answer u
    by (rule conductsI, simp only: wp_simps, rule wp_settleI) (auto simp: wp_simps intro!: wp_conducts [OF conducts_record])
  show ?thesis
    unfolding dispose_session_def
    by (rule startsI) (auto simp: wp_simps intro!: wp_issueI rest [simplified])
qed

lemma turn_request_token [simp]: "rq_fencingToken (turn_request input turn brief selection i token) = token"
  by (simp add: turn_request_def)

lemma fence_token: "fence l = fence l' \<Longrightarrow> lease_fencingToken l = lease_fencingToken l'"
  by (simp add: fence_def)

lemma starts_session: "starts (run_session ports input turn brief selection i)
    (converses (fence (current s)) (hashObservation ports) input) s"
  unfolding run_session_def Let_def attested_def [symmetric]
  by (rule startsI, simp add: wp_simps, intro wp_awaitI)
    (auto simp: wp_simps intro!: fence_token wp_conducts [OF conducts_check] wp_conducts [OF conducts_cancel]
      wp_starts_after [OF starts_superseded] wp_starts_after [OF starts_failure] wp_starts_after [OF starts_commit] wp_awaitI
      cv_agent cv_check cv_moved cv_seal cv_commit)

lemma conducts_preflight: "conducts (preflight ports input turn)
    (\<lambda>new r. prepares new (case r of Inl e \<Rightarrow> Some e | Inr _ \<Rightarrow> None)) s"
proof -
  have resolve: "wp (resolve_agent ports request) Q E t" if
      "\<And>x u. calls u = calls t @ [Resolved request (Inr x)] \<Longrightarrow> current u = current t \<Longrightarrow> Q x u"
      "\<And>e u. calls u = calls t @ [Resolved request (Inl e)] \<Longrightarrow> current u = current t \<Longrightarrow> E e u" for request t Q E
    using that by (simp add: wp_def resolve_agent_def Let_def split: sum.split)
  show ?thesis
    unfolding preflight_def Let_def
    by (rule conductsI)
      (auto simp: wp_simps intro!: wp_awaitI resolve pp_none pp_unresolved pp_refused pp_ready split: sum.split)
qed

lemma conducts_session: "conducts
    (finally_pending ports (run_session ports input turn brief selection i) (dispose_session ports input))
    (\<lambda>new r. \<exists>now later a records tail. new = now @ Disposed a # tail \<and>
      converses (fence (current s)) (hashObservation ports) input now later r \<and>
      list_all is_recording records \<and> either_order later records tail) s"
  by (rule conducts_mono [OF conducts_finally [OF starts_session starts_dispose]]) (fastforce simp: cleaned_def)

lemma conducts_turn: "conducts (execute_turn ports input) (turn_protocol (fence (current s)) (hashObservation ports) input) s"
proof (cases "snap_turn (in_snapshot input)")
  case None
  then show ?thesis
    unfolding execute_turn_def by (intro conductsI) (auto simp: wp_simps intro: tp_missing)
next
  case (Some turn)
  then show ?thesis
    unfolding execute_turn_def
    by (intro conductsI, simp add: wp_simps, intro wp_conducts [OF conducts_preflight])
      (auto simp: wp_simps intro!: wp_conducts [OF conducts_check] wp_conducts [OF conducts_superseded]
        wp_conducts [OF conducts_failure] wp_conducts [OF conducts_session]
        wp_awaitI tp_check tp_superseded tp_configuration tp_gateway tp_session intro: tp_preflight)
qed


section \<open>What the protocol rules out\<close>

fun is_commit :: "event \<Rightarrow> bool" where
  "is_commit (Committed_Turn snapshot lease accepted observation a) = True"
| "is_commit _ = False"

fun is_abort :: "event \<Rightarrow> bool" where
  "is_abort (Aborted_Turn snapshot lease reason nextEligibleAt a) = True"
| "is_abort _ = False"

text \<open>Events about the gateway session.\<close>

fun is_session_event :: "event \<Rightarrow> bool" where
  "is_session_event (Opened_Gateway i l a) = True"
| "is_session_event (Disposed a) = True"
| "is_session_event _ = False"

fun is_restoring :: "event \<Rightarrow> bool" where
  "is_restoring (Restored a) = True"
| "is_restoring _ = False"

definition without :: "(event \<Rightarrow> bool) \<Rightarrow> event list \<Rightarrow> bool" where
  "without P xs \<longleftrightarrow> list_all (\<lambda>x. \<not> P x) xs"

lemma without_simps [simp]: "without P []" "without P (x # xs) \<longleftrightarrow> \<not> P x \<and> without P xs"
    "without P (xs @ ys) \<longleftrightarrow> without P xs \<and> without P ys"
  by (simp_all add: without_def)

lemma recordings_without [simp]:
  assumes "list_all is_recording xs"
  shows "without is_commit xs" "without is_abort xs" "without is_session_event xs"
proof -
  have "\<not> is_commit x \<and> \<not> is_abort x \<and> \<not> is_session_event x" if "is_recording x" for x
    using that by (cases x) simp_all
  then show "without is_commit xs" "without is_abort xs" "without is_session_event xs"
    using assms by (auto simp: without_def list_all_iff)
qed

lemma the_only_one:
  assumes "xs @ c # ys = pre @ d # post" "P d" "without P xs" "without P ys"
  shows "pre = xs \<and> d = c \<and> post = ys"
  using assms(1,3)
proof (induction xs arbitrary: pre)
  case Nil
  then show ?case using assms(2,4) by (cases pre) auto
next
  case (Cons x xs)
  then show ?case using assms(2) by (cases pre) auto
qed

lemma reconciles_without: "reconciles input e status new r \<Longrightarrow>
    without is_commit new \<and> without is_abort new \<and> without is_session_event new"
  by (cases rule: reconciles.cases) auto

lemma aborts_without: "aborts k input reason status now later r \<Longrightarrow>
    without is_commit now \<and> without is_session_event now \<and> without is_commit later \<and> without is_session_event later"
  by (cases rule: aborts.cases) (auto dest: reconciles_without)

lemma fails_without: "fails k input e now later r \<Longrightarrow>
    without is_commit now \<and> without is_session_event now \<and> without is_commit later \<and> without is_session_event later"
  by (cases rule: fails.cases) (auto dest: aborts_without)

lemma commits_without: "commits k input accepted observation now later r \<Longrightarrow>
    without is_session_event now \<and> without is_commit later \<and> without is_session_event later"
  by (cases rule: commits.cases) (auto dest: aborts_without reconciles_without)

lemma converses_without: "converses k hash input now later r \<Longrightarrow>
    without is_session_event now \<and> without is_commit later \<and> without is_session_event later"
  by (cases rule: converses.cases) (auto dest: aborts_without fails_without commits_without)

lemma prepares_without: "prepares new e \<Longrightarrow>
    without is_commit new \<and> without is_abort new \<and> without is_session_event new"
  by (cases rule: prepares.cases) auto

text \<open>What is sent while a method is pending: at most one reading back.\<close>

definition reads_back :: "event list \<Rightarrow> bool" where
  "reads_back xs \<longleftrightarrow> list_all is_restoring xs \<and> length xs \<le> 1"

lemma reconciles_later: "reconciles input e status new r \<Longrightarrow> reads_back new"
  by (cases rule: reconciles.cases) (auto simp: reads_back_def)

lemma reads_back_Nil [simp]: "reads_back []"
  by (simp add: reads_back_def)

lemma aborts_later: "aborts k input reason status now later r \<Longrightarrow> reads_back later"
  by (cases rule: aborts.cases) (auto dest: reconciles_later)

lemma fails_later: "fails k input e now later r \<Longrightarrow> reads_back later"
  by (cases rule: fails.cases) (auto dest: aborts_later)

lemma commits_later: "commits k input accepted observation now later r \<Longrightarrow> reads_back later"
  by (cases rule: commits.cases) (auto dest: aborts_later)

lemma converses_later: "converses k hash input now later r \<Longrightarrow> reads_back later"
  by (cases rule: converses.cases) (auto dest: aborts_later fails_later commits_later)

lemma commits_shape: "commits k input accepted observation now later r \<Longrightarrow>
    \<exists>lease a rest. now = Committed_Turn (in_snapshot input) lease accepted observation a # rest \<and> fence lease = k \<and>
      without is_commit rest"
  by (cases rule: commits.cases) (auto dest: aborts_without reconciles_without)

lemma either_order_without [simp]: "either_order xs ys zs \<Longrightarrow> without P zs \<longleftrightarrow> without P xs \<and> without P ys"
  by (auto simp: either_order_def)

lemma either_order_set: "either_order xs ys zs \<Longrightarrow> set zs = set xs \<union> set ys"
  by (auto simp: either_order_def)

lemma not_without: "without P xs \<Longrightarrow> P x \<Longrightarrow> xs \<noteq> pre @ x # post"
  by (auto simp: without_def)

text \<open>The conversation before a commit, as the protocol has it.\<close>

definition attested_conversation :: "lease_identity \<Rightarrow> (ReviewTurnObservation \<Rightarrow> string) \<Rightarrow>
    AcceptedInvestigationAttestation \<Rightarrow> ReviewTurnObservation \<Rightarrow> event list \<Rightarrow> bool" where
  "attested_conversation k hash accepted observation pre \<longleftrightarrow>
     (\<exists>selection_request selection requirements i opened request x.
        pre = [Resolved selection_request (Inr selection), Negotiated requirements (Inr ()),
          Checked (Inr CurrencyCurrent), Opened_Gateway i opened (Inr ()), Executed request (Inr x),
          Checked (Inr CurrencyCurrent), Sealed (obs_actualModel x) (hash x) (Inr accepted)] \<and>
        fence opened = k \<and> rq_fencingToken request = identity_token k \<and> observation = attested x accepted)"

lemma ready_shape: "prepares ready None \<Longrightarrow> \<exists>request selection requirements.
    ready = [Resolved request (Inr selection), Negotiated requirements (Inr ())]"
  by (cases rule: prepares.cases) auto

lemma converses_commit:
  assumes "converses k hash input now later r" "\<not> without is_commit now"
  shows "\<exists>request x accepted lease a rest. now = [Executed request (Inr x), Checked (Inr CurrencyCurrent),
      Sealed (obs_actualModel x) (hash x) (Inr accepted)] @
      Committed_Turn (in_snapshot input) lease accepted (attested x accepted) a # rest \<and>
    rq_fencingToken request = identity_token k \<and> fence lease = k \<and> without is_commit rest"
  using assms by (cases rule: converses.cases) (auto dest: commits_shape fails_without aborts_without)

lemma protocol_session:
  assumes "turn_protocol k hash input new r" "\<not> without is_commit new"
  shows "\<exists>ready i lease now later a records tail. prepares ready None \<and> fence lease = k \<and>
    converses k hash input now later r \<and> list_all is_recording records \<and> either_order later records tail \<and>
    new = ready @ Checked (Inr CurrencyCurrent) # Opened_Gateway i lease (Inr ()) # now @ Disposed a # tail"
  using assms(1)
proof (cases rule: turn_protocol.cases)
  case (tp_session ready lease now later records tail i a)
  then show ?thesis by blast
qed (use assms(2) in \<open>auto dest: aborts_without fails_without prepares_without\<close>)

lemma protocol_commit:
  assumes "turn_protocol k hash input new r" "new = pre @ Committed_Turn snapshot lease accepted observation a # post"
  shows "attested_conversation k hash accepted observation pre \<and> snapshot = in_snapshot input \<and> fence lease = k"
proof -
  have "\<not> without is_commit new" using assms(2) by simp
  from protocol_session [OF assms(1) this] obtain ready i opened now later a' records tail where
      ready: "prepares ready None" and opened: "fence opened = k"
    and new: "new = ready @ Checked (Inr CurrencyCurrent) # Opened_Gateway i opened (Inr ()) # now @ Disposed a' # tail"
    and now: "converses k hash input now later r"
    and tail: "list_all is_recording records" "either_order later records tail" by blast
  have tail_without: "without is_commit tail" using tail converses_without [OF now] by simp
  then have "\<not> without is_commit now"
    using \<open>\<not> without is_commit new\<close> ready by (auto simp: new dest: prepares_without)
  from converses_commit [OF now this] obtain request x accepted' lease' a'' rest where
    now': "now = [Executed request (Inr x), Checked (Inr CurrencyCurrent),
        Sealed (obs_actualModel x) (hash x) (Inr accepted')] @
        Committed_Turn (in_snapshot input) lease' accepted' (attested x accepted') a'' # rest"
    and facts: "rq_fencingToken request = identity_token k" "fence lease' = k" "without is_commit rest" by blast
  have "(ready @ [Checked (Inr CurrencyCurrent), Opened_Gateway i opened (Inr ()), Executed request (Inr x),
        Checked (Inr CurrencyCurrent), Sealed (obs_actualModel x) (hash x) (Inr accepted')]) @
      Committed_Turn (in_snapshot input) lease' accepted' (attested x accepted') a'' # rest @ Disposed a' # tail =
      pre @ Committed_Turn snapshot lease accepted observation a # post"
    using new now' assms(2) by simp
  from the_only_one [OF this, of is_commit] facts ready tail_without have
    "pre = ready @ [Checked (Inr CurrencyCurrent), Opened_Gateway i opened (Inr ()), Executed request (Inr x),
        Checked (Inr CurrencyCurrent), Sealed (obs_actualModel x) (hash x) (Inr accepted')]"
    "Committed_Turn snapshot lease accepted observation a =
      Committed_Turn (in_snapshot input) lease' accepted' (attested x accepted') a''"
    by (auto dest: prepares_without)
  then show ?thesis using ready_shape [OF ready] facts opened unfolding attested_conversation_def by auto
qed


text \<open>After the disposal there are only diagnostics and at most one reading back.\<close>

definition aftermath :: "event list \<Rightarrow> bool" where
  "aftermath xs \<longleftrightarrow> list_all (\<lambda>x. is_recording x \<or> is_restoring x) xs \<and> length (filter is_restoring xs) \<le> 1"

lemma recordings_restore: "list_all is_recording xs \<Longrightarrow> filter is_restoring xs = []"
proof (induction xs)
  case (Cons x xs)
  then show ?case by (cases x) auto
qed simp

lemma either_order_aftermath:
  assumes "reads_back later" "list_all is_recording records" "either_order later records tail"
  shows "aftermath tail"
  using assms recordings_restore [of records] length_filter_le [of is_restoring later]
  by (auto simp: aftermath_def reads_back_def either_order_def list_all_iff)

lemma protocol_opening:
  assumes "turn_protocol k hash input new r" "new = pre @ Opened_Gateway i lease (Inr ()) # post"
  shows "\<exists>body a tail. post = body @ Disposed a # tail \<and> without is_session_event (pre @ body @ tail) \<and> aftermath tail \<and>
    fence lease = k"
proof -
  have session: "\<not> without is_session_event new" using assms(2) by simp
  show ?thesis
    using assms(1)
  proof (cases rule: turn_protocol.cases)
    case (tp_session ready opened now later records tail j a)
    then have eq: "(ready @ [Checked (Inr CurrencyCurrent)]) @ Opened_Gateway j opened (Inr ()) # now @ Disposed a # tail =
        pre @ Opened_Gateway i lease (Inr ()) # post"
      using assms(2) by simp
    have parts: "without is_session_event ready" "without is_session_event now" "without is_session_event tail"
      using tp_session prepares_without [of ready None] converses_without [of k hash input now later r] by auto
    from the_only_one [OF eq, of "\<lambda>x. \<exists>i l. x = Opened_Gateway i l (Inr ())"] parts
    have "pre = ready @ [Checked (Inr CurrencyCurrent)] \<and> post = now @ Disposed a # tail \<and> lease = opened"
      by (fastforce simp: without_def list_all_iff)
    moreover have "aftermath tail"
      by (rule either_order_aftermath) (use tp_session converses_later in blast)+
    ultimately show ?thesis
      using tp_session(3) parts by (intro exI [of _ now] exI [of _ a] exI [of _ tail]) simp
  next
    case (tp_gateway ready opened e now later j)
    then have "(ready @ [Checked (Inr CurrencyCurrent)]) @ Opened_Gateway j opened (Inl e) # now @ later =
        pre @ Opened_Gateway i lease (Inr ()) # post"
      using assms(2) by simp
    from the_only_one [OF this, of is_session_event] tp_gateway show ?thesis
      by (auto dest: prepares_without fails_without)
  next
    case (tp_configuration ready opened j)
    then have "(ready @ [Checked (Inr CurrencyCurrent)]) @
        Opened_Gateway j opened (Inl ReviewInvestigationGatewayConfigurationError) # [] =
        pre @ Opened_Gateway i lease (Inr ()) # post"
      using assms(2) by simp
    from the_only_one [OF this, of is_session_event] tp_configuration show ?thesis
      by (auto dest: prepares_without)
  qed (use session in \<open>auto dest: prepares_without fails_without aborts_without\<close>)
qed

text \<open>What the status of a turn says of its calls.\<close>

definition truthful :: "turn_input \<Rightarrow> RunInvestigationTurnResult \<Rightarrow> event list \<Rightarrow> bool" where
  "truthful input res new \<longleftrightarrow> (case tr_status res of
     TurnCommitted \<Rightarrow> without is_abort new \<and>
       (\<exists>lease accepted observation a. Committed_Turn (in_snapshot input) lease accepted observation a \<in> set new \<and>
          (a = Inr (tr_snapshot res) \<or>
           Restored (Inr (Some (tr_snapshot res))) \<in> set new \<and> turn_moved_on (tr_snapshot res) (in_snapshot input)))
   | TurnSuperseded \<Rightarrow> without is_commit new \<and> \<not> without is_abort new \<and>
       (\<exists>currency. currency \<noteq> CurrencyCurrent \<and> Checked (Inr currency) \<in> set new)
   | TurnAborted \<Rightarrow> without is_commit new \<and> \<not> without is_abort new
   | TurnRecoveryRequired \<Rightarrow> \<not> (without is_commit new \<and> without is_abort new))"

lemma reconciles_result: "reconciles input e status new (Inr res) \<Longrightarrow> tr_status res = TurnRecoveryRequired \<or>
    (tr_status res = status \<and> turn_moved_on (tr_snapshot res) (in_snapshot input) \<and>
     Restored (Inr (Some (tr_snapshot res))) \<in> set new)"
  by (cases rule: reconciles.cases) (auto split: if_splits)

lemma aborts_result: "aborts k input reason status now later (Inr res) \<Longrightarrow>
    tr_status res \<in> {status, TurnRecoveryRequired} \<and> \<not> without is_abort now"
  by (cases rule: aborts.cases) (auto dest: reconciles_result)

lemma fails_result: "fails k input e now later (Inr res) \<Longrightarrow>
    tr_status res \<in> {TurnAborted, TurnRecoveryRequired} \<and> \<not> without is_abort now"
  by (cases rule: fails.cases) (auto dest: aborts_result simp: abort_status_def split: if_splits)

lemma commits_result:
  assumes "commits k input accepted observation now later (Inr res)"
  shows "truthful input res (now @ later) \<and> tr_status res \<in> {TurnCommitted, TurnRecoveryRequired}"
  using assms
proof (cases rule: commits.cases)
  case (cm_open lease e now')
  then show ?thesis
    using reconciles_result [of input e TurnCommitted now' res] reconciles_without [of input e TurnCommitted now' "Inr res"]
    by (auto simp: truthful_def) blast+
next
  case (cm_invalid lease e now')
  then show ?thesis using aborts_result [of k input _ TurnRecoveryRequired now' later res] by (auto simp: truthful_def)
qed (auto simp: truthful_def)

lemma truthful_failure: "fails k input e now later (Inr res) \<Longrightarrow> without is_commit pre \<Longrightarrow>
    truthful input res (pre @ now @ later)"
  using fails_result [of k input e now later res] fails_without [of k input e now later "Inr res"]
  by (auto simp: truthful_def)

lemma truthful_superseded: "aborts k input SupersededExecution TurnSuperseded now later (Inr res) \<Longrightarrow>
    currency \<noteq> CurrencyCurrent \<Longrightarrow> Checked (Inr currency) \<in> set pre \<Longrightarrow> without is_commit pre \<Longrightarrow>
    truthful input res (pre @ now @ later)"
  using aborts_result [of k input SupersededExecution TurnSuperseded now later res]
    aborts_without [of k input SupersededExecution TurnSuperseded now later "Inr res"]
  by (auto simp: truthful_def)

lemma truthful_padded: "truthful input res body \<Longrightarrow> without is_commit pre \<Longrightarrow> without is_abort pre \<Longrightarrow>
    without is_commit post \<Longrightarrow> without is_abort post \<Longrightarrow> truthful input res (pre @ body @ post)"
  by (auto simp: truthful_def split: RunInvestigationTurnStatus.splits)

text \<open>The order of the calls does not matter.\<close>

lemma without_set: "set xs = set ys \<Longrightarrow> without P xs = without P ys"
  by (simp add: without_def list_all_iff)

lemma truthful_set: "truthful input res xs \<Longrightarrow> set xs = set ys \<Longrightarrow> truthful input res ys"
  using without_set [of xs ys] by (simp add: truthful_def cong: RunInvestigationTurnStatus.case_cong)

lemma converses_truthful:
  assumes "converses k hash input now later (Inr res)"
  shows "truthful input res (now @ later)"
  using assms
proof (cases rule: converses.cases)
  case (cv_agent request e now')
  then show ?thesis using truthful_failure [of k input e now' later res "[Executed request (Inl e)]"] by simp
next
  case (cv_moved token request currency records now' x i a)
  then show ?thesis using truthful_superseded [of k input now' later res currency
      "[Executed request (Inr x), Checked (Inr currency), Cancelled_Agent i token a] @ records"] by simp
next
  case (cv_seal request e now' x)
  then show ?thesis using truthful_failure [of k input e now' later res "[Executed request (Inr x),
      Checked (Inr CurrencyCurrent), Sealed (obs_actualModel x) (hash x) (Inl e)]"] by simp
next
  case (cv_commit request accepted x now')
  then have "truthful input res (now' @ later)" by (auto dest: commits_result)
  from truthful_padded [OF this, of "[Executed request (Inr x),
      Checked (Inr CurrencyCurrent), Sealed (obs_actualModel x) (hash x) (Inr accepted)]" "[]"] cv_commit
  show ?thesis by simp
qed

lemma protocol_truthful:
  assumes "turn_protocol k hash input new (Inr res)"
  shows "truthful input res new"
  using assms
proof (cases rule: turn_protocol.cases)
  case (tp_preflight ready e now later)
  then show ?thesis using truthful_failure [of k input e now later res ready] by (auto dest: prepares_without)
next
  case (tp_superseded ready currency now later)
  then show ?thesis using truthful_superseded [of k input now later res currency "ready @ [Checked (Inr currency)]"]
    by (auto dest: prepares_without)
next
  case (tp_gateway ready lease e now later i)
  then show ?thesis using truthful_failure [of k input e now later res
      "ready @ [Checked (Inr CurrencyCurrent), Opened_Gateway i lease (Inl e)]"] by (auto dest: prepares_without)
next
  case (tp_session ready lease now later records tail i a)
  then have "truthful input res ((ready @ [Checked (Inr CurrencyCurrent), Opened_Gateway i lease (Inr ())]) @
      (now @ later) @ Disposed a # records)"
    by (intro truthful_padded converses_truthful) (auto dest: prepares_without)
  then show ?thesis by (rule truthful_set) (use tp_session either_order_set in auto)
qed


section \<open>A turn\<close>

text \<open>A concrete run for the witnesses: the agent answers, its lease is renewed meanwhile, the attestation is
  sealed, and the control plane answers the commit with \<open>commit_answer\<close>.\<close>

definition demo_lease :: "string \<Rightarrow> string \<Rightarrow> ReviewInvestigationLease" where
  "demo_lease capability expiresAt = \<lparr>lease_leaseId = ''lease'', lease_attemptId = ''attempt'',
     lease_leaseCapability = capability, lease_fencingToken = ''token'', lease_expiresAt = expiresAt,
     lease_resultReportUntil = ''12345678''\<rparr>"

definition demo_turn :: "string \<Rightarrow> ReviewInvestigationTurn" where
  "demo_turn i = \<lparr>turn_turnId = i, turn_purpose = Discovery, turn_leasedAtVersion = 1, turn_dossierDigest = ''d'',
     turn_obligationIds = [], turn_semanticTurnOrdinal = 1, turn_criticCycleOrdinal = 0, turn_leasedAt = ''1'',
     turn_expiresAt = ''123456'', turn_turnCapability = ''cap'',
     turn_brief = Some \<lparr>brief_investigationId = ''i'', brief_investigationVersion = 1, brief_dossierDigest = ''d'',
       brief_turnId = i, brief_purpose = Discovery, brief_maximumSemanticRiskPriority = 5, brief_obligations = []\<rparr>\<rparr>"

definition demo_snapshot :: "int \<Rightarrow> ReviewInvestigationNextAction \<Rightarrow> ReviewInvestigationTurn option \<Rightarrow>
    ReviewInvestigationSnapshot" where
  "demo_snapshot version action turn = \<lparr>snap_investigationId = ''i'', snap_version = version, snap_state = TurnLeased,
     snap_dossierDigest = ''d'', snap_openObligationCount = 0, snap_satisfiedObligationCount = 0,
     snap_unresolvableObligationCount = 0, snap_findingCount = 0, snap_semanticTurns = 0, snap_operationalAttempts = 0,
     snap_criticCycles = 0, snap_nextEligibleAt = None, snap_nextAction = action, snap_turn = turn,
     snap_certificateId = None, snap_certificateHash = None, snap_terminalProviderKind = None,
     snap_terminalActualModel = None, snap_terminalObservationCanonicalJson = None, snap_terminalOutcomeHash = None,
     snap_conclusion = None\<rparr>"

definition demo_observation :: ReviewTurnObservation where
  "demo_observation = \<lparr>out_findings = [], out_obligationProposals = [], out_closureClaims = [],
     out_operationBackedDiscoveryClaims = [], out_unresolvableClaims = [], out_criticDecision = None,
     obs_invocationId = ''x'', obs_turnId = ''t'', obs_dossierVersion = 1, obs_purpose = Discovery,
     obs_actualProviderKind = Codex, obs_actualModel = ''m'', obs_runtimeProfile = GatewayAttestedAgentV1,
     obs_usage = \<lparr>usage_inputTokens = 1, usage_cachedInputTokens = 0, usage_outputTokens = 1,
       usage_reasoningOutputTokens = 0, usage_totalTokens = 2\<rparr>, obs_durationMs = 1,
     obs_contextAttestationReference = None\<rparr>"

definition demo_ports :: "(exn + ReviewInvestigationCurrency) list \<Rightarrow> exn + ReviewInvestigationSnapshot \<Rightarrow> ports" where
  "demo_ports currencies commit_answer = \<lparr>port_resolve = (\<lambda>h r. Inr \<lparr>sel_providerKind = Codex, sel_requestedModel = ''m''\<rparr>),
     port_negotiate = (\<lambda>h r. Inr ()),
     port_check = (\<lambda>h. currencies ! length (filter (\<lambda>x. case x of Checked _ \<Rightarrow> True | _ \<Rightarrow> False) h)),
     port_gatewayOpen = (\<lambda>h i l. Inr ()),
     port_executeTurn = (\<lambda>h r. Inr demo_observation), port_cancel = (\<lambda>h i f. Inr ()),
     port_seal = (\<lambda>h m d. Inr \<lparr>att_attestationId = ''a'', att_attestationHash = ''b''\<rparr>), port_dispose = (\<lambda>h. Inr ()),
     port_record = None, port_open = (\<lambda>h. Inr (demo_snapshot 1 RunTurn (Some (demo_turn ''t'')))),
     port_restore = (\<lambda>h. Inr None), port_planTurn = (\<lambda>h x. Inr x),
     port_commitTurn = (\<lambda>h x l a o'. commit_answer),
     port_abortTurn = (\<lambda>h x l r n. Inr (demo_snapshot 2 Terminal None)),
     port_conclude = (\<lambda>h x. Inr (demo_snapshot 9 Terminal None)),
     port_acquire = (\<lambda>h x i. Inr (Acquired (demo_lease ''c1'' ''123''))), port_release = (\<lambda>h i t l. Inr ()),
     port_sleep = (\<lambda>h ms. Inr ()), port_replay = None,
     port_authority = \<lparr>auth_providerKind = Codex, auth_requestedModel = ''m''\<rparr>, port_now = (\<lambda>h. 0),
     port_aborted = (\<lambda>h. None), port_parse = (\<lambda>text. Some (int (length text))), port_sha256 = (\<lambda>text. ''digest''),
     port_ticks = (\<lambda>h. case h of [] \<Rightarrow> [] | _ \<Rightarrow>
       (case last h of Executed r a \<Rightarrow> [\<lparr>tick_now = 1, tick_renewal = Inr (demo_lease ''c2'' ''12345'')\<rparr>] | _ \<Rightarrow> [])),
     port_pending = (\<lambda>h. None), port_cleanupFirst = (\<lambda>h. True)\<rparr>"

definition demo_input :: turn_input where
  "demo_input = \<lparr>in_requestedModel = ''m'', in_providerKind = Codex, in_prompt = ''p'', in_workingDirectory = ''w'',
     in_timeoutMs = 10, in_maxTurns = 3, in_minimumCapacityParkMs = 60,
     in_snapshot = demo_snapshot 1 RunTurn (Some (demo_turn ''t''))\<rparr>"

definition demo_state :: run_state where
  "demo_state = \<lparr>events = [], current = demo_lease ''c1'' ''123'', renewing = True, lease_failure = None\<rparr>"

definition demo_new :: "ports \<Rightarrow> event list" where
  "demo_new ports = calls (snd (execute_turn ports demo_input demo_state))"

definition accepted_run :: ports where
  "accepted_run = demo_ports [Inr CurrencyCurrent, Inr CurrencyCurrent] (Inr (demo_snapshot 2 Conclude None))"


lemma split_at: "i < length xs \<Longrightarrow> xs = take i xs @ xs ! i # drop (Suc i) xs"
  by (rule id_take_nth_drop)

lemma is_commitE: "is_commit x \<Longrightarrow> (\<And>snapshot lease accepted observation a.
    x = Committed_Turn snapshot lease accepted observation a \<Longrightarrow> thesis) \<Longrightarrow> thesis"
  by (cases x) auto

lemma turn_calls: "\<exists>new. calls (snd (execute_turn ports input s)) = calls s @ new \<and>
    turn_protocol (fence (current s)) (hashObservation ports) input new (fst (execute_turn ports input s))"
  using conducts_turn [of ports input s] by (auto simp: conducts_def)

lemma turn_calls_eq: "calls (snd (execute_turn ports input s)) = calls s @ new \<Longrightarrow>
    turn_protocol (fence (current s)) (hashObservation ports) input new (fst (execute_turn ports input s))"
  using turn_calls [of ports input s] by auto

text \<open>
  C9: whatever the ports answer and however the lease is renewed meanwhile, a turn commits only what was
  attested.  Before the commit an agent was selected and negotiated, the revision was current before the gateway
  was opened and again after the agent answered, and the gateway sealed the model and the hash of this very
  observation; the commit sends that observation with the reference of its attestation, for the snapshot the turn
  was started with, under a lease of the same identity, and the agent ran with the token of that lease.
\<close>

theorem turn_commits_only_attested_work:
  assumes "calls (snd (execute_turn ports input s)) =
    calls s @ pre @ Committed_Turn snapshot lease accepted observation a # post"
  shows "attested_conversation (fence (current s)) (hashObservation ports) accepted observation pre \<and>
    snapshot = in_snapshot input \<and> fence lease = fence (current s)"
  using turn_calls_eq [OF assms] by (rule protocol_commit) simp

lemma accepted_run_calls: "length (demo_new accepted_run) = 9" "is_commit (demo_new accepted_run ! 7)"
    "calls demo_state = []"
  by code_simp+

theorem turn_commits_only_attested_work_witness:
  "\<exists>pre lease accepted observation a post.
     demo_new accepted_run = pre @ Committed_Turn (in_snapshot demo_input) lease accepted observation a # post \<and>
     attested_conversation (fence (current demo_state)) (hashObservation accepted_run) accepted observation pre"
proof -
  obtain snapshot lease accepted observation a where
    "demo_new accepted_run ! 7 = Committed_Turn snapshot lease accepted observation a"
    using accepted_run_calls(2) by (rule is_commitE)
  then have run: "demo_new accepted_run = take 7 (demo_new accepted_run) @
      Committed_Turn snapshot lease accepted observation a # drop (Suc 7) (demo_new accepted_run)"
    using split_at [of 7 "demo_new accepted_run"] accepted_run_calls(1) by simp
  then have "calls (snd (execute_turn accepted_run demo_input demo_state)) = calls demo_state @
      take 7 (demo_new accepted_run) @ Committed_Turn snapshot lease accepted observation a #
      drop (Suc 7) (demo_new accepted_run)"
    unfolding accepted_run_calls(3) by (simp add: demo_new_def)
  from turn_commits_only_attested_work [OF this] run show ?thesis by metis
qed


text \<open>A run whose commit is refused as invalid and whose abort the control plane leaves open: the abort is read back
  after the session was disposed of.\<close>

definition late_run :: ports where
  "late_run = (demo_ports [Inr CurrencyCurrent, Inr CurrencyCurrent]
     (Inl (ReviewInvestigationControlPlaneError ProviderOutputInvalid ''no'')))\<lparr>port_abortTurn :=
       \<lambda>h x l r n. Inl (ReviewInvestigationControlPlaneError AmbiguousOutcome ''lost'')\<rparr>"




end
