(* ===== verification/Investigation_Slot.thy ===== *)
theory Investigation_Slot
  imports Investigation_Turn
begin

text \<open>
  A work slot of an investigation: \<open>RunInvestigationWorkSlot\<close> of
  \<open>src/review-investigation/application/run-investigation-work-slot.ts\<close>, which opens or replays an
  investigation and takes it through at most \<open>maxStateTransitions\<close> transitions, each turn under a lease that
  \<open>superviseLease\<close> renews.  The main results: legacy execution is authorised only before any authority was acquired,
  every mutation happens under a held lease and every lease is released once, the budget bounds what is executed,
  and waiting for another owner is bounded.
\<close>

section \<open>Supervising a lease\<close>

text \<open>
  The operation runs to its end even when the lease failed; then the failure is what the supervision throws.  A
  renewal under way at the end is still accepted.
\<close>

definition superviseLease :: "ports \<Rightarrow> ReviewInvestigationLease \<Rightarrow> (run_state, 'a) run \<Rightarrow> (run_state, 'a) run" where
  "superviseLease ports lease operation = (\<lambda>s0.
     let s = s0\<lparr>current := lease, renewing := False, lease_failure := None\<rparr>
     in case requireLeaseValidity (port_parse ports) lease ''review_investigation_lease_invalid'' of
          Some e \<Rightarrow> (Inl e, s)
        | None \<Rightarrow>
            (case operation (renewals ports (events s) (s\<lparr>renewing := True\<rparr>)) of
               (r, t) \<Rightarrow> ((case lease_failure t of Some e \<Rightarrow> Inl e | None \<Rightarrow> r), (last_round ports t)\<lparr>renewing := False\<rparr>)))"

section \<open>Input and outcome\<close>

text \<open>\<open>slot_gateOpen\<close>: \<open>legacyFallbackGate.isAvailable()\<close> at the start; \<open>slot_replayInput\<close>: target revision, target
  scope and manifest are all given.\<close>

record slot_input =
  slot_requestedModel :: string
  slot_providerKind :: ReviewAgentProviderKind
  slot_promptFor :: "ReviewInvestigationSnapshot \<Rightarrow> exn + string"
  slot_workingDirectory :: string
  slot_providerTimeoutMs :: int
  slot_providerMaxTurns :: int
  slot_minimumCapacityParkMs :: int
  slot_maxStateTransitions :: int
  slot_replayInput :: bool
  slot_gateOpen :: bool

datatype slot_outcome =
    LegacyFallback ReviewInvestigationLegacyFallbackReason
  | Ran ReviewInvestigationRunResult

definition ran :: "ReviewInvestigationRunStatus \<Rightarrow> ReviewInvestigationSnapshot \<Rightarrow> ReviewInvestigationRunResult" where
  "ran status snapshot = \<lparr>run_status = status, run_snapshot = snapshot\<rparr>"

definition isTerminal :: "ReviewInvestigationSnapshot \<Rightarrow> bool" where
  "isTerminal snapshot \<longleftrightarrow> snap_state snapshot \<in> {Concluded, InvestigationExpired}"

definition isSuperseded :: "ReviewInvestigationSnapshot \<Rightarrow> bool" where
  "isSuperseded snapshot \<longleftrightarrow> snap_state snapshot = InvestigationSuperseded"

definition sameActiveTurn :: "ReviewInvestigationSnapshot \<Rightarrow> ReviewInvestigationSnapshot \<Rightarrow> string \<Rightarrow> bool" where
  "sameActiveTurn restored previous turnId \<longleftrightarrow> snap_version restored = snap_version previous \<and>
     map_option turn_turnId (snap_turn restored) = Some turnId \<and> snap_nextAction restored \<noteq> Terminal"

definition throwIfAborted :: "ports \<Rightarrow> (run_state, unit) run" where
  "throwIfAborted ports = bind (reads (\<lambda>s. port_aborted ports (events s)))
     (\<lambda>reason. case reason of None \<Rightarrow> return () | Some e \<Rightarrow> throw e)"

section \<open>Waiting for another owner of the turn\<close>

definition boundedWaitMs :: "ports \<Rightarrow> slot_input \<Rightarrow> ReviewInvestigationSnapshot \<Rightarrow> bool \<Rightarrow> int \<Rightarrow> int" where
  "boundedWaitMs ports input snapshot waitForCompletion startedAt =
     (if waitForCompletion
      then max 0 (min (slot_providerTimeoutMs input + slot_minimumCapacityParkMs input)
        (case port_parse ports (case snap_turn snapshot of None \<Rightarrow> [] | Some turn \<Rightarrow> turn_expiresAt turn) of
           Some turnExpiresAt \<Rightarrow> turnExpiresAt - startedAt
         | None \<Rightarrow> slot_providerTimeoutMs input))
      else 0)"

definition pollIntervalMs :: int where
  "pollIntervalMs = 5000"

text \<open>\<open>Math.ceil(boundedWaitMs / pollIntervalMs) + 1\<close>, at least 1.\<close>

definition maxPolls :: "int \<Rightarrow> nat" where
  "maxPolls waitMs = nat (max 1 ((waitMs + pollIntervalMs - 1) div pollIntervalMs + 1))"

fun pollLoop :: "ports \<Rightarrow> ReviewInvestigationSnapshot \<Rightarrow> string \<Rightarrow> int \<Rightarrow> nat \<Rightarrow> int \<Rightarrow>
    (run_state, ReviewInvestigationSnapshot option) run" where
  "pollLoop ports snapshot turnId waitMs 0 poll = return None"
| "pollLoop ports snapshot turnId waitMs (Suc left) poll =
     bind (throwIfAborted ports) (\<lambda>_.
     bind (await ports (port_restore ports) Restored) (\<lambda>restored.
     if (case restored of None \<Rightarrow> True | Some x \<Rightarrow> \<not> sameActiveTurn x snapshot turnId) then return restored
     else if left = 0 then return restored
     else let ms = min pollIntervalMs (max 1 (waitMs - poll * pollIntervalMs))
       in bind (await ports (\<lambda>h. port_sleep ports h ms) (Slept ms)) (\<lambda>_.
            pollLoop ports snapshot turnId waitMs left (poll + 1))))"

definition restoreAfterLeaseContention :: "ports \<Rightarrow> slot_input \<Rightarrow> ReviewInvestigationSnapshot \<Rightarrow> string \<Rightarrow> bool \<Rightarrow>
    (run_state, ReviewInvestigationSnapshot option) run" where
  "restoreAfterLeaseContention ports input snapshot turnId waitForCompletion =
     bind (reads (\<lambda>s. port_now ports (events s))) (\<lambda>startedAt.
     let waitMs = boundedWaitMs ports input snapshot waitForCompletion startedAt
     in pollLoop ports snapshot turnId waitMs (maxPolls waitMs) 0)"

section \<open>The transitions\<close>

definition planTurn :: "ports \<Rightarrow> ReviewInvestigationSnapshot \<Rightarrow> (run_state, ReviewInvestigationSnapshot) run" where
  "planTurn ports snapshot = await ports (\<lambda>h. port_planTurn ports h snapshot) (Planned snapshot)"

definition conclude :: "ports \<Rightarrow> ReviewInvestigationSnapshot \<Rightarrow> (run_state, ReviewInvestigationSnapshot) run" where
  "conclude ports snapshot = await ports (\<lambda>h. port_conclude ports h snapshot) (Concluded_Investigation snapshot)"

text \<open>\<open>leases.release\<close> of the last accepted lease; what it throws is dropped.\<close>

definition releaseLease :: "ports \<Rightarrow> string \<Rightarrow> string \<Rightarrow> (run_state, unit) run" where
  "releaseLease ports investigationId turnId =
     bind (reads current) (\<lambda>lease.
       ignore_failure (await ports (\<lambda>h. port_release ports h investigationId turnId lease)
         (Released_Lease investigationId turnId lease)))"

definition turn_input_of :: "slot_input \<Rightarrow> ReviewInvestigationSnapshot \<Rightarrow> string \<Rightarrow> turn_input" where
  "turn_input_of input snapshot prompt =
     \<lparr>in_requestedModel = slot_requestedModel input, in_providerKind = slot_providerKind input, in_prompt = prompt,
      in_workingDirectory = slot_workingDirectory input, in_timeoutMs = slot_providerTimeoutMs input,
      in_maxTurns = slot_providerMaxTurns input, in_minimumCapacityParkMs = slot_minimumCapacityParkMs input,
      in_snapshot = snapshot\<rparr>"

text \<open>How a transition ends: with the result of the run, or with the snapshot to go on from.\<close>

datatype transition = Stop ReviewInvestigationRunResult | Continue ReviewInvestigationSnapshot

definition after_turn :: "RunInvestigationTurnResult \<Rightarrow> transition" where
  "after_turn res = (case tr_status res of
     TurnRecoveryRequired \<Rightarrow> Stop (ran RecoveryRequired (tr_snapshot res))
   | TurnSuperseded \<Rightarrow> Stop (ran Superseded (tr_snapshot res))
   | _ \<Rightarrow> Continue (tr_snapshot res))"

definition underLease :: "ports \<Rightarrow> slot_input \<Rightarrow> ReviewInvestigationSnapshot \<Rightarrow> string \<Rightarrow> ReviewInvestigationLease \<Rightarrow>
    (run_state, transition) run" where
  "underLease ports input snapshot turnId lease =
     try_then
       (superviseLease ports lease (bind (result (slot_promptFor input snapshot))
         (\<lambda>prompt. execute_turn ports (turn_input_of input snapshot prompt))))
       (\<lambda>e. bind (releaseLease ports (snap_investigationId snapshot) turnId) (\<lambda>_. throw e))
       (\<lambda>res. bind (releaseLease ports (snap_investigationId (tr_snapshot res)) turnId)
          (\<lambda>_. return (after_turn res)))"

definition runTurn :: "ports \<Rightarrow> slot_input \<Rightarrow> ReviewInvestigationSnapshot \<Rightarrow> string \<Rightarrow> (run_state, transition) run" where
  "runTurn ports input snapshot turnId =
     bind (await ports (\<lambda>h. port_acquire ports h snapshot turnId) (Acquired_Lease snapshot turnId)) (\<lambda>acquired.
     case acquired of
       Acquired lease \<Rightarrow> underLease ports input snapshot turnId lease
     | _ \<Rightarrow> bind (restoreAfterLeaseContention ports input snapshot turnId (acquired = Busy)) (\<lambda>restored.
         case restored of
           None \<Rightarrow> return (Stop (ran Parked snapshot))
         | Some x \<Rightarrow> return (if sameActiveTurn x snapshot turnId then Stop (ran Parked snapshot) else Continue x)))"

definition awaitCapacity :: "ports \<Rightarrow> ReviewInvestigationSnapshot \<Rightarrow> (run_state, transition) run" where
  "awaitCapacity ports snapshot =
     bind (reads (\<lambda>s. port_now ports (events s))) (\<lambda>now.
     if (case port_parse ports (case snap_nextEligibleAt snapshot of None \<Rightarrow> [] | Some t \<Rightarrow> t) of
           None \<Rightarrow> True | Some retryAt \<Rightarrow> retryAt > now)
     then return (Stop (ran Parked snapshot))
     else bind (planTurn ports snapshot) (\<lambda>planned.
       return (if snap_nextAction planned = AwaitCapacity then Stop (ran Parked planned) else Continue planned)))"

text \<open>The loop: \<open>Inl\<close> the result it returns, \<open>Inr\<close> the snapshot it leaves with and whether it concluded.\<close>

fun transitions :: "ports \<Rightarrow> slot_input \<Rightarrow> nat \<Rightarrow> ReviewInvestigationSnapshot \<Rightarrow>
    (run_state, ReviewInvestigationRunResult + ReviewInvestigationSnapshot \<times> bool) run" where
  "transitions ports input 0 snapshot = return (Inr (snapshot, False))"
| "transitions ports input (Suc left) snapshot =
     bind (throwIfAborted ports) (\<lambda>_.
     if isSuperseded snapshot then return (Inl (ran Superseded snapshot))
     else if snap_nextAction snapshot = Terminal \<or> isTerminal snapshot then return (Inl (ran Completed snapshot))
     else if snap_nextAction snapshot = Conclude
     then bind (conclude ports snapshot) (\<lambda>concluded. return (Inr (concluded, True)))
     else bind
       (if snap_nextAction snapshot = AwaitCapacity then awaitCapacity ports snapshot
        else case snap_turn snapshot of
          None \<Rightarrow> bind (planTurn ports snapshot) (\<lambda>planned. return (Continue planned))
        | Some turn \<Rightarrow>
            if turn_turnCapability turn = [] then bind (planTurn ports snapshot) (\<lambda>planned. return (Continue planned))
            else runTurn ports input snapshot (turn_turnId turn))
       (\<lambda>next. case next of
          Stop res \<Rightarrow> return (Inl res)
        | Continue x \<Rightarrow> transitions ports input left x))"

section \<open>The work slot\<close>

fun fallback_reason :: "exn \<Rightarrow> ReviewInvestigationLegacyFallbackReason option" where
  "fallback_reason (ReviewInvestigationControlPlaneError c m) =
     (if c = CapabilityDisabled then Some CapabilityDisabledBeforeOpen
      else if c = Unavailable \<or> c = CapacityLimited then Some InfrastructureUnavailableBeforeOpen
      else None)"
| "fallback_reason _ = None"

text \<open>What follows the loop.  A snapshot that became ready with the last transition is still concluded.\<close>

definition finish :: "ports \<Rightarrow> slot_input \<Rightarrow> ReviewInvestigationSnapshot \<Rightarrow> bool \<Rightarrow>
    (run_state, ReviewInvestigationRunResult) run" where
  "finish ports input snapshot conclusionAttempted =
     (if isSuperseded snapshot then return (ran Superseded snapshot)
      else bind
        (if slot_maxStateTransitions input > 0 \<and> \<not> conclusionAttempted \<and> snap_nextAction snapshot = Conclude
         then bind (throwIfAborted ports) (\<lambda>_. conclude ports snapshot) else return snapshot)
        (\<lambda>final. return
          (if isSuperseded final then ran Superseded final
           else if snap_nextAction final = Terminal \<or> isTerminal final then ran Completed final
           else if snap_nextAction final = AwaitCapacity then ran Parked final
           else ran TransitionBudgetExhausted final)))"

definition runSlot :: "ports \<Rightarrow> slot_input \<Rightarrow> ReviewInvestigationSnapshot \<Rightarrow>
    (run_state, ReviewInvestigationRunResult) run" where
  "runSlot ports input snapshot =
     bind (transitions ports input (nat (slot_maxStateTransitions input)) snapshot) (\<lambda>left.
     case left of Inl res \<Rightarrow> return res | Inr (final, attempted) \<Rightarrow> finish ports input final attempted)"

definition openSlot :: "ports \<Rightarrow> slot_input \<Rightarrow> bool \<Rightarrow> (run_state, slot_outcome) run" where
  "openSlot ports input available =
     try_then (await ports (port_open ports) Opened)
       (\<lambda>e. case (if available then fallback_reason e else None) of
          Some reason \<Rightarrow> return (LegacyFallback reason)
        | None \<Rightarrow> throw e)
       (\<lambda>snapshot. bind (runSlot ports input snapshot) (\<lambda>res. return (Ran res)))"

definition execute_slot :: "ports \<Rightarrow> slot_input \<Rightarrow> (run_state, slot_outcome) run" where
  "execute_slot ports input =
     bind (throwIfAborted ports) (\<lambda>_.
     case port_replay ports of
       None \<Rightarrow> openSlot ports input (slot_gateOpen input)
     | Some replay \<Rightarrow>
         if \<not> slot_replayInput input then throw (OtherError ''review_investigation_replay_input_missing'')
         else bind (await ports replay Replayed) (\<lambda>replayed.
           case replayed of
             Some snapshot \<Rightarrow> bind (runSlot ports input snapshot) (\<lambda>res. return (Ran res))
           | None \<Rightarrow> openSlot ports input False))"


section \<open>Custody of the lease\<close>

text \<open>
  A monitor of the calls.  Its state is the identity of the lease that is held; a lease is acquired when none is
  held and released as it was acquired, and gateway sessions, agents, commits and aborts need a held lease and
  carry its identity (agents and their cancellations the fencing token of it).  \<open>None\<close> is a violation.
\<close>

fun custody_step :: "lease_identity option \<Rightarrow> event \<Rightarrow> lease_identity option option" where
  "custody_step h (Acquired_Lease x i (Inr (Acquired l))) = (if h = None then Some (Some (fence l)) else None)"
| "custody_step h (Released_Lease i t l a) = (if h = Some (fence l) then Some None else None)"
| "custody_step h (Committed_Turn x l c o' a) = (if h = Some (fence l) then Some h else None)"
| "custody_step h (Aborted_Turn x l r n a) = (if h = Some (fence l) then Some h else None)"
| "custody_step h (Executed q a) = (if map_option identity_token h = Some (rq_fencingToken q) then Some h else None)"
| "custody_step h (Cancelled_Agent i f a) = (if map_option identity_token h = Some f then Some h else None)"
| "custody_step h (Opened_Gateway i l a) = (if h = Some (fence l) then Some h else None)"
| "custody_step h _ = Some h"

fun custody :: "lease_identity option \<Rightarrow> event list \<Rightarrow> lease_identity option option" where
  "custody h [] = Some h"
| "custody h (x # xs) = (case custody_step h x of None \<Rightarrow> None | Some h' \<Rightarrow> custody h' xs)"

lemma custody_append [simp]: "custody h (xs @ ys) = (case custody h xs of None \<Rightarrow> None | Some h' \<Rightarrow> custody h' ys)"
  by (induction xs arbitrary: h) (auto split: option.split)

lemma custody_recordings [simp]: "list_all is_recording xs \<Longrightarrow> custody h xs = Some h"
proof (induction xs)
  case (Cons x xs)
  then show ?case by (cases x) simp_all
qed simp

lemma custody_prepares: "prepares new e \<Longrightarrow> custody h new = Some h"
  by (cases rule: prepares.cases) auto

lemma custody_reconciles: "reconciles input e status new r \<Longrightarrow> custody h new = Some h"
  by (cases rule: reconciles.cases) auto

lemma custody_aborts: "aborts k input reason status now later r \<Longrightarrow>
    custody (Some k) now = Some (Some k) \<and> custody (Some k) later = Some (Some k)"
  by (cases rule: aborts.cases) (auto dest: custody_reconciles)

lemma custody_fails: "fails k input e now later r \<Longrightarrow>
    custody (Some k) now = Some (Some k) \<and> custody (Some k) later = Some (Some k)"
  by (cases rule: fails.cases) (auto dest: custody_aborts)

lemma custody_commits: "commits k input accepted observation now later r \<Longrightarrow>
    custody (Some k) now = Some (Some k) \<and> custody (Some k) later = Some (Some k)"
  by (cases rule: commits.cases) (auto dest: custody_aborts custody_reconciles)

lemma custody_converses: "converses k hash input now later r \<Longrightarrow>
    custody (Some k) now = Some (Some k) \<and> custody (Some k) later = Some (Some k)"
  by (cases rule: converses.cases) (auto dest: custody_aborts custody_fails custody_commits)

lemma custody_either: "either_order xs ys zs \<Longrightarrow> custody h xs = Some h \<Longrightarrow> custody h ys = Some h \<Longrightarrow> custody h zs = Some h"
  by (auto simp: either_order_def)

lemma custody_turn: "turn_protocol k hash input new r \<Longrightarrow> custody (Some k) new = Some (Some k)"
  by (cases rule: turn_protocol.cases)
    (auto simp: custody_aborts custody_fails custody_converses custody_prepares custody_either)

section \<open>Counting the calls\<close>

definition tally :: "(event \<Rightarrow> bool) \<Rightarrow> event list \<Rightarrow> nat" where
  "tally P xs = length (filter P xs)"

lemma tally_simps [simp]: "tally P [] = 0" "tally P (x # xs) = (if P x then Suc (tally P xs) else tally P xs)"
    "tally P (xs @ ys) = tally P xs + tally P ys"
  by (simp_all add: tally_def)

fun is_execution :: "event \<Rightarrow> bool" where
  "is_execution (Executed q a) = True"
| "is_execution _ = False"

fun is_acquisition :: "event \<Rightarrow> bool" where
  "is_acquisition (Acquired_Lease x i a) = True"
| "is_acquisition _ = False"

fun is_planning :: "event \<Rightarrow> bool" where
  "is_planning (Planned x a) = True"
| "is_planning _ = False"

fun is_conclusion :: "event \<Rightarrow> bool" where
  "is_conclusion (Concluded_Investigation x a) = True"
| "is_conclusion _ = False"

text \<open>The calls of a turn that the slot's own are told from.\<close>

fun is_slot_call :: "event \<Rightarrow> bool" where
  "is_slot_call (Acquired_Lease x i a) = True"
| "is_slot_call (Planned x a) = True"
| "is_slot_call (Concluded_Investigation x a) = True"
| "is_slot_call (Executed q a) = True"
| "is_slot_call _ = False"

lemma tally_without: "without is_slot_call xs \<Longrightarrow> tally is_execution xs = 0 \<and> tally is_acquisition xs = 0 \<and>
    tally is_planning xs = 0 \<and> tally is_conclusion xs = 0"
proof (induction xs)
  case (Cons x xs)
  then show ?case by (cases x) auto
qed simp

lemma recordings_slot [simp]: "list_all is_recording xs \<Longrightarrow> without is_slot_call xs"
proof (induction xs)
  case (Cons x xs)
  then show ?case by (cases x) simp_all
qed simp

lemma reconciles_slot: "reconciles input e status new r \<Longrightarrow> without is_slot_call new"
  by (cases rule: reconciles.cases) auto

lemma aborts_slot: "aborts k input reason status now later r \<Longrightarrow> without is_slot_call now \<and> without is_slot_call later"
  by (cases rule: aborts.cases) (auto dest: reconciles_slot)

lemma fails_slot: "fails k input e now later r \<Longrightarrow> without is_slot_call now \<and> without is_slot_call later"
  by (cases rule: fails.cases) (auto dest: aborts_slot)

lemma commits_slot: "commits k input accepted observation now later r \<Longrightarrow>
    without is_slot_call now \<and> without is_slot_call later"
  by (cases rule: commits.cases) (auto dest: aborts_slot reconciles_slot)

lemma prepares_slot: "prepares new e \<Longrightarrow> without is_slot_call new"
  by (cases rule: prepares.cases) auto

text \<open>The numbers of agent runs, acquisitions, plans and conclusions.\<close>

definition tallies :: "event list \<Rightarrow> nat \<times> nat \<times> nat \<times> nat" where
  "tallies xs = (tally is_execution xs, tally is_acquisition xs, tally is_planning xs, tally is_conclusion xs)"

lemma tallies_without: "without is_slot_call xs \<Longrightarrow> tallies xs = (0, 0, 0, 0)"
  by (simp add: tallies_def tally_without)

lemma reads_back_slot: "reads_back xs \<Longrightarrow> without is_slot_call xs"
proof -
  have "\<not> is_slot_call x" if "is_restoring x" for x using that by (cases x) simp_all
  then show "reads_back xs \<Longrightarrow> without is_slot_call xs" by (auto simp: reads_back_def without_def list_all_iff)
qed

lemma converses_tallies: "converses k hash input now later r \<Longrightarrow> tallies now = (1, 0, 0, 0)"
  by (cases rule: converses.cases)
    (auto simp: tallies_def dest!: aborts_slot fails_slot commits_slot tally_without recordings_slot)

lemma turn_tallies:
  assumes "turn_protocol k hash input new r"
  shows "tallies new = (0, 0, 0, 0) \<or> tallies new = (1, 0, 0, 0)"
  using assms
proof (cases rule: turn_protocol.cases)
  case (tp_session ready lease now later records tail i a)
  then have "without is_slot_call tail" using reads_back_slot [OF converses_later] by simp
  then show ?thesis
    using tally_without [of tail] tp_session converses_tallies [of k hash input now later r] prepares_slot [of ready None]
    by (auto simp: tallies_def dest!: tally_without)
qed (auto simp: tallies_def dest!: aborts_slot fails_slot prepares_slot recordings_slot tally_without)


section \<open>The work slot under the monitor\<close>

definition makes :: "(run_state, 'a) run \<Rightarrow> (event list \<Rightarrow> exn + 'a \<Rightarrow> bool) \<Rightarrow> run_state \<Rightarrow> bool" where
  "makes m R s \<longleftrightarrow> (\<exists>new. calls (snd (m s)) = calls s @ new \<and> R new (fst (m s)))"

lemma makesI: "wp m (\<lambda>x t. \<exists>new. calls t = calls s @ new \<and> R new (Inr x))
    (\<lambda>e t. \<exists>new. calls t = calls s @ new \<and> R new (Inl e)) s \<Longrightarrow> makes m R s"
  by (auto simp: wp_def makes_def split: prod.splits sum.splits)

lemma wp_makes:
  assumes "makes m R s"
    and "\<And>x t new. calls t = calls s @ new \<Longrightarrow> R new (Inr x) \<Longrightarrow> Q x t"
    and "\<And>e t new. calls t = calls s @ new \<Longrightarrow> R new (Inl e) \<Longrightarrow> E e t"
  shows "wp m Q E s"
  using assms by (auto simp: wp_def makes_def split: prod.splits sum.splits)

lemma conducts_makes: "conducts m R s \<Longrightarrow> makes m R s"
  by (auto simp: conducts_def makes_def)

text \<open>At most so many agent runs, acquisitions, plans and conclusions, and no lease held at either end.\<close>

definition frugal :: "nat \<Rightarrow> nat \<Rightarrow> nat \<Rightarrow> nat \<Rightarrow> event list \<Rightarrow> bool" where
  "frugal runs acquisitions plans conclusions xs \<longleftrightarrow> custody None xs = Some None \<and>
     tally is_execution xs \<le> runs \<and> tally is_acquisition xs \<le> acquisitions \<and>
     tally is_planning xs \<le> plans \<and> tally is_conclusion xs \<le> conclusions"

lemma frugal_append: "frugal a b c d xs \<Longrightarrow> frugal a' b' c' d' ys \<Longrightarrow>
    a + a' \<le> a'' \<Longrightarrow> b + b' \<le> b'' \<Longrightarrow> c + c' \<le> c'' \<Longrightarrow> d + d' \<le> d'' \<Longrightarrow> frugal a'' b'' c'' d'' (xs @ ys)"
  by (simp add: frugal_def)

lemma frugal_mono: "frugal a b c d xs \<Longrightarrow> a \<le> a' \<Longrightarrow> b \<le> b' \<Longrightarrow> c \<le> c' \<Longrightarrow> d \<le> d' \<Longrightarrow> frugal a' b' c' d' xs"
  by (simp add: frugal_def)

lemma frugal_Nil [simp]: "frugal a b c d []"
  by (simp add: frugal_def)

lemma makes_throwIfAborted: "makes (throwIfAborted ports) (\<lambda>new r. new = []) s"
  unfolding throwIfAborted_def by (rule makesI) (auto simp: wp_simps split: option.split)

lemma makes_plan: "makes (planTurn ports x) (\<lambda>new r. frugal 0 0 1 0 new) s"
  unfolding planTurn_def by (rule makesI) (auto simp: frugal_def intro!: wp_awaitI)

lemma makes_conclude: "makes (conclude ports x) (\<lambda>new r. frugal 0 0 0 1 new) s"
  unfolding conclude_def by (rule makesI) (auto simp: frugal_def intro!: wp_awaitI)

text \<open>What the polling sleeps: its calls only restore and sleep.\<close>

fun slept :: "event \<Rightarrow> int" where
  "slept (Slept ms a) = ms"
| "slept _ = 0"

fun is_polling :: "event \<Rightarrow> bool" where
  "is_polling (Restored a) = True"
| "is_polling (Slept ms a) = True"
| "is_polling _ = False"

lemma polling_frugal: "list_all is_polling xs \<Longrightarrow> frugal 0 0 0 0 xs"
proof (induction xs)
  case (Cons x xs)
  then show ?case by (cases x) (auto simp: frugal_def)
qed simp

definition polls :: "int \<Rightarrow> nat \<Rightarrow> event list \<Rightarrow> bool" where
  "polls waitMs attempts xs \<longleftrightarrow> list_all is_polling xs \<and> sum_list (map slept xs) \<le> waitMs \<and>
     tally is_restoring xs \<le> attempts"

lemma polls_simps [simp]: "polls waitMs attempts [] \<longleftrightarrow> 0 \<le> waitMs"
    "polls waitMs (Suc attempts) [Restored a] \<longleftrightarrow> 0 \<le> waitMs"
    "polls waitMs (Suc attempts) [Restored a, Slept ms b] \<longleftrightarrow> ms \<le> waitMs"
  by (auto simp: polls_def)

lemma polls_round: "polls waitMs attempts xs \<Longrightarrow> ms + waitMs \<le> bound \<Longrightarrow>
    polls bound (Suc attempts) (Restored a # Slept ms b # xs)"
  by (auto simp: polls_def)

lemma makes_pollLoop:
  assumes "(poll + int left - 2) * pollIntervalMs < waitMs \<or> left \<le> 1"
  shows "makes (pollLoop ports snapshot turnId waitMs left poll)
    (\<lambda>new r. polls (max 0 (waitMs - poll * pollIntervalMs)) left new) s"
  using assms
proof (induction left arbitrary: poll s)
  case 0
  then show ?case by (auto intro!: makesI simp: wp_simps)
next
  case (Suc left)
  let ?rest = "waitMs - poll * pollIntervalMs"
  let ?ms = "min pollIntervalMs (max 1 ?rest)"
  have IH: "makes (pollLoop ports snapshot turnId waitMs left (poll + 1))
      (\<lambda>new r. polls (max 0 (waitMs - (poll + 1) * pollIntervalMs)) left new) t" for t
    using Suc.prems by (intro Suc.IH) (auto simp: algebra_simps)
  have shrink: "?ms + max 0 (waitMs - (poll + 1) * pollIntervalMs) \<le> max 0 ?rest" "?ms \<le> max 0 ?rest"
    if "left > 0" using Suc.prems that unfolding pollIntervalMs_def by (auto simp: algebra_simps)
  show ?case
    unfolding pollLoop.simps Let_def
    by (rule makesI, simp only: wp_simps, rule wp_makes [OF makes_throwIfAborted])
      (auto simp: wp_simps shrink intro!: wp_awaitI wp_makes [OF IH] polls_round [OF _ shrink(1)] split: option.split)
qed

lemma maxPolls_enough: "(0 + int (maxPolls waitMs) - 2) * pollIntervalMs < waitMs \<or> maxPolls waitMs \<le> 1"
  unfolding maxPolls_def pollIntervalMs_def by (cases "waitMs > 0") (auto simp: max_def split: if_splits)

lemma makes_restore: "makes (restoreAfterLeaseContention ports input snapshot turnId waitForCompletion)
    (\<lambda>new r. polls (max 0 (boundedWaitMs ports input snapshot waitForCompletion (port_now ports (events s))))
       (maxPolls (boundedWaitMs ports input snapshot waitForCompletion (port_now ports (events s)))) new) s"
  unfolding restoreAfterLeaseContention_def Let_def
  using makes_pollLoop [OF maxPolls_enough]
  by (intro makesI) (auto simp: wp_simps intro!: wp_makes [OF makes_pollLoop [OF maxPolls_enough]])


text \<open>A supervised operation, for one that keeps the identity of any lease it starts with.\<close>

lemma supervised:
  assumes "\<And>t. calls t = calls s \<Longrightarrow> fence (current t) = fence lease \<Longrightarrow> conducts operation R t"
    and "\<And>e. R [] (Inl e)" and "\<And>new r e. R new r \<Longrightarrow> R new (Inl e)"
  shows "wp (superviseLease ports lease operation)
    (\<lambda>x t. fence (current t) = fence lease \<and> (\<exists>new. calls t = calls s @ new \<and> R new (Inr x)))
    (\<lambda>e t. fence (current t) = fence lease \<and> (\<exists>new. calls t = calls s @ new \<and> R new (Inl e))) s"
proof -
  let ?start = "s\<lparr>current := lease, renewing := False, lease_failure := None\<rparr>"
  let ?t = "renewals ports (events ?start) (?start\<lparr>renewing := True\<rparr>)"
  have start: "calls ?t = calls s" "fence (current ?t) = fence lease"
    by simp_all
  obtain r u where run: "operation ?t = (r, u)" by (cases "operation ?t")
  from conducts_run [OF assms(1) [OF start] run] start obtain new where
    new: "fence (current u) = fence lease" "calls u = calls s @ new" "R new r" by auto
  show ?thesis
    using new assms(2,3) run
    by (auto simp: wp_def superviseLease_def Let_def split: option.split sum.split)
qed

definition turn_calls_ok :: "ReviewInvestigationLease \<Rightarrow> event list \<Rightarrow> bool" where
  "turn_calls_ok lease new \<longleftrightarrow> custody (Some (fence lease)) new = Some (Some (fence lease)) \<and>
     (tallies new = (0, 0, 0, 0) \<or> tallies new = (1, 0, 0, 0))"

lemma turn_calls_okI: "turn_protocol (fence lease) hash input new r \<Longrightarrow> turn_calls_ok lease new"
  unfolding turn_calls_ok_def by (blast dest: custody_turn turn_tallies)

lemma turn_calls_ok_Nil [simp]: "turn_calls_ok lease []"
  by (simp add: turn_calls_ok_def tallies_def)

lemma conducts_prompted: "fence (current t) = fence lease \<Longrightarrow>
    conducts (bind (result r) (\<lambda>prompt. execute_turn ports (turn_input_of input snapshot prompt)))
      (\<lambda>new _. turn_calls_ok lease new) t"
  by (rule conductsI, simp add: wp_simps split: sum.split, safe)
    (auto intro!: wp_conducts [OF conducts_turn] intro: turn_calls_okI)

lemma makes_release: "fence (current t) = k \<Longrightarrow>
    makes (releaseLease ports i turnId) (\<lambda>new r. (\<exists>l a. new = [Released_Lease i turnId l a] \<and> fence l = k) \<and> r = Inr ()) t"
  unfolding releaseLease_def ignore_failure_def by (rule makesI) (auto simp: wp_simps intro!: wp_awaitI)

lemma turn_released: "turn_calls_ok (l :: ReviewInvestigationLease) new \<Longrightarrow> fence l' = fence l \<Longrightarrow>
    frugal (Suc 0) (Suc 0) 0 0 (Acquired_Lease x i (Inr (Acquired l)) # new @ [Released_Lease j i l' a])"
  by (auto simp: turn_calls_ok_def frugal_def tallies_def)

lemma makes_underLease: "makes (underLease ports input snapshot turnId lease)
    (\<lambda>new r. frugal 1 1 0 0 (Acquired_Lease x turnId (Inr (Acquired lease)) # new)) s"
  unfolding underLease_def
  by (rule makesI, simp only: wp_simps, rule wp_mono, rule supervised [where R = "\<lambda>new _. turn_calls_ok lease new"],
      rule conducts_prompted, assumption, rule turn_calls_ok_Nil, assumption)
    (auto simp: wp_simps intro!: wp_makes [OF makes_release] turn_released)


lemma not_acquired_frugal: "a \<noteq> Acquired l \<Longrightarrow> frugal 0 0 0 0 new \<Longrightarrow> (\<And>l. a \<noteq> Acquired l) \<Longrightarrow>
    frugal (Suc 0) (Suc 0) 0 0 (Acquired_Lease x i (Inr a) # new)"
  by (cases a) (auto simp: frugal_def)

lemma polls_frugal: "polls waitMs attempts new \<Longrightarrow> frugal 0 0 0 0 new"
  unfolding polls_def by (blast intro: polling_frugal)

lemma makes_runTurn: "makes (runTurn ports input snapshot turnId) (\<lambda>new r. frugal 1 1 0 0 new) s"
proof -
  have refused: "frugal (Suc 0) (Suc 0) 0 0 (Acquired_Lease x i (Inl e) # [])" for x i e by (simp add: frugal_def)
  have other: "frugal (Suc 0) (Suc 0) 0 0 (Acquired_Lease x i (Inr a) # new)"
    if "polls waitMs attempts new" "a = Busy \<or> a = AttemptBudgetExhausted \<or> a = NotRunnable" for x i a new waitMs attempts
    using polls_frugal [OF that(1)] that(2) by (auto simp: frugal_def)
  show ?thesis
    unfolding runTurn_def
    by (rule makesI, simp only: wp_simps, rule wp_awaitI)
      (auto simp: wp_simps refused split: ReviewInvestigationLeaseAcquireResult.split option.split
        intro!: wp_makes [OF makes_underLease] wp_makes [OF makes_restore] other)
qed

lemma makes_awaitCapacity: "makes (awaitCapacity ports snapshot) (\<lambda>new r. frugal 0 0 1 0 new) s"
  unfolding awaitCapacity_def
  by (rule makesI, simp add: wp_simps split: option.split)
    (auto simp: wp_simps intro!: wp_makes [OF makes_plan] split: option.split)

text \<open>One transition that neither ends the run nor concludes.\<close>

definition step :: "ports \<Rightarrow> slot_input \<Rightarrow> ReviewInvestigationSnapshot \<Rightarrow> (run_state, transition) run" where
  "step ports input snapshot =
     (if snap_nextAction snapshot = AwaitCapacity then awaitCapacity ports snapshot
      else case snap_turn snapshot of
        None \<Rightarrow> bind (planTurn ports snapshot) (\<lambda>planned. return (Continue planned))
      | Some turn \<Rightarrow>
          if turn_turnCapability turn = [] then bind (planTurn ports snapshot) (\<lambda>planned. return (Continue planned))
          else runTurn ports input snapshot (turn_turnId turn))"

lemma makes_planned: "makes (bind (planTurn ports x) (\<lambda>planned. return (Continue planned))) (\<lambda>new r. frugal 1 1 1 0 new) s"
  by (rule makesI) (auto simp: wp_simps intro!: wp_makes [OF makes_plan] elim: frugal_mono)

lemma makes_mono: "makes m R s \<Longrightarrow> (\<And>new r. R new r \<Longrightarrow> R' new r) \<Longrightarrow> makes m R' s"
  by (auto simp: makes_def)

lemma makes_step: "makes (step ports input snapshot) (\<lambda>new r. frugal 1 1 1 0 new) s"
proof -
  have "makes (awaitCapacity ports snapshot) (\<lambda>new r. frugal 1 1 1 0 new) s"
    by (rule makes_mono [OF makes_awaitCapacity]) (auto elim: frugal_mono)
  moreover have "makes (runTurn ports input snapshot i) (\<lambda>new r. frugal 1 1 1 0 new) s" for i
    by (rule makes_mono [OF makes_runTurn]) (auto elim: frugal_mono)
  ultimately show ?thesis unfolding step_def
    by (auto split: option.split intro: makes_planned [unfolded One_nat_def])
qed

text \<open>A run that has concluded, or threw and may have, has used the one conclusion.\<close>

definition concluded :: "exn + ReviewInvestigationRunResult + ReviewInvestigationSnapshot \<times> bool \<Rightarrow> nat" where
  "concluded r = (case r of Inl e \<Rightarrow> 1 | Inr (Inl res) \<Rightarrow> 0 | Inr (Inr (x, attempted)) \<Rightarrow> if attempted then 1 else 0)"

lemma makes_transitions: "makes (transitions ports input left snapshot)
    (\<lambda>new r. frugal left left left (concluded r) new) s"
proof (induction left arbitrary: snapshot s)
  case 0
  show ?case by (rule makesI) (auto simp: wp_simps)
next
  case (Suc left)
  have more: "frugal (Suc left) (Suc left) (Suc left) c (new @ new')"
    if "frugal (Suc 0) (Suc 0) (Suc 0) 0 new" "frugal left left left c new'" for new new' c
    using that by (auto elim: frugal_append)
  have alone: "frugal (Suc left) (Suc left) (Suc left) c new" if "frugal (Suc 0) (Suc 0) (Suc 0) 0 new" for new c
    using that by (auto elim: frugal_mono)
  have closing: "frugal (Suc left) (Suc left) (Suc left) (Suc 0) new" if "frugal 0 0 0 (Suc 0) new" for new
    using that by (auto elim: frugal_mono)
  show ?case
    unfolding transitions.simps step_def [symmetric]
    by (rule makesI, simp only: wp_simps, rule wp_makes [OF makes_throwIfAborted])
      (auto simp: wp_simps concluded_def intro!: wp_makes [OF makes_conclude] wp_makes [OF makes_step]
        wp_makes [OF Suc.IH [unfolded concluded_def]] more intro: alone closing split: transition.split)
qed

lemma makes_finish: "makes (finish ports input snapshot attempted) (\<lambda>new r. frugal 0 0 0 (if attempted then 0 else 1) new) s"
  unfolding finish_def
  by (rule makesI) (auto simp: wp_simps intro!: wp_makes [OF makes_throwIfAborted] wp_makes [OF makes_conclude])

definition budget :: "slot_input \<Rightarrow> event list \<Rightarrow> bool" where
  "budget input new \<longleftrightarrow> (let n = nat (slot_maxStateTransitions input) in frugal n n n 1 new)"

lemma makes_runSlot: "makes (runSlot ports input snapshot) (\<lambda>new r. budget input new) s"
proof -
  let ?n = "nat (slot_maxStateTransitions input)"
  have append: "frugal ?n ?n ?n (Suc 0) (new @ new')"
    if "frugal ?n ?n ?n (if b then 1 else 0) new" "frugal 0 0 0 (if b then 0 else 1) new'" for new new' b
    using that by (cases b) (auto elim: frugal_append)
  have alone: "frugal ?n ?n ?n (Suc 0) new" if "frugal ?n ?n ?n 0 new" for new
    using that by (auto elim: frugal_mono)
  show ?thesis
    unfolding runSlot_def budget_def Let_def
    by (rule makesI, simp only: wp_simps, rule wp_makes [OF makes_transitions])
      (auto simp: wp_simps concluded_def split: sum.split prod.split
        intro!: wp_makes [OF makes_finish] intro: alone append)
qed


definition falls_back :: "bool \<Rightarrow> event list \<Rightarrow> exn + slot_outcome \<Rightarrow> bool" where
  "falls_back available new r \<longleftrightarrow> (\<forall>reason. r = Inr (LegacyFallback reason) \<longrightarrow>
     available \<and> (\<exists>e. new = [Opened (Inl e)] \<and> fallback_reason e = Some reason))"

lemma budget_call: "budget input new \<Longrightarrow> \<not> is_slot_call x \<Longrightarrow> custody_step None x = Some None \<Longrightarrow> budget input (x # new)"
  by (cases x) (auto simp: budget_def Let_def frugal_def split: if_splits)

lemma makes_openSlot: "makes (openSlot ports input available)
    (\<lambda>new r. budget input new \<and> falls_back available new r) s"
proof -
  have single: "budget input [Opened a]" for a by (simp add: budget_def Let_def frugal_def)
  have longer: "budget input (Opened a # new)" if "budget input new" for a new
    using that by (rule budget_call) simp_all
  show ?thesis
    unfolding openSlot_def
    by (rule makesI, simp only: wp_simps, rule wp_awaitI)
      (auto simp: wp_simps falls_back_def single longer intro!: wp_makes [OF makes_runSlot] split: option.split)
qed

lemma makes_execute: "makes (execute_slot ports input)
    (\<lambda>new r. budget input new \<and> falls_back (port_replay ports = None \<and> slot_gateOpen input) new r) s"
proof -
  have single: "budget input [Replayed a]" "budget input []" for a by (simp_all add: budget_def Let_def frugal_def)
  have longer: "budget input (Replayed a # new)" if "budget input new" for a new
    using that by (rule budget_call) simp_all
  show ?thesis
    unfolding execute_slot_def
    by (rule makesI, simp only: wp_simps, rule wp_makes [OF makes_throwIfAborted])
      (auto simp: wp_simps falls_back_def single longer
        intro!: wp_awaitI wp_makes [OF makes_runSlot] wp_makes [OF makes_openSlot] split: option.split)
qed

section \<open>A work slot\<close>

text \<open>
  C11: a work slot lets the legacy path run only when nothing was acquired: no replay was tried, the gate was open, and
  the one call it made was an opening that the control plane refused as disabled or unavailable.
\<close>

theorem legacy_fallback_precedes_authority:
  assumes "fst (execute_slot ports input s) = Inr (LegacyFallback reason)"
  shows "port_replay ports = None \<and> slot_gateOpen input \<and>
    (\<exists>e. calls (snd (execute_slot ports input s)) = calls s @ [Opened (Inl e)] \<and> fallback_reason e = Some reason)"
  using makes_execute [of ports input s] assms by (auto simp: makes_def falls_back_def)

definition demo_slot :: "int \<Rightarrow> slot_input" where
  "demo_slot limit = \<lparr>slot_requestedModel = ''m'', slot_providerKind = Codex, slot_promptFor = (\<lambda>x. Inr ''p''),
     slot_workingDirectory = ''w'', slot_providerTimeoutMs = 10, slot_providerMaxTurns = 3,
     slot_minimumCapacityParkMs = 60, slot_maxStateTransitions = limit, slot_replayInput = False, slot_gateOpen = True\<rparr>"

theorem legacy_fallback_precedes_authority_witness:
  "\<exists>ports e. fst (execute_slot ports (demo_slot 3) demo_state) = Inr (LegacyFallback InfrastructureUnavailableBeforeOpen) \<and>
     calls (snd (execute_slot ports (demo_slot 3) demo_state)) = calls demo_state @ [Opened (Inl e)]"
proof -
  let ?ports = "accepted_run\<lparr>port_open := \<lambda>h. Inl (ReviewInvestigationControlPlaneError Unavailable ''down'')\<rparr>"
  have "fst (execute_slot ?ports (demo_slot 3) demo_state) = Inr (LegacyFallback InfrastructureUnavailableBeforeOpen)"
    by code_simp
  from legacy_fallback_precedes_authority [OF this] this show ?thesis by metis
qed

text \<open>
  C10: in every run of a work slot, whatever it returns or throws, a lease is acquired only when none is held and is
  released exactly once, as it was acquired; and every gateway session is opened under the held lease, every commit and
  abort is sent with it, and every agent run and cancellation with its fencing token, also after renewals.
\<close>

theorem mutations_happen_under_the_held_lease:
  "\<exists>new. calls (snd (execute_slot ports input s)) = calls s @ new \<and> custody None new = Some None"
  using makes_execute [of ports input s] by (auto simp: makes_def budget_def Let_def frugal_def)

text \<open>
  C12: a work slot runs at most \<open>maxStateTransitions\<close> agent turns, acquires no more leases and plans no more turns than
  that, and concludes at most once.
\<close>

theorem slot_stays_within_its_budget:
  "\<exists>new. calls (snd (execute_slot ports input s)) = calls s @ new \<and>
     tally is_execution new \<le> nat (slot_maxStateTransitions input) \<and>
     tally is_acquisition new \<le> nat (slot_maxStateTransitions input) \<and>
     tally is_planning new \<le> nat (slot_maxStateTransitions input) \<and>
     tally is_conclusion new \<le> 1"
  using makes_execute [of ports input s] by (auto simp: makes_def budget_def Let_def frugal_def)

text \<open>
  C25: waiting for the owner of a leased turn is bounded: the polling only restores and sleeps, it sleeps no longer
  than the provider may take with the parking time, nor beyond the expiry of the turn (or the provider's time when the
  expiry cannot be read), and not at all when the turn is not busy; and it restores at most once more than it can
  sleep.
\<close>

theorem waiting_for_another_owner_is_bounded:
  "\<exists>new. calls (snd (restoreAfterLeaseContention ports input snapshot turnId waiting s)) = calls s @ new \<and>
     list_all is_polling new \<and>
     sum_list (map slept new) \<le> max 0 (slot_providerTimeoutMs input + slot_minimumCapacityParkMs input) \<and>
     sum_list (map slept new) \<le>
       (case port_parse ports (case snap_turn snapshot of None \<Rightarrow> [] | Some turn \<Rightarrow> turn_expiresAt turn) of
          Some turnExpiresAt \<Rightarrow> max 0 (turnExpiresAt - port_now ports (events s))
        | None \<Rightarrow> max 0 (slot_providerTimeoutMs input)) \<and>
     (if waiting then True else sum_list (map slept new) \<le> 0) \<and>
     tally is_restoring new \<le> maxPolls (boundedWaitMs ports input snapshot waiting (port_now ports (events s)))"
proof -
  let ?wait = "boundedWaitMs ports input snapshot waiting (port_now ports (events s))"
  obtain new where new: "calls (snd (restoreAfterLeaseContention ports input snapshot turnId waiting s)) = calls s @ new"
      "list_all is_polling new" "sum_list (map slept new) \<le> max 0 ?wait" "tally is_restoring new \<le> maxPolls ?wait"
    using makes_restore [of ports input snapshot turnId waiting s] by (auto simp: makes_def polls_def)
  have wait: "max 0 ?wait \<le> max 0 (slot_providerTimeoutMs input + slot_minimumCapacityParkMs input)"
    "max 0 ?wait \<le> (case port_parse ports (case snap_turn snapshot of None \<Rightarrow> [] | Some turn \<Rightarrow> turn_expiresAt turn) of
          Some turnExpiresAt \<Rightarrow> max 0 (turnExpiresAt - port_now ports (events s))
        | None \<Rightarrow> max 0 (slot_providerTimeoutMs input))"
    "if waiting then True else max 0 ?wait \<le> 0"
    by (auto simp: boundedWaitMs_def min_le_iff_disj le_max_iff_disj split: option.split)
  show ?thesis
    using new order_trans [OF new(3) wait(1)] order_trans [OF new(3) wait(2)] order_trans [OF new(3)] wait(3)
    by (intro exI [of _ new]) (auto split: if_splits)
qed


section \<open>What the result of a work slot says\<close>

fun is_refusal :: "event \<Rightarrow> bool" where
  "is_refusal (Acquired_Lease x i (Inr (Acquired l))) = False"
| "is_refusal (Acquired_Lease x i (Inr a)) = True"
| "is_refusal _ = False"

definition concludes_to :: "ReviewInvestigationSnapshot \<Rightarrow> event list \<Rightarrow> bool" where
  "concludes_to snapshot new \<longleftrightarrow> (\<exists>x. Concluded_Investigation x (Inr snapshot) \<in> set new)"

definition honest :: "slot_input \<Rightarrow> event list \<Rightarrow> ReviewInvestigationRunResult \<Rightarrow> bool" where
  "honest input new res \<longleftrightarrow> (let x = run_snapshot res in case run_status res of
     Completed \<Rightarrow> snap_nextAction x = Terminal \<or> isTerminal x
   | Superseded \<Rightarrow> isSuperseded x \<or> \<not> without is_abort new
   | Parked \<Rightarrow> snap_nextAction x = AwaitCapacity \<or> \<not> without is_refusal new
   | RecoveryRequired \<Rightarrow> \<not> (without is_commit new \<and> without is_abort new)
   | TransitionBudgetExhausted \<Rightarrow> \<not> isSuperseded x \<and> snap_nextAction x \<notin> {Terminal, AwaitCapacity} \<and> \<not> isTerminal x \<and>
       (snap_nextAction x = Conclude \<longrightarrow> slot_maxStateTransitions input \<le> 0 \<or> concludes_to x new))"

lemma honest_later: "honest input new res \<Longrightarrow> honest input (pre @ new) res"
  by (auto simp: honest_def Let_def concludes_to_def split: ReviewInvestigationRunStatus.splits)

lemma honest_ran [simp]: "isSuperseded x \<Longrightarrow> honest input new (ran Superseded x)"
    "snap_nextAction x = Terminal \<or> isTerminal x \<Longrightarrow> honest input new (ran Completed x)"
    "snap_nextAction x = AwaitCapacity \<Longrightarrow> honest input new (ran Parked x)"
  by (simp_all add: honest_def ran_def)

lemma honest_exhausted [simp]: "honest input new (ran TransitionBudgetExhausted x) \<longleftrightarrow>
    \<not> isSuperseded x \<and> snap_nextAction x \<notin> {Terminal, AwaitCapacity} \<and> \<not> isTerminal x \<and>
    (snap_nextAction x = Conclude \<longrightarrow> slot_maxStateTransitions input \<le> 0 \<or> concludes_to x new)"
  by (simp add: honest_def ran_def)

definition turn_truth :: "ReviewInvestigationSnapshot \<Rightarrow> event list \<Rightarrow> exn + RunInvestigationTurnResult \<Rightarrow> bool" where
  "turn_truth snapshot new r \<longleftrightarrow> (\<forall>res. r = Inr res \<longrightarrow>
     (tr_status res = TurnRecoveryRequired \<longrightarrow> \<not> (without is_commit new \<and> without is_abort new)) \<and>
     (tr_status res = TurnSuperseded \<longrightarrow> \<not> without is_abort new))"

lemma protocol_truth: "turn_protocol k hash input new r \<Longrightarrow> turn_truth snapshot new r"
  by (auto simp: turn_truth_def truthful_def dest: protocol_truthful)

lemma conducts_truth:
  "conducts (bind (result r) (\<lambda>prompt. execute_turn ports (turn_input_of input snapshot prompt))) (turn_truth snapshot) t"
  by (rule conductsI, simp add: wp_simps split: sum.split, safe)
    (auto intro!: wp_conducts [OF conducts_turn] intro: protocol_truth simp: turn_truth_def [of _ "[]"])

lemma makes_underLease_honest: "makes (underLease ports input snapshot turnId lease)
    (\<lambda>new r. \<forall>res. r = Inr (Stop res) \<longrightarrow> honest input new res) s"
  unfolding underLease_def
  by (rule makesI, simp only: wp_simps, rule wp_mono, rule supervised [where R = "turn_truth snapshot"],
      rule conducts_truth)
    (auto simp: wp_simps turn_truth_def after_turn_def honest_def ran_def intro!: wp_makes [OF makes_release [OF refl]]
      split: RunInvestigationTurnStatus.splits)

lemma makes_runTurn_honest: "makes (runTurn ports input snapshot turnId)
    (\<lambda>new r. \<forall>res. r = Inr (Stop res) \<longrightarrow> honest input new res) s"
proof -
  have parked: "honest input (Acquired_Lease x i (Inr a) # new) (ran Parked snapshot)"
    if "a = Busy \<or> a = AttemptBudgetExhausted \<or> a = NotRunnable" for x i a new
    using that by (auto simp: honest_def ran_def)
  have turn: "honest input (Acquired_Lease x i a # new) res" if "honest input new res" for x i a new res
    using honest_later [OF that, of "[Acquired_Lease x i a]"] by simp
  show ?thesis
    unfolding runTurn_def
    by (rule makesI, simp only: wp_simps, rule wp_awaitI)
      (auto simp: wp_simps parked turn split: ReviewInvestigationLeaseAcquireResult.split option.split if_splits
        intro!: wp_makes [OF makes_underLease_honest] wp_makes [OF makes_restore])
qed

lemma makes_awaitCapacity_honest: "snap_nextAction snapshot = AwaitCapacity \<Longrightarrow> makes (awaitCapacity ports snapshot)
    (\<lambda>new r. \<forall>res. r = Inr (Stop res) \<longrightarrow> honest input new res) s"
  unfolding awaitCapacity_def
  by (rule makesI, simp add: wp_simps split: option.split)
    (auto simp: wp_simps honest_def ran_def intro!: wp_makes [OF makes_plan] split: option.split)

lemma makes_step_honest: "makes (step ports input snapshot)
    (\<lambda>new r. \<forall>res. r = Inr (Stop res) \<longrightarrow> honest input new res) s"
proof -
  have "makes (bind (planTurn ports x) (\<lambda>planned. return (Continue planned)))
      (\<lambda>new r. \<forall>res. r = Inr (Stop res) \<longrightarrow> honest input new res) s" for x
    by (rule makesI) (auto simp: wp_simps intro!: wp_makes [OF makes_plan])
  then show ?thesis
    unfolding step_def by (auto split: option.split intro: makes_runTurn_honest makes_awaitCapacity_honest)
qed

lemma makes_conclude_to: "makes (conclude ports x) (\<lambda>new r. \<forall>y. r = Inr y \<longrightarrow> concludes_to y new) s"
  unfolding conclude_def by (rule makesI) (auto simp: concludes_to_def intro!: wp_awaitI)

text \<open>What the loop leaves with.\<close>

definition loop_truth :: "slot_input \<Rightarrow> event list \<Rightarrow>
    exn + ReviewInvestigationRunResult + ReviewInvestigationSnapshot \<times> bool \<Rightarrow> bool" where
  "loop_truth input new r \<longleftrightarrow> (case r of Inl e \<Rightarrow> True | Inr (Inl res) \<Rightarrow> honest input new res
     | Inr (Inr (x, attempted)) \<Rightarrow> attempted \<longrightarrow> concludes_to x new)"

lemma loop_truth_later: "loop_truth input new r \<Longrightarrow> loop_truth input (pre @ new) r"
  by (auto simp: loop_truth_def concludes_to_def intro: honest_later split: sum.splits)

lemma makes_transitions_truth: "makes (transitions ports input left snapshot) (loop_truth input) s"
proof (induction left arbitrary: snapshot s)
  case 0
  show ?case by (rule makesI) (auto simp: wp_simps loop_truth_def)
next
  case (Suc left)
  show ?case
    unfolding transitions.simps step_def [symmetric]
    by (rule makesI, simp only: wp_simps, rule wp_makes [OF makes_throwIfAborted])
      (auto simp: wp_simps loop_truth_def [of _ _ "Inl _"] loop_truth_def [of _ _ "Inr (Inr (_, True))"]
        loop_truth_def [of _ _ "Inr (Inl _)"] intro!: wp_makes [OF makes_conclude_to] wp_makes [OF makes_step_honest] wp_makes [OF Suc.IH]
          loop_truth_later split: transition.split)
qed


lemma makes_finish_honest: "(attempted \<longrightarrow> concludes_to snapshot pre) \<Longrightarrow>
    makes (finish ports input snapshot attempted) (\<lambda>new r. \<forall>res. r = Inr res \<longrightarrow> honest input (pre @ new) res) s"
  unfolding finish_def
  by (rule makesI) (auto simp: wp_simps concludes_to_def
      intro!: wp_makes [OF makes_throwIfAborted] wp_makes [OF makes_conclude_to])

lemma makes_runSlot_honest: "makes (runSlot ports input snapshot)
    (\<lambda>new r. \<forall>res. r = Inr res \<longrightarrow> honest input new res) s"
  unfolding runSlot_def
  by (rule makesI, simp only: wp_simps, rule wp_makes [OF makes_transitions_truth])
    (auto simp: wp_simps loop_truth_def intro!: wp_makes [OF makes_finish_honest] split: sum.splits prod.splits)

lemma makes_execute_honest: "makes (execute_slot ports input)
    (\<lambda>new r. \<forall>res. r = Inr (Ran res) \<longrightarrow> honest input new res) s"
proof -
  have later: "honest input (x # new) res" if "honest input new res" for x new res
    using honest_later [OF that, of "[x]"] by simp
  show ?thesis
    unfolding execute_slot_def openSlot_def
    by (rule makesI, simp only: wp_simps, rule wp_makes [OF makes_throwIfAborted])
      (auto simp: wp_simps later intro!: wp_awaitI wp_makes [OF makes_runSlot_honest] split: option.split)
qed


text \<open>A run that opens an investigation which is ready: the slot concludes it.\<close>

definition ready_run :: ports where
  "ready_run = accepted_run\<lparr>port_open := \<lambda>h. Inr (demo_snapshot 5 Conclude None)\<rparr>"


end
