(* ===== verification/Investigation_Replay.thy ===== *)
theory Investigation_Replay
  imports Port_Effects
begin

text \<open>
  Replaying an investigation on a new revision: \<open>ReplayInvestigationOnRevision\<close> of
  \<open>src/review-investigation/application/replay-investigation-on-revision.ts\<close>, on the routines of \<open>Port_Effects\<close>
  with events of its own (no lease is involved).  The main results: nothing durable is done unless the revision was
  current just before, no receipt is replayed twice, and what is sent at the end is sorted and backed by commits.
\<close>

section \<open>Data and ports\<close>

record PreparedInvestigationReceiptReplay =
  rr_obligationId :: string
  rr_contextAttestationId :: string
  rr_contextAttestationHash :: string
  rr_sourceOperationReceiptIdsHash :: string
  rr_replayCapability :: string
  rr_replayPlanCanonicalJson :: string
  rr_replayPlanHash :: string

record PreparedInvestigationReplay =
  prepared_sourceInvestigationId :: string
  prepared_sourceCertificateId :: string
  prepared_sourceCertificateHash :: string
  prepared_obligations :: "PreparedInvestigationReceiptReplay list"

record InvestigationReceiptReplayResult =
  rres_targetCheckoutTreeOid :: string
  rres_replayResultCanonicalJson :: string
  rres_replayResultHash :: string

text \<open>A proof of an obligation: its id and the id of the replay proof.\<close>

type_synonym replay_proof = "string \<times> string"

datatype replay_event =
    Currency_Checked "exn + ReviewInvestigationCurrency"
  | Replay_Prepared "exn + PreparedInvestigationReplay option"
  | Receipt_Replayed PreparedInvestigationReceiptReplay "exn + InvestigationReceiptReplayResult option"
  | Receipt_Committed PreparedInvestigationReceiptReplay InvestigationReceiptReplayResult "exn + string option"
  | Replay_Sent PreparedInvestigationReplay "replay_proof list" "exn + ReviewInvestigationSnapshot"

text \<open>\<open>dependencies\<close>; the ports are functions of the calls made before.\<close>

record replay_ports =
  rp_check :: "replay_event list \<Rightarrow> exn + ReviewInvestigationCurrency"
  rp_prepareReplay :: "replay_event list \<Rightarrow> exn + PreparedInvestigationReplay option"
  rp_replayReceipt :: "replay_event list \<Rightarrow> PreparedInvestigationReceiptReplay \<Rightarrow>
    exn + InvestigationReceiptReplayResult option"
  rp_commitReceiptReplay :: "replay_event list \<Rightarrow> PreparedInvestigationReceiptReplay \<Rightarrow>
    InvestigationReceiptReplayResult \<Rightarrow> exn + string option"
  rp_replay :: "replay_event list \<Rightarrow> PreparedInvestigationReplay \<Rightarrow> replay_proof list \<Rightarrow>
    exn + ReviewInvestigationSnapshot"

definition call :: "(replay_event list \<Rightarrow> exn + 'a) \<Rightarrow> (exn + 'a \<Rightarrow> replay_event) \<Rightarrow> (replay_event list, 'a) run" where
  "call port ev = (\<lambda>h. (port h, h @ [ev (port h)]))"

lemma wp_call [wp_simps]: "wp (call port ev) Q E h =
    (case port h of Inl e \<Rightarrow> E e (h @ [ev (Inl e)]) | Inr x \<Rightarrow> Q x (h @ [ev (Inr x)]))"
  by (auto simp: wp_def call_def split: sum.split)

section \<open>The use case\<close>

definition isCurrent :: "replay_ports \<Rightarrow> (replay_event list, bool) run" where
  "isCurrent ports = bind (call (rp_check ports) Currency_Checked) (\<lambda>c. return (c = CurrencyCurrent))"

text \<open>\<open>[\<dots>].join('\0')\<close>.\<close>

definition replayIdentity :: "PreparedInvestigationReceiptReplay \<Rightarrow> string" where
  "replayIdentity x = rr_contextAttestationId x @ CHR 0x00 # rr_contextAttestationHash x @
     CHR 0x00 # rr_sourceOperationReceiptIdsHash x @ CHR 0x00 # rr_replayPlanHash x"

definition replayAndCommit :: "replay_ports \<Rightarrow> PreparedInvestigationReceiptReplay \<Rightarrow>
    (replay_event list, string option) run" where
  "replayAndCommit ports x =
     bind (call (\<lambda>h. rp_replayReceipt ports h x) (Receipt_Replayed x)) (\<lambda>replayed.
     case replayed of
       None \<Rightarrow> return None
     | Some res \<Rightarrow> bind (isCurrent ports) (\<lambda>current.
         if \<not> current then return None
         else call (\<lambda>h. rp_commitReceiptReplay ports h x res) (Receipt_Committed x res)))"

text \<open>
  The loop over the obligations.  \<open>proofsByReplayIdentity\<close> holds the answers by identity; a promise that was
  rejected ended the loop, so only answers are kept.  \<open>None\<close> when the revision is no longer current.
\<close>

fun replayAll :: "replay_ports \<Rightarrow> (string \<times> string option) list \<Rightarrow> replay_proof list \<Rightarrow>
    PreparedInvestigationReceiptReplay list \<Rightarrow> (replay_event list, replay_proof list option) run" where
  "replayAll ports known proofs [] = return (Some proofs)"
| "replayAll ports known proofs (x # xs) =
     bind (isCurrent ports) (\<lambda>current.
     if \<not> current then return None
     else bind
       (case map_of known (replayIdentity x) of
          Some answer \<Rightarrow> return (answer, known)
        | None \<Rightarrow> bind (replayAndCommit ports x) (\<lambda>answer. return (answer, (replayIdentity x, answer) # known)))
       (\<lambda>(answer, known'). replayAll ports known'
          (case answer of None \<Rightarrow> proofs | Some proof_id \<Rightarrow> proofs @ [(rr_obligationId x, proof_id)]) xs))"

abbreviation by_obligation :: "replay_proof \<Rightarrow> replay_proof \<Rightarrow> int" where
  "by_obligation l r \<equiv> compareCodePoints (fst l) (fst r)"

definition execute_replay :: "replay_ports \<Rightarrow> (replay_event list, ReviewInvestigationSnapshot option) run" where
  "execute_replay ports =
     bind (isCurrent ports) (\<lambda>current.
     if \<not> current then return None
     else bind (call (rp_prepareReplay ports) Replay_Prepared) (\<lambda>answer.
     case answer of
       None \<Rightarrow> return None
     | Some prepared \<Rightarrow> bind (isCurrent ports) (\<lambda>current.
         if \<not> current then return None
         else bind (replayAll ports [] [] (prepared_obligations prepared)) (\<lambda>proofs.
         case proofs of
           None \<Rightarrow> return None
         | Some ps \<Rightarrow> bind (isCurrent ports) (\<lambda>current.
             if \<not> current then return None
             else let sent = js_sort by_obligation ps
               in bind (call (\<lambda>h. rp_replay ports h prepared sent) (Replay_Sent prepared sent))
                    (\<lambda>snapshot. return (Some snapshot)))))))"

section \<open>What the calls have to satisfy\<close>

fun is_durable :: "replay_event \<Rightarrow> bool" where
  "is_durable (Receipt_Committed x r a) = True"
| "is_durable (Replay_Sent p ps a) = True"
| "is_durable _ = False"

text \<open>Every durable call follows a check that found the revision current.\<close>

fun guarded :: "bool \<Rightarrow> replay_event list \<Rightarrow> bool" where
  "guarded checked [] = True"
| "guarded checked (x # xs) \<longleftrightarrow> (is_durable x \<longrightarrow> checked) \<and> guarded (x = Currency_Checked (Inr CurrencyCurrent)) xs"

lemma guarded_weaken: "guarded False xs \<Longrightarrow> guarded b xs"
  by (cases xs) auto

lemma guarded_append: "guarded b xs \<Longrightarrow> guarded False ys \<Longrightarrow> guarded b (xs @ ys)"
  by (induction xs arbitrary: b) (auto intro: guarded_weaken)

fun replayed_identity :: "replay_event \<Rightarrow> string list" where
  "replayed_identity (Receipt_Replayed x a) = [replayIdentity x]"
| "replayed_identity _ = []"

definition replayed_identities :: "replay_event list \<Rightarrow> string list" where
  "replayed_identities xs = concat (map replayed_identity xs)"

lemma replayed_identities_simps [simp]: "replayed_identities [] = []"
    "replayed_identities (x # xs) = replayed_identity x @ replayed_identities xs"
    "replayed_identities (xs @ ys) = replayed_identities xs @ replayed_identities ys"
  by (simp_all add: replayed_identities_def)

text \<open>An obligation is proved by a commit of a receipt with its identity.\<close>

definition backs :: "replay_event list \<Rightarrow> string \<Rightarrow> string \<Rightarrow> bool" where
  "backs xs identity proof_id \<longleftrightarrow>
     (\<exists>x res. Receipt_Committed x res (Inr (Some proof_id)) \<in> set xs \<and> replayIdentity x = identity)"

lemma backs_append: "backs xs i p \<or> backs ys i p \<Longrightarrow> backs (xs @ ys) i p"
  by (auto simp: backs_def)

lemma backs_mono: "backs xs i p \<Longrightarrow> set xs \<subseteq> set ys \<Longrightarrow> backs ys i p"
  by (auto simp: backs_def)

definition proved :: "replay_event list \<Rightarrow> PreparedInvestigationReceiptReplay list \<Rightarrow> replay_proof \<Rightarrow> bool" where
  "proved xs obligations proof \<longleftrightarrow>
     (\<exists>x\<in>set obligations. rr_obligationId x = fst proof \<and> backs xs (replayIdentity x) (snd proof))"

lemma proved_mono: "proved xs obs p \<Longrightarrow> set xs \<subseteq> set ys \<Longrightarrow> proved ys obs p"
  by (auto simp: proved_def intro: backs_mono)

text \<open>What is sent is sorted by obligation, and every proof in it was committed before.\<close>

definition sends :: "replay_event list \<Rightarrow> replay_event \<Rightarrow> bool" where
  "sends xs e = (case e of
     Replay_Sent prepared ps a \<Rightarrow> sorted (map fst ps) \<and> list_all (proved xs (prepared_obligations prepared)) ps
   | _ \<Rightarrow> True)"

fun sends_proved :: "replay_event list \<Rightarrow> replay_event list \<Rightarrow> bool" where
  "sends_proved xs [] = True"
| "sends_proved xs (e # es) = (sends xs e \<and> sends_proved (xs @ [e]) es)"

lemma sends_proved_append: "sends_proved xs (es @ fs) = (sends_proved xs es \<and> sends_proved (xs @ es) fs)"
  by (induction es arbitrary: xs) simp_all

lemma sends_simps [simp]:
  "sends xs (Currency_Checked a)" "sends xs (Replay_Prepared b)" "sends xs (Receipt_Replayed x c)"
  "sends xs (Receipt_Committed x r d)"
  "sends xs (Replay_Sent p ps s) = (sorted (map fst ps) \<and> list_all (proved xs (prepared_obligations p)) ps)"
  by (simp_all add: sends_def)

text \<open>The snapshots the control plane answered a replay with.\<close>

definition snapshots :: "replay_event list \<Rightarrow> ReviewInvestigationSnapshot list" where
  "snapshots xs = concat (map (\<lambda>e. case e of Replay_Sent p ps (Inr x) \<Rightarrow> [x] | _ \<Rightarrow> []) xs)"

lemma snapshots_simps [simp]: "snapshots [] = []" "snapshots (Currency_Checked a # xs) = snapshots xs"
  "snapshots (Replay_Prepared b # xs) = snapshots xs" "snapshots (Receipt_Replayed x c # xs) = snapshots xs"
  "snapshots (Receipt_Committed x r d # xs) = snapshots xs"
  "snapshots (Replay_Sent p ps (Inl e) # xs) = snapshots xs"
  "snapshots (Replay_Sent p ps (Inr w) # xs) = w # snapshots xs"
  "snapshots (xs @ ys) = snapshots xs @ snapshots ys"
  by (simp_all add: snapshots_def)

text \<open>The calls of a run: durable ones guarded, identities replayed once, what is sent proved.\<close>

definition orderly :: "replay_event list \<Rightarrow> bool" where
  "orderly xs \<longleftrightarrow> guarded False xs \<and> distinct (replayed_identities xs) \<and> sends_proved [] xs"

lemma orderly_append: "orderly xs \<Longrightarrow> guarded False ys \<Longrightarrow> sends_proved xs ys \<Longrightarrow>
    distinct (replayed_identities ys) \<Longrightarrow> set (replayed_identities xs) \<inter> set (replayed_identities ys) = {} \<Longrightarrow>
    orderly (xs @ ys)"
  by (simp add: orderly_def guarded_append sends_proved_append)

section \<open>The loop\<close>

text \<open>After the obligations so far: \<open>known\<close> holds one answer for each identity replayed, and what it and the
  proofs claim was committed.\<close>

definition loop_inv :: "PreparedInvestigationReceiptReplay list \<Rightarrow> (string \<times> string option) list \<Rightarrow>
    replay_proof list \<Rightarrow> replay_event list \<Rightarrow> bool" where
  "loop_inv obs known proofs new \<longleftrightarrow> orderly new \<and> snapshots new = [] \<and> set (replayed_identities new) = fst ` set known \<and>
     (\<forall>i p. (i, Some p) \<in> set known \<longrightarrow> backs new i p) \<and> list_all (proved new obs) proofs"

lemma loop_inv_quiet:
  assumes "loop_inv obs known proofs new" and "orderly ys" and "replayed_identities ys = []" and "snapshots ys = []"
    and "\<And>xs. sends_proved xs ys"
  shows "loop_inv obs known proofs (new @ ys)"
  using assms unfolding loop_inv_def
  by (auto simp: list_all_iff orderly_def guarded_append sends_proved_append intro!: backs_mono[of new _ _ "new @ ys"]
      proved_mono[of new _ _ "new @ ys"])

lemma loop_inv_known:
  assumes "loop_inv obs known proofs new" and "x \<in> set obs" and "map_of known (replayIdentity x) = Some (Some p)"
  shows "loop_inv obs known (proofs @ [(rr_obligationId x, p)]) new"
proof -
  have "backs new (replayIdentity x) p"
    using assms by (auto simp: loop_inv_def dest: map_of_SomeD)
  then show ?thesis
    using assms by (auto simp: loop_inv_def proved_def)
qed

lemma loop_inv_replay:
  assumes "loop_inv obs known proofs new" and "map_of known (replayIdentity x) = None"
    and "guarded False ys" and "replayed_identities ys = [replayIdentity x]" and "\<And>xs. sends_proved xs ys"
    and "snapshots ys = []"
    and "\<And>p. answer = Some p \<Longrightarrow> backs ys (replayIdentity x) p"
  shows "loop_inv obs ((replayIdentity x, answer) # known) proofs (new @ ys)"
proof -
  have "orderly (new @ ys)"
    using assms by (intro orderly_append) (auto simp: loop_inv_def map_of_eq_None_iff)
  moreover have "(i, Some p) \<in> set ((replayIdentity x, answer) # known) \<Longrightarrow> backs (new @ ys) i p" for i p
    using assms(1,7) by (auto simp: loop_inv_def intro: backs_append)
  moreover have "list_all (proved (new @ ys) obs) proofs"
    using assms(1) by (auto simp: loop_inv_def list_all_iff intro!: proved_mono[of new _ _ "new @ ys"])
  ultimately show ?thesis
    using assms(1,4,6) by (auto simp: loop_inv_def)
qed

lemma isCurrent_wp: "(\<And>a. Q False (h @ [Currency_Checked a])) \<Longrightarrow> Q True (h @ [Currency_Checked (Inr CurrencyCurrent)]) \<Longrightarrow>
    (\<And>e. E e (h @ [Currency_Checked (Inl e)])) \<Longrightarrow> wp (isCurrent ports) Q E h"
  by (cases "rp_check ports h = Inr CurrencyCurrent") (auto simp: isCurrent_def wp_simps split: sum.split)

lemma replayAndCommit_wp:
  assumes "\<And>r ys. guarded False ys \<Longrightarrow> replayed_identities ys = [replayIdentity x] \<Longrightarrow> (\<And>xs. sends_proved xs ys) \<Longrightarrow>
      snapshots ys = [] \<Longrightarrow> (\<And>p. r = Inr (Some p) \<Longrightarrow> backs ys (replayIdentity x) p) \<Longrightarrow>
      (case r of Inl e \<Rightarrow> E e (h @ ys) | Inr a \<Rightarrow> Q a (h @ ys))"
  shows "wp (replayAndCommit ports x) Q E h"
proof -
  have E: "E e (h @ ys)" if "guarded False ys" "replayed_identities ys = [replayIdentity x]" "\<And>xs. sends_proved xs ys"
    "snapshots ys = []" for e ys
    using assms[of ys "Inl e"] that by simp
  have Q: "Q a (h @ ys)" if "guarded False ys" "replayed_identities ys = [replayIdentity x]" "\<And>xs. sends_proved xs ys"
    "snapshots ys = []" "\<And>p. a = Some p \<Longrightarrow> backs ys (replayIdentity x) p" for a ys
    using assms[of ys "Inr a"] that by simp
  show ?thesis
    unfolding replayAndCommit_def
    by (auto simp: wp_simps backs_def split: sum.split option.split intro!: E Q isCurrent_wp)
qed

lemma wp_return_fun: "wp (return x) Q E = Q x"
  by (rule ext) (rule wp_return)

lemma replayAll_wp:
  assumes "loop_inv obs known proofs new" and "set xs \<subseteq> set obs" and "h = g @ new"
  shows "wp (replayAll ports known proofs xs)
     (\<lambda>answer t. \<exists>new. t = g @ new \<and> orderly new \<and> snapshots new = [] \<and> (\<forall>ps. answer = Some ps \<longrightarrow> list_all (proved new obs) ps))
     (\<lambda>e t. \<exists>new. t = g @ new \<and> orderly new \<and> snapshots new = []) h"
  using assms
proof (induction xs arbitrary: known proofs new h)
  case Nil
  then show ?case by (auto simp: wp_simps loop_inv_def)
next
  case (Cons x xs)
  have quiet: "loop_inv obs known proofs (new @ [Currency_Checked a])" for a
    using Cons(2) by (rule loop_inv_quiet) (simp_all add: orderly_def)
  then have orderly: "orderly (new @ [Currency_Checked a])" "snapshots new = []" for a
    using Cons(2) by (simp_all add: loop_inv_def)
  let ?new = "new @ [Currency_Checked (Inr CurrencyCurrent)]"
  have step: "wp (replayAll ports known' (case answer of None \<Rightarrow> proofs | Some p \<Rightarrow> proofs @ [(rr_obligationId x, p)]) xs)
     (\<lambda>answer t. \<exists>new. t = g @ new \<and> orderly new \<and> snapshots new = [] \<and> (\<forall>ps. answer = Some ps \<longrightarrow> list_all (proved new obs) ps))
     (\<lambda>e t. \<exists>new. t = g @ new \<and> orderly new \<and> snapshots new = []) (g @ new')"
    if "loop_inv obs known' proofs new'" "map_of known' (replayIdentity x) = Some answer" for known' answer new'
    using that Cons(3) by (intro Cons(1)[of known' _ new']) (auto intro: loop_inv_known split: option.split)
  have replay: "wp (replayAndCommit ports x)
     (\<lambda>answer. wp (replayAll ports ((replayIdentity x, answer) # known)
        (case answer of None \<Rightarrow> proofs | Some p \<Rightarrow> proofs @ [(rr_obligationId x, p)]) xs)
        (\<lambda>answer t. \<exists>new. t = g @ new \<and> orderly new \<and> snapshots new = [] \<and> (\<forall>ps. answer = Some ps \<longrightarrow> list_all (proved new obs) ps))
        (\<lambda>e t. \<exists>new. t = g @ new \<and> orderly new \<and> snapshots new = []))
     (\<lambda>e t. \<exists>new. t = g @ new \<and> orderly new \<and> snapshots new = []) (g @ ?new)"
    if "map_of known (replayIdentity x) = None"
  proof (rule replayAndCommit_wp)
    fix r ys
    assume ys: "guarded False ys" "replayed_identities ys = [replayIdentity x]" "\<And>xs. sends_proved xs ys"
      "snapshots ys = []" "\<And>p. r = Inr (Some p) \<Longrightarrow> backs ys (replayIdentity x) p"
    note inv = loop_inv_replay[OF quiet that ys(1,2,3,4)]
    show "case r of
        Inl e \<Rightarrow> \<exists>new. (g @ ?new) @ ys = g @ new \<and> orderly new \<and> snapshots new = []
      | Inr a \<Rightarrow> wp (replayAll ports ((replayIdentity x, a) # known)
          (case a of None \<Rightarrow> proofs | Some p \<Rightarrow> proofs @ [(rr_obligationId x, p)]) xs)
          (\<lambda>answer t. \<exists>new. t = g @ new \<and> orderly new \<and> snapshots new = [] \<and> (\<forall>ps. answer = Some ps \<longrightarrow> list_all (proved new obs) ps))
          (\<lambda>e t. \<exists>new. t = g @ new \<and> orderly new \<and> snapshots new = []) ((g @ ?new) @ ys)"
    proof (cases r)
      case (Inl e)
      then show ?thesis
        using inv[of None "Inr CurrencyCurrent"] by (auto simp: loop_inv_def)
    next
      case (Inr a)
      then show ?thesis
        using step[OF inv] ys(5) by simp
    qed
  qed
  show ?case
    using orderly replay step[OF quiet]
    by (auto simp: wp_simps wp_return_fun Cons(4) intro!: isCurrent_wp split: option.split)
qed

section \<open>A run\<close>

lemma js_sort_all: "list_all P (js_sort cmp xs) = list_all P xs"
  by (simp add: list_all_iff)

text \<open>
  C23: A replay on a new revision does what it does in order, whatever the control plane and the receipt store answer:
  every durable call (the commit of a replayed receipt, the replay itself) comes right after a check that found
  the revision current; the receipt of each replay identity is replayed at most once, however many obligations share it;
  the proofs sent at the end are sorted by obligation and each one was committed for an obligation of the prepared
  replay before; and the caller is given a snapshot exactly when the control plane answered the replay with it.
\<close>

theorem replay_is_guarded_and_backed: "\<exists>new. snd (execute_replay ports h) = h @ new \<and> guarded False new \<and>
    distinct (replayed_identities new) \<and> sends_proved [] new \<and>
    snapshots new = (case fst (execute_replay ports h) of Inr (Some snapshot) \<Rightarrow> [snapshot] | _ \<Rightarrow> [])"
proof -
  let ?R = "\<lambda>r t. \<exists>new. t = h @ new \<and> orderly new \<and> snapshots new = (case r of Some snapshot \<Rightarrow> [snapshot] | _ \<Rightarrow> [])"
  let ?E = "\<lambda>e t. \<exists>new. t = h @ new \<and> orderly new \<and> snapshots new = []"
  have start: "loop_inv obs [] [] [Currency_Checked (Inr CurrencyCurrent), Replay_Prepared b, Currency_Checked (Inr CurrencyCurrent)]"
    for obs b
    by (simp add: loop_inv_def orderly_def)
  have after: "orderly (new @ [Currency_Checked a])" if "orderly new" for new a
    using that by (intro orderly_append) auto
  have sent: "orderly (new @ [Currency_Checked (Inr CurrencyCurrent), Replay_Sent p (js_sort by_obligation ps) a])"
    if "orderly new" "list_all (proved new (prepared_obligations p)) ps" for new p ps a
    using that
    by (intro orderly_append) (auto simp: sorted_by_code_points js_sort_all list_all_iff intro: proved_mono)
  have "wp (execute_replay ports) ?R ?E h"
  proof -
    have tail: "wp (bind (replayAll ports [] [] (prepared_obligations p)) (\<lambda>proofs.
         case proofs of
           None \<Rightarrow> return None
         | Some ps \<Rightarrow> bind (isCurrent ports) (\<lambda>current.
             if \<not> current then return None
             else let sent = js_sort by_obligation ps
               in bind (call (\<lambda>h. rp_replay ports h p sent) (Replay_Sent p sent)) (\<lambda>snapshot. return (Some snapshot)))))
      ?R ?E (h @ [Currency_Checked (Inr CurrencyCurrent), Replay_Prepared b, Currency_Checked (Inr CurrencyCurrent)])"
      for p b
      unfolding wp_bind
      by (rule wp_mono[OF replayAll_wp[OF start order.refl refl]])
        (auto simp: wp_simps Let_def after sent split: option.split sum.split intro!: isCurrent_wp)
    have short: "orderly [Currency_Checked a]" "orderly [Currency_Checked a, Replay_Prepared b]"
      "orderly [Currency_Checked a, Replay_Prepared b, Currency_Checked c]" for a b c
      by (simp_all add: orderly_def)
    show ?thesis
      unfolding execute_replay_def
      by (auto simp: wp_simps tail[unfolded wp_bind] short split: option.split sum.split intro!: isCurrent_wp)
  qed
  then show ?thesis
    by (auto simp: wp_def orderly_def split: prod.splits sum.splits)
qed

end
