(* ===== verification/Rollout_Gate.thy ===== *)
theory Rollout_Gate
  imports Work_Plan Js_Value
begin

text \<open>
  The rollout of review investigations.  \<open>parseReviewInvestigationCapability\<close> of
  \<open>src/review-orchestration/infrastructure/review-action-v2-control-plane-adapter.ts\<close> reads what the control plane
  granted, and \<open>resolveProductionReviewInvestigationRolloutResolution\<close> of
  \<open>production-review-investigation-composition.ts\<close> combines it with the flags of the environment.  The contract
  \<open>reviewInvestigationRolloutAuthorizationV3Contract\<close> says which capability depends on which.  The main results: a
  capability is enabled exactly when it is flagged and granted, and what is enabled is closed under the
  dependencies of the contract.
\<close>

section \<open>Capabilities and their contract\<close>

datatype ReviewInvestigationRolloutCapability = Recording | Shadow | ContextCritic | VerifiedClean
  | CrossRevisionReplay | ProductionEffects

fun capability_text :: "ReviewInvestigationRolloutCapability \<Rightarrow> string" where
  "capability_text Recording = ''recording''"
| "capability_text Shadow = ''shadow''"
| "capability_text ContextCritic = ''context_critic''"
| "capability_text VerifiedClean = ''verified_clean''"
| "capability_text CrossRevisionReplay = ''cross_revision_replay''"
| "capability_text ProductionEffects = ''production_effects''"

definition contract_capabilities :: "ReviewInvestigationRolloutCapability list" where
  "contract_capabilities = [ContextCritic, CrossRevisionReplay, ProductionEffects, Recording, Shadow, VerifiedClean]"

fun contract_dependencies :: "ReviewInvestigationRolloutCapability \<Rightarrow> ReviewInvestigationRolloutCapability list" where
  "contract_dependencies ContextCritic = [Shadow]"
| "contract_dependencies CrossRevisionReplay = [Shadow]"
| "contract_dependencies ProductionEffects = [ContextCritic, Shadow]"
| "contract_dependencies Recording = []"
| "contract_dependencies Shadow = [Recording]"
| "contract_dependencies VerifiedClean = [ContextCritic, ProductionEffects]"

definition contract_version :: int where
  "contract_version = 3"

definition contract_capability :: string where
  "contract_capability = ''review_investigation_v1''"

definition extension_id :: string where
  "extension_id = ''review-investigation-shadow.v1''"

definition extension_schemaDigest :: string where
  "extension_schemaDigest = ''0a53623b20bfbef7dbe222dea7aed44ae3237d2f0c7facb72bb99086ef9bc5f2''"

definition extension_canonicalizerDigest :: string where
  "extension_canonicalizerDigest = ''ccaf3515f1c04bc31ba1bcf7084d414221f61cb4b24b440a4ecad121ccdaa378''"

section \<open>The descriptor\<close>

text \<open>A list is \<open>None\<close> where the code asks whether it is an array.\<close>

record ReviewInvestigationProviderCapabilities =
  grant_providerKind :: ReviewExecutionProviderKind
  grant_capabilities :: "ReviewInvestigationRolloutCapability list option"

record ReviewInvestigationCapabilityDescriptor =
  desc_authorizationDescriptorVersion :: int
  desc_capability :: string
  desc_coverageProfileHash :: string
  desc_extensionId :: string
  desc_extensionSchemaDigest :: string
  desc_extensionCanonicalizerDigest :: string
  desc_policyHash :: string
  desc_providerCapabilities :: "ReviewInvestigationProviderCapabilities list option"

definition requireExactKeys :: "js_record \<Rightarrow> string list \<Rightarrow> js_error option" where
  "requireExactKeys ms expectedKeys =
     check (join_comma (js_sort compareCodePoints (map fst ms)) = join_comma (js_sort compareCodePoints expectedKeys))
       ''review_action_v2_canonical_json_fields_invalid''"

fun requireString :: "js \<Rightarrow> string \<Rightarrow> string res" where
  "requireString (Str s) field = (if s = [] then Inl (JsError (''review_action_v2_'' @ field @ ''_missing'')) else Inr s)"
| "requireString v field = Inl (JsError (''review_action_v2_'' @ field @ ''_missing''))"

definition requireDigest :: "js \<Rightarrow> string \<Rightarrow> string res" where
  "requireDigest v field = rbind (requireString v field) (\<lambda>s.
     if is_digest 64 s then Inr s else Inl (JsError (''review_action_v2_'' @ field @ ''_invalid'')))"

definition parseInvestigationProviderKind :: "js \<Rightarrow> ReviewExecutionProviderKind res" where
  "parseInvestigationProviderKind v =
     (if v = Str ''codex'' then Inr Codex else if v = Str ''claude_code'' then Inr ClaudeCode
      else Inl (JsError ''review_action_v2_review_investigation_provider_kind_invalid''))"

definition parseRolloutCapability :: "js \<Rightarrow> ReviewInvestigationRolloutCapability res" where
  "parseRolloutCapability v = (case filter (\<lambda>c. v = Str (capability_text c)) contract_capabilities of
     [] \<Rightarrow> Inl (JsError ''review_action_v2_review_investigation_rollout_capability_invalid'')
   | c # _ \<Rightarrow> Inr c)"

definition isDependencyClosed :: "ReviewInvestigationRolloutCapability list \<Rightarrow> bool" where
  "isDependencyClosed capabilities \<longleftrightarrow>
     list_all (\<lambda>c. list_all (\<lambda>d. d \<in> set capabilities) (contract_dependencies c)) capabilities"

definition isStrictlyLexicographicallySorted :: "string list \<Rightarrow> bool" where
  "isStrictlyLexicographicallySorted values \<longleftrightarrow> successively (<) values"

definition providersAreLaneAuthorized :: "ReviewExecutionProviderKind list \<Rightarrow> ReviewExecutionProviderKind list \<Rightarrow> bool" where
  "providersAreLaneAuthorized providerKinds laneKinds \<longleftrightarrow> list_all (\<lambda>k. k \<in> set laneKinds) providerKinds"

definition parseProviderCapability :: "js \<Rightarrow> ReviewInvestigationProviderCapabilities res" where
  "parseProviderCapability row = (case asRecord row of
     None \<Rightarrow> Inl (JsError ''review_action_v2_review_investigation_provider_capability_invalid'')
   | Some ms \<Rightarrow>
       throws (requireExactKeys ms [''capabilities'', ''providerKind''])
      (rbind (parseInvestigationProviderKind (get ''providerKind'' ms)) (\<lambda>providerKind.
       case array_of (get ''capabilities'' ms) of
         None \<Rightarrow> Inl (JsError ''review_action_v2_review_investigation_capabilities_invalid'')
       | Some vs \<Rightarrow>
           throw_if (length vs = 0 \<or> length vs > length contract_capabilities)
             ''review_action_v2_review_investigation_capabilities_invalid''
          (rbind (res_map parseRolloutCapability vs) (\<lambda>capabilities.
           throw_if (\<not> distinct capabilities \<or>
               \<not> isStrictlyLexicographicallySorted (map capability_text capabilities) \<or>
               Recording \<notin> set capabilities \<or> \<not> isDependencyClosed capabilities)
             ''review_action_v2_review_investigation_capabilities_not_canonical''
             (Inr \<lparr>grant_providerKind = providerKind, grant_capabilities = Some capabilities\<rparr>))))))"

definition parseReviewInvestigationCapabilityV3 :: "js_record \<Rightarrow> ReviewExecutionProviderKind list \<Rightarrow>
    ReviewInvestigationCapabilityDescriptor res" where
  "parseReviewInvestigationCapabilityV3 ms laneKinds =
     throws (requireExactKeys ms [''authorizationDescriptorVersion'', ''capability'', ''coverageProfileHash'',
       ''extensionCanonicalizerDigest'', ''extensionId'', ''extensionSchemaDigest'', ''policyHash'',
       ''providerCapabilities''])
    (throw_if (get ''authorizationDescriptorVersion'' ms \<noteq> Num (Fin (of_int contract_version)) \<or>
         get ''capability'' ms \<noteq> Str contract_capability)
       ''review_action_v2_review_investigation_capability_invalid''
    (throw_if (get ''extensionId'' ms \<noteq> Str extension_id \<or>
         get ''extensionSchemaDigest'' ms \<noteq> Str extension_schemaDigest \<or>
         get ''extensionCanonicalizerDigest'' ms \<noteq> Str extension_canonicalizerDigest)
       ''review_action_v2_review_investigation_extension_contract_invalid''
    (case array_of (get ''providerCapabilities'' ms) of
       None \<Rightarrow> Inl (JsError ''review_action_v2_review_investigation_provider_capabilities_invalid'')
     | Some rows \<Rightarrow>
         throw_if (length rows = 0 \<or> length rows > 2)
           ''review_action_v2_review_investigation_provider_capabilities_invalid''
        (rbind (res_map parseProviderCapability rows) (\<lambda>grants.
         let providerKinds = map grant_providerKind grants
         in throw_if (\<not> distinct providerKinds \<or>
               \<not> isStrictlyLexicographicallySorted (map provider_kind_value providerKinds) \<or>
               \<not> providersAreLaneAuthorized providerKinds laneKinds)
              ''review_action_v2_review_investigation_provider_capabilities_not_canonical''
           (rbind (requireDigest (get ''coverageProfileHash'' ms) ''review_investigation_coverage_profile_hash'')
             (\<lambda>coverageProfileHash.
            rbind (requireDigest (get ''policyHash'' ms) ''review_investigation_policy_hash'') (\<lambda>policyHash.
              Inr \<lparr>desc_authorizationDescriptorVersion = 3, desc_capability = contract_capability,
                desc_coverageProfileHash = coverageProfileHash, desc_extensionId = extension_id,
                desc_extensionSchemaDigest = extension_schemaDigest,
                desc_extensionCanonicalizerDigest = extension_canonicalizerDigest, desc_policyHash = policyHash,
                desc_providerCapabilities = Some grants\<rparr>))))))))"

definition parseReviewInvestigationCapability :: "js \<Rightarrow> ReviewExecutionProviderKind list \<Rightarrow>
    ReviewInvestigationCapabilityDescriptor res" where
  "parseReviewInvestigationCapability v laneKinds = (case asRecord v of
     None \<Rightarrow> Inl (JsError ''review_action_v2_review_investigation_invalid'')
   | Some ms \<Rightarrow> parseReviewInvestigationCapabilityV3 ms laneKinds)"

text \<open>A descriptor that is refused counts as absent; the telemetry is left out.\<close>

definition parseOptionalReviewInvestigationCapability :: "js \<Rightarrow> ReviewExecutionProviderKind list \<Rightarrow>
    ReviewInvestigationCapabilityDescriptor option" where
  "parseOptionalReviewInvestigationCapability v laneKinds =
     (case parseReviewInvestigationCapability v laneKinds of Inl e \<Rightarrow> None | Inr d \<Rightarrow> Some d)"

section \<open>The rollout\<close>

record ProductionReviewInvestigationRolloutFlags =
  recordingEnabled :: bool
  shadowEnabled :: bool
  contextCriticEnabled :: bool
  verifiedCleanEnabled :: bool
  crossRevisionReplayEnabled :: bool
  productionEffectsEnabled :: bool

text \<open>\<open>flags[rolloutFlagByCapability[c]]\<close>.\<close>

fun enabled :: "ProductionReviewInvestigationRolloutFlags \<Rightarrow> ReviewInvestigationRolloutCapability \<Rightarrow> bool" where
  "enabled flags Recording = recordingEnabled flags"
| "enabled flags Shadow = shadowEnabled flags"
| "enabled flags ContextCritic = contextCriticEnabled flags"
| "enabled flags VerifiedClean = verifiedCleanEnabled flags"
| "enabled flags CrossRevisionReplay = crossRevisionReplayEnabled flags"
| "enabled flags ProductionEffects = productionEffectsEnabled flags"

datatype ProductionReviewInvestigationRolloutReason = Enabled | ReviewDepthEconomy | RecordingFlagDisabled
  | AgenticContextDisabled | AuthorizationDescriptorMissing | AuthorizationDescriptorVersionMismatch
  | CapabilityMismatch | ExtensionIdMismatch | ExtensionSchemaDigestMismatch | ExtensionCanonicalizerDigestMismatch
  | CoverageProfileHashMismatch | PolicyHashMismatch | ProviderVoteLaneMissing | ProviderCapabilitiesMissing
  | ProviderGrantMissing | RecordingGrantMissing

record ProductionReviewInvestigationRolloutResolution =
  res_rollout :: ProductionReviewInvestigationRolloutFlags
  res_reason :: ProductionReviewInvestigationRolloutReason

datatype ReviewDepth = Economy | Balanced | Thorough

text \<open>The facts of the authorization the gate reads, and the two digests of this release: the hashes of the coverage
  profile and of the production policy.\<close>

record rollout_facts =
  facts_reviewInvestigation :: "ReviewInvestigationCapabilityDescriptor option"
  facts_providerVoteLanes :: "ReviewExecutionProviderKind list"

record release_hashes =
  release_coverageProfileHash :: string
  release_policyHash :: string

definition readBooleanFlag :: "string option \<Rightarrow> string \<Rightarrow> bool res" where
  "readBooleanFlag value capability =
     (if value = None \<or> value = Some [] \<or> value = Some ''0'' then Inr False
      else if value = Some ''1'' then Inr True
      else Inl (JsError (''review_investigation_rollout_flag_invalid:'' @ capability)))"

text \<open>The environment as a function of the variable's name.\<close>

definition readProductionReviewInvestigationRolloutFlags :: "(string \<Rightarrow> string option) \<Rightarrow>
    ProductionReviewInvestigationRolloutFlags res" where
  "readProductionReviewInvestigationRolloutFlags env =
     (let read = (\<lambda>name capability. readBooleanFlag (env (''REVIEW_ROUTER_REVIEW_INVESTIGATION_'' @ name)) capability)
      in rbind (read ''RECORDING_ENABLED'' ''recording'') (\<lambda>r.
         rbind (read ''SHADOW_ENABLED'' ''shadow'') (\<lambda>s.
         rbind (read ''CONTEXT_CRITIC_ENABLED'' ''context_critic'') (\<lambda>c.
         rbind (read ''VERIFIED_CLEAN_ENABLED'' ''verified_clean'') (\<lambda>v.
         rbind (read ''CROSS_REVISION_REPLAY_ENABLED'' ''cross_revision_replay'') (\<lambda>x.
         rbind (read ''PRODUCTION_EFFECTS_ENABLED'' ''production_effects'') (\<lambda>p.
           Inr \<lparr>recordingEnabled = r, shadowEnabled = s, contextCriticEnabled = c, verifiedCleanEnabled = v,
                crossRevisionReplayEnabled = x, productionEffectsEnabled = p\<rparr>)))))))"

definition assertDependency :: "bool \<Rightarrow> bool \<Rightarrow> string \<Rightarrow> string \<Rightarrow> js_error option" where
  "assertDependency capabilityEnabled dependencyEnabled capability dependency =
     check (\<not> (capabilityEnabled \<and> \<not> dependencyEnabled))
       (''rollout_dependency_missing:'' @ capability @ '':'' @ dependency)"

definition assertCanonicalRolloutDependencies :: "ProductionReviewInvestigationRolloutFlags \<Rightarrow> js_error option" where
  "assertCanonicalRolloutDependencies flags =
     first_error (\<lambda>c. first_error (\<lambda>d. assertDependency (enabled flags c) (enabled flags d)
       (capability_text c) (capability_text d)) (contract_dependencies c)) contract_capabilities"

definition reviewInvestigationCapabilityMismatchReason :: "release_hashes \<Rightarrow> rollout_facts \<Rightarrow>
    ReviewExecutionProviderKind \<Rightarrow> ReviewInvestigationRolloutCapability \<Rightarrow>
    ProductionReviewInvestigationRolloutReason option" where
  "reviewInvestigationCapabilityMismatchReason release facts providerKind capability =
     (case facts_reviewInvestigation facts of
        None \<Rightarrow> Some AuthorizationDescriptorMissing
      | Some d \<Rightarrow>
          if desc_authorizationDescriptorVersion d \<noteq> contract_version then Some AuthorizationDescriptorVersionMismatch
          else if desc_capability d \<noteq> contract_capability then Some CapabilityMismatch
          else if desc_extensionId d \<noteq> extension_id then Some ExtensionIdMismatch
          else if desc_extensionSchemaDigest d \<noteq> extension_schemaDigest then Some ExtensionSchemaDigestMismatch
          else if desc_extensionCanonicalizerDigest d \<noteq> extension_canonicalizerDigest
          then Some ExtensionCanonicalizerDigestMismatch
          else if desc_coverageProfileHash d \<noteq> release_coverageProfileHash release then Some CoverageProfileHashMismatch
          else if desc_policyHash d \<noteq> release_policyHash release then Some PolicyHashMismatch
          else if providerKind \<notin> set (facts_providerVoteLanes facts) then Some ProviderVoteLaneMissing
          else (case desc_providerCapabilities d of
                  None \<Rightarrow> Some ProviderCapabilitiesMissing
                | Some grants \<Rightarrow>
                    (case find (\<lambda>g. grant_providerKind g = providerKind) grants of
                       None \<Rightarrow> Some ProviderGrantMissing
                     | Some g \<Rightarrow>
                         (case grant_capabilities g of
                            None \<Rightarrow> Some ProviderGrantMissing
                          | Some cs \<Rightarrow>
                              if capability \<notin> set cs
                              then Some (if capability = Recording then RecordingGrantMissing else ProviderGrantMissing)
                              else None))))"

definition matchesReviewInvestigationCapability :: "release_hashes \<Rightarrow> rollout_facts \<Rightarrow> ReviewExecutionProviderKind \<Rightarrow>
    ReviewInvestigationRolloutCapability \<Rightarrow> bool" where
  "matchesReviewInvestigationCapability release facts providerKind capability \<longleftrightarrow>
     reviewInvestigationCapabilityMismatchReason release facts providerKind capability = None"

definition resolveRecordingCapability :: "release_hashes \<Rightarrow> ProductionReviewInvestigationRolloutFlags \<Rightarrow> bool \<Rightarrow>
    rollout_facts \<Rightarrow> ReviewExecutionProviderKind \<Rightarrow> ProductionReviewInvestigationRolloutReason" where
  "resolveRecordingCapability release flags agenticContext facts primary =
     (if \<not> recordingEnabled flags then RecordingFlagDisabled
      else if \<not> agenticContext then AgenticContextDisabled
      else case reviewInvestigationCapabilityMismatchReason release facts primary Recording of
             None \<Rightarrow> Enabled | Some reason \<Rightarrow> reason)"

definition disabledProductionReviewInvestigationRollout :: ProductionReviewInvestigationRolloutFlags where
  "disabledProductionReviewInvestigationRollout = \<lparr>recordingEnabled = False, shadowEnabled = False,
     contextCriticEnabled = False, verifiedCleanEnabled = False, crossRevisionReplayEnabled = False,
     productionEffectsEnabled = False\<rparr>"

definition resolveRollout :: "release_hashes \<Rightarrow> ProductionReviewInvestigationRolloutFlags \<Rightarrow> bool \<Rightarrow> rollout_facts \<Rightarrow>
    ReviewExecutionProviderKind \<Rightarrow> ReviewDepth option \<Rightarrow> ProductionReviewInvestigationRolloutResolution res" where
  "resolveRollout release flags agenticContext facts primary reviewDepth =
     (if reviewDepth = Some Economy
      then Inr \<lparr>res_rollout = disabledProductionReviewInvestigationRollout, res_reason = ReviewDepthEconomy\<rparr>
      else throws (assertCanonicalRolloutDependencies flags)
       (let recordingDecision = resolveRecordingCapability release flags agenticContext facts primary;
            recording = (recordingDecision = Enabled);
            granted = (\<lambda>c. matchesReviewInvestigationCapability release facts primary c);
            critic = (recording \<and> contextCriticEnabled flags \<and> granted ContextCritic)
        in Inr \<lparr>res_rollout = \<lparr>recordingEnabled = recording,
              shadowEnabled = recording \<and> shadowEnabled flags \<and> granted Shadow,
              contextCriticEnabled = critic,
              verifiedCleanEnabled = recording \<and> critic \<and> verifiedCleanEnabled flags \<and> granted VerifiedClean,
              crossRevisionReplayEnabled = recording \<and> crossRevisionReplayEnabled flags \<and> granted CrossRevisionReplay,
              productionEffectsEnabled = recording \<and> productionEffectsEnabled flags \<and> granted ProductionEffects\<rparr>,
            res_reason = recordingDecision\<rparr>))"

text \<open>\<open>productionReviewInvestigationRecordingMode\<close>.\<close>

datatype ReviewInvestigationRecordingMode = Authoritative | RecordOnly

definition recordingMode :: "ProductionReviewInvestigationRolloutFlags \<Rightarrow> ReviewInvestigationRecordingMode" where
  "recordingMode rollout = (if productionEffectsEnabled rollout then Authoritative else RecordOnly)"


section \<open>What a parsed descriptor grants\<close>

text \<open>The capabilities for which the gate finds no mismatch.\<close>

definition grants :: "release_hashes \<Rightarrow> rollout_facts \<Rightarrow> ReviewExecutionProviderKind \<Rightarrow>
    ReviewInvestigationRolloutCapability set" where
  "grants release facts k = {c. matchesReviewInvestigationCapability release facts k c}"

definition closed_grant :: "ReviewInvestigationProviderCapabilities \<Rightarrow> bool" where
  "closed_grant g \<longleftrightarrow> (\<exists>cs. grant_capabilities g = Some cs \<and> Recording \<in> set cs \<and>
     (\<forall>c \<in> set cs. set (contract_dependencies c) \<subseteq> set cs))"

lemma parsed_grant: "parseProviderCapability row = Inr g \<Longrightarrow> closed_grant g"
  by (auto simp: parseProviderCapability_def res_simps closed_grant_def isDependencyClosed_def list_all_iff
      subset_iff split: option.splits)

lemma parsed_descriptor:
  assumes "parseReviewInvestigationCapability v laneKinds = Inr d"
  shows "\<exists>gs. desc_providerCapabilities d = Some gs \<and> (\<forall>g \<in> set gs. closed_grant g)"
proof -
  obtain ms rows gs where d: "desc_providerCapabilities d = Some gs" and rows: "res_map parseProviderCapability rows = Inr gs"
    using assms
    by (auto simp: parseReviewInvestigationCapability_def parseReviewInvestigationCapabilityV3_def res_simps Let_def
        split: option.splits)
  from rows have "\<forall>g \<in> set gs. \<exists>row. parseProviderCapability row = Inr g"
    unfolding res_map_Inr_all2 by (induction rows gs rule: list_all2_induct) auto
  then show ?thesis using d by (auto intro: parsed_grant)
qed

definition fits :: "release_hashes \<Rightarrow> ReviewInvestigationCapabilityDescriptor \<Rightarrow> bool" where
  "fits release d \<longleftrightarrow> desc_authorizationDescriptorVersion d = contract_version \<and> desc_capability d = contract_capability \<and>
     desc_extensionId d = extension_id \<and> desc_extensionSchemaDigest d = extension_schemaDigest \<and>
     desc_extensionCanonicalizerDigest d = extension_canonicalizerDigest \<and>
     desc_coverageProfileHash d = release_coverageProfileHash release \<and> desc_policyHash d = release_policyHash release"

lemma grants_iff: "c \<in> grants release facts k \<longleftrightarrow> (\<exists>d gs g cs. facts_reviewInvestigation facts = Some d \<and> fits release d \<and>
    k \<in> set (facts_providerVoteLanes facts) \<and> desc_providerCapabilities d = Some gs \<and>
    find (\<lambda>g. grant_providerKind g = k) gs = Some g \<and> grant_capabilities g = Some cs \<and> c \<in> set cs)"
  unfolding grants_def matchesReviewInvestigationCapability_def reviewInvestigationCapabilityMismatchReason_def fits_def
  by (auto split: option.splits)

lemma grants_closed:
  assumes "facts_reviewInvestigation facts = parseOptionalReviewInvestigationCapability v laneKinds"
    and "c \<in> grants release facts k"
  shows "set (contract_dependencies c) \<subseteq> grants release facts k"
proof -
  from assms(2) obtain d gs g cs where d: "facts_reviewInvestigation facts = Some d" "fits release d"
      "k \<in> set (facts_providerVoteLanes facts)" "desc_providerCapabilities d = Some gs"
      "find (\<lambda>g. grant_providerKind g = k) gs = Some g" "grant_capabilities g = Some cs" "c \<in> set cs"
    unfolding grants_iff by blast
  then have "parseReviewInvestigationCapability v laneKinds = Inr d"
    using assms(1) by (auto simp: parseOptionalReviewInvestigationCapability_def split: sum.splits)
  with parsed_descriptor d(4,5) have "closed_grant g" by (fastforce simp: find_Some_iff)
  then have "\<forall>x \<in> set (contract_dependencies c). x \<in> set cs" using d(6,7) unfolding closed_grant_def by auto
  then show ?thesis using d(1-6) unfolding grants_iff subset_iff by blast
qed

lemma flags_closed:
  assumes "assertCanonicalRolloutDependencies flags = None" "enabled flags c"
  shows "set (contract_dependencies c) \<subseteq> {d. enabled flags d}"
proof -
  have "c \<in> set contract_capabilities" by (cases c) (simp_all add: contract_capabilities_def)
  then show ?thesis
    using assms
    by (auto simp only: assertCanonicalRolloutDependencies_def first_error_None assertDependency_def check_None)
qed

section \<open>What the rollout enables\<close>

text \<open>Everything depends on recording.\<close>

lemma closed_recording:
  assumes "\<And>c. c \<in> S \<Longrightarrow> set (contract_dependencies c) \<subseteq> S" "c \<in> S"
  shows "Recording \<in> S" "c = VerifiedClean \<Longrightarrow> ContextCritic \<in> S"
proof -
  have shadow: "Recording \<in> S" if "Shadow \<in> S" using assms(1) [OF that] by simp
  have critic: "Shadow \<in> S" if "ContextCritic \<in> S" using assms(1) [OF that] by simp
  show "Recording \<in> S" using assms(1) [OF assms(2)] assms(2) shadow critic by (cases c) auto
  show "ContextCritic \<in> S" if "c = VerifiedClean" using assms(1) [OF assms(2)] that by simp
qed

lemma resolved_enabled:
  assumes "resolveRollout release flags agenticContext facts k depth = Inr r" "depth \<noteq> Some Economy"
  shows "assertCanonicalRolloutDependencies flags = None \<and> (enabled (res_rollout r) c \<longleftrightarrow>
    agenticContext \<and> recordingEnabled flags \<and> Recording \<in> grants release facts k \<and> enabled flags c \<and>
    c \<in> grants release facts k \<and>
    (c = VerifiedClean \<longrightarrow> contextCriticEnabled flags \<and> ContextCritic \<in> grants release facts k))"
proof -
  have decided: "resolveRecordingCapability release flags agenticContext facts k = Enabled \<longleftrightarrow>
      recordingEnabled flags \<and> agenticContext \<and> Recording \<in> grants release facts k"
    by (auto simp: resolveRecordingCapability_def grants_def matchesReviewInvestigationCapability_def
        reviewInvestigationCapabilityMismatchReason_def split: option.splits)
  show ?thesis
    using assms decided by (cases c) (auto simp: resolveRollout_def Let_def res_simps grants_def)
qed

lemma enabled_iff:
  assumes "resolveRollout release flags agenticContext facts k depth = Inr r"
    and "facts_reviewInvestigation facts = parseOptionalReviewInvestigationCapability v laneKinds"
  shows "enabled (res_rollout r) c \<longleftrightarrow>
    depth \<noteq> Some Economy \<and> agenticContext \<and> enabled flags c \<and> c \<in> grants release facts k"
proof (cases "depth = Some Economy")
  case True
  then show ?thesis using assms(1)
    by (cases c) (auto simp: resolveRollout_def disabledProductionReviewInvestigationRollout_def)
next
  case False
  note resolved = resolved_enabled [OF assms(1) False]
  have flags: "Recording \<in> {d. enabled flags d}" "c = VerifiedClean \<Longrightarrow> ContextCritic \<in> {d. enabled flags d}"
    if "enabled flags c"
    using closed_recording [of "{d. enabled flags d}" c] flags_closed [of flags] resolved that by auto
  have granted: "Recording \<in> grants release facts k" "c = VerifiedClean \<Longrightarrow> ContextCritic \<in> grants release facts k"
    if "c \<in> grants release facts k"
    using closed_recording [of "grants release facts k" c] grants_closed [OF assms(2)] that by auto
  show ?thesis using resolved [of c] flags granted False by auto
qed

text \<open>What a descriptor grants a provider: it fits this release, the provider has a vote lane, and the grant made to
  it lists the capability.\<close>

definition descriptor_grants :: "release_hashes \<Rightarrow> ReviewExecutionProviderKind list \<Rightarrow> ReviewExecutionProviderKind \<Rightarrow>
    ReviewInvestigationRolloutCapability \<Rightarrow> ReviewInvestigationCapabilityDescriptor \<Rightarrow> bool" where
  "descriptor_grants release lanes k c d \<longleftrightarrow> fits release d \<and> k \<in> set lanes \<and>
     (case desc_providerCapabilities d of
        None \<Rightarrow> False
      | Some gs \<Rightarrow>
          (case find (\<lambda>g. grant_providerKind g = k) gs of
             None \<Rightarrow> False
           | Some g \<Rightarrow> (case grant_capabilities g of None \<Rightarrow> False | Some cs \<Rightarrow> c \<in> set cs)))"

lemma grants_descriptor: "c \<in> grants release facts k \<longleftrightarrow> (case facts_reviewInvestigation facts of
     None \<Rightarrow> False | Some d \<Rightarrow> descriptor_grants release (facts_providerVoteLanes facts) k c d)"
  unfolding grants_iff descriptor_grants_def by (auto split: option.splits)

text \<open>
  C13: with a descriptor as the control plane's answer is parsed, the rollout enables exactly the capabilities that are
  flagged in the environment and that the descriptor grants to the provider of the run, and none in the economy depth
  or without agentic context; when the parser refuses the descriptor nothing is enabled.
\<close>

theorem rollout_enables_what_is_flagged_and_granted:
  assumes "resolveRollout release flags agenticContext facts k depth = Inr r"
    and "facts_reviewInvestigation facts = parseOptionalReviewInvestigationCapability v laneKinds"
  shows "case parseReviewInvestigationCapability v laneKinds of
      Inl e \<Rightarrow> \<not> enabled (res_rollout r) c
    | Inr d \<Rightarrow> enabled (res_rollout r) c \<longleftrightarrow> depth \<noteq> Some Economy \<and> agenticContext \<and> enabled flags c \<and>
        descriptor_grants release (facts_providerVoteLanes facts) k c d"
  using enabled_iff [OF assms] assms(2)
  by (simp add: grants_descriptor parseOptionalReviewInvestigationCapability_def split: sum.splits)

text \<open>A release, and a descriptor that grants \<open>codex\<close> everything up to the context critic.\<close>

definition demo_release :: release_hashes where
  "demo_release = \<lparr>release_coverageProfileHash = replicate 64 (CHR ''a''), release_policyHash = replicate 64 (CHR ''b'')\<rparr>"

definition demo_descriptor :: js where
  "demo_descriptor = Obj [(''authorizationDescriptorVersion'', Num (Fin 3)), (''capability'', Str contract_capability),
     (''coverageProfileHash'', Str (replicate 64 (CHR ''a''))),
     (''extensionCanonicalizerDigest'', Str extension_canonicalizerDigest), (''extensionId'', Str extension_id),
     (''extensionSchemaDigest'', Str extension_schemaDigest), (''policyHash'', Str (replicate 64 (CHR ''b''))),
     (''providerCapabilities'', Arr [Obj [(''capabilities'', Arr [Str ''context_critic'', Str ''recording'', Str ''shadow'']),
        (''providerKind'', Str ''codex'')]])]"

definition demo_facts :: rollout_facts where
  "demo_facts = \<lparr>facts_reviewInvestigation = parseOptionalReviewInvestigationCapability demo_descriptor [Codex],
     facts_providerVoteLanes = [Codex]\<rparr>"

definition all_flags :: ProductionReviewInvestigationRolloutFlags where
  "all_flags = \<lparr>recordingEnabled = True, shadowEnabled = True, contextCriticEnabled = True, verifiedCleanEnabled = True,
     crossRevisionReplayEnabled = True, productionEffectsEnabled = True\<rparr>"

definition demo_rollout :: "ProductionReviewInvestigationRolloutResolution res" where
  "demo_rollout = resolveRollout demo_release all_flags True demo_facts Codex (Some Balanced)"

lemma demo_rollout_ok: "case demo_rollout of Inl e \<Rightarrow> False
    | Inr r \<Rightarrow> contextCriticEnabled (res_rollout r) \<and> \<not> productionEffectsEnabled (res_rollout r)"
  by code_simp

lemma refused_rollout_ok: "case parseReviewInvestigationCapability (Obj []) [Codex] of Inr d \<Rightarrow> False
    | Inl e \<Rightarrow> True"
  by code_simp

definition refused_facts :: rollout_facts where
  "refused_facts = demo_facts\<lparr>facts_reviewInvestigation := parseOptionalReviewInvestigationCapability (Obj []) [Codex]\<rparr>"

lemma refused_rollout: "\<exists>r. resolveRollout demo_release all_flags True refused_facts Codex None = Inr r"
proof -
  have "case resolveRollout demo_release all_flags True refused_facts Codex None of Inl e \<Rightarrow> False | Inr r \<Rightarrow> True"
    by code_simp
  then show ?thesis by (auto split: sum.splits)
qed

theorem rollout_enables_what_is_flagged_and_granted_witness:
  "(\<exists>d. parseReviewInvestigationCapability demo_descriptor [Codex] = Inr d \<and>
      descriptor_grants demo_release [Codex] Codex ContextCritic d \<and>
      \<not> descriptor_grants demo_release [Codex] Codex ProductionEffects d) \<and>
   (\<exists>r. resolveRollout demo_release all_flags True refused_facts Codex None = Inr r \<and>
      \<not> enabled (res_rollout r) Recording)"
proof
  obtain r where r: "demo_rollout = Inr r"
      "contextCriticEnabled (res_rollout r) \<and> \<not> productionEffectsEnabled (res_rollout r)"
    using demo_rollout_ok by (auto split: sum.splits)
  have "facts_reviewInvestigation demo_facts = parseOptionalReviewInvestigationCapability demo_descriptor [Codex]"
    by (simp add: demo_facts_def)
  note exact = rollout_enables_what_is_flagged_and_granted [OF r(1) [unfolded demo_rollout_def] this]
  have "facts_providerVoteLanes demo_facts = [Codex]" "enabled all_flags ProductionEffects"
    by (simp_all add: demo_facts_def all_flags_def)
  then show "\<exists>d. parseReviewInvestigationCapability demo_descriptor [Codex] = Inr d \<and>
      descriptor_grants demo_release [Codex] Codex ContextCritic d \<and>
      \<not> descriptor_grants demo_release [Codex] Codex ProductionEffects d"
    using exact [of ContextCritic] exact [of ProductionEffects] r(2)
    by (cases "parseReviewInvestigationCapability demo_descriptor [Codex]") auto
next
  obtain r where r: "resolveRollout demo_release all_flags True refused_facts Codex None = Inr r"
    using refused_rollout by blast
  have "facts_reviewInvestigation refused_facts = parseOptionalReviewInvestigationCapability (Obj []) [Codex]"
    by (simp add: refused_facts_def)
  from rollout_enables_what_is_flagged_and_granted [OF r this, of Recording] refused_rollout_ok
  have "\<not> enabled (res_rollout r) Recording" by (auto split: sum.splits)
  then show "\<exists>r. resolveRollout demo_release all_flags True refused_facts Codex None = Inr r \<and>
      \<not> enabled (res_rollout r) Recording" using r by blast
qed

text \<open>
  The rollout is closed under the dependencies of the contract: with a parsed descriptor, whatever is enabled has
  everything enabled it depends on.  So effects on production are only enabled together with the context critic and
  the shadow, and a verified clean conclusion only with effects on production.
\<close>

theorem rollout_is_dependency_closed:
  assumes "resolveRollout release flags agenticContext facts k depth = Inr r"
    and "facts_reviewInvestigation facts = parseOptionalReviewInvestigationCapability v laneKinds"
    and "enabled (res_rollout r) c"
  shows "set (contract_dependencies c) \<subseteq> {d. enabled (res_rollout r) d}"
proof -
  have shown: "enabled (res_rollout r) x \<longleftrightarrow>
      depth \<noteq> Some Economy \<and> agenticContext \<and> enabled flags x \<and> x \<in> grants release facts k" for x
    by (rule enabled_iff [OF assms(1,2)])
  have "depth \<noteq> Some Economy" using assms(3) shown by simp
  from resolved_enabled [OF assms(1) this] have flags: "assertCanonicalRolloutDependencies flags = None" by blast
  show ?thesis
    using flags_closed [OF flags, of c] grants_closed [OF assms(2), of c release k] assms(3) shown by auto
qed

theorem rollout_is_dependency_closed_witness:
  "\<exists>r. demo_rollout = Inr r \<and> shadowEnabled (res_rollout r)"
proof -
  obtain r where r: "demo_rollout = Inr r" "enabled (res_rollout r) ContextCritic"
    using demo_rollout_ok by (auto split: sum.splits)
  have "facts_reviewInvestigation demo_facts = parseOptionalReviewInvestigationCapability demo_descriptor [Codex]"
    by (simp add: demo_facts_def)
  from rollout_is_dependency_closed [OF r(1) [unfolded demo_rollout_def] this r(2)]
  have "shadowEnabled (res_rollout r)" by simp
  then show ?thesis using r(1) by blast
qed

end
