(* ===== verification/Agent_Selection.thy ===== *)
theory Agent_Selection
  imports Investigation_Turn Rollout_Gate
begin

text \<open>
  Which agent runs a turn: \<open>DeterministicReviewAgentSelector\<close> of
  \<open>src/review-investigation/infrastructure/deterministic-review-agent-selector.ts\<close>, the selector the production
  composition builds over it (\<open>createProductionReviewInvestigationAgentSelector\<close> and
  \<open>RolloutGatedReviewAgentSelector\<close> of \<open>production-review-investigation-composition.ts\<close>), and the runtime profiles
  of \<open>domain/runtime-profile.ts\<close>.  What a turn needs of a selector is the locale \<open>agent_selector\<close>.
\<close>

section \<open>Runtime profiles\<close>

definition assertPositive :: "int \<Rightarrow> string \<Rightarrow> js_error option" where
  "assertPositive n field = check (is_safe_integer n \<and> n \<ge> 1) (''review_agent_'' @ field @ ''_invalid'')"

definition defaulted :: "int option \<Rightarrow> int \<Rightarrow> int" where
  "defaulted x d = (case x of None \<Rightarrow> d | Some n \<Rightarrow> n)"

definition createGatewayAttestedRuntimeProfile :: "ReviewAgentProviderKind \<Rightarrow> ReviewAgentEventStreamSupport \<Rightarrow> int \<Rightarrow>
    int option \<Rightarrow> int option \<Rightarrow> int option \<Rightarrow> ReviewAgentRuntimeProfile res" where
  "createGatewayAttestedRuntimeProfile providerKind eventStream maxPromptBytes maxOutputBytes maxToolCalls maxTurns =
     throws (assertPositive maxPromptBytes ''max_prompt_bytes'')
    (throws (assertPositive (defaulted maxOutputBytes (4 * 1024 * 1024)) ''max_output_bytes'')
    (throws (assertPositive (defaulted maxToolCalls 256) ''max_tool_calls'')
    (throws (assertPositive (defaulted maxTurns 12) ''max_turns'')
    (Inr \<lparr>prof_providerKind = providerKind, prof_executionProfile = GatewayAttestedAgentV1,
       prof_toolTransport = McpStdio, prof_structuredOutput = JsonSchema, prof_eventStream = eventStream,
       prof_continuation = DurableDossier, prof_confinement = GatewayOnly,
       prof_actualModelAttribution = Observed, prof_usageAttribution = Observed,
       prof_cancellation = ProcessGroupFenced, prof_maxPromptBytes = maxPromptBytes,
       prof_maxOutputBytes = defaulted maxOutputBytes (4 * 1024 * 1024),
       prof_maxToolCalls = defaulted maxToolCalls 256, prof_maxTurns = defaulted maxTurns 12\<rparr>))))"

definition assertRuntimeProfileSatisfies :: "ReviewAgentRuntimeProfile \<Rightarrow> ReviewAgentProtocolRequirements \<Rightarrow>
    js_error option" where
  "assertRuntimeProfileSatisfies profile requirements =
     check (\<not> (prof_providerKind profile \<noteq> req_providerKind requirements \<or>
         prof_executionProfile profile \<noteq> req_executionProfile requirements \<or>
         prof_confinement profile \<noteq> req_minimumConfinement requirements \<or>
         (req_requireActualModelAttribution requirements \<and> prof_actualModelAttribution profile \<noteq> Observed) \<or>
         (req_requireUsageAttribution requirements \<and> prof_usageAttribution profile \<noteq> Observed) \<or>
         (req_requireFencedCancellation requirements \<and> prof_cancellation profile \<noteq> ProcessGroupFenced) \<or>
         prof_maxTurns profile < req_minimumMaxTurns requirements))
       ''review_agent_capability_requirements_unsatisfied''"

section \<open>The deterministic selector\<close>

record DeterministicReviewAgentSelectorOptions =
  opt_allowedProviderKinds :: "ReviewAgentProviderKind list"
  opt_critic :: "(ReviewAgentProviderKind \<times> string) option"
  opt_requireIndependentCriticAtOrAboveRiskPriority :: "int option"

text \<open>The constructor; a registration is represented by its provider kind.\<close>

definition createSelector :: "ReviewAgentProviderKind list \<Rightarrow> DeterministicReviewAgentSelectorOptions \<Rightarrow> js_error option" where
  "createSelector registrations options = first_error (\<lambda>problem. problem)
     [check (length registrations \<noteq> 0 \<and> distinct registrations) ''review_agent_registrations_invalid'',
      check (length (opt_allowedProviderKinds options) \<noteq> 0 \<and> distinct (opt_allowedProviderKinds options))
        ''review_agent_allowed_providers_invalid'',
      check (case opt_requireIndependentCriticAtOrAboveRiskPriority options of None \<Rightarrow> True
         | Some t \<Rightarrow> is_safe_integer t \<and> 0 \<le> t \<and> t \<le> 1000000)
        ''review_agent_independent_critic_threshold_invalid'',
      check (case opt_critic options of None \<Rightarrow> True | Some (k, model) \<Rightarrow> model \<noteq> [])
        ''review_agent_critic_model_missing'']"

abbreviation confinement_violation :: "string \<Rightarrow> exn + 'a" where
  "confinement_violation m \<equiv> Inl (ReviewAgentExecutionError ConfinementViolation None m)"

abbreviation capability_unavailable :: "string \<Rightarrow> exn + 'a" where
  "capability_unavailable m \<equiv> Inl (ReviewAgentExecutionError CapabilityUnavailable None m)"

definition resolveAgent :: "ReviewAgentProviderKind list \<Rightarrow> DeterministicReviewAgentSelectorOptions \<Rightarrow>
    ReviewAgentSelectionRequest \<Rightarrow> exn + ReviewAgentSelection" where
  "resolveAgent registrations options input =
     (let criticRoute = (if sr_purpose input = Critic then opt_critic options else None);
          providerKind = (case criticRoute of None \<Rightarrow> sr_primaryProviderKind input | Some (k, m) \<Rightarrow> k);
          requestedModel = (case criticRoute of None \<Rightarrow> sr_primaryRequestedModel input | Some (k, m) \<Rightarrow> m);
          authority = sr_executionAuthority input
      in if providerKind \<notin> set (opt_allowedProviderKinds options)
         then capability_unavailable ''review_agent_provider_not_authorized''
         else if sr_purpose input = Critic \<and>
           (case opt_requireIndependentCriticAtOrAboveRiskPriority options of None \<Rightarrow> False
            | Some threshold \<Rightarrow> sr_maximumSemanticRiskPriority input \<ge> threshold) \<and>
           providerKind = sr_primaryProviderKind input
         then confinement_violation ''review_agent_critic_execution_authority_unavailable''
         else if providerKind \<noteq> auth_providerKind authority \<or> requestedModel \<noteq> auth_requestedModel authority
         then confinement_violation
           (if sr_purpose input = Critic then ''review_agent_critic_execution_authority_unavailable''
            else ''review_agent_execution_authority_mismatch'')
         else if providerKind \<notin> set registrations
         then capability_unavailable ''review_agent_provider_not_registered''
         else Inr \<lparr>sel_providerKind = providerKind, sel_requestedModel = requestedModel\<rparr>)"

section \<open>The production selector\<close>

record ConfiguredProductionReviewAgent =
  agent_providerKind :: ReviewAgentProviderKind
  agent_requestedModel :: string

fun executionProviderKind :: "ReviewAgentProviderKind \<Rightarrow> ReviewExecutionProviderKind" where
  "executionProviderKind Investigation_Data.Codex = Work_Plan.Codex"
| "executionProviderKind Investigation_Data.ClaudeCode = Work_Plan.ClaudeCode"

text \<open>The built selector: its primary delegate and the delegates of the independent critics.\<close>

record production_selector =
  ps_registrations :: "ReviewAgentProviderKind list"
  ps_critics :: "(ReviewAgentProviderKind \<times> string) list"
  ps_primaryProviderKind :: ReviewAgentProviderKind
  ps_contextCriticEnabled :: bool

definition selector_options :: "ReviewAgentProviderKind list \<Rightarrow> (ReviewAgentProviderKind \<times> string) option \<Rightarrow>
    DeterministicReviewAgentSelectorOptions" where
  "selector_options allowed critic = \<lparr>opt_allowedProviderKinds = allowed, opt_critic = critic,
     opt_requireIndependentCriticAtOrAboveRiskPriority = None\<rparr>"

definition createProductionSelector :: "release_hashes \<Rightarrow> rollout_facts \<Rightarrow> ReviewAgentProviderKind \<Rightarrow> bool \<Rightarrow>
    ConfiguredProductionReviewAgent list \<Rightarrow> production_selector res" where
  "createProductionSelector release facts primary criticEnabled agents =
     (let capable = (\<lambda>c a. matchesReviewInvestigationCapability release facts
            (executionProviderKind (agent_providerKind a)) c);
          authorized = filter (capable Recording) agents;
          criticKinds = map agent_providerKind (filter (capable Rollout_Gate.ContextCritic) authorized);
          registrations = map agent_providerKind authorized;
          critics = map (\<lambda>a. (agent_providerKind a, agent_requestedModel a))
            (filter (\<lambda>a. agent_providerKind a \<noteq> primary \<and> agent_providerKind a \<in> set criticKinds) authorized)
      in throws (first_error (\<lambda>a. check (length (agent_requestedModel a) \<noteq> 0) ''review_agent_configured_model_missing'') agents)
        (throw_if (primary \<notin> set registrations) ''review_investigation_primary_agent_unavailable''
        (throws (createSelector registrations (selector_options registrations None))
        (throws (first_error (\<lambda>critic. createSelector registrations (selector_options registrations (Some critic))) critics)
        (Inr \<lparr>ps_registrations = registrations, ps_critics = critics, ps_primaryProviderKind = primary,
           ps_contextCriticEnabled = criticEnabled\<rparr>)))))"

text \<open>\<open>RolloutGatedReviewAgentSelector.resolve\<close>.\<close>

definition resolveProduction :: "production_selector \<Rightarrow> ReviewAgentSelectionRequest \<Rightarrow> exn + ReviewAgentSelection" where
  "resolveProduction selector input =
     (let authorityKind = auth_providerKind (sr_executionAuthority input);
          registrations = ps_registrations selector
      in if sr_primaryProviderKind input \<noteq> ps_primaryProviderKind selector
         then capability_unavailable ''review_agent_primary_provider_mismatch''
         else if sr_purpose input = Critic \<and> \<not> ps_contextCriticEnabled selector
         then capability_unavailable ''review_agent_context_critic_disabled''
         else if sr_purpose input = Critic \<and> authorityKind \<noteq> ps_primaryProviderKind selector
         then (case map_of (rev (ps_critics selector)) authorityKind of
             None \<Rightarrow> capability_unavailable ''review_agent_independent_critic_unavailable''
           | Some model \<Rightarrow> resolveAgent registrations (selector_options registrations (Some (authorityKind, model))) input)
         else resolveAgent registrations (selector_options registrations None) input)"

section \<open>What a turn needs of a selector\<close>

text \<open>An agent is only selected for the authority of the request.\<close>

locale agent_selector =
  fixes resolve :: "ReviewAgentSelectionRequest \<Rightarrow> exn + ReviewAgentSelection"
  assumes selects_authority: "resolve request = Inr selection \<Longrightarrow>
    sel_providerKind selection = auth_providerKind (sr_executionAuthority request) \<and>
    sel_requestedModel selection = auth_requestedModel (sr_executionAuthority request)"
begin

lemma never_refused: "resolve request = Inr selection \<Longrightarrow>
    requireAuthorizedSelection selection (sr_executionAuthority request) purpose = Inr ()"
  using selects_authority by (simp add: requireAuthorizedSelection_def)

end

lemma resolveAgent_Inr: "resolveAgent registrations options request = Inr selection \<longleftrightarrow>
    (let route = (if sr_purpose request = Critic then opt_critic options else None);
         k = (case route of None \<Rightarrow> sr_primaryProviderKind request | Some (k, m) \<Rightarrow> k);
         m = (case route of None \<Rightarrow> sr_primaryRequestedModel request | Some (k, m) \<Rightarrow> m)
     in k \<in> set (opt_allowedProviderKinds options) \<and> k \<in> set registrations \<and>
        k = auth_providerKind (sr_executionAuthority request) \<and> m = auth_requestedModel (sr_executionAuthority request) \<and>
        \<not> (sr_purpose request = Critic \<and>
          (case opt_requireIndependentCriticAtOrAboveRiskPriority options of None \<Rightarrow> False
           | Some threshold \<Rightarrow> sr_maximumSemanticRiskPriority request \<ge> threshold) \<and>
          k = sr_primaryProviderKind request) \<and>
        selection = \<lparr>sel_providerKind = k, sel_requestedModel = m\<rparr>)"
  unfolding resolveAgent_def Let_def by auto

interpretation deterministic: agent_selector "resolveAgent registrations options" for registrations options
  by unfold_locales (auto simp: resolveAgent_Inr Let_def)

interpretation production: agent_selector "resolveProduction selector" for selector
  by unfold_locales
    (auto simp: resolveProduction_def Let_def split: if_splits option.splits dest: deterministic.selects_authority)


section \<open>What is selected\<close>

text \<open>A gateway-attested profile meets what the turn negotiates exactly for its own provider and enough turns.\<close>

lemma gateway_profile_satisfies:
  assumes "createGatewayAttestedRuntimeProfile k stream prompt output tools turns = Inr profile"
  shows "assertRuntimeProfileSatisfies profile \<lparr>req_providerKind = k', req_executionProfile = GatewayAttestedAgentV1,
      req_minimumConfinement = GatewayOnly, req_requireActualModelAttribution = True, req_requireUsageAttribution = True,
      req_requireFencedCancellation = True, req_minimumMaxTurns = n\<rparr> = None \<longleftrightarrow>
    k' = k \<and> n \<le> defaulted turns 12"
  using assms
  by (auto simp: createGatewayAttestedRuntimeProfile_def assertRuntimeProfileSatisfies_def check_None throws_Inr)

lemma created_selector:
  assumes "createProductionSelector release facts primary criticEnabled agents = Inr selector"
  shows "ps_contextCriticEnabled selector = criticEnabled \<and> ps_primaryProviderKind selector = primary \<and>
    (\<forall>k \<in> set (ps_registrations selector). Recording \<in> grants release facts (executionProviderKind k)) \<and>
    (\<forall>(k, m) \<in> set (ps_critics selector). k \<noteq> primary \<and>
       (\<exists>a \<in> set agents. agent_providerKind a = k \<and> agent_requestedModel a = m) \<and>
       Rollout_Gate.ContextCritic \<in> grants release facts (executionProviderKind k))"
  using assms
  by (auto simp: createProductionSelector_def Let_def throws_Inr throw_if_Inr grants_def)

text \<open>
  C14: whatever agent the production selector picks has the authority of the request: its provider and model, and a
  recording grant.  A discovery turn runs on the primary provider and model; a critic turn only when the critic is
  enabled, and on another provider only with a context-critic grant and the model configured for it.
\<close>

theorem production_selection_is_authorized:
  assumes "createProductionSelector release facts primary criticEnabled agents = Inr selector"
    and "resolveProduction selector request = Inr selection"
  shows "sel_providerKind selection = auth_providerKind (sr_executionAuthority request) \<and>
    sel_requestedModel selection = auth_requestedModel (sr_executionAuthority request) \<and>
    Recording \<in> grants release facts (executionProviderKind (sel_providerKind selection)) \<and>
    (case sr_purpose request of
       Discovery \<Rightarrow> sel_providerKind selection = primary \<and> sel_requestedModel selection = sr_primaryRequestedModel request
     | Critic \<Rightarrow> criticEnabled \<and>
         (if sel_providerKind selection = primary
          then sel_requestedModel selection = sr_primaryRequestedModel request
          else Rollout_Gate.ContextCritic \<in> grants release facts (executionProviderKind (sel_providerKind selection)) \<and>
            (\<exists>a \<in> set agents. agent_providerKind a = sel_providerKind selection \<and>
               agent_requestedModel a = sel_requestedModel selection)))"
proof -
  note created = created_selector [OF assms(1)]
  note authority = production.selects_authority [OF assms(2)]
  have critic: "(\<exists>a \<in> set agents. agent_providerKind a = k \<and> agent_requestedModel a = m) \<and>
      Rollout_Gate.ContextCritic \<in> grants release facts (executionProviderKind k) \<and> k \<noteq> primary"
    if "map_of (rev (ps_critics selector)) k = Some m" for k m
    using map_of_SomeD [OF that] created by auto
  show ?thesis
    using assms(2) created authority
    by (cases "sr_purpose request")
      (auto simp: resolveProduction_def resolveAgent_Inr Let_def selector_options_def dest!: critic
        split: if_splits option.splits)
qed

text \<open>Two agents, with \<open>codex\<close> primary; the request of a critic turn on it.\<close>

definition demo_agents :: "ConfiguredProductionReviewAgent list" where
  "demo_agents = [\<lparr>agent_providerKind = Investigation_Data.Codex, agent_requestedModel = ''m''\<rparr>,
     \<lparr>agent_providerKind = Investigation_Data.ClaudeCode, agent_requestedModel = ''n''\<rparr>]"

definition demo_request :: ReviewAgentSelectionRequest where
  "demo_request = \<lparr>sr_primaryProviderKind = Investigation_Data.Codex, sr_primaryRequestedModel = ''m'',
     sr_executionAuthority = \<lparr>auth_providerKind = Investigation_Data.Codex, auth_requestedModel = ''m''\<rparr>,
     sr_purpose = Critic, sr_maximumSemanticRiskPriority = 900000\<rparr>"

theorem production_selection_is_authorized_witness:
  "\<exists>selector selection.
     createProductionSelector demo_release demo_facts Investigation_Data.Codex True demo_agents = Inr selector \<and>
     resolveProduction selector demo_request = Inr selection \<and>
     Recording \<in> grants demo_release demo_facts Work_Plan.Codex"
proof -
  have "case createProductionSelector demo_release demo_facts Investigation_Data.Codex True demo_agents of
      Inl e \<Rightarrow> False
    | Inr selector \<Rightarrow> (case resolveProduction selector demo_request of Inl e \<Rightarrow> False
        | Inr selection \<Rightarrow> sel_providerKind selection = Investigation_Data.Codex)" by code_simp
  then obtain selector selection where run:
      "createProductionSelector demo_release demo_facts Investigation_Data.Codex True demo_agents = Inr selector"
      "resolveProduction selector demo_request = Inr selection" "sel_providerKind selection = Investigation_Data.Codex"
    by (auto split: sum.splits)
  from production_selection_is_authorized [OF run(1,2)] run(3)
  have "Recording \<in> grants demo_release demo_facts Work_Plan.Codex" by simp
  with run(1,2) show ?thesis by blast
qed

end
