(* ===== verification/Spec2Isabelle.thy ===== *)
theory Spec2Isabelle
  imports Orchestration_State Content_Batches Execution_Deadline Batch_Scheduler Call_Limiter
    Canonical_Json Work_Plan Prompt_Coverage Circuit_Breaker Checkpoint Checkpoint_Session
    Severity_Gate File_Risk Provider_Results Batch_Plan Checkpoint_Payload Thread_Lifecycle Cache_Storage
    Finding_Marker Projection_Guarantees Investigation_Slot Investigation_Replay Agent_Selection
begin

text \<open>
  ReviewRouter is a GitHub Action, written in TypeScript, that has several language models review a pull
  request.  This development models the code under \<open>src/\<close> of the repository that decides what is
  reviewed, by whom, when, and what is kept, and proves what that code promises.

  \<^bold>\<open>The program.\<close>  A run first orders the changed files by risk, cuts them into batches and plans one work slot
  for each batch and provider.  The orchestration state machine then leads the run from its
  authorization through the slots to the publication of the review.  Batches are started by an adaptive
  scheduler under the deadline of the job, calls to one provider pass a limiter and a circuit breaker, and
  the result of every batch is stored in a hosted checkpoint, so that a restarted job does not repeat it.
  At the end the slots are summarised per provider, the severity gate decides whether the check fails, and the
  review projection turns what was found and what is known of earlier findings into the envelope that is published.
  In place of one call to a provider, a work slot may run an investigation: turns of an agent behind a gateway that
  attests what it read, each under a lease that is renewed meanwhile, until the control plane concludes.

  \<^bold>\<open>Theories.\<close>  Each names the source file it models in its first text block; names follow the source.
  \<^item> \<open>Prelude\<close>: thrown errors as values of a sum type, \<open>Array.prototype.sort\<close> and the contracts of comparators
    (locales \<open>js_comparator\<close>, \<open>js_strict_comparator\<close>), \<open>Set\<close>, \<open>String.split\<close>, character classes and
    the identity patterns.
  \<^item> \<open>Js_Number\<close>, \<open>Js_Value\<close>: numbers with NaN and the infinities; values of unknown type and the validation
    schemas the sources declare.
  \<^item> \<open>File_Risk\<close>: \<open>review-execution/domain/file-risk-priority.ts\<close>.
  \<^item> \<open>Content_Batches\<close>: \<open>review-orchestration/domain/content-defined-review-batches.ts\<close>; the recursive split is
    a total function because the hash prefix grows up to 256 bits.
  \<^item> \<open>Canonical_Json\<close>, \<open>Work_Plan\<close>: \<open>review-orchestration/domain/stable-review-work-plan.ts\<close>, with the text
    that is hashed for every identity; canonical JSON is proved injective up to the order of members.
  \<^item> \<open>Prompt_Coverage\<close>: \<open>review-orchestration/domain/review-prompt-coverage.ts\<close>.
  \<^item> \<open>Batch_Plan\<close>: \<open>review-execution/domain/review-batch-plan.ts\<close>.
  \<^item> \<open>Orchestration_State\<close>: \<open>review-orchestration/domain/review-orchestration-state.ts\<close>; one event is one
    call of \<open>evolveReviewOrchestration\<close>, runs are lists of events, and each slot goes through its own life cycle,
    a relation labelled with the events that name it.
  \<^item> \<open>Execution_Deadline\<close>, \<open>Batch_Scheduler\<close>, \<open>Call_Limiter\<close>: \<open>review-execution/domain/execution-deadline.ts\<close>,
    \<open>review-execution/application/adaptive-batch-scheduler.ts\<close> and \<open>provider-call-limiter.ts\<close>.  JavaScript
    runs one callback at a time, so an execution is a sequence of callbacks (an inductive step relation)
    in any order the host may choose; the deadline interprets the locale \<open>start_policy\<close> of the scheduler.
  \<^item> \<open>Circuit_Breaker\<close>: \<open>providers/circuit-breaker.ts\<close>, with memory, files and failing reads and writes; it
    refines the state machine of its comment as long as no result comes in while the circuit is open, which the
    comment leaves open and the code answers by closing the circuit.  The promise-chain lock is a separate step relation.
  \<^item> \<open>Checkpoint\<close>, \<open>Checkpoint_Payload\<close>, \<open>Checkpoint_Session\<close>: \<open>review-execution/domain/review-checkpoint.ts\<close> and
    \<open>review-execution/application/review-checkpoint-session.ts\<close>; the hosted service is a function of its
    own state, so the theorems hold whatever it answers.
  \<^item> \<open>Provider_Results\<close>: \<open>review-execution/domain/work-slot-provider-result.ts\<close>; the collation of the host is
    the locale \<open>js_collation\<close>.
  \<^item> \<open>Severity_Gate\<close>: \<open>output/severity-gate.ts\<close>.
  \<^item> \<open>Confidence_Policy\<close>, \<open>Thread_Lifecycle\<close>: \<open>finding-revalidation/domain/resolve-confidence-policy.ts\<close> and
    \<open>analysis/thread-lifecycle.ts\<close>; the tally of the votes is related to the raw answers of the providers.
  \<^item> \<open>Cache_Storage\<close>: \<open>cache/storage.ts\<close>, as a machine whose events are calls and ends of file operations.

  \<^item> \<open>Finding_Marker\<close>: \<open>review-projection/domain/finding-marker.ts\<close>; what is stripped, and what gets through.
  \<^item> \<open>Projection_Data\<close>, \<open>Lifecycle_Verification\<close>, \<open>Current_Projector\<close>, \<open>Review_Presentation\<close>: the domain of the review
    projection, \<open>review-projection/domain/\<close> (data, verified threads, occurrences and lineages, counts).  Orders of
    several keys are built from the locale \<open>three_way\<close>.
  \<^item> \<open>Projection_Checks\<close>, \<open>Projection_Json\<close>, \<open>Review_Projection\<close>:
    \<open>review-projection/application/build-current-review-projection.ts\<close>, its limits, its checks, its canonical text
    and the use case; \<open>Merge_Gate\<close> is the gate of the policy adapter, decided by the severity gate.
    \<open>Projection_Guarantees\<close> shows what any built projection promises, whatever its ports return.

  \<^item> \<open>Investigation_Data\<close>: the types of \<open>review-investigation/domain/\<close> and of the ports of
    \<open>review-investigation/application/\<close>, and the canonical text of an observation.
  \<^item> \<open>Port_Effects\<close>: asynchronous code as routines over a state, with \<open>wp\<close> rules; every call of a port is an
    event, every port an arbitrary function of the events so far, and the renewals of the lease happen during calls.
    A promise that is returned without being awaited is a routine that is still pending when a \<open>finally\<close> block starts.
  \<^item> \<open>Investigation_Turn\<close>, \<open>Investigation_Slot\<close>: \<open>run-investigation-turn.ts\<close> and \<open>run-investigation-work-slot.ts\<close>.
    A turn is shown to follow an inductive protocol of calls, in which the reading back of an abort may come after the
    disposal of the gateway session; a slot is observed by a monitor of the lease's
    custody and by counts of its calls, for every behaviour of the ports.
  \<^item> \<open>Investigation_Replay\<close>: \<open>replay-investigation-on-revision.ts\<close>, with a loop invariant over the calls made.
  \<^item> \<open>Rollout_Gate\<close>, \<open>Agent_Selection\<close>: \<open>review-orchestration/infrastructure/production-review-investigation-composition.ts\<close>
    and \<open>review-investigation/infrastructure/deterministic-review-agent-selector.ts\<close>: which capabilities are
    enabled, and which agent a turn may use; both selectors interpret the locale \<open>agent_selector\<close>.

  \<^bold>\<open>Parameters.\<close> SHA-256, the clock, the ports of an investigation, \<open>Date.parse\<close>,
  the hosted checkpoint service, the marker writer, the zod package, \<open>localeCompare\<close> and the redaction
  of texts are arguments of the definitions that use them. Where a theorem needs a property of one (a schema
  package that parses what the schema says, a collation that orders strings, a digest that tells the hashed texts
  apart) it is a hypothesis with a witness that meets it.

  \<^bold>\<open>Bounds.\<close>  No definition uses fuel: loops are structural, or recurse on a measure (the remaining items of
  the scheduler, the remaining bits of a route hash).  Strings are lists of code units below 256, integers
  that the source checks with \<open>Number.isSafeInteger\<close> are integers with that bound written out, and other
  finite numbers are exact rationals.

  \<^bold>\<open>Not modelled.\<close> In an investigation the identities of the input that never change are not
  repeated in the events, telemetry is left out, and the polling of a lease's timer is reduced to the rounds of
  renewal it leads to. Runs in which the host ends the process because a promise was rejected before it had a handler
  are left out (an abort that fails while its session is being disposed of is such a promise). The adapters to GitHub, to the control plane and to the provider processes, prompts and
  renderers are input and output around the decisions above; the generated protocol code and the bundles under
  \<open>dist/\<close> repeat or serve what is modelled. The manifest lists them.
\<close>

end
